(* ===== verification/Tr50_Base.thy ===== *)
theory Tr50_Base
  imports Main "HOL-Library.Word" "HOL-Library.Monad_Syntax" "HOL-Library.Signed_Division"
begin

unbundle bit_operations_syntax

section \<open>Bytes, memory blocks, C conversions and error codes\<close>

text \<open>
  What the components share.  A C function that can return an error code is a value of
  \<open>(int + 'a) option\<close>: \<open>Some (Inl c)\<close> is \<open>return c\<close> with \<open>c\<close> the error code, \<open>Some (Inr x)\<close> is
  \<open>return 0\<close> with the outputs \<open>x\<close>, and \<open>None\<close> is an execution that has no defined result: it
  reads or writes outside the object it was given, or it waits for ever on a silent peer.
  A block of memory is the list of its bytes, a pointer into it an integer offset, and every
  access is checked against the block.  A C string is the list of its bytes before the
  terminating zero, so \<open>strlen\<close> is \<open>length\<close>.  \<open>int\<close> and \<open>long long\<close> quantities are integers
  where the source keeps them far from their bounds; \<open>unsigned short\<close> and \<open>char\<close> are words.
\<close>

named_theorems err_code \<open>the values of the error codes\<close>
named_theorems wire_const \<open>the values of the protocol constants\<close>
named_theorems mem_simp \<open>checked memory accesses on blocks written as done @ rest\<close>

type_synonym byte = "8 word"
type_synonym bytes = "byte list"
type_synonym u16 = "16 word"

text \<open>The answer of one call of \<open>_memory_malloc\<close>: for each size NULL or a block whose contents
  are arbitrary.\<close>

type_synonym malloc = "nat \<Rightarrow> bytes option"

definition malloc_spec :: "malloc \<Rightarrow> bool" where
  "malloc_spec m \<longleftrightarrow> (\<forall>n blk. m n = Some blk \<longrightarrow> length blk = n)"

definition malloc_zero :: malloc where
  "malloc_zero n = Some (replicate n 0)"

definition malloc_null :: malloc where
  "malloc_null n = None"

lemma malloc_spec_zero [simp]: "malloc_spec malloc_zero"
  by (simp add: malloc_spec_def malloc_zero_def)

lemma malloc_spec_null [simp]: "malloc_spec malloc_null"
  by (simp add: malloc_spec_def malloc_null_def)

lemma malloc_spec_length: "malloc_spec m \<Longrightarrow> m n = Some blk \<Longrightarrow> length blk = n"
  by (simp add: malloc_spec_def)

text \<open>An \<open>int\<close> passed where a \<open>size_t\<close> is expected.\<close>

definition c_size :: "int \<Rightarrow> nat" where
  "c_size n = nat (n mod 2 ^ 64)"

lemma c_size_nonneg: "0 \<le> n \<Longrightarrow> n < 2 ^ 64 \<Longrightarrow> c_size n = nat n"
  by (simp add: c_size_def)

lemma c_size_neg: "- (2 ^ 32) \<le> n \<Longrightarrow> n < 0 \<Longrightarrow> 2 ^ 63 < c_size n"
proof -
  assume n: "- (2 ^ 32) \<le> n" "n < 0"
  have "n mod 2 ^ 64 = (n + 2 ^ 64) mod 2 ^ 64"
    by simp
  also have "\<dots> = n + 2 ^ 64"
    using n by (intro mod_pos_pos_trivial) simp_all
  finally show ?thesis
    using n by (simp add: c_size_def)
qed

subsection \<open>Checked access to a block\<close>

definition peek :: "bytes \<Rightarrow> int \<Rightarrow> byte option" where
  "peek m i = (if 0 \<le> i \<and> i < int (length m) then Some (m ! nat i) else None)"

definition poke :: "bytes \<Rightarrow> int \<Rightarrow> byte \<Rightarrow> bytes option" where
  "poke m i b = (if 0 \<le> i \<and> i < int (length m) then Some (m[nat i := b]) else None)"

definition mem_read :: "bytes \<Rightarrow> int \<Rightarrow> nat \<Rightarrow> bytes option" where
  "mem_read m i n =
     (if 0 \<le> i \<and> i + int n \<le> int (length m) then Some (take n (drop (nat i) m)) else None)"

definition mem_write :: "bytes \<Rightarrow> int \<Rightarrow> bytes \<Rightarrow> bytes option" where
  "mem_write m i src =
     (if 0 \<le> i \<and> i + int (length src) \<le> int (length m)
      then Some (take (nat i) m @ src @ drop (nat i + length src) m) else None)"

text \<open>\<open>_memory_clone(ptr, size)\<close>: \<open>malloc(size + 1)\<close>, copy \<open>size\<close> bytes, terminate; the result
  is the clone's contents without the terminator, or NULL when the allocation fails.\<close>

definition memory_clone :: "malloc \<Rightarrow> bytes \<Rightarrow> int \<Rightarrow> int \<Rightarrow> bytes option option" where
  "memory_clone malloc m i sz =
     (case malloc (c_size (int (c_size sz) + 1)) of
        None \<Rightarrow> Some None
      | Some _ \<Rightarrow> do { src \<leftarrow> mem_read m i (c_size sz); Some (Some src) })"

lemma poke_cursor [mem_simp]:
  "i = int (length pre) \<Longrightarrow> poke (pre @ b # rest) i c = Some (pre @ c # rest)"
  by (simp add: poke_def list_update_append)

lemma peek_cursor [mem_simp]:
  "i = int (length pre) \<Longrightarrow> peek (pre @ b # rest) i = Some b"
  by (simp add: peek_def)

lemma mem_write_cursor [mem_simp]:
  "i = int (length pre) \<Longrightarrow> length src \<le> length rest \<Longrightarrow>
   mem_write (pre @ rest) i src = Some (pre @ src @ drop (length src) rest)"
  by (simp add: mem_write_def)

lemma mem_read_cursor [mem_simp]:
  "i = int (length pre) \<Longrightarrow> n \<le> length rest \<Longrightarrow> mem_read (pre @ rest) i n = Some (take n rest)"
  by (simp add: mem_read_def)

lemma mem_read_None:
  "int (length m) < i + int n \<Longrightarrow> mem_read m i n = None"
  by (simp add: mem_read_def)

lemma length_poke: "poke m i b = Some m' \<Longrightarrow> length m' = length m"
  by (auto simp: poke_def split: if_splits)

lemma length_mem_write: "mem_write m i src = Some m' \<Longrightarrow> length m' = length m"
  by (auto simp: mem_write_def split: if_splits)

subsection \<open>Byte order\<close>

text \<open>\<open>swap16\<close> of util/platform.h on a little-endian build, and a 16-bit value as it lies in
  memory there; \<open>be16\<close> is the order the protocol wants on the wire.\<close>

definition swap16 :: "u16 \<Rightarrow> u16" where
  "swap16 n = push_bit 8 (n AND 0xFF) OR drop_bit 8 (n AND 0xFF00)"

definition u16_bytes :: "u16 \<Rightarrow> bytes" where
  "u16_bytes n = [ucast n, ucast (drop_bit 8 n)]"

definition bytes_u16 :: "bytes \<Rightarrow> u16" where
  "bytes_u16 bs = ucast (bs ! 0) OR push_bit 8 (ucast (bs ! 1))"

definition be16 :: "u16 \<Rightarrow> bytes" where
  "be16 n = [ucast (drop_bit 8 n), ucast n]"

lemma mask_low: "(0xFF :: u16) = mask 8"
  by (simp add: mask_eq_exp_minus_1)

lemma mask_high: "(0xFF00 :: u16) = push_bit 8 (mask 8)"
  by (simp add: mask_eq_exp_minus_1)

lemmas u16_defs = u16_bytes_def bytes_u16_def swap16_def be16_def mask_low mask_high

lemma u16_bytes_swap16 [simp]: "u16_bytes (swap16 n) = be16 n"
  by (auto simp: u16_defs bit_simps intro!: bit_word_eqI)

lemma swap16_bytes_u16: "swap16 (bytes_u16 [a, b]) = push_bit 8 (ucast a) OR ucast b"
  by (rule bit_word_eqI) (auto simp: u16_defs bit_simps dest: bit_imp_le_length)

lemma swap16_bytes_u16_be16 [simp]: "swap16 (bytes_u16 (be16 n)) = n"
  by (rule bit_word_eqI) (auto simp: u16_defs bit_simps dest: bit_imp_le_length)

lemma length_be16 [simp]: "length (be16 n) = 2"
  by (simp add: be16_def)

lemma length_u16_bytes [simp]: "length (u16_bytes n) = 2"
  by (simp add: u16_bytes_def)

text \<open>String literals of the source as bytes.\<close>

definition cstr :: "string \<Rightarrow> bytes" where
  "cstr s = map of_char s"

lemma length_cstr [simp]: "length (cstr s) = length s"
  by (simp add: cstr_def)

end
