(* ===== verification/Tr50_Error.thy ===== *)
theory Tr50_Error
  imports Tr50_Base
begin

section \<open>The error codes of tr50/error.h\<close>

text \<open>
  Every \<open>#define\<close> of include/tr50/error.h, in its order, under its own name.  The collection
  \<open>err_code\<close> holds the values, so \<open>simp add: err_code\<close> decides whether two codes differ.
\<close>

definition ERR_TR50_FILE_PUT_HTTP :: int where [err_code]: "ERR_TR50_FILE_PUT_HTTP = -20008"
definition ERR_TR50_FILE_WRITE_FAILED :: int where [err_code]: "ERR_TR50_FILE_WRITE_FAILED = -7058"
definition ERR_TR50_FILE_GET_HTTP :: int where [err_code]: "ERR_TR50_FILE_GET_HTTP = -20009"
definition ERR_TR50_PARMS :: int where [err_code]: "ERR_TR50_PARMS = -18001"
definition ERR_TR50_MALLOC :: int where [err_code]: "ERR_TR50_MALLOC = -18002"
definition ERR_TR50_NOT_CONNECTED :: int where [err_code]: "ERR_TR50_NOT_CONNECTED = -18003"
definition ERR_TR50_CMD_UNKNOWN :: int where [err_code]: "ERR_TR50_CMD_UNKNOWN = -18004"
definition ERR_TR50_REQ_TIMEOUT :: int where [err_code]: "ERR_TR50_REQ_TIMEOUT = -18005"
definition ERR_TR50_CODE_MISSING :: int where [err_code]: "ERR_TR50_CODE_MISSING = -18006"
definition ERR_TR50_JSON_INVALID :: int where [err_code]: "ERR_TR50_JSON_INVALID = -18007"
definition ERR_TR50_BADHANDLE :: int where [err_code]: "ERR_TR50_BADHANDLE = -18008"
definition ERR_TR50_TIMEOUT :: int where [err_code]: "ERR_TR50_TIMEOUT = -18009"
definition ERR_TR50_ASYNC_CLIENT_NOT_CONNECTED :: int where [err_code]: "ERR_TR50_ASYNC_CLIENT_NOT_CONNECTED = -18010"
definition ERR_TR50_MQTT_RECV_DECODE_HDR_LEN :: int where [err_code]: "ERR_TR50_MQTT_RECV_DECODE_HDR_LEN = -18011"
definition ERR_TR50_TCP_TIMEOUT :: int where [err_code]: "ERR_TR50_TCP_TIMEOUT = -18012"
definition ERR_TR50_ALREADY_STARTED :: int where [err_code]: "ERR_TR50_ALREADY_STARTED = -18013"
definition ERR_TR50_ALREADY_STOPPED :: int where [err_code]: "ERR_TR50_ALREADY_STOPPED = -18014"
definition ERR_TR50_NOPORT :: int where [err_code]: "ERR_TR50_NOPORT = -18015"
definition ERR_TCP_PROXY_TYPE_UNKNOWN :: int where [err_code]: "ERR_TCP_PROXY_TYPE_UNKNOWN = -18016"
definition ERR_TR50_TCP_SSL_NOTINIT :: int where [err_code]: "ERR_TR50_TCP_SSL_NOTINIT = -18017"
definition ERR_TR50_MODEM_EXEC_FAILED :: int where [err_code]: "ERR_TR50_MODEM_EXEC_FAILED = -18018"
definition ERR_TR50_COMPRESS_DEFLATE :: int where [err_code]: "ERR_TR50_COMPRESS_DEFLATE = -18019"
definition ERR_TR50_COMPRESS_INFLATE :: int where [err_code]: "ERR_TR50_COMPRESS_INFLATE = -18020"
definition ERR_TR50_ASYNC_CLIENT_SAME_THREAD :: int where [err_code]: "ERR_TR50_ASYNC_CLIENT_SAME_THREAD = -18021"
definition ERR_TR50_STOPPING :: int where [err_code]: "ERR_TR50_STOPPING = -18022"
definition ERR_TR50_CONNECTED :: int where [err_code]: "ERR_TR50_CONNECTED = -18023"
definition ERR_TR50_STOPPED :: int where [err_code]: "ERR_TR50_STOPPED = -18024"
definition ERR_TR50_LOCAL_FILE_NOTFOUND :: int where [err_code]: "ERR_TR50_LOCAL_FILE_NOTFOUND = -18025"
definition ERR_TR50_HTTP_PROXY_FAILED :: int where [err_code]: "ERR_TR50_HTTP_PROXY_FAILED = -18026"
definition ERR_TR50_COMPRESS_NOT_SUPPORTED :: int where [err_code]: "ERR_TR50_COMPRESS_NOT_SUPPORTED = -18027"
definition ERR_TR50_REPLY_INVALID :: int where [err_code]: "ERR_TR50_REPLY_INVALID = -18028"
definition ERR_TR50_CMD_ID_NOT_FOUND :: int where [err_code]: "ERR_TR50_CMD_ID_NOT_FOUND = -18029"
definition ERR_TR50_METHOD_UNKNOWN :: int where [err_code]: "ERR_TR50_METHOD_UNKNOWN = -18030"
definition ERR_TR50_MAILBOX_SUSPENDED :: int where [err_code]: "ERR_TR50_MAILBOX_SUSPENDED = -18031"
definition ERR_TR50_MAILBOX_CHECK_IN_PROGRESS :: int where [err_code]: "ERR_TR50_MAILBOX_CHECK_IN_PROGRESS = -18032"
definition ERR_TR50_AT_STORAGE_FULL :: int where [err_code]: "ERR_TR50_AT_STORAGE_FULL = -18101"
definition ERR_TR50_AT_SEND_MODE_UNKNOWN :: int where [err_code]: "ERR_TR50_AT_SEND_MODE_UNKNOWN = -18102"
definition ERR_TR50_AT_STORAGE_NOTFOUND :: int where [err_code]: "ERR_TR50_AT_STORAGE_NOTFOUND = -18103"
definition ERR_TR50_AT_STORAGE_MODE_MISMATCH :: int where [err_code]: "ERR_TR50_AT_STORAGE_MODE_MISMATCH = -18104"
definition ERR_TR50_STORAGE_NOPARMS :: int where [err_code]: "ERR_TR50_STORAGE_NOPARMS = -18105"
definition ERR_TR50_AT_ATTACH_FAIL :: int where [err_code]: "ERR_TR50_AT_ATTACH_FAIL = -18106"
definition ERR_TR50_AT_DETACH_FAIL :: int where [err_code]: "ERR_TR50_AT_DETACH_FAIL = -18106"
definition ERR_TR50_AT_EXEC_FAIL :: int where [err_code]: "ERR_TR50_AT_EXEC_FAIL = -18107"
definition ERR_TR50_AT_UNEVEN_PARAMS :: int where [err_code]: "ERR_TR50_AT_UNEVEN_PARAMS = -18108"
definition ERR_TR50_AT_EXEC_IN_PROGRESS :: int where [err_code]: "ERR_TR50_AT_EXEC_IN_PROGRESS = -18109"
definition ERR_TR50_OS :: int where [err_code]: "ERR_TR50_OS = -18200"
definition ERR_TR50_SOCK_SOCKET_FAILED :: int where [err_code]: "ERR_TR50_SOCK_SOCKET_FAILED = -18300"
definition ERR_TR50_SETSOCKOPT_FAILED :: int where [err_code]: "ERR_TR50_SETSOCKOPT_FAILED = -18301"
definition ERR_TR50_SOCK_FNCTL_FAILED :: int where [err_code]: "ERR_TR50_SOCK_FNCTL_FAILED = -18302"
definition ERR_TR50_SOCK_IOCTL_FAILED :: int where [err_code]: "ERR_TR50_SOCK_IOCTL_FAILED = -18303"
definition ERR_TR50_SOCK_CONNECT_FAILED :: int where [err_code]: "ERR_TR50_SOCK_CONNECT_FAILED = -18304"
definition ERR_TR50_SOCK_SELECT_FAILED :: int where [err_code]: "ERR_TR50_SOCK_SELECT_FAILED = -18305"
definition ERR_TR50_SOCK_OTHER :: int where [err_code]: "ERR_TR50_SOCK_OTHER = -18306"
definition ERR_TR50_PROXY_CONN_FAILED :: int where [err_code]: "ERR_TR50_PROXY_CONN_FAILED = -18307"
definition ERR_TR50_PROXY_PROTO_BAD :: int where [err_code]: "ERR_TR50_PROXY_PROTO_BAD = -18308"
definition ERR_TR50_SSL_BADCTX :: int where [err_code]: "ERR_TR50_SSL_BADCTX = -18309"
definition ERR_TR50_SSL_CONNECT :: int where [err_code]: "ERR_TR50_SSL_CONNECT = -18310"
definition ERR_TR50_SOCK_PROXY_AUTH_REJECTED :: int where [err_code]: "ERR_TR50_SOCK_PROXY_AUTH_REJECTED = -18311"
definition ERR_TR50_SOCK_PROXY_OTHER :: int where [err_code]: "ERR_TR50_SOCK_PROXY_OTHER = -18312"
definition ERR_TR50_SOCK_PROXY_AUTH_UNSUP :: int where [err_code]: "ERR_TR50_SOCK_PROXY_AUTH_UNSUP = -18313"
definition ERR_TR50_SOCK_TIMEOUT :: int where [err_code]: "ERR_TR50_SOCK_TIMEOUT = ERR_TR50_TCP_TIMEOUT"
definition ERR_TR50_SOCK_HOSTNOTFOUND :: int where [err_code]: "ERR_TR50_SOCK_HOSTNOTFOUND = -18315"
definition ERR_TR50_SSL_NOTINIT :: int where [err_code]: "ERR_TR50_SSL_NOTINIT = ERR_TR50_TCP_SSL_NOTINIT"
definition ERR_TR50_SOCK_FUNC_NOT_SUPPORTED :: int where [err_code]: "ERR_TR50_SOCK_FUNC_NOT_SUPPORTED = -18317"
definition ERR_TR50_SOCK_IS_ZERO :: int where [err_code]: "ERR_TR50_SOCK_IS_ZERO = -18318"
definition ERR_TR50_SOCK_GETSOCKOPT_FAILED :: int where [err_code]: "ERR_TR50_SOCK_GETSOCKOPT_FAILED = -18319"
definition ERR_TR50_SOCK_SETSOCKOPT_FAILED :: int where [err_code]: "ERR_TR50_SOCK_SETSOCKOPT_FAILED = -18320"
definition ERR_TR50_SOCK_SEND_FAILED :: int where [err_code]: "ERR_TR50_SOCK_SEND_FAILED = -18321"
definition ERR_TR50_SOCK_BAD_TIMEOUT :: int where [err_code]: "ERR_TR50_SOCK_BAD_TIMEOUT = ERR_TR50_TCP_TIMEOUT"
definition ERR_TR50_SOCK_RECV_FAILED :: int where [err_code]: "ERR_TR50_SOCK_RECV_FAILED = -18323"
definition ERR_TR50_SOCK_SHUTDOWN :: int where [err_code]: "ERR_TR50_SOCK_SHUTDOWN = -18324"
definition ERR_TR50_SSL_GENERIC :: int where [err_code]: "ERR_TR50_SSL_GENERIC = -18325"
definition ERR_TR50_SSL_CTX :: int where [err_code]: "ERR_TR50_SSL_CTX = -18326"
definition ERR_MQTT_MSG_CONNACK_TYPE :: int where [err_code]: "ERR_MQTT_MSG_CONNACK_TYPE = -18201"
definition ERR_MQTT_MSG_CONNACK_LENGTH :: int where [err_code]: "ERR_MQTT_MSG_CONNACK_LENGTH = -18202"
definition ERR_MQTT_MSG_CONNACK_UNKNOWN_RETURN :: int where [err_code]: "ERR_MQTT_MSG_CONNACK_UNKNOWN_RETURN = -18203"
definition ERR_MQTT_MSG_CONNACK_VERSION :: int where [err_code]: "ERR_MQTT_MSG_CONNACK_VERSION = -18204"
definition ERR_MQTT_MSG_CONNACK_ID :: int where [err_code]: "ERR_MQTT_MSG_CONNACK_ID = -18205"
definition ERR_MQTT_MSG_CONNACK_BROKER :: int where [err_code]: "ERR_MQTT_MSG_CONNACK_BROKER = -18206"
definition ERR_MQTT_MSG_CONNACK_LOGIN :: int where [err_code]: "ERR_MQTT_MSG_CONNACK_LOGIN = -18207"
definition ERR_MQTT_MSG_CONNACK_NOT_AUTHORIZED :: int where [err_code]: "ERR_MQTT_MSG_CONNACK_NOT_AUTHORIZED = -18208"
definition ERR_MQTT_MSG_PUBACK_LENGTH :: int where [err_code]: "ERR_MQTT_MSG_PUBACK_LENGTH = -18211"
definition ERR_MQTT_MSG_PUBACK_TYPE :: int where [err_code]: "ERR_MQTT_MSG_PUBACK_TYPE = -18212"
definition ERR_MQTT_MSG_PUBLISH_LENGTH :: int where [err_code]: "ERR_MQTT_MSG_PUBLISH_LENGTH = -18213"
definition ERR_MQTT_MSG_PUBLISH_TYPE :: int where [err_code]: "ERR_MQTT_MSG_PUBLISH_TYPE = -18214"
definition ERR_MQTT_MSG_PUBLISH_DECODE_HDR_LEN :: int where [err_code]: "ERR_MQTT_MSG_PUBLISH_DECODE_HDR_LEN = -18215"
definition ERR_MQTT_MSG_SUBACK_LENGTH :: int where [err_code]: "ERR_MQTT_MSG_SUBACK_LENGTH = -18216"
definition ERR_MQTT_MSG_SUBACK_TYPE :: int where [err_code]: "ERR_MQTT_MSG_SUBACK_TYPE = -18217"
definition ERR_MQTT_MSG_SUBACK_QOS_FAILURE :: int where [err_code]: "ERR_MQTT_MSG_SUBACK_QOS_FAILURE = -18218"
definition ERR_MQTT_MSG_UNSUBACK_LENGTH :: int where [err_code]: "ERR_MQTT_MSG_UNSUBACK_LENGTH = -18219"
definition ERR_MQTT_MSG_UNSUBACK_TYPE :: int where [err_code]: "ERR_MQTT_MSG_UNSUBACK_TYPE = -18220"
definition ERR_MQTT_QOS_FAILURE :: int where [err_code]: "ERR_MQTT_QOS_FAILURE = -18221"
definition ERR_MQTT_QOS_STOPPING :: int where [err_code]: "ERR_MQTT_QOS_STOPPING = -18222"
definition ERR_MQTT_QOS_FULL :: int where [err_code]: "ERR_MQTT_QOS_FULL = -18223"
definition ERR_MQTT_QOS_NOTFOUND :: int where [err_code]: "ERR_MQTT_QOS_NOTFOUND = -18224"
definition ERR_MQTT_QOS_EXPIRED :: int where [err_code]: "ERR_MQTT_QOS_EXPIRED = -18225"

text \<open>The codes the receive path compares are different numbers.\<close>

lemma timeout_codes_differ [simp]: "ERR_TR50_TIMEOUT \<noteq> ERR_TR50_TCP_TIMEOUT"
  by (simp add: err_code)

end
