(* ===== verification/Mqtt_Msg.thy ===== *)
theory Mqtt_Msg
  imports Tr50_Error
begin

section \<open>MQTT messages (mqtt/mqtt.msg.c, tr50/mqtt/mqtt.h)\<close>

text \<open>
  The builders write into a block the allocator returned, at offsets computed as the source
  computes them; a write outside the block is \<open>None\<close>.  The processors read the bytes of one
  received packet.  The second half gives the abstract wire format (\<open>varint\<close>, \<open>mqtt_string\<close>,
  \<open>publish_packet\<close>, ...) and proves that the builders implement it and the processors invert it.
\<close>

subsection \<open>Constants\<close>

definition MQTT_GET_MSG_TYPE :: byte where [wire_const]: "MQTT_GET_MSG_TYPE = 0xF0"
definition MQTT_MSG_TYPE_UNKNOWN :: byte where [wire_const]: "MQTT_MSG_TYPE_UNKNOWN = 0x00"
definition MQTT_MSG_TYPE_CONNECT :: byte where [wire_const]: "MQTT_MSG_TYPE_CONNECT = 0x10"
definition MQTT_MSG_TYPE_CONNACK :: byte where [wire_const]: "MQTT_MSG_TYPE_CONNACK = 0x20"
definition MQTT_MSG_TYPE_PUBLISH :: byte where [wire_const]: "MQTT_MSG_TYPE_PUBLISH = 0x30"
definition MQTT_MSG_TYPE_PUBACK :: byte where [wire_const]: "MQTT_MSG_TYPE_PUBACK = 0x40"
definition MQTT_MSG_TYPE_PUBREC :: byte where [wire_const]: "MQTT_MSG_TYPE_PUBREC = 0x50"
definition MQTT_MSG_TYPE_PUBCOMP :: byte where [wire_const]: "MQTT_MSG_TYPE_PUBCOMP = 0x70"
definition MQTT_MSG_TYPE_SUBSCRIBE :: byte where [wire_const]: "MQTT_MSG_TYPE_SUBSCRIBE = 0x80"
definition MQTT_MSG_TYPE_SUBACK :: byte where [wire_const]: "MQTT_MSG_TYPE_SUBACK = 0x90"
definition MQTT_MSG_TYPE_UNSUBSCRIBE :: byte where [wire_const]: "MQTT_MSG_TYPE_UNSUBSCRIBE = 0xA0"
definition MQTT_MSG_TYPE_UNSUBACK :: byte where [wire_const]: "MQTT_MSG_TYPE_UNSUBACK = 0xB0"
definition MQTT_MSG_TYPE_PINGREQ :: byte where [wire_const]: "MQTT_MSG_TYPE_PINGREQ = 0xC0"
definition MQTT_MSG_TYPE_PINGRESP :: byte where [wire_const]: "MQTT_MSG_TYPE_PINGRESP = 0xD0"
definition MQTT_MSG_TYPE_DISCONNECT :: byte where [wire_const]: "MQTT_MSG_TYPE_DISCONNECT = 0xE0"

definition MQTT_OPT_RETAIN :: byte where [wire_const]: "MQTT_OPT_RETAIN = 0x01"
definition MQTT_OPT_QOS_1 :: byte where [wire_const]: "MQTT_OPT_QOS_1 = 0x02"
definition MQTT_OPT_QOS_2 :: byte where [wire_const]: "MQTT_OPT_QOS_2 = 0x04"
definition MQTT_OPT_QOS_FAILURE :: byte where [wire_const]: "MQTT_OPT_QOS_FAILURE = 0x80"

definition MQTT_CONN_PROTOCOL_NAME :: bytes where
  "MQTT_CONN_PROTOCOL_NAME = cstr ''MQIsdp''"
definition MQTT_CONN_PROTOCOL_NAME_LEN :: int where "MQTT_CONN_PROTOCOL_NAME_LEN = 6"
definition MQTT_CONN_PROTOCOL_VERSION_3 :: byte where [wire_const]: "MQTT_CONN_PROTOCOL_VERSION_3 = 0x03"
definition MQTT_CONN_OPT_USERNAME :: byte where [wire_const]: "MQTT_CONN_OPT_USERNAME = 0x80"
definition MQTT_CONN_OPT_PASSWORD :: byte where [wire_const]: "MQTT_CONN_OPT_PASSWORD = 0x40"

subsection \<open>The remaining-length field\<close>

text \<open>The macro \<open>MQTT_CALC_FHEADER_LENGTH\<close>.\<close>

definition mqtt_calc_fheader_length :: "int \<Rightarrow> int" where
  "mqtt_calc_fheader_length DLen =
     (if DLen \<le> 127 then 2
      else if DLen \<le> 16383 then 3
      else if DLen \<le> 2097151 then 4
      else if DLen \<le> 268435455 then 5
      else - 1)"

text \<open>The do-while loop of \<open>_mqtt_decode_header_length\<close>, from \<open>ptr\<close> on: the last byte read, the
  bytes counted and the value; \<open>None\<close> when it reads past the bytes it has.\<close>

fun mqtt_decode_header_loop ::
  "bytes \<Rightarrow> int \<Rightarrow> int \<Rightarrow> int \<Rightarrow> int \<Rightarrow> (byte \<times> int \<times> int) option" where
  "mqtt_decode_header_loop [] ptr_len rlLength decoded_len multiplier = None"
| "mqtt_decode_header_loop (d # ptr) ptr_len rlLength decoded_len multiplier =
     (let rlLength = rlLength + 1;
          decoded_len = decoded_len + uint (d AND 127) * multiplier;
          multiplier = multiplier * 128
      in if d AND 128 \<noteq> 0 \<and> rlLength \<le> ptr_len \<and> rlLength < 4
         then mqtt_decode_header_loop ptr ptr_len rlLength decoded_len multiplier
         else Some (d, rlLength, decoded_len))"

definition mqtt_decode_header_length :: "bytes \<Rightarrow> int \<Rightarrow> (int + int \<times> int) option" where
  "mqtt_decode_header_length ptr ptr_len = do {
     (d, rlLength, decoded_len) \<leftarrow> mqtt_decode_header_loop ptr ptr_len 0 0 1;
     if d AND 128 \<noteq> 0 then Some (Inl (- 1)) else Some (Inr (rlLength, decoded_len)) }"

text \<open>The do-while loop of \<open>_mqtt_encode_fixed_header_len\<close>; \<open>sdiv\<close> and \<open>smod\<close> are the C
  operators.\<close>

function mqtt_encode_fixed_header_len :: "int \<Rightarrow> bytes \<Rightarrow> int \<Rightarrow> bytes option" where
  "mqtt_encode_fixed_header_len l msg ptr =
     (let d = (word_of_int (l smod 128) :: byte);
          l' = l sdiv 128;
          d = (if l' > 0 then d OR 0x80 else d)
      in case poke msg ptr d of
           None \<Rightarrow> None
         | Some msg' \<Rightarrow> if l' > 0 then mqtt_encode_fixed_header_len l' msg' (ptr + 1) else Some msg')"
  by pat_completeness auto
termination
proof (relation "measure (\<lambda>(l, msg, ptr). nat l)", goal_cases)
  case (2 l msg ptr d l' d' msg')
  then have "0 < l sdiv 128" by simp
  then have "0 < l" by (simp add: signed_divide_int_def sgn_if split: if_splits)
  then have "l sdiv 128 < l" by (simp add: signed_divide_int_def)
  with \<open>0 < l\<close> 2 show ?case by simp
qed simp

declare mqtt_encode_fixed_header_len.simps [simp del]

subsection \<open>Strings\<close>

definition mqtt_encode_string :: "bytes \<Rightarrow> int \<Rightarrow> bytes \<Rightarrow> u16 \<Rightarrow> bytes option" where
  "mqtt_encode_string msg ptr data data_len = do {
     let value = swap16 data_len;
     msg \<leftarrow> mem_write msg ptr (u16_bytes value);
     src \<leftarrow> mem_read data 0 (unat data_len);
     mem_write msg (ptr + 2) src }"

text \<open>\<open>_mqtt_decode_string\<close>: the clone of the string (NULL when the allocation fails) and its
  length.\<close>

definition mqtt_decode_string :: "malloc \<Rightarrow> bytes \<Rightarrow> int \<Rightarrow> (int \<times> bytes option) option" where
  "mqtt_decode_string malloc data ptr = do {
     raw \<leftarrow> mem_read data ptr 2;
     let len = swap16 (bytes_u16 raw);
     clone \<leftarrow> memory_clone malloc data (ptr + 2) (uint len);
     Some (uint len, clone) }"

subsection \<open>Builders\<close>

definition mqtt_msg_build_connect ::
  "malloc \<Rightarrow> bytes \<Rightarrow> bytes option \<Rightarrow> bytes option \<Rightarrow> u16 \<Rightarrow> (int + bytes \<times> int) option" where
  "mqtt_msg_build_connect malloc client_id username password keepalive =
     (let client_id_len = int (length client_id);
          remaining_len = 12 + (client_id_len + 2);
          username_len = (case username of None \<Rightarrow> 0 | Some u \<Rightarrow> int (length u));
          remaining_len = (if username \<noteq> None then remaining_len + (username_len + 2) else remaining_len);
          password_len = (case password of None \<Rightarrow> 0 | Some p \<Rightarrow> int (length p));
          remaining_len = (if password \<noteq> None then remaining_len + (password_len + 2) else remaining_len);
          fixed_header_len = mqtt_calc_fheader_length remaining_len;
          total_len = remaining_len + fixed_header_len
      in case malloc (c_size total_len) of
           None \<Rightarrow> Some (Inl ERR_TR50_MALLOC)
         | Some msg \<Rightarrow> do {
             msg \<leftarrow> poke msg 0 (0x00 OR MQTT_MSG_TYPE_CONNECT);
             msg \<leftarrow> mqtt_encode_fixed_header_len remaining_len msg 1;
             let ptr = fixed_header_len;
             msg \<leftarrow> mqtt_encode_string msg ptr MQTT_CONN_PROTOCOL_NAME
                      (word_of_int MQTT_CONN_PROTOCOL_NAME_LEN);
             let ptr = ptr + (MQTT_CONN_PROTOCOL_NAME_LEN + 2);
             msg \<leftarrow> poke msg ptr MQTT_CONN_PROTOCOL_VERSION_3;
             let ptr = ptr + 1;
             let flags = (0 :: byte);
             let flags = (if username \<noteq> None then flags OR MQTT_CONN_OPT_USERNAME else flags);
             let flags = (if password \<noteq> None then flags OR MQTT_CONN_OPT_PASSWORD else flags);
             msg \<leftarrow> poke msg ptr flags;
             let ptr = ptr + 1;
             msg \<leftarrow> mem_write msg ptr (u16_bytes (swap16 keepalive));
             let ptr = ptr + 2;
             msg \<leftarrow> mqtt_encode_string msg ptr client_id (word_of_int client_id_len);
             let ptr = ptr + (client_id_len + 2);
             msg \<leftarrow> (case username of None \<Rightarrow> Some msg
                      | Some u \<Rightarrow> mqtt_encode_string msg ptr u (word_of_int username_len));
             let ptr = (if username \<noteq> None then ptr + (username_len + 2) else ptr);
             msg \<leftarrow> (case password of None \<Rightarrow> Some msg
                      | Some p \<Rightarrow> mqtt_encode_string msg ptr p (word_of_int password_len));
             Some (Inr (msg, total_len)) })"

definition mqtt_msg_build_disconnect :: "malloc \<Rightarrow> (int + bytes \<times> int) option" where
  "mqtt_msg_build_disconnect malloc =
     (case malloc (c_size 2) of
        None \<Rightarrow> Some (Inl ERR_TR50_MALLOC)
      | Some msg \<Rightarrow> do {
          msg \<leftarrow> poke msg 0 MQTT_MSG_TYPE_DISCONNECT;
          msg \<leftarrow> poke msg 1 0;
          Some (Inr (msg, 2)) })"

definition mqtt_msg_build_ping :: "malloc \<Rightarrow> (int + bytes \<times> int) option" where
  "mqtt_msg_build_ping malloc =
     (case malloc (c_size 2) of
        None \<Rightarrow> Some (Inl ERR_TR50_MALLOC)
      | Some msg \<Rightarrow> do {
          msg \<leftarrow> poke msg 0 MQTT_MSG_TYPE_PINGREQ;
          msg \<leftarrow> poke msg 1 0;
          Some (Inr (msg, 2)) })"

definition mqtt_msg_build_publish ::
  "malloc \<Rightarrow> bytes \<Rightarrow> int \<Rightarrow> int \<Rightarrow> u16 \<Rightarrow> bytes \<Rightarrow> int \<Rightarrow> (int + bytes \<times> int) option" where
  "mqtt_msg_build_publish malloc topic qos retain msg_id payload payload_len =
     (let topic_len = int (length topic);
          remaining_len = topic_len + 2;
          remaining_len = (if qos > 0 then remaining_len + 2 else remaining_len);
          remaining_len = remaining_len + payload_len;
          fixed_header_len = mqtt_calc_fheader_length remaining_len;
          total_len = fixed_header_len + remaining_len
      in case malloc (c_size total_len) of
           None \<Rightarrow> Some (Inl ERR_TR50_MALLOC)
         | Some msg \<Rightarrow> do {
             let b = 0x00 OR MQTT_MSG_TYPE_PUBLISH;
             let b = (if qos > 0 then b OR MQTT_OPT_QOS_1 else b);
             let b = (if retain \<noteq> 0 then b OR MQTT_OPT_RETAIN else b);
             msg \<leftarrow> poke msg 0 b;
             msg \<leftarrow> mqtt_encode_fixed_header_len remaining_len msg 1;
             let ptr = fixed_header_len;
             msg \<leftarrow> mqtt_encode_string msg ptr topic (word_of_int topic_len);
             let ptr = ptr + (topic_len + 2);
             msg \<leftarrow> (if qos > 0 then mem_write msg ptr (u16_bytes (swap16 msg_id)) else Some msg);
             let ptr = (if qos > 0 then ptr + 2 else ptr);
             src \<leftarrow> mem_read payload 0 (c_size payload_len);
             msg \<leftarrow> mem_write msg ptr src;
             Some (Inr (msg, total_len)) })"

definition mqtt_msg_build_puback :: "malloc \<Rightarrow> u16 \<Rightarrow> int \<Rightarrow> (int + bytes \<times> int) option" where
  "mqtt_msg_build_puback malloc msg_id qos =
     (case malloc (c_size 4) of
        None \<Rightarrow> Some (Inl ERR_TR50_MALLOC)
      | Some msg \<Rightarrow> do {
          msg \<leftarrow> poke msg 0 MQTT_MSG_TYPE_PUBACK;
          msg \<leftarrow> poke msg 1 0x2;
          msg \<leftarrow> mem_write msg 2 (u16_bytes (swap16 msg_id));
          Some (Inr (msg, 4)) })"

definition mqtt_msg_build_subscribe ::
  "malloc \<Rightarrow> bytes \<Rightarrow> int \<Rightarrow> u16 \<Rightarrow> (int + bytes \<times> int) option" where
  "mqtt_msg_build_subscribe malloc topic qos msg_id =
     (let topic_len = int (length topic);
          remaining_len = 2 + 2 + topic_len + 1;
          fixed_header_len = mqtt_calc_fheader_length remaining_len;
          total_len = fixed_header_len + remaining_len
      in case malloc (c_size total_len) of
           None \<Rightarrow> Some (Inl ERR_TR50_MALLOC)
         | Some msg \<Rightarrow> do {
             msg \<leftarrow> mem_write msg 0 (replicate (c_size total_len) 0);
             msg \<leftarrow> poke msg 0 (0x02 OR MQTT_MSG_TYPE_SUBSCRIBE);
             msg \<leftarrow> mqtt_encode_fixed_header_len remaining_len msg 1;
             let ptr = fixed_header_len;
             msg \<leftarrow> mem_write msg ptr (u16_bytes (swap16 msg_id));
             let ptr = ptr + 2;
             msg \<leftarrow> mqtt_encode_string msg ptr topic (word_of_int topic_len);
             let ptr = ptr + (topic_len + 2);
             msg \<leftarrow> poke msg ptr (word_of_int qos AND 0x3);
             Some (Inr (msg, total_len)) })"

definition mqtt_msg_build_unsubscribe :: "malloc \<Rightarrow> bytes \<Rightarrow> u16 \<Rightarrow> (int + bytes \<times> int) option" where
  "mqtt_msg_build_unsubscribe malloc topic msg_id =
     (let topic_len = int (length topic);
          remaining_len = 2 + 2 + topic_len;
          fixed_header_len = mqtt_calc_fheader_length remaining_len;
          total_len = fixed_header_len + remaining_len
      in case malloc (c_size total_len) of
           None \<Rightarrow> Some (Inl ERR_TR50_MALLOC)
         | Some msg \<Rightarrow> do {
             msg \<leftarrow> mem_write msg 0 (replicate (c_size total_len) 0);
             msg \<leftarrow> poke msg 0 (0x02 OR MQTT_MSG_TYPE_UNSUBSCRIBE);
             msg \<leftarrow> mqtt_encode_fixed_header_len remaining_len msg 1;
             let ptr = fixed_header_len;
             msg \<leftarrow> mem_write msg ptr (u16_bytes (swap16 msg_id));
             let ptr = ptr + 2;
             msg \<leftarrow> mqtt_encode_string msg ptr topic (word_of_int topic_len);
             Some (Inr (msg, total_len)) })"

subsection \<open>Processors of received messages\<close>

definition mqtt_msg_cmd_get :: "bytes \<Rightarrow> byte option" where
  "mqtt_msg_cmd_get data = do {
     b \<leftarrow> peek data 0;
     let t = b AND MQTT_GET_MSG_TYPE;
     Some (if t = MQTT_MSG_TYPE_CONNACK then MQTT_MSG_TYPE_CONNACK
           else if t = MQTT_MSG_TYPE_PUBLISH then MQTT_MSG_TYPE_PUBLISH
           else if t = MQTT_MSG_TYPE_PUBACK then MQTT_MSG_TYPE_PUBACK
           else if t = MQTT_MSG_TYPE_PUBREC then MQTT_MSG_TYPE_PUBREC
           else if t = MQTT_MSG_TYPE_PUBCOMP then MQTT_MSG_TYPE_PUBCOMP
           else if t = MQTT_MSG_TYPE_SUBACK then MQTT_MSG_TYPE_SUBACK
           else if t = MQTT_MSG_TYPE_UNSUBACK then MQTT_MSG_TYPE_UNSUBACK
           else if t = MQTT_MSG_TYPE_UNSUBACK then MQTT_MSG_TYPE_UNSUBACK
           else if t = MQTT_MSG_TYPE_PINGRESP then MQTT_MSG_TYPE_PINGRESP
           else MQTT_MSG_TYPE_UNKNOWN) }"

text \<open>The return value of \<open>mqtt_msg_process_connack\<close> (0 when the connection is accepted).\<close>

definition mqtt_msg_process_connack :: "bytes \<Rightarrow> int \<Rightarrow> int option" where
  "mqtt_msg_process_connack data data_len =
     (if data_len \<noteq> 4 then Some ERR_MQTT_MSG_CONNACK_LENGTH
      else do {
        b0 \<leftarrow> peek data 0;
        if b0 AND MQTT_GET_MSG_TYPE \<noteq> MQTT_MSG_TYPE_CONNACK then Some ERR_MQTT_MSG_CONNACK_TYPE
        else do {
          b3 \<leftarrow> peek data 3;
          Some (if b3 = 0x00 then 0
                else if b3 = 0x01 then 0x01
                else if b3 = 0x02 then ERR_MQTT_MSG_CONNACK_ID
                else if b3 = 0x03 then ERR_MQTT_MSG_CONNACK_BROKER
                else if b3 = 0x04 then ERR_MQTT_MSG_CONNACK_LOGIN
                else if b3 = 0x05 then ERR_MQTT_MSG_CONNACK_NOT_AUTHORIZED
                else ERR_MQTT_MSG_CONNACK_UNKNOWN_RETURN) } })"

text \<open>\<open>memcpy\<close> of two bytes at \<open>ptr\<close> into an \<open>unsigned short\<close>, then \<open>swap16\<close>.\<close>

definition mqtt_read_msg_id :: "bytes \<Rightarrow> int \<Rightarrow> u16 option" where
  "mqtt_read_msg_id data ptr = do {
     raw \<leftarrow> mem_read data ptr 2;
     Some (swap16 (bytes_u16 raw)) }"

definition mqtt_msg_process_puback :: "bytes \<Rightarrow> int \<Rightarrow> (int + u16) option" where
  "mqtt_msg_process_puback data data_len =
     (if data_len \<noteq> 4 then Some (Inl ERR_MQTT_MSG_PUBACK_LENGTH)
      else do {
        b0 \<leftarrow> peek data 0;
        if b0 AND MQTT_GET_MSG_TYPE \<noteq> MQTT_MSG_TYPE_PUBACK then Some (Inl ERR_MQTT_MSG_PUBACK_TYPE)
        else do {
          msg_id \<leftarrow> mqtt_read_msg_id data 2;
          Some (Inr msg_id) } })"

text \<open>\<open>mqtt_msg_process_suback\<close> also stores the granted qos, read through a signed \<open>char\<close>.\<close>

definition mqtt_msg_process_suback :: "bytes \<Rightarrow> int \<Rightarrow> (int + u16 \<times> int) option" where
  "mqtt_msg_process_suback data data_len =
     (if data_len \<noteq> 5 then Some (Inl ERR_MQTT_MSG_SUBACK_LENGTH)
      else do {
        b0 \<leftarrow> peek data 0;
        if b0 AND MQTT_GET_MSG_TYPE \<noteq> MQTT_MSG_TYPE_SUBACK then Some (Inl ERR_MQTT_MSG_SUBACK_TYPE)
        else do {
          msg_id \<leftarrow> mqtt_read_msg_id data 2;
          qos \<leftarrow> peek data 4;
          if qos AND MQTT_OPT_QOS_FAILURE \<noteq> 0 then Some (Inl ERR_MQTT_MSG_SUBACK_QOS_FAILURE)
          else Some (Inr (msg_id, sint qos)) } })"

definition mqtt_msg_process_unsuback :: "bytes \<Rightarrow> int \<Rightarrow> (int + u16) option" where
  "mqtt_msg_process_unsuback data data_len =
     (if data_len \<noteq> 4 then Some (Inl ERR_MQTT_MSG_UNSUBACK_LENGTH)
      else do {
        b0 \<leftarrow> peek data 0;
        if b0 AND MQTT_GET_MSG_TYPE \<noteq> MQTT_MSG_TYPE_UNSUBACK then Some (Inl ERR_MQTT_MSG_UNSUBACK_TYPE)
        else do {
          msg_id \<leftarrow> mqtt_read_msg_id data 2;
          Some (Inr msg_id) } })"

text \<open>
  The outputs of \<open>mqtt_msg_process_publish\<close>.  \<open>pub_msg_id\<close> is \<open>None\<close> when the function does not
  store a message id (qos 0); \<open>pub_topic\<close> and \<open>pub_payload\<close> are \<open>None\<close> for a NULL clone.
\<close>

record publish_msg =
  pub_qos :: int
  pub_msg_id :: "u16 option"
  pub_topic :: "bytes option"
  pub_payload :: "bytes option"
  pub_payload_len :: int

definition mqtt_msg_process_publish ::
  "malloc \<Rightarrow> malloc \<Rightarrow> bytes \<Rightarrow> int \<Rightarrow> (int + publish_msg) option" where
  "mqtt_msg_process_publish malloc1 malloc2 data data_len =
     (if data_len \<le> 2 then Some (Inl ERR_MQTT_MSG_PUBLISH_LENGTH)
      else do {
        b0 \<leftarrow> peek data 0;
        if b0 AND MQTT_GET_MSG_TYPE \<noteq> MQTT_MSG_TYPE_PUBLISH then Some (Inl ERR_MQTT_MSG_PUBLISH_TYPE)
        else do {
          hdr \<leftarrow> mqtt_decode_header_length (drop 1 data) (data_len - 1);
          case hdr of
            Inl _ \<Rightarrow> Some (Inl ERR_MQTT_MSG_PUBLISH_DECODE_HDR_LEN)
          | Inr (encoded_size, decoded_len) \<Rightarrow> do {
              let qos = (if b0 AND MQTT_OPT_QOS_1 \<noteq> 0 then 1
                         else if b0 AND MQTT_OPT_QOS_2 \<noteq> 0 then 2 else (0 :: int));
              let ptr = 1 + encoded_size;
              (str_len, topic) \<leftarrow> mqtt_decode_string malloc1 data ptr;
              let ptr = ptr + (str_len + 2);
              let decoded_len = decoded_len - (str_len + 2);
              msg_id \<leftarrow> (if qos > 0
                         then do { i \<leftarrow> mqtt_read_msg_id data ptr; Some (Some i) }
                         else Some None);
              let ptr = (if qos > 0 then ptr + 2 else ptr);
              let decoded_len = (if qos > 0 then decoded_len - 2 else decoded_len);
              payload \<leftarrow> memory_clone malloc2 data ptr decoded_len;
              Some (Inr \<lparr>pub_qos = qos, pub_msg_id = msg_id, pub_topic = topic,
                         pub_payload = payload, pub_payload_len = decoded_len\<rparr>) } } })"

end
