(* ===== verification/Mqtt_Wire.thy ===== *)
theory Mqtt_Wire
  imports Mqtt_Msg
begin

section \<open>The wire format, and that the builders implement it\<close>

text \<open>
  \<open>varint\<close>, \<open>mqtt_string\<close> and the \<open>..._packet\<close> functions say what the MQTT v3 format is, as
  concatenations of fields.  The refinement lemmas state that a builder returns exactly that
  packet and its length whenever the message fits the format, for every allocator; the round
  trips state that the processors recover the fields.
\<close>

fun varint :: "nat \<Rightarrow> bytes" where
  "varint n = (if n < 128 then [of_nat n] else (of_nat (n mod 128) OR 0x80) # varint (n div 128))"

declare varint.simps [simp del]

lemma varint_ne [simp]: "varint n \<noteq> []"
  by (subst varint.simps) simp

definition mqtt_string :: "bytes \<Rightarrow> bytes" where
  "mqtt_string s = be16 (of_nat (length s)) @ s"

lemma length_mqtt_string [simp]: "length (mqtt_string s) = length s + 2"
  by (simp add: mqtt_string_def)

lemma length_varint_le:
  "n < 128 \<Longrightarrow> length (varint n) = 1"
  "128 \<le> n \<Longrightarrow> length (varint n) = Suc (length (varint (n div 128)))"
  by (subst varint.simps; simp)+

lemma length_varint:
  assumes "n \<le> 268435455"
  shows "int (length (varint n)) = mqtt_calc_fheader_length (int n) - 1"
proof -
  consider "n \<le> 127" | "127 < n" "n \<le> 16383" | "16383 < n" "n \<le> 2097151" | "2097151 < n"
    by linarith
  then show ?thesis
  proof cases
    case 1 then show ?thesis by (simp add: length_varint_le mqtt_calc_fheader_length_def)
  next
    case 2
    then have "n div 128 < 128" by simp
    with 2 show ?thesis by (simp add: length_varint_le mqtt_calc_fheader_length_def)
  next
    case 3
    then have "128 \<le> n div 128" "n div 128 div 128 < 128" by (simp_all add: div_mult2_eq [symmetric])
    with 3 show ?thesis by (simp add: length_varint_le mqtt_calc_fheader_length_def)
  next
    case 4
    with assms have "128 \<le> n div 128" "128 \<le> n div 128 div 128" "n div 128 div 128 div 128 < 128"
      by (simp_all add: div_mult2_eq [symmetric])
    with 4 assms show ?thesis by (simp add: length_varint_le mqtt_calc_fheader_length_def)
  qed
qed

lemma encode_fixed_header_len_varint:
  "length (varint n) \<le> length rest \<Longrightarrow>
   mqtt_encode_fixed_header_len (int n) (pre @ rest) (int (length pre)) =
     Some (pre @ varint n @ drop (length (varint n)) rest)"
proof (induction n arbitrary: pre rest rule: varint.induct)
  case (1 n)
  from "1.prems" obtain b rest' where rest: "rest = b # rest'"
    by (cases rest) auto
  have sd: "int n sdiv 128 = int (n div 128)" "int n smod 128 = int (n mod 128)"
    by (simp_all add: signed_divide_int_def signed_modulo_int_def zdiv_int zmod_int sgn_if)
  show ?case
  proof (cases "n < 128")
    case True
    then show ?thesis
      by (subst mqtt_encode_fixed_header_len.simps)
        (simp add: rest sd mem_simp varint.simps [of n] Let_def)
  next
    case False
    then have v: "varint n = (of_nat (n mod 128) OR 0x80) # varint (n div 128)"
      by (simp add: varint.simps [of n])
    have pos: "0 < int (n div 128)" using False by simp
    have "mqtt_encode_fixed_header_len (int n) (pre @ rest) (int (length pre)) =
      mqtt_encode_fixed_header_len (int (n div 128))
        ((pre @ [of_nat (n mod 128) OR 0x80]) @ rest') (int (length (pre @ [of_nat (n mod 128) OR 0x80])))"
      using pos
      by (subst mqtt_encode_fixed_header_len.simps) (simp add: rest sd mem_simp Let_def add.commute)
    also have "\<dots> = Some ((pre @ [of_nat (n mod 128) OR 0x80]) @ varint (n div 128) @
        drop (length (varint (n div 128))) rest')"
      using "1.prems" False by (intro "1.IH") (simp_all add: rest v)
    finally show ?thesis by (simp add: rest v)
  qed
qed

lemma encode_string_cursor:
  assumes "length s \<le> 65535" "length s + 2 \<le> length rest" "i = int (length pre)"
  shows "mqtt_encode_string (pre @ rest) i s (word_of_int (int (length s))) =
    Some (pre @ mqtt_string s @ drop (length s + 2) rest)"
proof -
  have u: "unat (word_of_int (int (length s)) :: u16) = length s"
    using assms(1) by (simp add: unat_of_nat)
  have "mem_write (pre @ rest) i (be16 (word_of_int (int (length s)))) =
      Some (pre @ be16 (of_nat (length s)) @ drop 2 rest)"
    using assms by (simp add: mem_simp)
  moreover have "mem_write (pre @ be16 (of_nat (length s)) @ drop 2 rest) (i + 2) s =
      Some (pre @ be16 (of_nat (length s)) @ s @ drop (length s + 2) rest)"
    using mem_write_cursor [of "i + 2" "pre @ be16 (of_nat (length s))" s "drop 2 rest"] assms
    by simp
  ultimately show ?thesis
    using u by (simp add: mqtt_encode_string_def mem_read_def mqtt_string_def)
qed

text \<open>\<open>filled m pre k\<close>: the block \<open>m\<close> starts with \<open>pre\<close> and has \<open>k\<close> bytes left to write.  Each
  checked write at the end of \<open>pre\<close> succeeds and extends it.\<close>

definition filled :: "bytes \<Rightarrow> bytes \<Rightarrow> nat \<Rightarrow> bool" where
  "filled m pre k \<longleftrightarrow> (\<exists>rest. m = pre @ rest \<and> length rest = k)"

lemma filled_start: "length m = k \<Longrightarrow> filled m [] k"
  by (simp add: filled_def)

lemma filled_done: "filled m pre 0 \<Longrightarrow> m = pre"
  by (simp add: filled_def)

lemma fill_write:
  assumes "filled m pre k" "i = int (length pre)" "length src \<le> k"
  obtains m' where "mem_write m i src = Some m'" "filled m' (pre @ src) (k - length src)"
proof -
  from assms obtain rest where "m = pre @ rest" "length rest = k"
    by (auto simp: filled_def)
  with assms that [of "pre @ src @ drop (length src) rest"] show thesis
    by (auto simp: filled_def mem_simp)
qed

lemma fill_poke:
  assumes "filled m pre k" "i = int (length pre)" "1 \<le> k"
  obtains m' where "poke m i b = Some m'" "filled m' (pre @ [b]) (k - 1)"
proof -
  from assms obtain c rest where "m = pre @ c # rest" "Suc (length rest) = k"
    by (auto simp: filled_def neq_Nil_conv Suc_le_length_iff)
  with assms that [of "pre @ b # rest"] show thesis
    by (auto simp: filled_def mem_simp)
qed

lemma fill_string:
  assumes "filled m pre k" "i = int (length pre)" "length s + 2 \<le> k" "length s \<le> 65535"
  obtains m' where "mqtt_encode_string m i s (word_of_int (int (length s))) = Some m'"
    "filled m' (pre @ mqtt_string s) (k - (length s + 2))"
proof -
  from assms obtain rest where "m = pre @ rest" "length rest = k"
    by (auto simp: filled_def)
  with assms that [of "pre @ mqtt_string s @ drop (length s + 2) rest"]
    encode_string_cursor [of s rest i pre] show thesis
    by (auto simp: filled_def)
qed

text \<open>The byte-1 write followed by the remaining-length field.\<close>

lemma fill_header:
  assumes "length m = Suc (length (varint n)) + k"
  obtains m' m'' where "poke m 0 b = Some m'"
    "mqtt_encode_fixed_header_len (int n) m' 1 = Some m''" "filled m'' (b # varint n) k"
proof -
  obtain c rest where m: "m = c # rest"
    using assms by (cases m) auto
  have "mqtt_encode_fixed_header_len (int n) ([b] @ rest) (int (length [b])) =
      Some ([b] @ varint n @ drop (length (varint n)) rest)"
    using assms by (intro encode_fixed_header_len_varint) (simp add: m)
  with that [of "b # rest" "b # varint n @ drop (length (varint n)) rest"] assms show thesis
    by (simp add: m poke_def filled_def)
qed

definition publish_byte1 :: "int \<Rightarrow> int \<Rightarrow> byte" where
  "publish_byte1 qos retain = MQTT_MSG_TYPE_PUBLISH OR (if qos > 0 then MQTT_OPT_QOS_1 else 0)
     OR (if retain \<noteq> 0 then MQTT_OPT_RETAIN else 0)"

definition publish_body :: "bytes \<Rightarrow> int \<Rightarrow> u16 \<Rightarrow> bytes \<Rightarrow> bytes" where
  "publish_body topic qos msg_id payload =
     mqtt_string topic @ (if qos > 0 then be16 msg_id else []) @ payload"

definition framed :: "byte \<Rightarrow> bytes \<Rightarrow> bytes" where
  "framed b body = b # varint (length body) @ body"

definition publish_packet :: "bytes \<Rightarrow> int \<Rightarrow> int \<Rightarrow> u16 \<Rightarrow> bytes \<Rightarrow> bytes" where
  "publish_packet topic qos retain msg_id payload =
     framed (publish_byte1 qos retain) (publish_body topic qos msg_id payload)"

definition connect_body :: "bytes \<Rightarrow> bytes option \<Rightarrow> bytes option \<Rightarrow> u16 \<Rightarrow> bytes" where
  "connect_body client_id username password keepalive =
     mqtt_string MQTT_CONN_PROTOCOL_NAME @ [MQTT_CONN_PROTOCOL_VERSION_3] @
     [(if username \<noteq> None then MQTT_CONN_OPT_USERNAME else 0) OR
      (if password \<noteq> None then MQTT_CONN_OPT_PASSWORD else 0)] @
     be16 keepalive @ mqtt_string client_id @
     (case username of None \<Rightarrow> [] | Some u \<Rightarrow> mqtt_string u) @
     (case password of None \<Rightarrow> [] | Some p \<Rightarrow> mqtt_string p)"

definition subscribe_body :: "bytes \<Rightarrow> int \<Rightarrow> u16 \<Rightarrow> bytes" where
  "subscribe_body topic qos msg_id = be16 msg_id @ mqtt_string topic @ [word_of_int qos AND 0x3]"

definition unsubscribe_body :: "bytes \<Rightarrow> u16 \<Rightarrow> bytes" where
  "unsubscribe_body topic msg_id = be16 msg_id @ mqtt_string topic"

text \<open>What an allocating builder returns when its packet is \<open>pkt\<close>.\<close>

definition built :: "malloc \<Rightarrow> bytes \<Rightarrow> (int + bytes \<times> int) option" where
  "built m pkt = (case m (length pkt) of None \<Rightarrow> Some (Inl ERR_TR50_MALLOC)
                  | Some _ \<Rightarrow> Some (Inr (pkt, int (length pkt))))"

lemma length_framed:
  "length body \<le> 268435455 \<Longrightarrow>
   int (length (framed b body)) = mqtt_calc_fheader_length (int (length body)) + int (length body)"
  using length_varint [of "length body"] by (simp add: framed_def)

lemma c_size_framed:
  "length body \<le> 268435455 \<Longrightarrow>
   c_size (mqtt_calc_fheader_length (int (length body)) + int (length body)) = length (framed b body)"
  using length_framed [of body b] length_varint [of "length body"]
  by (simp add: c_size_def mqtt_calc_fheader_length_def)

lemma length_publish_body:
  "int (length (publish_body topic qos msg_id payload)) =
   (if qos > 0 then int (length topic) + 2 + 2 else int (length topic) + 2) + int (length payload)"
  by (simp add: publish_body_def)

lemma length_connect_body:
  "int (length (connect_body cid u p ka)) =
   12 + (int (length cid) + 2) + (case u of None \<Rightarrow> 0 | Some x \<Rightarrow> int (length x) + 2)
     + (case p of None \<Rightarrow> 0 | Some x \<Rightarrow> int (length x) + 2)"
  by (simp add: connect_body_def MQTT_CONN_PROTOCOL_NAME_def split: option.split)

text \<open>What every builder of a framed packet needs: the size it allocates, where the body starts,
  and the block after the fixed header.\<close>

lemma frame_sizes:
  assumes "length body \<le> 268435455"
  shows "c_size (mqtt_calc_fheader_length (int (length body)) + int (length body)) = length (framed b body)"
    and "mqtt_calc_fheader_length (int (length body)) = int (length (b # varint (length body)))"
    and "mqtt_calc_fheader_length (int (length body)) + int (length body) = int (length (framed b body))"
  using c_size_framed [OF assms, of b] length_varint [OF assms] length_framed [OF assms, of b]
  by simp_all

lemma frame_start:
  assumes "length blk = length (framed b body)"
  obtains m1 m2 where "poke blk 0 b = Some m1"
    "mqtt_encode_fixed_header_len (int (length body)) m1 1 = Some m2"
    "filled m2 (b # varint (length body)) (length body)"
proof -
  have "length blk = Suc (length (varint (length body))) + length body"
    using assms by (simp add: framed_def)
  then show thesis using that by (rule fill_header)
qed

lemma framed_append: "(b # varint (length body)) @ body = framed b body"
  by (simp add: framed_def)

lemma memset_block: "mem_write blk 0 (replicate (length blk) 0) = Some (replicate (length blk) 0)"
  by (simp add: mem_write_def)

lemma publish_byte1_code:
  "(if retain \<noteq> 0
    then (if 0 < qos then (0 OR MQTT_MSG_TYPE_PUBLISH) OR MQTT_OPT_QOS_1 else 0 OR MQTT_MSG_TYPE_PUBLISH)
      OR MQTT_OPT_RETAIN
    else if 0 < qos then (0 OR MQTT_MSG_TYPE_PUBLISH) OR MQTT_OPT_QOS_1 else 0 OR MQTT_MSG_TYPE_PUBLISH)
   = publish_byte1 qos retain"
  by (simp add: publish_byte1_def or.assoc)

text \<open>The fields of a publish body, written behind a header \<open>pre\<close> that ends at \<open>p\<close>.\<close>

lemma write_publish_body:
  assumes f: "filled m pre (length (publish_body topic qos msg_id payload))"
    and p: "p = int (length pre)" and topic: "length topic \<le> 65535"
  obtains m1 m2 where
    "mqtt_encode_string m p topic (word_of_int (int (length topic))) = Some m1"
    "(if 0 < qos then mem_write m1 (p + (int (length topic) + 2)) (be16 msg_id) else Some m1) = Some m2"
    "mem_write m2 (if 0 < qos then p + (int (length topic) + 2) + 2 else p + (int (length topic) + 2))
       payload = Some (pre @ publish_body topic qos msg_id payload)"
proof -
  let ?k = "(if qos > 0 then 2 else 0) + length payload"
  have n: "length (publish_body topic qos msg_id payload) = (length topic + 2) + ?k"
    by (simp add: publish_body_def)
  obtain m1 where m1: "mqtt_encode_string m p topic (word_of_int (int (length topic))) = Some m1"
      "filled m1 (pre @ mqtt_string topic) ?k"
    by (rule fill_string [OF f [unfolded n] p le_add1 topic], rule that) (simp_all only: add_diff_cancel_left')
  have i1: "p + (int (length topic) + 2) = int (length (pre @ mqtt_string topic))"
    by (simp add: p)
  obtain m2 where m2: "(if 0 < qos then mem_write m1 (p + (int (length topic) + 2)) (be16 msg_id)
        else Some m1) = Some m2"
      "filled m2 ((pre @ mqtt_string topic) @ (if qos > 0 then be16 msg_id else [])) (length payload)"
  proof (cases "qos > 0")
    case True
    then have "length (be16 msg_id) \<le> ?k" by simp
    from fill_write [OF m1(2) i1 this] True that show thesis by auto
  qed (use that m1(2) in simp)
  have i2: "(if 0 < qos then p + (int (length topic) + 2) + 2 else p + (int (length topic) + 2)) =
      int (length ((pre @ mqtt_string topic) @ (if qos > 0 then be16 msg_id else [])))"
    by (simp add: p)
  obtain m3 where m3: "mem_write m2 (if 0 < qos then p + (int (length topic) + 2) + 2
        else p + (int (length topic) + 2)) payload = Some m3"
      "filled m3 (((pre @ mqtt_string topic) @ (if qos > 0 then be16 msg_id else [])) @ payload)
         (length payload - length payload)"
    by (rule fill_write [OF m2(2) i2 order_refl]) (rule that)
  have "m3 = pre @ publish_body topic qos msg_id payload"
    using filled_done [of m3] m3(2) by (simp add: publish_body_def)
  with that m1(1) m2(1) m3(1) show thesis by blast
qed

lemma build_publish_refines:
  assumes m: "malloc_spec m" and topic: "length topic \<le> 65535"
    and fits: "length (publish_body topic qos msg_id payload) \<le> 268435455"
  shows "mqtt_msg_build_publish m topic qos retain msg_id payload (int (length payload)) =
    built m (publish_packet topic qos retain msg_id payload)"
proof -
  let ?body = "publish_body topic qos msg_id payload"
  let ?b = "publish_byte1 qos retain"
  note rem = length_publish_body [of topic qos msg_id payload, symmetric]
  note sizes = frame_sizes [OF fits, of ?b]
  have psz: "c_size (int (length payload)) = length payload"
    using fits by (simp add: c_size_nonneg publish_body_def)
  show ?thesis
  proof (cases "m (length (framed ?b ?body))")
    case None
    then show ?thesis
      unfolding mqtt_msg_build_publish_def Let_def rem sizes(1) built_def publish_packet_def by simp
  next
    case (Some blk)
    have mr: "mem_read payload 0 (length payload) = Some payload"
      by (simp add: mem_read_def)
    obtain m1 m2 where h: "poke blk 0 ?b = Some m1"
      "mqtt_encode_fixed_header_len (int (length ?body)) m1 1 = Some m2"
      "filled m2 (?b # varint (length ?body)) (length ?body)"
      using malloc_spec_length [OF m Some] by (rule frame_start)
    obtain m3 m4 where w:
      "mqtt_encode_string m2 (mqtt_calc_fheader_length (int (length ?body))) topic
         (word_of_int (int (length topic))) = Some m3"
      "(if 0 < qos then mem_write m3 (mqtt_calc_fheader_length (int (length ?body))
         + (int (length topic) + 2)) (be16 msg_id) else Some m3) = Some m4"
      "mem_write m4 (if 0 < qos then mqtt_calc_fheader_length (int (length ?body))
         + (int (length topic) + 2) + 2 else mqtt_calc_fheader_length (int (length ?body))
         + (int (length topic) + 2)) payload = Some ((?b # varint (length ?body)) @ ?body)"
      by (rule write_publish_body [OF h(3) sizes(2) topic]) (rule that)
    show ?thesis
      unfolding mqtt_msg_build_publish_def Let_def rem sizes(1) publish_byte1_code Some option.case h psz
        u16_bytes_swap16 Option.bind_lunit w mr
      unfolding framed_append sizes(3) publish_packet_def by (simp add: built_def Some)
  qed
qed

lemma length_subscribe_body:
  "int (length (subscribe_body topic qos msg_id)) = 2 + 2 + int (length topic) + 1"
  by (simp add: subscribe_body_def)

lemma length_unsubscribe_body:
  "int (length (unsubscribe_body topic msg_id)) = 2 + 2 + int (length topic)"
  by (simp add: unsubscribe_body_def)

lemma write_subscribe_body:
  assumes f: "filled m pre (length (subscribe_body topic qos msg_id))"
    and p: "p = int (length pre)" and topic: "length topic \<le> 65535"
  obtains m1 m2 where "mem_write m p (be16 msg_id) = Some m1"
    "mqtt_encode_string m1 (p + 2) topic (word_of_int (int (length topic))) = Some m2"
    "poke m2 (p + 2 + (int (length topic) + 2)) (word_of_int qos AND 0x3) =
       Some (pre @ subscribe_body topic qos msg_id)"
proof -
  have n: "length (subscribe_body topic qos msg_id) = length (be16 msg_id) + ((length topic + 2) + 1)"
    by (simp add: subscribe_body_def)
  obtain m1 where m1: "mem_write m p (be16 msg_id) = Some m1"
      "filled m1 (pre @ be16 msg_id) ((length topic + 2) + 1)"
    by (rule fill_write [OF f [unfolded n] p le_add1], rule that) (simp_all only: add_diff_cancel_left')
  have i1: "p + 2 = int (length (pre @ be16 msg_id))"
    by (simp add: p)
  obtain m2 where m2: "mqtt_encode_string m1 (p + 2) topic (word_of_int (int (length topic))) = Some m2"
      "filled m2 ((pre @ be16 msg_id) @ mqtt_string topic) 1"
    by (rule fill_string [OF m1(2) i1 le_add1 topic], rule that) (simp_all only: add_diff_cancel_left')
  have i2: "p + 2 + (int (length topic) + 2) = int (length ((pre @ be16 msg_id) @ mqtt_string topic))"
    by (simp add: p)
  obtain m3 where m3: "poke m2 (p + 2 + (int (length topic) + 2)) (word_of_int qos AND 0x3) = Some m3"
      "filled m3 (((pre @ be16 msg_id) @ mqtt_string topic) @ [word_of_int qos AND 0x3]) (1 - 1)"
    by (rule fill_poke [OF m2(2) i2 order_refl]) (rule that)
  have "m3 = pre @ subscribe_body topic qos msg_id"
    using filled_done [of m3] m3(2) by (simp add: subscribe_body_def)
  with that m1(1) m2(1) m3(1) show thesis by blast
qed

lemma write_unsubscribe_body:
  assumes f: "filled m pre (length (unsubscribe_body topic msg_id))"
    and p: "p = int (length pre)" and topic: "length topic \<le> 65535"
  obtains m1 where "mem_write m p (be16 msg_id) = Some m1"
    "mqtt_encode_string m1 (p + 2) topic (word_of_int (int (length topic))) =
       Some (pre @ unsubscribe_body topic msg_id)"
proof -
  have n: "length (unsubscribe_body topic msg_id) = length (be16 msg_id) + (length topic + 2)"
    by (simp add: unsubscribe_body_def)
  obtain m1 where m1: "mem_write m p (be16 msg_id) = Some m1"
      "filled m1 (pre @ be16 msg_id) (length topic + 2)"
    by (rule fill_write [OF f [unfolded n] p le_add1], rule that) (simp_all only: add_diff_cancel_left')
  have i1: "p + 2 = int (length (pre @ be16 msg_id))"
    by (simp add: p)
  obtain m2 where m2: "mqtt_encode_string m1 (p + 2) topic (word_of_int (int (length topic))) = Some m2"
      "filled m2 ((pre @ be16 msg_id) @ mqtt_string topic) (length topic + 2 - (length topic + 2))"
    by (rule fill_string [OF m1(2) i1 order_refl topic]) (rule that)
  have "m2 = pre @ unsubscribe_body topic msg_id"
    using filled_done [of m2] m2(2) by (simp add: unsubscribe_body_def)
  with that m1(1) m2(1) show thesis by blast
qed

lemma build_subscribe_refines:
  assumes m: "malloc_spec m" and topic: "length topic \<le> 65535"
  shows "mqtt_msg_build_subscribe m topic qos msg_id =
    built m (framed (0x02 OR MQTT_MSG_TYPE_SUBSCRIBE) (subscribe_body topic qos msg_id))"
proof -
  let ?body = "subscribe_body topic qos msg_id"
  let ?b = "0x02 OR MQTT_MSG_TYPE_SUBSCRIBE"
  have fits: "length ?body \<le> 268435455"
    using topic by (simp add: subscribe_body_def)
  note rem = length_subscribe_body [of topic qos msg_id, symmetric]
  note sizes = frame_sizes [OF fits, of ?b]
  show ?thesis
  proof (cases "m (length (framed ?b ?body))")
    case None
    then show ?thesis
      unfolding mqtt_msg_build_subscribe_def Let_def rem sizes(1) built_def by simp
  next
    case (Some blk)
    have len: "length blk = length (framed ?b ?body)"
      using malloc_spec_length [OF m Some] .
    obtain m1 m2 where h: "poke (replicate (length blk) 0) 0 ?b = Some m1"
      "mqtt_encode_fixed_header_len (int (length ?body)) m1 1 = Some m2"
      "filled m2 (?b # varint (length ?body)) (length ?body)"
      by (rule frame_start [of "replicate (length blk) 0" ?b ?body]) (simp add: len, rule that)
    obtain m3 m4 where w: "mem_write m2 (mqtt_calc_fheader_length (int (length ?body))) (be16 msg_id) = Some m3"
      "mqtt_encode_string m3 (mqtt_calc_fheader_length (int (length ?body)) + 2) topic
         (word_of_int (int (length topic))) = Some m4"
      "poke m4 (mqtt_calc_fheader_length (int (length ?body)) + 2 + (int (length topic) + 2))
         (word_of_int qos AND 0x3) = Some ((?b # varint (length ?body)) @ ?body)"
      by (rule write_subscribe_body [OF h(3) sizes(2) topic]) (rule that)
    show ?thesis
      unfolding mqtt_msg_build_subscribe_def Let_def rem sizes(1) Some option.case
        memset_block [of blk, unfolded len] h [unfolded len]
        u16_bytes_swap16 Option.bind_lunit w
      unfolding framed_append sizes(3) by (simp add: built_def Some)
  qed
qed

lemma build_unsubscribe_refines:
  assumes m: "malloc_spec m" and topic: "length topic \<le> 65535"
  shows "mqtt_msg_build_unsubscribe m topic msg_id =
    built m (framed (0x02 OR MQTT_MSG_TYPE_UNSUBSCRIBE) (unsubscribe_body topic msg_id))"
proof -
  let ?body = "unsubscribe_body topic msg_id"
  let ?b = "0x02 OR MQTT_MSG_TYPE_UNSUBSCRIBE"
  have fits: "length ?body \<le> 268435455"
    using topic by (simp add: unsubscribe_body_def)
  note rem = length_unsubscribe_body [of topic msg_id, symmetric]
  note sizes = frame_sizes [OF fits, of ?b]
  show ?thesis
  proof (cases "m (length (framed ?b ?body))")
    case None
    then show ?thesis
      unfolding mqtt_msg_build_unsubscribe_def Let_def rem sizes(1) built_def by simp
  next
    case (Some blk)
    have len: "length blk = length (framed ?b ?body)"
      using malloc_spec_length [OF m Some] .
    obtain m1 m2 where h: "poke (replicate (length blk) 0) 0 ?b = Some m1"
      "mqtt_encode_fixed_header_len (int (length ?body)) m1 1 = Some m2"
      "filled m2 (?b # varint (length ?body)) (length ?body)"
      by (rule frame_start [of "replicate (length blk) 0" ?b ?body]) (simp add: len, rule that)
    obtain m3 where w: "mem_write m2 (mqtt_calc_fheader_length (int (length ?body))) (be16 msg_id) = Some m3"
      "mqtt_encode_string m3 (mqtt_calc_fheader_length (int (length ?body)) + 2) topic
         (word_of_int (int (length topic))) = Some ((?b # varint (length ?body)) @ ?body)"
      by (rule write_unsubscribe_body [OF h(3) sizes(2) topic]) (rule that)
    show ?thesis
      unfolding mqtt_msg_build_unsubscribe_def Let_def rem sizes(1) Some option.case
        memset_block [of blk, unfolded len] h [unfolded len]
        u16_bytes_swap16 Option.bind_lunit w
      unfolding framed_append sizes(3) by (simp add: built_def Some)
  qed
qed

subsection \<open>The connect packet\<close>

definition opt_string :: "bytes option \<Rightarrow> bytes" where
  "opt_string s = (case s of None \<Rightarrow> [] | Some u \<Rightarrow> mqtt_string u)"

lemma fill_opt_string:
  assumes f: "filled m pre (length (opt_string s) + k)" and i: "i = int (length pre)"
    and s: "\<forall>u. s = Some u \<longrightarrow> length u \<le> 65535"
  obtains m' where "(case s of None \<Rightarrow> Some m
      | Some u \<Rightarrow> mqtt_encode_string m i u (word_of_int (case s of None \<Rightarrow> 0 | Some u \<Rightarrow> int (length u)))) = Some m'"
    "filled m' (pre @ opt_string s) k"
proof (cases s)
  case None
  with that f show thesis by (simp add: opt_string_def)
next
  case (Some u)
  with s have u: "length u \<le> 65535" by simp
  from f Some have f': "filled m pre ((length u + 2) + k)" by (simp add: opt_string_def)
  show thesis
    using fill_string [OF f' i le_add1 u] that Some
    by (simp only: option.case opt_string_def add_diff_cancel_left') blast
qed

lemma connect_body_fields:
  "connect_body client_id username password keepalive =
   mqtt_string MQTT_CONN_PROTOCOL_NAME @ [MQTT_CONN_PROTOCOL_VERSION_3] @
   [(if username \<noteq> None then MQTT_CONN_OPT_USERNAME else 0) OR
    (if password \<noteq> None then MQTT_CONN_OPT_PASSWORD else 0)] @
   be16 keepalive @ mqtt_string client_id @ opt_string username @ opt_string password"
  by (simp add: connect_body_def opt_string_def)

text \<open>The variable header up to and including the keepalive timer.\<close>

lemma write_connect_header:
  assumes f: "filled m pre (12 + k)" and p: "p = int (length pre)"
  obtains m1 m2 m3 m4 where
    "mqtt_encode_string m p MQTT_CONN_PROTOCOL_NAME (word_of_int MQTT_CONN_PROTOCOL_NAME_LEN) = Some m1"
    "poke m1 (p + (MQTT_CONN_PROTOCOL_NAME_LEN + 2)) MQTT_CONN_PROTOCOL_VERSION_3 = Some m2"
    "poke m2 (p + (MQTT_CONN_PROTOCOL_NAME_LEN + 2) + 1) flags = Some m3"
    "mem_write m3 (p + (MQTT_CONN_PROTOCOL_NAME_LEN + 2) + 1 + 1) (be16 keepalive) = Some m4"
    "filled m4 (pre @ mqtt_string MQTT_CONN_PROTOCOL_NAME @ [MQTT_CONN_PROTOCOL_VERSION_3] @ [flags]
       @ be16 keepalive) k"
proof -
  have nl: "length MQTT_CONN_PROTOCOL_NAME = 6" "MQTT_CONN_PROTOCOL_NAME_LEN = int 6"
    by (simp_all add: MQTT_CONN_PROTOCOL_NAME_def MQTT_CONN_PROTOCOL_NAME_LEN_def)
  obtain m1 where m1: "mqtt_encode_string m p MQTT_CONN_PROTOCOL_NAME (word_of_int MQTT_CONN_PROTOCOL_NAME_LEN) = Some m1"
      "filled m1 (pre @ mqtt_string MQTT_CONN_PROTOCOL_NAME) (4 + k)"
    using fill_string [OF f p, of MQTT_CONN_PROTOCOL_NAME thesis] fill_string [OF f p, of MQTT_CONN_PROTOCOL_NAME]
    unfolding nl by auto
  obtain m2 where m2: "poke m1 (p + (MQTT_CONN_PROTOCOL_NAME_LEN + 2)) MQTT_CONN_PROTOCOL_VERSION_3 = Some m2"
      "filled m2 ((pre @ mqtt_string MQTT_CONN_PROTOCOL_NAME) @ [MQTT_CONN_PROTOCOL_VERSION_3]) (3 + k)"
    using fill_poke [OF m1(2), of "p + (MQTT_CONN_PROTOCOL_NAME_LEN + 2)" MQTT_CONN_PROTOCOL_VERSION_3] nl p by auto
  obtain m3 where m3: "poke m2 (p + (MQTT_CONN_PROTOCOL_NAME_LEN + 2) + 1) flags = Some m3"
      "filled m3 (((pre @ mqtt_string MQTT_CONN_PROTOCOL_NAME) @ [MQTT_CONN_PROTOCOL_VERSION_3]) @ [flags]) (2 + k)"
    using fill_poke [OF m2(2), of "p + (MQTT_CONN_PROTOCOL_NAME_LEN + 2) + 1" flags] nl p by auto
  obtain m4 where m4: "mem_write m3 (p + (MQTT_CONN_PROTOCOL_NAME_LEN + 2) + 1 + 1) (be16 keepalive) = Some m4"
      "filled m4 ((((pre @ mqtt_string MQTT_CONN_PROTOCOL_NAME) @ [MQTT_CONN_PROTOCOL_VERSION_3]) @ [flags]) @ be16 keepalive) k"
    using fill_write [OF m3(2), of "p + (MQTT_CONN_PROTOCOL_NAME_LEN + 2) + 1 + 1" "be16 keepalive"] nl p by auto
  from that m1(1) m2(1) m3(1) m4 show thesis by (simp only: append_assoc)
qed

text \<open>The payload: client id, user name and password behind the variable header.\<close>

lemma write_connect_payload:
  assumes f: "filled m pre ((length cid + 2) + (length (opt_string u) + (length (opt_string pw) + 0)))"
    and p: "p = int (length pre)" and cid: "length cid \<le> 65535"
    and u: "\<forall>x. u = Some x \<longrightarrow> length x \<le> 65535" and pw: "\<forall>x. pw = Some x \<longrightarrow> length x \<le> 65535"
  obtains m1 m2 where
    "mqtt_encode_string m p cid (word_of_int (int (length cid))) = Some m1"
    "(case u of None \<Rightarrow> Some m1 | Some x \<Rightarrow> mqtt_encode_string m1 (p + (int (length cid) + 2)) x
        (word_of_int (case u of None \<Rightarrow> 0 | Some x \<Rightarrow> int (length x)))) = Some m2"
    "(case pw of None \<Rightarrow> Some m2 | Some x \<Rightarrow> mqtt_encode_string m2
        (if u \<noteq> None then p + (int (length cid) + 2) + ((case u of None \<Rightarrow> 0 | Some x \<Rightarrow> int (length x)) + 2)
         else p + (int (length cid) + 2)) x
        (word_of_int (case pw of None \<Rightarrow> 0 | Some x \<Rightarrow> int (length x)))) =
       Some (pre @ mqtt_string cid @ opt_string u @ opt_string pw)"
proof -
  obtain m1 where m1: "mqtt_encode_string m p cid (word_of_int (int (length cid))) = Some m1"
      "filled m1 (pre @ mqtt_string cid) (length (opt_string u) + (length (opt_string pw) + 0))"
    by (rule fill_string [OF f p le_add1 cid], rule that) (simp_all only: add_diff_cancel_left')
  have i1: "p + (int (length cid) + 2) = int (length (pre @ mqtt_string cid))"
    by (simp add: p)
  obtain m2 where m2: "(case u of None \<Rightarrow> Some m1 | Some x \<Rightarrow> mqtt_encode_string m1 (p + (int (length cid) + 2)) x
        (word_of_int (case u of None \<Rightarrow> 0 | Some x \<Rightarrow> int (length x)))) = Some m2"
      "filled m2 ((pre @ mqtt_string cid) @ opt_string u) (length (opt_string pw) + 0)"
    by (rule fill_opt_string [OF m1(2) i1 u]) (rule that)
  have i2: "(if u \<noteq> None then p + (int (length cid) + 2) + ((case u of None \<Rightarrow> 0 | Some x \<Rightarrow> int (length x)) + 2)
       else p + (int (length cid) + 2)) = int (length ((pre @ mqtt_string cid) @ opt_string u))"
    by (auto simp: p opt_string_def)
  obtain m3 where m3: "(case pw of None \<Rightarrow> Some m2 | Some x \<Rightarrow> mqtt_encode_string m2
        (if u \<noteq> None then p + (int (length cid) + 2) + ((case u of None \<Rightarrow> 0 | Some x \<Rightarrow> int (length x)) + 2)
         else p + (int (length cid) + 2)) x
        (word_of_int (case pw of None \<Rightarrow> 0 | Some x \<Rightarrow> int (length x)))) = Some m3"
      "filled m3 (((pre @ mqtt_string cid) @ opt_string u) @ opt_string pw) 0"
    by (rule fill_opt_string [OF m2(2) i2 pw]) (rule that)
  have "m3 = pre @ mqtt_string cid @ opt_string u @ opt_string pw"
    using filled_done [OF m3(2)] by simp
  with that m1(1) m2(1) m3(1) show thesis by blast
qed

lemma connect_remaining:
  "(if pw \<noteq> None
    then (if u \<noteq> None then 12 + (int (length cid) + 2) + ((case u of None \<Rightarrow> 0 | Some x \<Rightarrow> int (length x)) + 2)
          else 12 + (int (length cid) + 2)) + ((case pw of None \<Rightarrow> 0 | Some x \<Rightarrow> int (length x)) + 2)
    else if u \<noteq> None then 12 + (int (length cid) + 2) + ((case u of None \<Rightarrow> 0 | Some x \<Rightarrow> int (length x)) + 2)
         else 12 + (int (length cid) + 2)) = int (length (connect_body cid u pw ka))"
  by (auto simp: length_connect_body)

lemma connect_flags_code:
  "(if pw \<noteq> None then (if u \<noteq> None then 0 OR MQTT_CONN_OPT_USERNAME else 0) OR MQTT_CONN_OPT_PASSWORD
    else if u \<noteq> None then 0 OR MQTT_CONN_OPT_USERNAME else 0) =
   (if u \<noteq> None then MQTT_CONN_OPT_USERNAME else 0) OR (if pw \<noteq> None then MQTT_CONN_OPT_PASSWORD else 0)"
  by simp

lemma build_connect_refines:
  assumes m: "malloc_spec m" and cid: "length cid \<le> 65535"
    and u: "\<forall>x. u = Some x \<longrightarrow> length x \<le> 65535" and pw: "\<forall>x. pw = Some x \<longrightarrow> length x \<le> 65535"
  shows "mqtt_msg_build_connect m cid u pw ka =
    built m (framed (0x00 OR MQTT_MSG_TYPE_CONNECT) (connect_body cid u pw ka))"
proof -
  let ?body = "connect_body cid u pw ka"
  let ?b = "0x00 OR MQTT_MSG_TYPE_CONNECT"
  let ?flags = "(if u \<noteq> None then MQTT_CONN_OPT_USERNAME else 0) OR (if pw \<noteq> None then MQTT_CONN_OPT_PASSWORD else 0)"
  have "int (length ?body) \<le> 14 + 65535 + 65537 + 65537"
    unfolding length_connect_body using cid u pw by (auto split: option.split)
  then have fits: "length ?body \<le> 268435455" by simp
  note sizes = frame_sizes [OF fits, of ?b]
  note rem = connect_remaining [of pw u cid ka]
  have len: "length ?body = 12 + ((length cid + 2) + (length (opt_string u) + (length (opt_string pw) + 0)))"
    by (simp add: connect_body_fields MQTT_CONN_PROTOCOL_NAME_def)
  show ?thesis
  proof (cases "m (length (framed ?b ?body))")
    case None
    then show ?thesis
      unfolding mqtt_msg_build_connect_def Let_def rem add.commute [of "int (length ?body)"] sizes(1) built_def
      by simp
  next
    case (Some blk)
    obtain m1 m2 where h: "poke blk 0 ?b = Some m1"
      "mqtt_encode_fixed_header_len (int (length ?body)) m1 1 = Some m2"
      "filled m2 (?b # varint (length ?body)) (length ?body)"
      using malloc_spec_length [OF m Some] by (rule frame_start)
    let ?p = "mqtt_calc_fheader_length (int (length ?body))"
    let ?pre = "(?b # varint (length ?body)) @ mqtt_string MQTT_CONN_PROTOCOL_NAME @
      [MQTT_CONN_PROTOCOL_VERSION_3] @ [?flags] @ be16 ka"
    obtain m3 m4 m5 m6 where w:
      "mqtt_encode_string m2 ?p MQTT_CONN_PROTOCOL_NAME (word_of_int MQTT_CONN_PROTOCOL_NAME_LEN) = Some m3"
      "poke m3 (?p + (MQTT_CONN_PROTOCOL_NAME_LEN + 2)) MQTT_CONN_PROTOCOL_VERSION_3 = Some m4"
      "poke m4 (?p + (MQTT_CONN_PROTOCOL_NAME_LEN + 2) + 1) ?flags = Some m5"
      "mem_write m5 (?p + (MQTT_CONN_PROTOCOL_NAME_LEN + 2) + 1 + 1) (be16 ka) = Some m6"
      "filled m6 ?pre ((length cid + 2) + (length (opt_string u) + (length (opt_string pw) + 0)))"
      by (rule write_connect_header [OF h(3) [unfolded len] sizes(2) [unfolded len]])
        (simp only: len [symmetric], rule that)
    let ?p' = "?p + (MQTT_CONN_PROTOCOL_NAME_LEN + 2) + 1 + 1 + 2"
    have p': "?p' = int (length ?pre)"
      using sizes(2) by (simp add: MQTT_CONN_PROTOCOL_NAME_def MQTT_CONN_PROTOCOL_NAME_LEN_def)
    obtain m7 m8 where v:
      "mqtt_encode_string m6 ?p' cid (word_of_int (int (length cid))) = Some m7"
      "(case u of None \<Rightarrow> Some m7 | Some x \<Rightarrow> mqtt_encode_string m7 (?p' + (int (length cid) + 2)) x
          (word_of_int (case u of None \<Rightarrow> 0 | Some x \<Rightarrow> int (length x)))) = Some m8"
      "(case pw of None \<Rightarrow> Some m8 | Some x \<Rightarrow> mqtt_encode_string m8
          (if u \<noteq> None then ?p' + (int (length cid) + 2) + ((case u of None \<Rightarrow> 0 | Some x \<Rightarrow> int (length x)) + 2)
           else ?p' + (int (length cid) + 2)) x
          (word_of_int (case pw of None \<Rightarrow> 0 | Some x \<Rightarrow> int (length x)))) =
         Some (?pre @ mqtt_string cid @ opt_string u @ opt_string pw)"
      by (rule write_connect_payload [OF w(5) p' cid u pw]) (rule that)
    have fr: "?pre @ mqtt_string cid @ opt_string u @ opt_string pw = framed ?b ?body"
      unfolding framed_append [symmetric] by (simp add: connect_body_fields)
    show ?thesis
      unfolding mqtt_msg_build_connect_def Let_def rem add.commute [of "int (length ?body)"] sizes(1)
        connect_flags_code Some option.case h u16_bytes_swap16 Option.bind_lunit w v
      unfolding fr sizes(3) using Some by (simp add: built_def)
  qed
qed

end
