(* ===== verification/Mqtt_Codec.thy ===== *)
theory Mqtt_Codec
  imports Mqtt_Wire
begin

section \<open>Reading the wire format back\<close>

text \<open>
  The processors of mqtt/mqtt.msg.c on the packets of the wire format: the remaining-length
  field, the round trips of every message the library both builds and reads, the answers of the
  CONNACK processor, and where the PUBLISH processor leaves the packet it was given.
\<close>

subsection \<open>The remaining-length field\<close>

lemma bit_byte_128: "bit (128 :: byte) k \<longleftrightarrow> k = 7"
  using bit_exp_iff [where ?'a = byte, of 7 k] by auto

lemma low_byte_127: "n < 128 \<Longrightarrow> uint ((of_nat n :: byte) AND 127) = int n"
proof -
  assume "n < 128"
  moreover have "int n AND 127 = take_bit 7 (int n)"
    by (simp add: take_bit_eq_mask mask_eq_exp_minus_1)
  ultimately show ?thesis
    by (simp add: unsigned_and_eq unsigned_of_nat take_bit_nat_eq_self take_bit_int_eq_self)
qed

lemma low_byte_cont_127: "n < 128 \<Longrightarrow> uint (((of_nat n :: byte) OR 0x80) AND 127) = int n"
proof -
  assume n: "n < 128"
  have "((of_nat n :: byte) OR 0x80) AND 127 = of_nat n AND 127"
    by (simp add: bit.conj_disj_distrib2)
  with low_byte_127 [OF n] show ?thesis by simp
qed

lemma low_byte_128: "n < 128 \<Longrightarrow> (of_nat n :: byte) AND 128 = 0"
proof (rule bit_word_eqI)
  fix k
  assume "n < 128"
  then have "\<not> bit n 7" by (simp add: bit_nat_def)
  then show "bit ((of_nat n :: byte) AND 128) k \<longleftrightarrow> bit (0 :: byte) k"
    unfolding bit_and_iff bit_byte_128 by (auto simp: bit_simps)
qed

lemma low_byte_cont_128: "((x :: byte) OR 0x80) AND 128 \<noteq> 0"
  by (simp add: bit.conj_disj_distrib2 word_ao_dist)

lemma decode_header_loop_varint:
  "r + length (varint n) \<le> 4 \<Longrightarrow> r + length (varint n) \<le> Suc pl \<Longrightarrow>
   mqtt_decode_header_loop (varint n @ rest) (int pl) (int r) dl m =
     Some (last (varint n), int (r + length (varint n)), dl + int n * m)"
proof (induction n arbitrary: r dl m rule: varint.induct)
  case (1 n)
  show ?case
  proof (cases "n < 128")
    case True
    then show ?thesis
      by (simp add: varint.simps [of n] low_byte_128 low_byte_127 Let_def)
  next
    case False
    then have v: "varint n = (of_nat (n mod 128) OR 0x80) # varint (n div 128)"
      by (simp add: varint.simps [of n])
    have pos: "0 < length (varint (n div 128))" by simp
    have n: "int (n mod 128) * m + int (n div 128) * (m * 128) = int n * m"
    proof -
      have "int n = int (n mod 128) + 128 * int (n div 128)"
        by (simp only: zdiv_int zmod_int) simp
      then show ?thesis by (metis distrib_right mult.assoc mult.commute)
    qed
    have cont: "Suc r < 4" "r < pl + 0"
      using "1.prems" pos unfolding v length_Cons by linarith+
    have "mqtt_decode_header_loop (varint n @ rest) (int pl) (int r) dl m =
      mqtt_decode_header_loop (varint (n div 128) @ rest) (int pl) (int (Suc r))
        (dl + int (n mod 128) * m) (m * 128)"
      using cont low_byte_cont_128 [of "of_nat (n mod 128)"]
      by (simp add: v low_byte_cont_127 Let_def add.commute)
    also have "\<dots> = Some (last (varint (n div 128)), int (Suc r + length (varint (n div 128))),
        dl + int (n mod 128) * m + int (n div 128) * (m * 128))"
      using "1.prems" False by (intro "1.IH") (simp_all add: v)
    finally show ?thesis using n by (simp add: v)
  qed
qed

lemma last_varint: "last (varint n) AND 128 = 0"
proof (induction n rule: varint.induct)
  case (1 n)
  then show ?case
    by (cases "n < 128") (simp_all add: varint.simps [of n] low_byte_128)
qed

lemma length_varint_le4: "n \<le> 268435455 \<Longrightarrow> length (varint n) \<le> 4"
  using length_varint [of n] by (simp add: mqtt_calc_fheader_length_def split: if_splits)

lemma decode_header_length_varint:
  assumes "n \<le> 268435455" "int (length (varint n)) \<le> pl + 1"
  shows "mqtt_decode_header_length (varint n @ rest) pl = Some (Inr (int (length (varint n)), int n))"
proof -
  have "pl = int (nat pl)" using assms(2) varint_ne [of n] by (cases "varint n") auto
  then show ?thesis
    using decode_header_loop_varint [of 0 n "nat pl" rest 0 1] assms last_varint [of n]
      length_varint_le4 [of n]
    by (simp add: mqtt_decode_header_length_def)
qed

subsection \<open>Reads behind the fixed header\<close>

lemma mem_read_behind:
  "0 \<le> i \<Longrightarrow> p = int (length pre) + i \<Longrightarrow> mem_read (pre @ m) p n = mem_read m i n"
  by (auto simp: mem_read_def nat_add_distrib)

lemma memory_clone_behind:
  "0 \<le> i \<Longrightarrow> p = int (length pre) + i \<Longrightarrow> memory_clone a (pre @ m) p k = memory_clone a m i k"
  by (simp add: memory_clone_def mem_read_behind split: option.split)

lemma decode_string_behind:
  "0 \<le> i \<Longrightarrow> p = int (length pre) + i \<Longrightarrow> mqtt_decode_string a (pre @ m) p = mqtt_decode_string a m i"
  by (simp add: mqtt_decode_string_def mem_read_behind memory_clone_behind [of "i + 2"])

text \<open>\<open>live m\<close>: the allocator answers every request with a block.\<close>

definition live :: "malloc \<Rightarrow> bool" where
  "live m \<longleftrightarrow> (\<forall>n. m n \<noteq> None)"

lemma live_zero [simp]: "live malloc_zero"
  by (simp add: live_def malloc_zero_def)

lemma live_clone: "live a \<Longrightarrow> memory_clone a m i k = map_option Some (mem_read m i (c_size k))"
proof -
  assume "live a"
  then obtain blk where "a (c_size (int (c_size k) + 1)) = Some blk"
    unfolding live_def by blast
  then show ?thesis
    by (cases "mem_read m i (c_size k)") (simp_all add: memory_clone_def)
qed

text \<open>The payload of a PUBLISH, read relative to the end of the fixed header.\<close>

definition publish_qos :: "byte \<Rightarrow> int" where
  "publish_qos b = (if b AND MQTT_OPT_QOS_1 \<noteq> 0 then 1 else if b AND MQTT_OPT_QOS_2 \<noteq> 0 then 2 else 0)"

definition parse_publish :: "malloc \<Rightarrow> malloc \<Rightarrow> byte \<Rightarrow> bytes \<Rightarrow> (int + publish_msg) option" where
  "parse_publish m1 m2 b body = do {
     (n, topic) \<leftarrow> mqtt_decode_string m1 body 0;
     let p = (if publish_qos b > 0 then n + 2 + 2 else n + 2);
     msg_id \<leftarrow> (if publish_qos b > 0 then map_option Some (mqtt_read_msg_id body (n + 2)) else Some None);
     payload \<leftarrow> memory_clone m2 body p (int (length body) - p);
     Some (Inr \<lparr>pub_qos = publish_qos b, pub_msg_id = msg_id, pub_topic = topic,
                pub_payload = payload, pub_payload_len = int (length body) - p\<rparr>) }"

lemma decode_string_nonneg: "mqtt_decode_string a m i = Some (n, t) \<Longrightarrow> 0 \<le> n"
  by (auto simp: mqtt_decode_string_def Let_def split: Option.bind_splits)

lemma process_publish_framed:
  assumes b: "b AND MQTT_GET_MSG_TYPE = MQTT_MSG_TYPE_PUBLISH"
    and body: "body \<noteq> []" "length body \<le> 268435455"
  shows "mqtt_msg_process_publish m1 m2 (framed b body) (int (length (framed b body))) =
    parse_publish m1 m2 b body"
proof -
  let ?h = "b # varint (length body)"
  have len: "\<not> int (length (framed b body)) \<le> 2"
    using body(1) varint_ne [of "length body"]
    by (cases body; cases "varint (length body)") (auto simp: framed_def)
  have hdr: "mqtt_decode_header_length (drop 1 (framed b body)) (int (length (framed b body)) - 1) =
      Some (Inr (int (length (varint (length body))), int (length body)))"
    by (simp add: framed_def decode_header_length_varint body(2))
  have pk: "peek (framed b body) 0 = Some b"
    by (simp add: framed_def peek_def)
  have "mqtt_decode_string m1 (framed b body) (1 + int (length (varint (length body)))) =
      mqtt_decode_string m1 body 0"
    unfolding framed_append [symmetric] by (rule decode_string_behind) simp_all
  moreover have "mqtt_read_msg_id (framed b body) (1 + int (length (varint (length body))) + (n + 2)) =
      mqtt_read_msg_id body (n + 2)" if "0 \<le> n" for n
    unfolding framed_append [symmetric] mqtt_read_msg_id_def
    by (subst mem_read_behind [of "n + 2"]) (use that in simp_all)
  moreover have "memory_clone m2 (framed b body) (1 + int (length (varint (length body))) + (n + 2)) k =
      memory_clone m2 body (n + 2) k" if "0 \<le> n" for n k
    unfolding framed_append [symmetric] by (rule memory_clone_behind) (use that in simp_all)
  moreover have "memory_clone m2 (framed b body) (1 + int (length (varint (length body))) + (n + 2) + 2) k =
      memory_clone m2 body (n + 2 + 2) k" if "0 \<le> n" for n k
    unfolding framed_append [symmetric] by (rule memory_clone_behind) (use that in simp_all)
  ultimately show ?thesis
    unfolding mqtt_msg_process_publish_def parse_publish_def if_not_P [OF len] pk hdr Let_def
      publish_qos_def [symmetric] Option.bind_lunit sum.case prod.case b
    by (auto simp: map_option_case diff_diff_eq dest: decode_string_nonneg
        intro!: Option.bind_cong [OF refl] split: option.split)
qed

subsection \<open>Round trips\<close>

lemma publish_byte1_type: "publish_byte1 qos retain AND MQTT_GET_MSG_TYPE = MQTT_MSG_TYPE_PUBLISH"
  by (simp add: publish_byte1_def wire_const)

lemma publish_qos_byte1: "publish_qos (publish_byte1 qos retain) = (if qos > 0 then 1 else 0)"
  by (simp add: publish_byte1_def publish_qos_def wire_const)

lemma publish_body_ne: "publish_body topic qos msg_id payload \<noteq> []"
  by (simp add: publish_body_def mqtt_string_def be16_def)

lemma decode_string_own:
  assumes "live a" "length s \<le> 65535" "i = int (length pre)"
  shows "mqtt_decode_string a (pre @ mqtt_string s @ rest) i = Some (int (length s), Some s)"
proof -
  have "mem_read (pre @ mqtt_string s @ rest) i 2 = Some (be16 (of_nat (length s)))"
    using assms(3) by (simp add: mqtt_string_def mem_read_def)
  moreover have "mem_read (pre @ mqtt_string s @ rest) (i + 2) (length s) = Some s"
    using assms(3) mem_read_cursor [of "i + 2" "pre @ be16 (of_nat (length s))" "length s" "s @ rest"]
    by (simp add: mqtt_string_def)
  ultimately show ?thesis
    using assms(1,2)
    by (simp add: mqtt_decode_string_def live_clone unsigned_of_nat take_bit_nat_eq_self c_size_def)
qed

lemma read_msg_id_own: "i = int (length pre) \<Longrightarrow> mqtt_read_msg_id (pre @ be16 n @ rest) i = Some n"
  by (simp add: mqtt_read_msg_id_def mem_read_cursor)

lemma clone_rest:
  assumes "live a" "i = int (length pre)" "k = int (length rest)" "length rest < 2 ^ 64"
  shows "memory_clone a (pre @ rest) i k = Some (Some rest)"
  using assms by (simp add: live_clone c_size_def mem_read_cursor)

lemma parse_publish_own:
  assumes "live m1" "live m2" "length topic \<le> 65535"
    and fits: "length (publish_body topic qos msg_id payload) \<le> 268435455"
  shows "parse_publish m1 m2 (publish_byte1 qos retain) (publish_body topic qos msg_id payload) =
    Some (Inr \<lparr>pub_qos = (if qos > 0 then 1 else 0), pub_msg_id = (if qos > 0 then Some msg_id else None),
               pub_topic = Some topic, pub_payload = Some payload, pub_payload_len = int (length payload)\<rparr>)"
proof -
  have small: "length payload < 2 ^ 64"
    using fits by (simp add: publish_body_def)
  have t: "mqtt_decode_string m1 (publish_body topic qos msg_id payload) 0 = Some (int (length topic), Some topic)"
    using decode_string_own [OF assms(1,3), of 0 "[]"] by (simp add: publish_body_def)
  show ?thesis
  proof (cases "qos > 0")
    case True
    then have i: "mqtt_read_msg_id (publish_body topic qos msg_id payload) (int (length topic) + 2) = Some msg_id"
      by (simp add: publish_body_def read_msg_id_own)
    have "memory_clone m2 (publish_body topic qos msg_id payload) (int (length topic) + 2 + 2) (int (length payload)) =
        Some (Some payload)"
      using clone_rest [OF assms(2) _ refl small, of _ "mqtt_string topic @ be16 msg_id"] True
      by (simp add: publish_body_def)
    with True t i show ?thesis
      by (simp add: parse_publish_def publish_qos_byte1 length_publish_body)
  next
    case False
    then have "memory_clone m2 (publish_body topic qos msg_id payload) (int (length topic) + 2) (int (length payload)) =
        Some (Some payload)"
      using clone_rest [OF assms(2) _ refl small, of "int (length topic) + 2" "mqtt_string topic"]
      by (simp add: publish_body_def add.commute)
    with False t show ?thesis
      by (simp add: parse_publish_def publish_qos_byte1 length_publish_body)
  qed
qed

lemma built_Inr: "built m pkt = Some (Inr (p, n)) \<Longrightarrow> p = pkt \<and> n = int (length pkt)"
  by (auto simp: built_def split: option.splits)

text \<open>C7: A PUBLISH the library builds is read back by the library's own processor: topic, payload
  and its length are recovered exactly, the message id exactly when the qos is positive, and every
  positive qos arrives as qos 1 (the builder only ever sets the qos 1 bit).\<close>

theorem publish_roundtrip:
  assumes m: "malloc_spec m" "live m1" "live m2" and topic: "length topic \<le> 65535"
    and fits: "length (publish_body topic qos msg_id payload) \<le> 268435455"
    and built: "mqtt_msg_build_publish m topic qos retain msg_id payload (int (length payload)) = Some (Inr (pkt, n))"
  shows "mqtt_msg_process_publish m1 m2 pkt n =
    Some (Inr \<lparr>pub_qos = (if qos > 0 then 1 else 0), pub_msg_id = (if qos > 0 then Some msg_id else None),
               pub_topic = Some topic, pub_payload = Some payload, pub_payload_len = int (length payload)\<rparr>)"
proof -
  have "pkt = publish_packet topic qos retain msg_id payload" "n = int (length pkt)"
    using built_Inr [OF built [unfolded build_publish_refines [OF m(1) topic fits]]] by simp_all
  then show ?thesis
    by (simp add: publish_packet_def process_publish_framed [OF publish_byte1_type publish_body_ne fits]
        parse_publish_own [OF m(2,3) topic fits])
qed

theorem publish_roundtrip_witness:
  "mqtt_msg_process_publish malloc_zero malloc_zero
     [0x33, 7, 0, 1, 0x74, 0x12, 0x34, 0x68, 0x69] 9 =
   Some (Inr \<lparr>pub_qos = 1, pub_msg_id = Some 0x1234, pub_topic = Some [0x74],
              pub_payload = Some [0x68, 0x69], pub_payload_len = 2\<rparr>)"
proof -
  have "mqtt_msg_build_publish malloc_zero [0x74] 1 1 0x1234 [0x68, 0x69] (int (length [0x68 :: byte, 0x69])) =
      Some (Inr ([0x33, 7, 0, 1, 0x74, 0x12, 0x34, 0x68, 0x69], 9))"
    by code_simp
  then show ?thesis
    using publish_roundtrip [of malloc_zero malloc_zero malloc_zero "[0x74]" 1 "0x1234" "[0x68, 0x69]" 1
        "[0x33, 7, 0, 1, 0x74, 0x12, 0x34, 0x68, 0x69]" 9]
    by (simp add: publish_body_def)
qed

text \<open>C19: The PUBLISH processor stays inside the packet it was given exactly when the topic length
  written in the packet (and the message id, for a positive qos) fits the remaining length: the
  source makes no such check, so every other packet is read out of bounds.\<close>

definition publish_fits :: "byte \<Rightarrow> bytes \<Rightarrow> bool" where
  "publish_fits b body \<longleftrightarrow> 2 \<le> length body \<and>
     2 + unat (swap16 (bytes_u16 (take 2 body))) + (if publish_qos b > 0 then 2 else 0) \<le> length body"

theorem process_publish_safe_iff:
  assumes m: "live m1" "live m2" and b: "b AND MQTT_GET_MSG_TYPE = MQTT_MSG_TYPE_PUBLISH"
    and body: "body \<noteq> []" "length body \<le> 268435455"
  shows "mqtt_msg_process_publish m1 m2 (framed b body) (int (length (framed b body))) \<noteq> None \<longleftrightarrow>
    publish_fits b body"
proof (cases "2 \<le> length body")
  case False
  then show ?thesis
    by (simp add: process_publish_framed [OF b body] parse_publish_def mqtt_decode_string_def
        mem_read_def publish_fits_def)
next
  case True
  let ?t = "swap16 (bytes_u16 (take 2 body))"
  obtain k where k: "uint ?t = int k" "unat ?t = k"
    by (rule that [of "unat ?t"]) simp_all
  moreover have "k < 65536"
    using uint_lt2p [of ?t] k(1) by simp
  ultimately have "c_size (int k) = k" by (simp add: c_size_nonneg)
  then have s: "mqtt_decode_string m1 body 0 =
      (if 2 + k \<le> length body then Some (int k, Some (take k (drop 2 body))) else None)"
    using True m k by (auto simp: mqtt_decode_string_def live_clone mem_read_def Let_def)
  have c: "memory_clone m2 body p (int (length body) - p) = Some (Some (drop (nat p) body))"
    if "0 \<le> p" "p \<le> int (length body)" for p
  proof -
    have "c_size (int (length body) - p) = nat (int (length body) - p)"
      using that body(2) by (intro c_size_nonneg) simp_all
    with that show ?thesis
      using m by (simp add: live_clone mem_read_def nat_diff_distrib)
  qed
  have r: "mqtt_read_msg_id body (int k + 2) = None \<longleftrightarrow> \<not> k + 4 \<le> length body"
    by (auto simp: mqtt_read_msg_id_def mem_read_def)
  show ?thesis
    using True c [of "int k + 2"] c [of "4 + int k"] s r
    by (cases "publish_qos b > 0")
      (auto simp: process_publish_framed [OF b body] parse_publish_def publish_fits_def k(2) Let_def)
qed

theorem process_publish_safe_iff_witness:
  "mqtt_msg_process_publish malloc_zero malloc_zero [0x30, 2, 0xFF, 0xFF] 4 = None \<and>
   mqtt_msg_process_publish malloc_zero malloc_zero [0x30, 2, 0, 0] 4 \<noteq> None"
proof -
  have f: "framed 0x30 [0xFF, 0xFF] = [0x30, 2, 0xFF, 0xFF]" "framed 0x30 [0, 0] = [0x30, 2, 0, 0]"
    by (simp_all add: framed_def varint.simps [of "Suc (Suc 0)"])
  have "\<not> publish_fits 0x30 [0xFF, 0xFF]" "publish_fits 0x30 [0, 0]"
    by (simp_all add: publish_fits_def publish_qos_def wire_const bytes_u16_def swap16_def)
  then show ?thesis
    using process_publish_safe_iff [of malloc_zero malloc_zero "0x30" "[0xFF, 0xFF]"]
      process_publish_safe_iff [of malloc_zero malloc_zero "0x30" "[0, 0]"]
    by (simp add: f wire_const)
qed

text \<open>When the remaining length of a PUBLISH exceeds 268435455, the largest value the format
  can carry, the builder takes a fixed-header length of -1 and, once the allocator gives it a
  block, writes the topic one byte before that block.\<close>

theorem build_publish_oversize:
  assumes m: "live m" and topic: "length topic \<le> 65535"
    and big: "268435455 < length (publish_body topic qos msg_id payload)"
    and int: "int (length (publish_body topic qos msg_id payload)) < 2 ^ 31"
  shows "mqtt_msg_build_publish m topic qos retain msg_id payload (int (length payload)) = None"
proof -
  note rem = length_publish_body [of topic qos msg_id payload, symmetric]
  have h: "mqtt_calc_fheader_length (int (length (publish_body topic qos msg_id payload))) = - 1"
    using big by (simp add: mqtt_calc_fheader_length_def)
  have w: "mem_write b (- 1) s = None" for b s
    by (simp add: mem_write_def)
  show ?thesis
    unfolding mqtt_msg_build_publish_def Let_def rem h mqtt_encode_string_def w
    using m by (auto simp: live_def split: option.split Option.bind_split)
qed

theorem build_publish_oversize_witness:
  "mqtt_msg_build_publish malloc_zero [0x74] 0 0 0 (replicate 268435456 0) 268435456 = None"
  using build_publish_oversize [of malloc_zero "[0x74]" 0 0 "replicate 268435456 0" 0]
  by (simp add: publish_body_def)

lemma build_puback_bytes:
  assumes "malloc_spec m"
  shows "mqtt_msg_build_puback m msg_id qos = built m ([MQTT_MSG_TYPE_PUBACK, 2] @ be16 msg_id)"
proof (cases "m 4")
  case None
  then show ?thesis by (simp add: mqtt_msg_build_puback_def built_def c_size_def)
next
  case (Some blk)
  then have "length blk = 4" using assms by (rule malloc_spec_length [rotated])
  then obtain a b c d where "blk = [a, b, c, d]"
    by (auto simp: length_Suc_conv eval_nat_numeral)
  with Some show ?thesis
    by (simp add: mqtt_msg_build_puback_def built_def c_size_def poke_def mem_write_def be16_def eval_nat_numeral)
qed

text \<open>The acknowledgement the library builds for a message id is read back by the processor as
  that same id.\<close>

theorem puback_roundtrip:
  assumes m: "malloc_spec m"
    and built: "mqtt_msg_build_puback m msg_id qos = Some (Inr (pkt, n))"
  shows "n = 4 \<and> mqtt_msg_process_puback pkt n = Some (Inr msg_id)"
proof -
  have p: "pkt = [MQTT_MSG_TYPE_PUBACK, 2] @ be16 msg_id" "n = int (length pkt)"
    using built_Inr [OF built [unfolded build_puback_bytes [OF m]]] by simp_all
  have "mqtt_read_msg_id pkt 2 = Some msg_id"
    using read_msg_id_own [of 2 "[MQTT_MSG_TYPE_PUBACK, 2]" msg_id "[]"] by (simp add: p)
  then show ?thesis
    using p by (simp add: mqtt_msg_process_puback_def peek_def wire_const)
qed

theorem puback_roundtrip_witness:
  "mqtt_msg_process_puback [0x40, 2, 0x12, 0x34] 4 = Some (Inr 0x1234)"
proof -
  have "mqtt_msg_build_puback malloc_zero 0x1234 1 = Some (Inr ([0x40, 2, 0x12, 0x34], 4))"
    by code_simp
  then show ?thesis
    using puback_roundtrip [of malloc_zero "0x1234" 1 "[0x40, 2, 0x12, 0x34]" 4] by simp
qed

text \<open>The answers of the CONNACK processor to a received packet of the length it says: 0, the
  answer the clients take for success, exactly for a CONNACK of length 4 whose return code is 0;
  the answer to the return code 1 (unacceptable protocol version) is that code, a positive number,
  and every other answer is a negative error code.\<close>

theorem connack_result:
  assumes "int (length data) = n" "data \<noteq> []"
  shows "\<exists>r. mqtt_msg_process_connack data n = Some r \<and>
    (r = 0 \<longleftrightarrow> n = 4 \<and> data ! 0 AND MQTT_GET_MSG_TYPE = MQTT_MSG_TYPE_CONNACK \<and> data ! 3 = 0) \<and>
    (0 < r \<longleftrightarrow> n = 4 \<and> data ! 0 AND MQTT_GET_MSG_TYPE = MQTT_MSG_TYPE_CONNACK \<and> data ! 3 = 1)"
proof (cases "n = 4")
  case False
  then show ?thesis by (simp add: mqtt_msg_process_connack_def err_code)
next
  case True
  then have "peek data 0 = Some (data ! 0)" "peek data 3 = Some (data ! 3)"
    using assms(1) by (simp_all add: peek_def)
  then show ?thesis
    using True by (simp add: mqtt_msg_process_connack_def err_code)
qed

theorem connack_result_witness:
  "mqtt_msg_process_connack [0x20, 2, 0, 1] 4 \<noteq> Some 0 \<and>
   mqtt_msg_process_connack [0x20, 2, 0, 0] 4 = Some 0"
  using connack_result [of "[0x20, 2, 0, 1]" 4] connack_result [of "[0x20, 2, 0, 0]" 4]
  by (auto simp: wire_const)

end
