(* ===== verification/Tr50_Platform.thy ===== *)
theory Tr50_Platform
  imports Tr50_Error
begin

section \<open>The platform interface (tr50/util/*.h)\<close>

text \<open>
  The library reaches the operating system through the functions of tr50/util, which the
  repository implements six times (linux, freebsd, win32, ils, he910, stub).  The MQTT layer is
  therefore a function of a record of those operations, over an arbitrary type \<open>'w\<close> of worlds that
  the operations read and change.  A socket handle is a number, 0 the NULL pointer.  \<open>None\<close> is a
  call that never returns or whose execution is undefined.  Linux_Tcp instantiates the record with
  the linux implementation.
\<close>

type_synonym handle = nat

definition c_int :: "int \<Rightarrow> int" where
  "c_int n = signed_take_bit 31 n"

lemma c_int_id: "- (2 ^ 31) \<le> n \<Longrightarrow> n < 2 ^ 31 \<Longrightarrow> c_int n = n"
  by (simp add: c_int_def signed_take_bit_int_eq_self)

record 'w platform =
  p_malloc :: "'w \<Rightarrow> malloc \<times> 'w"
  p_time_now :: "'w \<Rightarrow> int \<times> 'w"
  p_time_now_in_sec :: "'w \<Rightarrow> int \<times> 'w"
  p_tcp_connect :: "'w \<Rightarrow> bytes \<Rightarrow> int \<Rightarrow> int \<Rightarrow> ((int \<times> handle) \<times> 'w) option"
  p_tcp_connect_proxy :: "'w \<Rightarrow> bytes \<Rightarrow> int \<Rightarrow> int \<Rightarrow> int \<Rightarrow> bytes option \<Rightarrow> bytes option \<Rightarrow> bytes option \<Rightarrow>
     ((int \<times> handle) \<times> 'w) option"
  p_tcp_disconnect :: "'w \<Rightarrow> handle \<Rightarrow> (int \<times> 'w) option"
  p_tcp_send :: "'w \<Rightarrow> handle \<Rightarrow> bytes \<Rightarrow> int \<Rightarrow> (int \<times> 'w) option"
  p_tcp_recv :: "'w \<Rightarrow> handle \<Rightarrow> int \<Rightarrow> int \<Rightarrow> ((int \<times> bytes) \<times> 'w) option"

text \<open>The options of tr50/util/tcp.h and the proxy types of tr50/mqtt/mqtt.h.\<close>

definition TCP_DONT_SET_QUEUE_SIZES :: int where "TCP_DONT_SET_QUEUE_SIZES = 1"
definition TCP_USE_NODELAY :: int where "TCP_USE_NODELAY = 2"
definition TCP_OPTION_SECURE :: int where "TCP_OPTION_SECURE = 4"
definition MQTT_PROXY_TYPE_NONE :: int where "MQTT_PROXY_TYPE_NONE = 0"
definition MQTT_PROXY_TYPE_HTTP :: int where "MQTT_PROXY_TYPE_HTTP = 1"
definition MQTT_PROXY_TYPE_SOCK4 :: int where "MQTT_PROXY_TYPE_SOCK4 = 2"
definition MQTT_PROXY_TYPE_SOCK4A :: int where "MQTT_PROXY_TYPE_SOCK4A = 3"
definition MQTT_PROXY_TYPE_SOCK5 :: int where "MQTT_PROXY_TYPE_SOCK5 = 4"

text \<open>
  What the MQTT layer relies on.  \<open>pending w h\<close> is the byte stream the peer has still to deliver on
  the handle: a receive answers 0 with at least one and at most the requested number of bytes,
  taken from the front of that stream, or a negative code and takes nothing; reading the clock,
  allocating and sending do not touch the stream.
\<close>

locale transport =
  fixes p :: "'w platform" and pending :: "'w \<Rightarrow> handle \<Rightarrow> bytes"
  assumes recv_law: "\<lbrakk>p_tcp_recv p w h n t = Some ((ret, bs), w'); 0 < n; n < 2 ^ 31\<rbrakk> \<Longrightarrow>
      (ret = 0 \<and> bs \<noteq> [] \<and> int (length bs) \<le> n \<and> pending w h = bs @ pending w' h) \<or>
      (ret < 0 \<and> pending w' h = pending w h)"
    and malloc_law: "p_malloc p w = (m, w') \<Longrightarrow> malloc_spec m \<and> pending w' = pending w"
    and time_law: "p_time_now p w = (t, w') \<Longrightarrow> pending w' = pending w"
    and time_sec_law: "p_time_now_in_sec p w = (t, w') \<Longrightarrow> pending w' = pending w"
    and send_law: "p_tcp_send p w h bs t = Some (ret, w') \<Longrightarrow> pending w' = pending w"

end
