(* ===== verification/Linux_Os.thy ===== *)
theory Linux_Os
  imports Tr50_Platform
begin

section \<open>The operating system under the linux back end\<close>

text \<open>
  The state of the kernel, the allocator, the clock and OpenSSL as the files of src/util/linux
  call them.  What these answer is not in the repository, so it is an input: a script of answers
  per system call (a call whose script is used up answers with its usual success), a script of
  events per connection for what the peer sends, and clock ticks.  An \<open>ABSTRACT_SOCKET\<close> is kept as
  the words of its memory, because linux.tcp.c and linux.tcp_ssl.c declare that structure
  differently: linux.tcp.c has \<open>s, err, is_ssl, sslo\<close> and linux.tcp_ssl.c \<open>s, type, err, is_ssl,
  sslo\<close>.  On LP64 both are 24 bytes with \<open>sslo\<close> at offset 16.
\<close>

datatype syscall =
  Sys_socket | Sys_setsockopt | Sys_fcntl | Sys_gethostbyname | Sys_connect | Sys_select | Sys_isset_x
  | Sys_isset_w | Sys_getsockopt | Sys_so_error | Sys_close | Sys_send | Sys_errno
  | SSL_CTX_new | SSL_CTX_file | SSL_new | SSL_connect | SSL_write | SSL_pending | SSL_read | SSL_shutdown_flag

text \<open>\<open>RxData\<close>: bytes arrive.  \<open>RxTimeout\<close>: nothing arrives for as long as a \<open>select\<close> waits.
  The others: \<open>select\<close> fails, \<open>recv\<close> fails, the peer closed the connection.\<close>

datatype rx_event = RxData bytes | RxTimeout | RxSelectFail | RxRecvFail | RxShutdown

record abstract_socket =
  at0 :: int
  at4 :: int
  at8 :: int
  at12 :: int
  at16 :: handle

record ssl_ctx =
  ctx_passwd :: bytes
  ctx_file :: "bytes option"
  ctx_verify :: int

record os =
  os_ans :: "syscall \<Rightarrow> int list"
  os_sock :: "handle \<Rightarrow> abstract_socket option"
  os_next :: handle
  os_peers :: "rx_event list list"
  os_rx :: "handle \<Rightarrow> rx_event list"
  os_tx :: "(int \<times> bytes) list"
  os_ssl_tx :: "(handle \<times> bytes) list"
  os_time :: int
  os_ticks :: "nat list"
  os_oom :: "bool list"
  os_junk :: byte
  ssl_password :: bytes
  ssl_file :: bytes
  ssl_verify_peer :: int
  ssl_init :: int

definition sys :: "syscall \<Rightarrow> int \<Rightarrow> os \<Rightarrow> int \<times> os" where
  "sys c usual os =
     (case os_ans os c of
        [] \<Rightarrow> (usual, os)
      | x # xs \<Rightarrow> (x, os\<lparr>os_ans := (os_ans os)(c := xs)\<rparr>))"

definition errno :: "os \<Rightarrow> int \<times> os" where
  "errno os = sys Sys_errno 5 os"

subsection \<open>linux.memory.c and linux.time.c\<close>

definition linux_malloc :: "os \<Rightarrow> malloc \<times> os" where
  "linux_malloc os =
     (case os_oom os of
        [] \<Rightarrow> ((\<lambda>n. Some (replicate n (os_junk os))), os)
      | b # bs \<Rightarrow> ((if b then malloc_null else (\<lambda>n. Some (replicate n (os_junk os)))), os\<lparr>os_oom := bs\<rparr>))"

definition time_now :: "os \<Rightarrow> int \<times> os" where
  "time_now os =
     (case os_ticks os of
        [] \<Rightarrow> (os_time os, os)
      | d # ds \<Rightarrow> (os_time os + int d, os\<lparr>os_time := os_time os + int d, os_ticks := ds\<rparr>))"

definition time_now_in_sec :: "os \<Rightarrow> int \<times> os" where
  "time_now_in_sec os = (case time_now os of (t, os) \<Rightarrow> (t div 1000, os))"

subsection \<open>What the kernel does with a connection\<close>

fun rx_select :: "rx_event list \<Rightarrow> int \<times> rx_event list" where
  "rx_select [] = (0, [])"
| "rx_select (RxTimeout # es) = (0, es)"
| "rx_select (RxSelectFail # es) = (- 1, es)"
| "rx_select (RxData [] # es) = rx_select es"
| "rx_select (e # es) = (1, e # es)"

text \<open>A \<open>recv\<close> of at most \<open>n\<close> bytes: -1, 0 or the number of bytes, and the bytes.  It waits until
  something arrives, for ever when nothing does.\<close>

fun rx_recv :: "nat \<Rightarrow> rx_event list \<Rightarrow> ((int \<times> bytes) \<times> rx_event list) option" where
  "rx_recv n [] = None"
| "rx_recv n (RxTimeout # es) = rx_recv n es"
| "rx_recv n (RxSelectFail # es) = rx_recv n es"
| "rx_recv n (RxRecvFail # es) = Some ((- 1, []), es)"
| "rx_recv n (RxShutdown # es) = Some ((0, []), RxShutdown # es)"
| "rx_recv n (RxData bs # es) =
     (if bs = [] then rx_recv n es
      else Some ((int (min n (length bs)), take n bs), if length bs \<le> n then es else RxData (drop n bs) # es))"

fun rx_bytes :: "rx_event list \<Rightarrow> bytes" where
  "rx_bytes [] = []"
| "rx_bytes (RxData bs # es) = bs @ rx_bytes es"
| "rx_bytes (e # es) = rx_bytes es"

lemma rx_select_bytes: "rx_select es = (r, es') \<Longrightarrow> rx_bytes es' = rx_bytes es"
  by (induction es arbitrary: r es' rule: rx_select.induct) auto

lemma rx_recv_bytes:
  "rx_recv n es = Some ((r, bs), es') \<Longrightarrow> 0 < n \<Longrightarrow>
   (r = - 1 \<or> r = 0) \<and> bs = [] \<and> rx_bytes es' = rx_bytes es \<or>
   r = int (length bs) \<and> bs \<noteq> [] \<and> length bs \<le> n \<and> rx_bytes es = bs @ rx_bytes es'"
  by (induction n es arbitrary: r bs es' rule: rx_recv.induct) (auto split: if_splits)

end
