(* ===== verification/Linux_Ssl.thy ===== *)
theory Linux_Ssl
  imports Linux_Os
begin

section \<open>TLS sockets (util/linux/linux.tcp_ssl.c)\<close>

text \<open>
  The functions of linux.tcp_ssl.c on its own view of a socket: \<open>err\<close> at offset 8, \<open>is_ssl\<close> at
  offset 12.  OpenSSL is the scripted answers of Linux_Os; data written through \<open>SSL_write\<close> is kept
  in \<open>os_ssl_tx\<close>, apart from what the kernel is given in clear.  A \<open>_SSLO\<close> is represented by its
  address, which is the handle in \<open>sslo\<close>.
\<close>

definition SSL_BUFF :: int where "SSL_BUFF = 64512"
definition SSL_PASSWD_LEN :: nat where "SSL_PASSWD_LEN = 64"
definition SSL_VERIFY_PEER :: int where "SSL_VERIFY_PEER = 1"
definition SSL_VERIFY_FAIL_IF_NO_PEER_CERT :: int where "SSL_VERIFY_FAIL_IF_NO_PEER_CERT = 2"

definition upd_sock :: "handle \<Rightarrow> (abstract_socket \<Rightarrow> abstract_socket) \<Rightarrow> os \<Rightarrow> os" where
  "upd_sock h f os = os\<lparr>os_sock := (os_sock os)(h := map_option f (os_sock os h))\<rparr>"

definition ssl_set_err :: "handle \<Rightarrow> int \<Rightarrow> os \<Rightarrow> os" where
  "ssl_set_err h e = upd_sock h (at8_update (\<lambda>_. e))"

definition ssl_morph :: "handle \<Rightarrow> os \<Rightarrow> int \<times> os" where
  "ssl_morph h os = (if h = 0 then (ERR_TR50_BADHANDLE, os) else (0, upd_sock h (at12_update (\<lambda>_. 1)) os))"

text \<open>The loop of \<open>__ssl_send2\<close>.  \<open>SSL_write\<close> answers -1 or a number of bytes; the answer
  0x1409F07F of \<open>SSL_get_error\<close> makes the loop go round without progress.\<close>

partial_function (option) ssl_send_loop ::
  "handle \<Rightarrow> handle \<Rightarrow> bytes \<Rightarrow> int \<Rightarrow> int \<Rightarrow> int \<Rightarrow> os \<Rightarrow> (int \<times> os) option" where
  "ssl_send_loop h sslo buffer len timeout current_sent os =
     (let (r, os) = (if timeout > 0 then sys Sys_select 1 os else (1, os)) in
      if timeout > 0 \<and> r = 0 then Some (ERR_TR50_SOCK_TIMEOUT, ssl_set_err h ERR_TR50_SOCK_TIMEOUT os)
      else if timeout > 0 \<and> r = - 1 then Some (ERR_TR50_SOCK_SELECT_FAILED, os)
      else
        let n = (if len - current_sent > SSL_BUFF then SSL_BUFF else len - current_sent);
            (ret, os) = sys SSL_write n os;
            os = (if ret > 0 then os\<lparr>os_ssl_tx := os_ssl_tx os @
                    [(sslo, take (nat ret) (drop (nat current_sent) buffer))]\<rparr> else os)
        in if ret + current_sent = len then Some (0, os)
           else if ret = - 1 then
             (let (e, os) = sys Sys_errno 1 os in
              if e = 0x1409F07F then ssl_send_loop h sslo buffer len timeout current_sent os
              else Some (ERR_TR50_SSL_GENERIC, os))
           else ssl_send_loop h sslo buffer len timeout (current_sent + ret) os)"

definition ssl_send2 :: "os \<Rightarrow> handle \<Rightarrow> bytes \<Rightarrow> int \<Rightarrow> (int \<times> os) option" where
  "ssl_send2 os h buffer timeout =
     (case os_sock os h of
        None \<Rightarrow> None
      | Some so \<Rightarrow>
          if at16 so = 0 then Some (ERR_TR50_BADHANDLE, os)
          else if timeout < - 1 then Some (ERR_TR50_SOCK_OTHER, os)
          else ssl_send_loop h (at16 so) buffer (int (length buffer)) timeout 0 os)"

definition ssl_recv2 :: "os \<Rightarrow> handle \<Rightarrow> int \<Rightarrow> int \<Rightarrow> ((int \<times> bytes) \<times> os) option" where
  "ssl_recv2 os h len timeout =
     (case os_sock os h of
        None \<Rightarrow> None
      | Some so \<Rightarrow>
          if at16 so = 0 then Some ((ERR_TR50_BADHANDLE, []), os)
          else if timeout < - 1 then Some ((ERR_TR50_SOCK_OTHER, []), os)
          else
            let (pend, os) = sys SSL_pending 0 os;
                wait = pend = 0 \<and> timeout > 0;
                (r, es) = (if wait then rx_select (os_rx os h) else (1, os_rx os h));
                os = os\<lparr>os_rx := (os_rx os)(h := es)\<rparr>
            in if wait \<and> r = 0 then Some ((ERR_TR50_SOCK_TIMEOUT, []), ssl_set_err h ERR_TR50_SOCK_TIMEOUT os)
               else if wait \<and> r = - 1 then Some ((ERR_TR50_SOCK_OTHER, []), os)
               else case rx_recv (c_size len) es of
                 None \<Rightarrow> None
               | Some ((ret, bs), es) \<Rightarrow>
                   let os = os\<lparr>os_rx := (os_rx os)(h := es)\<rparr> in
                   if ret = - 1 then
                     (let (fl, os) = sys SSL_shutdown_flag 0 os in
                      if fl \<noteq> 0 then Some ((ERR_TR50_SOCK_SHUTDOWN, []), ssl_set_err h ERR_TR50_SOCK_SHUTDOWN os)
                      else Some ((ERR_TR50_SSL_GENERIC, []), os))
                   else if ret = 0
                   then Some ((ERR_TR50_SOCK_SHUTDOWN, []), ssl_set_err h ERR_TR50_SOCK_SHUTDOWN os)
                   else Some ((0, bs), os))"

definition ssl_ctx_create :: "os \<Rightarrow> (int + ssl_ctx) \<times> os" where
  "ssl_ctx_create os =
     (let (m, os) = linux_malloc os in
      case m 600 of
        None \<Rightarrow> (Inl ERR_TR50_MALLOC, os)
      | Some _ \<Rightarrow>
          (case sys SSL_CTX_new 1 os of (ctx, os) \<Rightarrow>
             if ctx = 0 then (Inl ERR_TR50_SSL_NOTINIT, os)
             else (Inr \<lparr>ctx_passwd = [], ctx_file = None, ctx_verify = 0\<rparr>, os)))"

definition ssl_ctx_set_passwd :: "ssl_ctx \<Rightarrow> bytes \<Rightarrow> int \<times> ssl_ctx" where
  "ssl_ctx_set_passwd ctx passwd = (0, ctx\<lparr>ctx_passwd := take SSL_PASSWD_LEN passwd\<rparr>)"

definition ssl_ctx_set_verify :: "ssl_ctx \<Rightarrow> int \<Rightarrow> int \<Rightarrow> int \<times> ssl_ctx" where
  "ssl_ctx_set_verify ctx require_peer_certificate verify_peer =
     (let mask = (0 :: int);
          mask = (if verify_peer \<noteq> 0 then mask OR SSL_VERIFY_PEER else mask);
          mask = (if require_peer_certificate \<noteq> 0 then mask OR SSL_VERIFY_FAIL_IF_NO_PEER_CERT else mask)
      in (0, ctx\<lparr>ctx_verify := mask\<rparr>))"

text \<open>The four OpenSSL calls answer 1 when they succeed.\<close>

definition ssl_ctx_set_packed_file :: "os \<Rightarrow> ssl_ctx \<Rightarrow> bytes \<Rightarrow> (int \<times> ssl_ctx) \<times> os" where
  "ssl_ctx_set_packed_file os ctx cfile =
     (let (a, os) = sys SSL_CTX_file 1 os in
      if a \<noteq> 1 then ((ERR_TR50_SSL_CTX, ctx), os)
      else let (b, os) = sys SSL_CTX_file 1 os in
        if b \<noteq> 1 then ((ERR_TR50_SSL_CTX, ctx), os)
        else let (c, os) = sys SSL_CTX_file 1 os in
          if c \<noteq> 1 then ((ERR_TR50_SSL_CTX, ctx), os)
          else let (d, os) = sys SSL_CTX_file 1 os in
            if d \<noteq> 1 then ((ERR_TR50_SSL_CTX, ctx), os)
            else ((0, ctx\<lparr>ctx_file := Some cfile\<rparr>), os))"

definition ssl_connect :: "os \<Rightarrow> handle \<Rightarrow> ssl_ctx \<Rightarrow> int \<times> os" where
  "ssl_connect os h ctx =
     (let (ret, os) = ssl_morph h os in
      if ret \<noteq> 0 then (ret, os)
      else
        let (m, os) = linux_malloc os in
        case m 536 of
          None \<Rightarrow> (ERR_TR50_BADHANDLE, upd_sock h (at16_update (\<lambda>_. 0)) os)
        | Some _ \<Rightarrow>
            let sslo = os_next os;
                os = upd_sock h (at16_update (\<lambda>_. sslo)) (os\<lparr>os_next := sslo + 1\<rparr>);
                (new, os) = sys SSL_new 1 os
            in if new = 0 then (ERR_TR50_SSL_CONNECT, os)
               else case sys SSL_connect 1 os of
                 (r, os) \<Rightarrow> if r \<le> 0 then (ERR_TR50_SSL_CONNECT, os) else (0, os))"

end
