(* ===== verification/Linux_Tcp.thy ===== *)
theory Linux_Tcp
  imports Linux_Ssl
begin

section \<open>TCP sockets (util/linux/linux.tcp.c)\<close>

text \<open>
  The functions of linux.tcp.c on its view of a socket: \<open>s\<close> at offset 0, \<open>err\<close> at offset 4,
  \<open>is_ssl\<close> at offset 8, \<open>sslo\<close> at offset 16.  The platform record of the linux build is
  \<open>linux_platform\<close>, and it is shown to be a \<open>transport\<close>.
\<close>

definition SOCKET_PROXY_SOCKS4 :: int where "SOCKET_PROXY_SOCKS4 = 1"
definition SOCKET_PROXY_SOCKS4A :: int where "SOCKET_PROXY_SOCKS4A = 2"
definition SOCKET_PROXY_SOCKS5 :: int where "SOCKET_PROXY_SOCKS5 = 3"
definition SOCKET_PROXY_HTTP :: int where "SOCKET_PROXY_HTTP = 4"
definition SOCKET_USE_NODELAY :: int where "SOCKET_USE_NODELAY = 1"
definition SOCKET_DONT_SET_QUEUE_SIZES :: int where "SOCKET_DONT_SET_QUEUE_SIZES = 2"
definition DTCPBUF :: int where "DTCPBUF = 65535"
definition TCP_DEFAULT_TIMEOUT :: int where "TCP_DEFAULT_TIMEOUT = 10000"

definition sock_set_err :: "handle \<Rightarrow> int \<Rightarrow> os \<Rightarrow> os" where
  "sock_set_err h e = upd_sock h (at4_update (\<lambda>_. e))"

text \<open>\<open>sock->err = errno\<close>\<close>

definition sock_errno :: "handle \<Rightarrow> os \<Rightarrow> os" where
  "sock_errno h os = (case errno os of (e, os) \<Rightarrow> sock_set_err h e os)"

definition tcp_ssl_config :: "os \<Rightarrow> bytes option \<Rightarrow> bytes option \<Rightarrow> int \<Rightarrow> int \<times> os" where
  "tcp_ssl_config os password file verify_peer =
     (0, os\<lparr>ssl_password := (case password of None \<Rightarrow> [] | Some p \<Rightarrow> take 127 p),
            ssl_file := (case file of None \<Rightarrow> [] | Some f \<Rightarrow> take 255 f),
            ssl_verify_peer := verify_peer\<rparr>)"

subsection \<open>Disconnect\<close>

text \<open>A freed socket is removed from the store.  When \<open>close\<close> fails the structure is kept (the
  source returns before it frees it).\<close>

definition tcp_disconnect :: "os \<Rightarrow> handle \<Rightarrow> (int \<times> os) option" where
  "tcp_disconnect os h =
     (if h = 0 then Some (ERR_TR50_BADHANDLE, os)
      else case os_sock os h of
        None \<Rightarrow> None
      | Some sock \<Rightarrow>
          if at0 sock = 0 then Some (ERR_TR50_SOCK_IS_ZERO, os\<lparr>os_sock := (os_sock os)(h := None)\<rparr>)
          else let (r, os) = (if at0 sock < 0 then (- 1, os) else sys Sys_close 0 os) in
            if r < 0 then Some (ERR_TR50_SOCK_OTHER, upd_sock h (at0_update (\<lambda>_. 0)) (sock_errno h os))
            else Some (0, os\<lparr>os_sock := (os_sock os)(h := None)\<rparr>))"

text \<open>The same on a socket that is live, its result not used.\<close>

definition sock_drop :: "handle \<Rightarrow> os \<Rightarrow> os" where
  "sock_drop h os = (case tcp_disconnect os h of Some (_, os) \<Rightarrow> os | None \<Rightarrow> os)"

subsection \<open>Connect\<close>

function socket_loop :: "nat \<Rightarrow> os \<Rightarrow> int \<times> nat \<times> os" where
  "socket_loop count os =
     (case sys Sys_socket 3 os of
        (s, os) \<Rightarrow> if s \<le> 0 then (if count < 10 then socket_loop (count + 1) os else (s, count + 1, os))
                   else (s, count, os))"
  by pat_completeness auto
termination by (relation "measure (\<lambda>(count, os). 11 - count)") auto

declare socket_loop.simps [simp del]

type_synonym connect_result = "(int \<times> handle) \<times> os"

text \<open>An error exit: note \<open>errno\<close>, close the socket, return the code.\<close>

definition sock_fail :: "handle \<Rightarrow> int \<Rightarrow> os \<Rightarrow> connect_result" where
  "sock_fail h code os = ((code, 0), sock_drop h (sock_errno h os))"

text \<open>A system call whose failure, when the call is made at all, ends the connect with \<open>code\<close>.\<close>

definition sock_try ::
  "bool \<Rightarrow> syscall \<Rightarrow> (int \<Rightarrow> bool) \<Rightarrow> int \<Rightarrow> handle \<Rightarrow> os \<Rightarrow> (os \<Rightarrow> connect_result) \<Rightarrow> connect_result" where
  "sock_try made c failed code h os k =
     (if made then (case sys c 0 os of (r, os) \<Rightarrow> if failed r then sock_fail h code os else k os)
      else k os)"

text \<open>A system call whose failure is only noted in \<open>sock->err\<close>.\<close>

definition sock_note :: "syscall \<Rightarrow> (int \<Rightarrow> bool) \<Rightarrow> handle \<Rightarrow> os \<Rightarrow> os" where
  "sock_note c failed h os = (case sys c 0 os of (r, os) \<Rightarrow> if failed r then sock_errno h os else os)"

text \<open>\<open>_tcp_connect_ssl\<close>: only the results of creating the context and of the handshake decide.\<close>

definition tcp_connect_ssl :: "os \<Rightarrow> handle \<Rightarrow> int \<times> os" where
  "tcp_connect_ssl os h =
     (let os = (if ssl_init os \<noteq> 1 then os\<lparr>ssl_init := 1\<rparr> else os) in
      case ssl_ctx_create os of
        (Inl ret, os) \<Rightarrow> (ret, os)
      | (Inr ctx, os) \<Rightarrow>
          let ctx = (if ssl_password os \<noteq> [] then snd (ssl_ctx_set_passwd ctx (ssl_password os)) else ctx);
              (ctx, os) = (if ssl_file os \<noteq> []
                           then (case ssl_ctx_set_packed_file os ctx (ssl_file os) of ((ret, ctx), os) \<Rightarrow> (ctx, os))
                           else (ctx, os));
              ctx = (if ssl_verify_peer os \<noteq> 0 then snd (ssl_ctx_set_verify ctx 1 1) else ctx)
          in ssl_connect os h ctx)"

text \<open>The connection is made: read \<open>SO_ERROR\<close>, start TLS when asked, give the handle.  The next
  script of \<open>os_peers\<close> says what the peer of this connection sends.\<close>

definition tcp_connected :: "handle \<Rightarrow> int \<Rightarrow> os \<Rightarrow> connect_result" where
  "tcp_connected h options os =
     sock_try True Sys_getsockopt (\<lambda>r. r < 0) ERR_TR50_SOCK_GETSOCKOPT_FAILED h os (\<lambda>os.
       case sys Sys_so_error 0 os of (err, os) \<Rightarrow>
         if err \<noteq> 0 then ((ERR_TR50_SOCK_OTHER, 0), sock_drop h (sock_set_err h err os))
         else
           let os = os\<lparr>os_rx := (os_rx os)(h := (case os_peers os of [] \<Rightarrow> [] | es # _ \<Rightarrow> es)),
                       os_peers := drop 1 (os_peers os)\<rparr>;
               (ret, os) = (if options AND TCP_OPTION_SECURE \<noteq> 0 then tcp_connect_ssl os h else (0, os))
           in if ret \<noteq> 0 then ((ret, 0), sock_drop h os) else ((0, h), os))"

definition tcp_connect :: "os \<Rightarrow> bytes \<Rightarrow> int \<Rightarrow> int \<Rightarrow> connect_result" where
  "tcp_connect os addr port options =
     (case linux_malloc os of (m, os) \<Rightarrow>
      case m 24 of
        None \<Rightarrow> ((ERR_TR50_MALLOC, 0), os)
      | Some _ \<Rightarrow>
        let h = os_next os;
            os = os\<lparr>os_next := h + 1,
                    os_sock := (os_sock os)(h := Some \<lparr>at0 = 0, at4 = 0, at8 = 0, at12 = 0, at16 = 0\<rparr>)\<rparr>
        in case socket_loop 0 os of (s, count, os) \<Rightarrow>
        let os = upd_sock h (at0_update (\<lambda>_. s)) os
        in if count \<ge> 10 then sock_fail h ERR_TR50_SOCK_SOCKET_FAILED os
        else
        sock_try (options AND SOCKET_USE_NODELAY = SOCKET_USE_NODELAY) Sys_setsockopt (\<lambda>r. r \<noteq> 0)
          ERR_TR50_SOCK_SETSOCKOPT_FAILED h os (\<lambda>os.
        sock_try True Sys_setsockopt (\<lambda>r. r \<noteq> 0) ERR_TR50_SOCK_SETSOCKOPT_FAILED h os (\<lambda>os.
        let os = sock_note Sys_setsockopt (\<lambda>r. r \<noteq> 0) h os in
        sock_try True Sys_setsockopt (\<lambda>r. r \<noteq> 0) ERR_TR50_SOCK_SETSOCKOPT_FAILED h os (\<lambda>os.
        sock_try (options AND SOCKET_DONT_SET_QUEUE_SIZES = SOCKET_DONT_SET_QUEUE_SIZES) Sys_setsockopt
          (\<lambda>r. r \<noteq> 0) ERR_TR50_SOCK_SETSOCKOPT_FAILED h os (\<lambda>os.
        sock_try (options AND SOCKET_DONT_SET_QUEUE_SIZES = SOCKET_DONT_SET_QUEUE_SIZES) Sys_setsockopt
          (\<lambda>r. r \<noteq> 0) ERR_TR50_SOCK_SETSOCKOPT_FAILED h os (\<lambda>os.
        case sys Sys_fcntl 0 os of (_, os) \<Rightarrow>
        let os = sock_note Sys_fcntl (\<lambda>r. r \<noteq> 0) h os in
        case sys Sys_fcntl 2 os of (fmask, os) \<Rightarrow>
        sock_try True Sys_fcntl (\<lambda>r. r < 0) ERR_TR50_SOCK_FNCTL_FAILED h os (\<lambda>os.
        case sys Sys_gethostbyname 0 os of (ret, os) \<Rightarrow>
        if ret \<noteq> 0 then ((ERR_TR50_SOCK_HOSTNOTFOUND, 0),
          sock_drop h (sock_set_err h ERR_TR50_SOCK_HOSTNOTFOUND os))
        else
        case sys Sys_connect 0 os of (ret, os) \<Rightarrow>
        case (if ret < 0 then errno os else (115, os)) of (e, os) \<Rightarrow>
        if ret < 0 \<and> e \<noteq> 115 then ((ERR_TR50_SOCK_CONNECT_FAILED, 0), sock_drop h (sock_set_err h e os))
        else
        sock_try True Sys_fcntl (\<lambda>r. r < 0) ERR_TR50_SOCK_FNCTL_FAILED h os (\<lambda>os.
        case sys Sys_select 1 os of (many, os) \<Rightarrow>
        if many = 0 then ((ERR_TR50_TIMEOUT, 0), sock_drop h (sock_set_err h ERR_TR50_TIMEOUT os))
        else if many < 0 then sock_fail h ERR_TR50_SOCK_SELECT_FAILED os
        else
        sock_try True Sys_isset_x (\<lambda>r. r \<noteq> 0) ERR_TR50_SOCK_CONNECT_FAILED h os (\<lambda>os.
        case sys Sys_isset_w 1 os of (w, os) \<Rightarrow>
        if w \<noteq> 0 then tcp_connected h options os
        else ((ERR_TR50_SOCK_OTHER, 0), sock_drop h os))))))))))"

text \<open>
  \<open>_tcp_connect_proxy\<close>.  The proxy's port goes into a 64-byte buffer (a longer name overflows it)
  and \<open>timeout\<close> where the port is expected.  Once connected, the proxy set-up functions and
  \<open>_tcp_disconnect\<close> are given \<open>sock\<close>, the address of the caller's pointer, where they expect the
  socket: they read a socket structure from a variable that is not one, which has no defined result.
\<close>

definition tcp_connect_proxy ::
  "os \<Rightarrow> bytes \<Rightarrow> int \<Rightarrow> int \<Rightarrow> int \<Rightarrow> bytes option \<Rightarrow> bytes option \<Rightarrow> bytes option \<Rightarrow> connect_result option" where
  "tcp_connect_proxy os addr port options proxy_type proxy_addr proxy_username proxy_password =
     (case proxy_addr of
        None \<Rightarrow> None
      | Some pa \<Rightarrow>
          let buffer = (if 0x3A \<in> set pa then Some pa
                        else let s = pa @ (if proxy_type = SOCKET_PROXY_HTTP then cstr '':80'' else cstr '':1080'')
                             in if length s < 64 then Some s else None)
          in case buffer of
               None \<Rightarrow> None
             | Some b \<Rightarrow>
                 (case tcp_connect os b TCP_DEFAULT_TIMEOUT SOCKET_USE_NODELAY of
                    ((ret, h), os) \<Rightarrow> if ret \<noteq> 0 then Some ((ERR_TR50_PROXY_CONN_FAILED, 0), os) else None))"

subsection \<open>Send and receive\<close>

definition kernel_send :: "int \<Rightarrow> os \<Rightarrow> int \<times> os" where
  "kernel_send n os = (case sys Sys_send n os of (x, os) \<Rightarrow> (if x < 0 then - 1 else min x n, os))"

partial_function (option) tcp_send_loop ::
  "handle \<Rightarrow> int \<Rightarrow> bytes \<Rightarrow> int \<Rightarrow> int \<Rightarrow> os \<Rightarrow> (int \<times> os) option" where
  "tcp_send_loop h fd buffer timeout current_sent os =
     (let len = int (length buffer);
          (r, os) = (if timeout > 0 then sys Sys_select 1 os else (1, os)) in
      if timeout > 0 \<and> r = 0 then Some (ERR_TR50_SOCK_TIMEOUT, sock_set_err h ERR_TR50_SOCK_TIMEOUT os)
      else if timeout > 0 \<and> r = - 1 then Some (ERR_TR50_SOCK_SELECT_FAILED, sock_errno h os)
      else
        let n = (if len - current_sent > DTCPBUF then DTCPBUF else len - current_sent);
            (ret, os) = kernel_send n os;
            os = (if ret > 0 then os\<lparr>os_tx := os_tx os @
                    [(fd, take (nat ret) (drop (nat current_sent) buffer))]\<rparr> else os)
        in if ret + current_sent = len then Some (0, os)
           else if ret = - 1 then Some (ERR_TR50_SOCK_SEND_FAILED, sock_errno h os)
           else tcp_send_loop h fd buffer timeout (current_sent + ret) os)"

definition tcp_send :: "os \<Rightarrow> handle \<Rightarrow> bytes \<Rightarrow> int \<Rightarrow> (int \<times> os) option" where
  "tcp_send os h buffer timeout =
     (if h = 0 then Some (ERR_TR50_BADHANDLE, os)
      else case os_sock os h of
        None \<Rightarrow> None
      | Some sock \<Rightarrow>
          if at8 sock \<noteq> 0 then ssl_send2 os h buffer timeout
          else if timeout < - 1 then Some (ERR_TR50_SOCK_OTHER, sock_errno h os)
          else tcp_send_loop h (at0 sock) buffer timeout 0 os)"

definition set_rx :: "handle \<Rightarrow> rx_event list \<Rightarrow> os \<Rightarrow> os" where
  "set_rx h es os = os\<lparr>os_rx := (os_rx os)(h := es)\<rparr>"

definition tcp_recv :: "os \<Rightarrow> handle \<Rightarrow> int \<Rightarrow> int \<Rightarrow> ((int \<times> bytes) \<times> os) option" where
  "tcp_recv os h len timeout =
     (if h = 0 then Some ((ERR_TR50_BADHANDLE, []), os)
      else case os_sock os h of
        None \<Rightarrow> None
      | Some sock \<Rightarrow>
          if at8 sock \<noteq> 0 then ssl_recv2 os h len timeout
          else if timeout < - 1 then Some ((ERR_TR50_SOCK_BAD_TIMEOUT, []), sock_errno h os)
          else
            let (r, es) = (if timeout > 0 then rx_select (os_rx os h) else (1, os_rx os h));
                os = set_rx h es os
            in if timeout > 0 \<and> r = 0
               then Some ((ERR_TR50_SOCK_TIMEOUT, []), sock_set_err h ERR_TR50_SOCK_TIMEOUT os)
               else if timeout > 0 \<and> r = - 1 then Some ((ERR_TR50_SOCK_SELECT_FAILED, []), sock_errno h os)
               else case rx_recv (c_size len) es of
                 None \<Rightarrow> None
               | Some ((ret, bs), es) \<Rightarrow>
                   let os = set_rx h es os in
                   if ret = - 1 then Some ((ERR_TR50_SOCK_RECV_FAILED, []), sock_errno h os)
                   else if ret = 0
                   then Some ((ERR_TR50_SOCK_SHUTDOWN, []), sock_set_err h ERR_TR50_SOCK_SHUTDOWN os)
                   else Some ((0, bs), os))"

definition linux_platform :: "os platform" where
  "linux_platform = \<lparr>
     p_malloc = linux_malloc,
     p_time_now = time_now,
     p_time_now_in_sec = time_now_in_sec,
     p_tcp_connect = (\<lambda>os addr port options. Some (tcp_connect os addr port options)),
     p_tcp_connect_proxy = tcp_connect_proxy,
     p_tcp_disconnect = tcp_disconnect,
     p_tcp_send = tcp_send,
     p_tcp_recv = tcp_recv\<rparr>"

subsection \<open>The linux back end is a transport\<close>

lemma rx_frame [simp]:
  "os_rx (snd (sys c u os)) = os_rx os"
  "os_rx (upd_sock h f os) = os_rx os"
  "os_rx (sock_set_err h e os) = os_rx os"
  "os_rx (ssl_set_err h e os) = os_rx os"
  "os_rx (sock_errno h os) = os_rx os"
  "os_rx (snd (linux_malloc os)) = os_rx os"
  "os_rx (snd (time_now os)) = os_rx os"
  "os_rx (snd (time_now_in_sec os)) = os_rx os"
  "os_rx (snd (kernel_send n os)) = os_rx os"
  by (auto simp: sys_def upd_sock_def sock_set_err_def ssl_set_err_def sock_errno_def errno_def
      linux_malloc_def time_now_def time_now_in_sec_def kernel_send_def split: list.split prod.split)

lemma rx_frame_result:
  "sys c u os = (x, os') \<Longrightarrow> os_rx os' = os_rx os"
  "linux_malloc os = (m, os') \<Longrightarrow> os_rx os' = os_rx os"
  "time_now os = (t, os') \<Longrightarrow> os_rx os' = os_rx os"
  "time_now_in_sec os = (t, os') \<Longrightarrow> os_rx os' = os_rx os"
  "kernel_send n os = (x, os') \<Longrightarrow> os_rx os' = os_rx os"
  using rx_frame(1,6-9) by (metis snd_conv)+

lemma set_rx_apply [simp]: "os_rx (set_rx h es os) h = es"
  by (simp add: set_rx_def)

lemma tcp_send_loop_rx:
  assumes r: "tcp_send_loop h fd buffer timeout k os = Some r"
  shows "os_rx (snd r) = os_rx os"
proof (rule tcp_send_loop.raw_induct [where P = "\<lambda>_ _ _ _ _ os r. os_rx (snd r) = os_rx os",
      OF _ r], goal_cases)
  case (1 f h fd buffer timeout k os r)
  then show ?case
    by (auto simp: Let_def split: prod.splits if_splits dest!: rx_frame_result)
qed

lemma ssl_send_loop_rx:
  assumes r: "ssl_send_loop h sslo buffer len timeout k os = Some r"
  shows "os_rx (snd r) = os_rx os"
proof (rule ssl_send_loop.raw_induct [where P = "\<lambda>_ _ _ _ _ _ os r. os_rx (snd r) = os_rx os",
      OF _ r], goal_cases)
  case (1 f h sslo buffer len timeout k os r)
  then show ?case
    by (auto simp: Let_def split: prod.splits if_splits dest!: rx_frame_result)
qed

lemma tcp_send_rx: "tcp_send os h buffer timeout = Some (ret, os') \<Longrightarrow> os_rx os' = os_rx os"
  by (auto simp: tcp_send_def ssl_send2_def split: if_splits option.splits
      dest: tcp_send_loop_rx ssl_send_loop_rx)

lemma linux_malloc_spec: "linux_malloc os = (m, os') \<Longrightarrow> malloc_spec m"
  by (auto simp: linux_malloc_def malloc_spec_def malloc_null_def split: list.splits if_splits)

text \<open>What the answer \<open>x\<close> of a receive on the stream \<open>B\<close> may be, \<open>es\<close> being what is left.\<close>

definition recv_ok :: "bytes \<Rightarrow> int \<Rightarrow> int \<Rightarrow> bytes \<Rightarrow> rx_event list \<Rightarrow> bool" where
  "recv_ok B n ret bs es \<longleftrightarrow> (ret = 0 \<and> bs \<noteq> [] \<and> int (length bs) \<le> n \<and> B = bs @ rx_bytes es) \<or> (ret < 0 \<and> rx_bytes es = B)"

lemma recv_ok_error: "rx_bytes es = B \<Longrightarrow> ret < 0 \<Longrightarrow> recv_ok B n ret bs es"
  by (simp add: recv_ok_def)

lemma recv_ok_kernel:
  assumes "rx_recv (c_size n) es = Some ((k, bs), es')" "rx_bytes es = B" "0 < n" "n < 2 ^ 31"
  shows "if k = - 1 \<or> k = 0 then rx_bytes es' = B else recv_ok B n 0 bs es'"
proof -
  have "c_size n = nat n" "0 < nat n" using assms(3,4) by (simp_all add: c_size_nonneg)
  then show ?thesis using assms(1,2) by (auto simp: recv_ok_def dest!: rx_recv_bytes)
qed

lemma ssl_recv2_law:
  assumes r: "ssl_recv2 os h n t = Some ((ret, bs), os')" and n: "0 < n" "n < 2 ^ 31"
  shows "recv_ok (rx_bytes (os_rx os h)) n ret bs (os_rx os' h)"
proof -
  let ?B = "rx_bytes (os_rx os h)"
  obtain so where so: "os_sock os h = Some so" using r by (cases "os_sock os h") (auto simp: ssl_recv2_def)
  show ?thesis
  proof (cases "at16 so = 0 \<or> t < - 1")
    case True
    then show ?thesis using r so by (auto simp: ssl_recv2_def err_code intro!: recv_ok_error split: if_splits)
  next
    case False
    obtain pend os1 where p: "sys SSL_pending 0 os = (pend, os1)" by fastforce
    obtain a es where a: "(if pend = 0 \<and> t > 0 then rx_select (os_rx os1 h) else (1, os_rx os1 h)) = (a, es)" by fastforce
    have B: "rx_bytes es = ?B"
      using a rx_frame_result(1) [OF p] by (auto split: if_splits dest: rx_select_bytes)
    show ?thesis
    proof (cases "pend = 0 \<and> t > 0 \<and> (a = 0 \<or> a = - 1)")
      case True
      then show ?thesis using r so False p a B by (auto simp: ssl_recv2_def err_code intro!: recv_ok_error)
    next
      case go: False
      obtain k bs' es' where k: "rx_recv (c_size n) es = Some ((k, bs'), es')"
        using r so False p a go by (auto simp: ssl_recv2_def Let_def split: option.splits)
      note K = recv_ok_kernel [OF k B n]
      show ?thesis
      proof (cases "k = - 1 \<or> k = 0")
        case True
        then show ?thesis
          using r so False p a go k K
          by (auto simp: ssl_recv2_def Let_def err_code intro!: recv_ok_error split: if_splits prod.splits dest!: rx_frame_result)
      next
        case data: False
        then have "ret = 0 \<and> bs = bs' \<and> os_rx os' h = es'"
          using r so False p a go k by (auto simp: ssl_recv2_def Let_def split: if_splits)
        then show ?thesis using K data by simp
      qed
    qed
  qed
qed

lemma tcp_recv_law:
  assumes r: "tcp_recv os h n t = Some ((ret, bs), os')" and n: "0 < n" "n < 2 ^ 31"
  shows "recv_ok (rx_bytes (os_rx os h)) n ret bs (os_rx os' h)"
proof (cases "h = 0 \<or> at8 (the (os_sock os h)) \<noteq> 0 \<or> t < - 1")
  case True
  then show ?thesis
    using r ssl_recv2_law [OF _ n] by (auto simp: tcp_recv_def err_code intro!: recv_ok_error split: if_splits option.splits)
next
  case False
  then obtain sock where so: "os_sock os h = Some sock" "at8 sock = 0"
    using r by (auto simp: tcp_recv_def split: option.splits)
  obtain a es where a: "(if t > 0 then rx_select (os_rx os h) else (1, os_rx os h)) = (a, es)" by fastforce
  have B: "rx_bytes es = rx_bytes (os_rx os h)" using a by (auto split: if_splits dest: rx_select_bytes)
  show ?thesis
  proof (cases "t > 0 \<and> (a = 0 \<or> a = - 1)")
    case True
    then show ?thesis using r so False a B by (auto simp: tcp_recv_def err_code intro!: recv_ok_error)
  next
    case go: False
    obtain k bs' es' where k: "rx_recv (c_size n) es = Some ((k, bs'), es')"
      using r so False a go by (auto simp: tcp_recv_def Let_def split: option.splits)
    note K = recv_ok_kernel [OF k B n]
    show ?thesis
    proof (cases "k = - 1 \<or> k = 0")
      case True
      then show ?thesis
        using r so False a go k K by (auto simp: tcp_recv_def Let_def err_code intro!: recv_ok_error split: if_splits)
    next
      case data: False
      then have "ret = 0 \<and> bs = bs' \<and> os_rx os' h = es'"
        using r so False a go k by (auto simp: tcp_recv_def Let_def split: if_splits)
      then show ?thesis using K data by simp
    qed
  qed
qed

interpretation linux: transport linux_platform "\<lambda>os h. rx_bytes (os_rx os h)"
proof
  show "(ret = 0 \<and> bs \<noteq> [] \<and> int (length bs) \<le> n \<and> rx_bytes (os_rx os h) = bs @ rx_bytes (os_rx os' h)) \<or>
      (ret < 0 \<and> rx_bytes (os_rx os' h) = rx_bytes (os_rx os h))"
    if "p_tcp_recv linux_platform os h n t = Some ((ret, bs), os')" "0 < n" "n < 2 ^ 31" for os h n t ret bs os'
    using tcp_recv_law [of os h n t ret bs os'] that by (simp add: linux_platform_def recv_ok_def)
qed (auto simp: linux_platform_def dest: rx_frame_result linux_malloc_spec tcp_send_rx)

subsection \<open>The flag that selects TLS\<close>

text \<open>\<open>clear h os\<close>: the socket is live and linux.tcp.c reads its \<open>is_ssl\<close> as 0.  The rules below walk
  through \<open>_tcp_connect\<close>: \<open>clear_result\<close> says that a connect that answers 0 answers this handle, whose
  stream is the one the next peer sends, and
  leaves it in that state.\<close>

definition clear :: "handle \<Rightarrow> os \<Rightarrow> bool" where
  "clear h os \<longleftrightarrow> (\<exists>sock. os_sock os h = Some sock \<and> at8 sock = 0)"

definition connecting :: "rx_event list list \<Rightarrow> handle \<Rightarrow> os \<Rightarrow> bool" where
  "connecting ps h os \<longleftrightarrow> clear h os \<and> os_peers os = ps"

definition first_peer :: "rx_event list list \<Rightarrow> rx_event list" where
  "first_peer ps = (case ps of [] \<Rightarrow> [] | es # _ \<Rightarrow> es)"

definition clear_result :: "rx_event list list \<Rightarrow> handle \<Rightarrow> connect_result \<Rightarrow> bool" where
  "clear_result ps h r \<longleftrightarrow>
     (fst (fst r) = 0 \<longrightarrow> snd (fst r) = h \<and> clear h (snd r) \<and> os_rx (snd r) h = first_peer ps)"

lemma peers_frame:
  "sys c u os = (x, os') \<Longrightarrow> os_peers os' = os_peers os"
  "linux_malloc os = (m, os') \<Longrightarrow> os_peers os' = os_peers os"
  by (auto simp: sys_def linux_malloc_def split: list.splits)

lemma peers_simps [simp]:
  "os_peers (upd_sock h f os) = os_peers os"
  "os_peers (sock_set_err h e os) = os_peers os"
  by (simp_all add: upd_sock_def sock_set_err_def)

lemma peers_errno [simp]: "os_peers (sock_errno h os) = os_peers os"
  by (auto simp: sock_errno_def errno_def split: prod.split dest: peers_frame)

lemma clear_sys: "sys c u os = (x, os') \<Longrightarrow> clear h os' = clear h os"
  by (auto simp: sys_def clear_def split: list.splits)

lemma clear_malloc: "linux_malloc os = (x, os') \<Longrightarrow> clear h os' = clear h os"
  by (auto simp: linux_malloc_def clear_def split: list.splits)

lemma clear_upd:
  "clear h (upd_sock h (at0_update f) os) = clear h os"
  "clear h (upd_sock h (at4_update f) os) = clear h os"
  "clear h (upd_sock h (at12_update f) os) = clear h os"
  "clear h (upd_sock h (at16_update g) os) = clear h os"
  by (auto simp: clear_def upd_sock_def)

lemma clear_set_err [simp]: "clear h (sock_set_err h e os) = clear h os"
  by (simp add: sock_set_err_def clear_upd)

lemma clear_errno [simp]: "clear h (sock_errno h os) = clear h os"
  by (auto simp: sock_errno_def errno_def clear_sys split: prod.split)

lemma clear_note [simp]: "clear h (sock_note c failed h os) = clear h os"
  by (auto simp: sock_note_def clear_sys split: prod.split)

lemma connecting_sys: "sys c u os = (x, os') \<Longrightarrow> connecting ps h os' = connecting ps h os"
  by (simp add: connecting_def clear_sys peers_frame)

lemma connecting_note [simp]: "connecting ps h (sock_note c failed h os) = connecting ps h os"
  by (auto simp: sock_note_def connecting_def clear_sys peers_frame split: prod.split)

lemma clear_fail: "code \<noteq> 0 \<Longrightarrow> clear_result ps h ((code, 0), os)"
  by (simp add: clear_result_def)

lemma clear_sock_fail: "code \<noteq> 0 \<Longrightarrow> clear_result ps h (sock_fail h' code os)"
  by (simp add: clear_result_def sock_fail_def)

lemma clear_case_sys:
  "connecting ps h os \<Longrightarrow> (\<And>x os'. connecting ps h os' \<Longrightarrow> clear_result ps h (k x os')) \<Longrightarrow>
   clear_result ps h (case sys c u os of (x, os') \<Rightarrow> k x os')"
  by (auto split: prod.split dest: connecting_sys)

lemma clear_case_errno:
  "connecting ps h os \<Longrightarrow> (\<And>x os'. connecting ps h os' \<Longrightarrow> clear_result ps h (k x os')) \<Longrightarrow>
   clear_result ps h (case (if b then errno os else (e, os)) of (x, os') \<Rightarrow> k x os')"
  by (auto simp: errno_def split: prod.split dest: connecting_sys)

lemma clear_try:
  "code \<noteq> 0 \<Longrightarrow> connecting ps h os \<Longrightarrow> (\<And>os. connecting ps h os \<Longrightarrow> clear_result ps h (k os)) \<Longrightarrow>
   clear_result ps h (sock_try made c failed code h os k)"
  by (auto simp: sock_try_def clear_sock_fail split: prod.split dest: connecting_sys)

lemma clear_if:
  "(b \<Longrightarrow> clear_result ps h x) \<Longrightarrow> (\<not> b \<Longrightarrow> clear_result ps h y) \<Longrightarrow> clear_result ps h (if b then x else y)"
  by simp

lemma clear_ssl_connect: "ssl_connect os h ctx = (r, os') \<Longrightarrow> clear h os \<Longrightarrow> clear h os'"
proof -
  have nx: "clear h (os\<lparr>os_next := n\<rparr>) = clear h os" for os n
    by (simp add: clear_def)
  show "ssl_connect os h ctx = (r, os') \<Longrightarrow> clear h os \<Longrightarrow> clear h os'"
    by (auto simp: ssl_connect_def ssl_morph_def Let_def nx clear_upd err_code dest!: clear_sys clear_malloc
        split: if_splits prod.splits option.splits)
qed

lemma clear_ctx_create: "ssl_ctx_create os = (r, os') \<Longrightarrow> clear h os' = clear h os"
  by (auto simp: ssl_ctx_create_def Let_def dest!: clear_sys clear_malloc split: if_splits prod.splits option.splits)

lemma clear_packed_file: "ssl_ctx_set_packed_file os ctx f = (r, os') \<Longrightarrow> clear h os' = clear h os"
  by (auto simp: ssl_ctx_set_packed_file_def Let_def dest!: clear_sys split: if_splits prod.splits)

lemma clear_init [simp]: "clear h (os\<lparr>ssl_init := n\<rparr>) = clear h os"
  by (simp add: clear_def)

lemma clear_connect_ssl:
  assumes "tcp_connect_ssl os h = (r, os')" "clear h os"
  shows "clear h os'"
proof -
  let ?os = "if ssl_init os \<noteq> 1 then os\<lparr>ssl_init := 1\<rparr> else os"
  obtain c os1 where c: "ssl_ctx_create ?os = (c, os1)" by fastforce
  then have 1: "clear h os1" using assms(2) clear_ctx_create by fastforce
  show ?thesis
  proof (cases c)
    case (Inl e)
    then show ?thesis using assms(1) c 1 by (simp add: tcp_connect_ssl_def)
  next
    case (Inr ctx)
    then show ?thesis
      using assms(1) c 1
      by (auto simp: tcp_connect_ssl_def Let_def clear_packed_file split: if_splits prod.splits
          elim!: clear_ssl_connect)
  qed
qed

lemma clear_rx [simp]: "clear h (os\<lparr>os_rx := r, os_peers := q\<rparr>) = clear h os"
  by (simp add: clear_def)

lemma rx_connect_ssl:
  assumes "tcp_connect_ssl os h = (r, os')"
  shows "os_rx os' = os_rx os"
proof -
  let ?os = "if ssl_init os \<noteq> 1 then os\<lparr>ssl_init := 1\<rparr> else os"
  have p: "ssl_ctx_set_packed_file os ctx f = (r, os') \<Longrightarrow> os_rx os' = os_rx os" for os ctx f r os'
    by (auto simp: ssl_ctx_set_packed_file_def Let_def split: if_splits prod.splits dest!: rx_frame_result)
  have q: "ssl_connect os h ctx = (r, os') \<Longrightarrow> os_rx os' = os_rx os" for os ctx r os'
    by (auto simp: ssl_connect_def ssl_morph_def Let_def split: if_splits prod.splits option.splits dest!: rx_frame_result)
  obtain c os1 where c: "ssl_ctx_create ?os = (c, os1)" by fastforce
  then have 1: "os_rx os1 = os_rx os"
    by (auto simp: ssl_ctx_create_def Let_def split: if_splits prod.splits option.splits dest!: rx_frame_result)
  show ?thesis
  proof (cases c)
    case (Inl e)
    then show ?thesis using assms c 1 by (simp add: tcp_connect_ssl_def)
  next
    case (Inr ctx)
    then show ?thesis using assms c 1 by (auto simp: tcp_connect_ssl_def Let_def split: if_splits prod.splits dest!: p q)
  qed
qed

lemma clear_connected: "connecting ps h os \<Longrightarrow> clear_result ps h (tcp_connected h options os)"
proof -
  have secure: "clear_result ps h (case (if b then tcp_connect_ssl (os\<lparr>os_rx := (os_rx os)(h := first_peer (os_peers os)),
        os_peers := q\<rparr>) h else (0, os\<lparr>os_rx := (os_rx os)(h := first_peer (os_peers os)), os_peers := q\<rparr>)) of
      (ret, os) \<Rightarrow> if ret \<noteq> 0 then ((ret, 0), sock_drop h os) else ((0, h), os))"
    if "connecting ps h os" for os b q
    using that by (auto simp: clear_result_def connecting_def split: prod.split
        dest: clear_connect_ssl rx_connect_ssl)
  assume "connecting ps h os"
  then show ?thesis
    unfolding tcp_connected_def Let_def first_peer_def [symmetric]
    by (intro clear_try clear_case_sys clear_if clear_fail secure) (simp_all add: err_code)
qed

lemma clear_connect: "clear_result (os_peers os) (os_next os') (tcp_connect os addr port options)"
  if "linux_malloc os = (m, os')"
proof -
  let ?h = "os_next os'"
  let ?ps = "os_peers os"
  have start: "connecting ?ps ?h (os'\<lparr>os_next := ?h + 1,
      os_sock := (os_sock os')(?h := Some \<lparr>at0 = 0, at4 = 0, at8 = 0, at12 = 0, at16 = 0\<rparr>)\<rparr>)"
    using peers_frame(2) [OF that] by (simp add: clear_def connecting_def)
  have loop: "connecting ps h os1 \<Longrightarrow> socket_loop n os1 = (s, c, os2) \<Longrightarrow> connecting ps h os2" for ps h n os1 s c os2
    by (induction n os1 rule: socket_loop.induct)
      (auto simp: socket_loop.simps [of _ "_ :: os"] split: prod.splits if_splits dest: connecting_sys)
  have case_loop: "connecting ps h os1 \<Longrightarrow> (\<And>s c os2. connecting ps h os2 \<Longrightarrow> clear_result ps h (k s c os2)) \<Longrightarrow>
      clear_result ps h (case socket_loop n os1 of (s, c, os2) \<Rightarrow> k s c os2)" for ps h n os1 k
    by (auto split: prod.split dest: loop)
  have upd: "connecting ps h (upd_sock h (at0_update f) os1) = connecting ps h os1" for ps h f os1
    by (simp add: connecting_def clear_upd)
  show ?thesis
  proof (cases "m 24")
    case None
    then show ?thesis
      by (simp add: tcp_connect_def that clear_fail err_code)
  next
    case (Some blk)
    show ?thesis
      unfolding tcp_connect_def that prod.case Let_def Some option.case
      by (intro case_loop clear_try clear_case_sys clear_case_errno clear_if clear_fail clear_sock_fail
          clear_connected start) (simp_all add: err_code upd)
  qed
qed

lemma tx_frame [simp]:
  "os_tx (upd_sock h f os) = os_tx os" "os_ssl_tx (upd_sock h f os) = os_ssl_tx os"
  "os_tx (sock_set_err h e os) = os_tx os" "os_ssl_tx (sock_set_err h e os) = os_ssl_tx os"
  by (simp_all add: upd_sock_def sock_set_err_def)

lemma tx_sys: "sys c u os = (x, os') \<Longrightarrow> os_tx os' = os_tx os \<and> os_ssl_tx os' = os_ssl_tx os"
  by (auto simp: sys_def split: list.splits)

lemma tx_errno [simp]: "os_tx (sock_errno h os) = os_tx os" "os_ssl_tx (sock_errno h os) = os_ssl_tx os"
  by (auto simp: sock_errno_def errno_def split: prod.split dest: tx_sys)

lemma tx_kernel_send:
  "kernel_send n os = (r, os') \<Longrightarrow> 0 \<le> n \<Longrightarrow>
   os_tx os' = os_tx os \<and> os_ssl_tx os' = os_ssl_tx os \<and> - 1 \<le> r \<and> r \<le> n"
  by (auto simp: kernel_send_def split: prod.splits if_splits dest: tx_sys)

text \<open>What one run of the send loop adds to the bytes given to the kernel: nothing through TLS, and
  pieces that make up the rest of the buffer when it answers 0, a prefix of it otherwise.\<close>

lemma tcp_send_loop_tx:
  assumes r: "tcp_send_loop h fd buffer timeout k os = Some r" and k: "0 \<le> k" "k \<le> int (length buffer)"
  shows "\<exists>ds. os_tx (snd r) = os_tx os @ map (Pair fd) ds \<and> os_ssl_tx (snd r) = os_ssl_tx os \<and>
    (\<exists>rest. drop (nat k) buffer = concat ds @ rest \<and> (fst r = 0 \<longrightarrow> rest = []))"
proof (rule tcp_send_loop.raw_induct [where P = "\<lambda>_ fd buffer _ k os r. 0 \<le> k \<longrightarrow> k \<le> int (length buffer) \<longrightarrow>
    (\<exists>ds. os_tx (snd r) = os_tx os @ map (Pair fd) ds \<and> os_ssl_tx (snd r) = os_ssl_tx os \<and>
    (\<exists>rest. drop (nat k) buffer = concat ds @ rest \<and> (fst r = 0 \<longrightarrow> rest = [])))", OF _ r, rule_format],
    goal_cases)
  case (1 f h fd buffer timeout k os r)
  let ?n = "if int (length buffer) - k > DTCPBUF then DTCPBUF else int (length buffer) - k"
  obtain sel os1 where sel: "(if timeout > 0 then sys Sys_select 1 os else (1, os)) = (sel, os1)"
    by fastforce
  then have tx1: "os_tx os1 = os_tx os" "os_ssl_tx os1 = os_ssl_tx os"
    by (auto split: if_splits dest: tx_sys)
  obtain ret os2 where snd: "kernel_send ?n os1 = (ret, os2)" by fastforce
  have n: "0 \<le> ?n" "?n \<le> int (length buffer) - k"
    using 1(4) by (simp_all add: DTCPBUF_def)
  note tx2 = tx_kernel_send [OF snd n(1)]
  let ?waiting = "timeout > 0 \<and> (sel = 0 \<or> sel = - 1)"
  consider (stopped) "?waiting" | (all) "\<not> ?waiting" "ret + k = int (length buffer)"
    | (refused) "\<not> ?waiting" "ret + k \<noteq> int (length buffer)" "ret = - 1"
    | (more) "0 \<le> ret" "ret + k \<noteq> int (length buffer)" "\<not> (timeout > 0 \<and> (sel = 0 \<or> sel = - 1))"
    using tx2 by linarith
  then show ?case
  proof cases
    case stopped
    then have "os_tx (snd r) = os_tx os" "os_ssl_tx (snd r) = os_ssl_tx os" "fst r \<noteq> 0"
      using 1(2) sel tx1 by (auto simp: Let_def err_code)
    then show ?thesis by (intro exI [of _ "[]"]) simp
  next
    case all
    let ?os3 = "if ret > 0 then os2\<lparr>os_tx := os_tx os2 @ [(fd, take (nat ret) (drop (nat k) buffer))]\<rparr> else os2"
    have r: "r = (0, ?os3)"
      using 1(2) sel snd all by (auto simp: Let_def split: prod.splits if_splits)
    have "take (nat ret) (drop (nat k) buffer) = drop (nat k) buffer"
      using all n 1(3) by simp
    then show ?thesis
      using r tx1 tx2 all n
      by (cases "ret > 0") (auto intro!: exI [of _ "if ret > 0 then [drop (nat k) buffer] else []"])
  next
    case refused
    then have "r = (ERR_TR50_SOCK_SEND_FAILED, sock_errno h os2)"
      using 1(2) sel snd by (auto simp: Let_def split: prod.splits if_splits)
    then show ?thesis
      using tx1 tx2 by (intro exI [of _ "[]"]) (simp add: err_code)
  next
    case more
    let ?os3 = "if ret > 0 then os2\<lparr>os_tx := os_tx os2 @ [(fd, take (nat ret) (drop (nat k) buffer))]\<rparr> else os2"
    have "f h fd buffer timeout (k + ret) ?os3 = Some r"
      using 1(2) sel snd more by (auto simp: Let_def split: prod.splits if_splits)
    from 1(1) [OF this] obtain ds rest where ds: "os_tx (snd r) = os_tx ?os3 @ map (Pair fd) ds"
      "os_ssl_tx (snd r) = os_ssl_tx ?os3"
      "drop (nat (k + ret)) buffer = concat ds @ rest" "fst r = 0 \<longrightarrow> rest = []"
      using more n tx2 1(3,4) by auto
    have d: "drop (nat k) buffer = take (nat ret) (drop (nat k) buffer) @ drop (nat (k + ret)) buffer"
      using more 1(3) by (simp add: nat_add_distrib add.commute [of "nat k"] flip: drop_drop)
    show ?thesis
    proof (cases "ret > 0")
      case True
      then show ?thesis
        using ds d tx1 tx2 by (intro exI [of _ "take (nat ret) (drop (nat k) buffer) # ds"]) auto
    next
      case False
      then show ?thesis using ds d tx1 tx2 more by auto
    qed
  qed
qed (use k in simp_all)

lemma clear_tcp_send:
  assumes "clear h os" "h \<noteq> 0" "tcp_send os h buffer t = Some (ret, os')"
  obtains ds rest where "os_tx os' = os_tx os @ map (Pair (at0 (the (os_sock os h)))) ds"
    "os_ssl_tx os' = os_ssl_tx os" "buffer = concat ds @ rest" "ret = 0 \<longrightarrow> rest = []"
proof -
  obtain sock where sock: "os_sock os h = Some sock" "at8 sock = 0"
    using assms(1) by (auto simp: clear_def)
  show thesis
  proof (cases "t < - 1")
    case True
    then have "ret = ERR_TR50_SOCK_OTHER" "os' = sock_errno h os"
      using assms(2,3) sock by (auto simp: tcp_send_def)
    then show thesis using that [of "[]" buffer] by (simp add: err_code)
  next
    case False
    then have "tcp_send_loop h (at0 sock) buffer t 0 os = Some (ret, os')"
      using assms(2,3) sock by (simp add: tcp_send_def)
    from tcp_send_loop_tx [OF this] that sock show thesis by auto
  qed
qed

subsection \<open>Properties\<close>

text \<open>A send on a connection that linux.tcp.c takes for a plain one gives the kernel, in pieces
  and in order, exactly the bytes of the buffer when it answers 0 and a prefix of them when it
  answers an error, however the kernel splits, refuses or delays them.\<close>

theorem tcp_send_delivers:
  assumes "clear h os" "h \<noteq> 0" "tcp_send os h buffer t = Some (ret, os')"
  shows "\<exists>ds rest. os_tx os' = os_tx os @ map (Pair (at0 (the (os_sock os h)))) ds \<and>
    buffer = concat ds @ rest \<and> (ret = 0 \<longrightarrow> rest = [])"
  using assms by (rule clear_tcp_send) blast

text \<open>A machine where every call succeeds and the peers send what is given.\<close>

definition os_init :: "rx_event list list \<Rightarrow> os" where
  "os_init peers = \<lparr>os_ans = (\<lambda>_. []), os_sock = (\<lambda>_. None), os_next = 1, os_peers = peers, os_rx = (\<lambda>_. []),
     os_tx = [], os_ssl_tx = [], os_time = 0, os_ticks = [], os_oom = [], os_junk = 0xAA, ssl_password = [],
     ssl_file = [], ssl_verify_peer = 0, ssl_init = 0\<rparr>"

text \<open>The same with one plain connection on handle 1 and descriptor 3.\<close>

definition os_open :: "rx_event list \<Rightarrow> os" where
  "os_open es = (os_init [])\<lparr>os_sock := [1 \<mapsto> \<lparr>at0 = 3, at4 = 0, at8 = 0, at12 = 0, at16 = 0\<rparr>],
     os_next := 2, os_rx := (\<lambda>_. [])(1 := es)\<rparr>"

theorem tcp_send_delivers_witness:
  "\<exists>ds rest. [0x68, 0x69 :: byte] = concat ds @ rest"
proof -
  obtain ret os' where "tcp_send (os_open []) 1 [0x68, 0x69] 0 = Some (ret, os')"
    by (simp add: tcp_send_def os_open_def os_init_def tcp_send_loop.simps kernel_send_def sys_def DTCPBUF_def Let_def)
  moreover have "clear 1 (os_open [])"
    by (simp add: clear_def os_open_def)
  ultimately show ?thesis
    using tcp_send_delivers [of 1 "os_open []" "[0x68, 0x69]" 0 ret os'] by auto
qed

text \<open>C17: On a connection opened with TCP_OPTION_SECURE the bytes still go to the kernel in clear and
  none goes through TLS: linux.tcp_ssl.c sets its \<open>is_ssl\<close> at offset 12, where linux.tcp.c, which
  reads its own at offset 8, never sees it.\<close>

theorem secure_connection_sends_in_clear:
  assumes "options AND TCP_OPTION_SECURE \<noteq> 0"
    and "tcp_connect os addr port options = ((0, h), os1)" "0 < os_next os"
    and "tcp_send os1 h buffer t = Some (ret, os2)"
  shows "os_ssl_tx os2 = os_ssl_tx os1 \<and>
    (ret = 0 \<longrightarrow> (\<exists>ds. os_tx os2 = os_tx os1 @ map (Pair (at0 (the (os_sock os1 h)))) ds \<and> concat ds = buffer))"
proof -
  obtain m os' where m: "linux_malloc os = (m, os')" by fastforce
  then have nx: "os_next os' = os_next os"
    by (auto simp: linux_malloc_def split: list.splits)
  have "h = os_next os'" "clear h os1"
    using clear_connect [OF m, of addr port options] assms(2) by (simp_all add: clear_result_def)
  with assms(3) nx have "clear h os1" "h \<noteq> 0" by simp_all
  from clear_tcp_send [OF this assms(4)] show ?thesis by (metis append_Nil2)
qed

lemmas connect_eval = tcp_connect_def sock_try_def sock_note_def tcp_connected_def tcp_connect_ssl_def
  ssl_ctx_create_def ssl_connect_def ssl_morph_def upd_sock_def linux_malloc_def sys_def os_init_def Let_def
  socket_loop.simps [of 0] TCP_OPTION_SECURE_def SOCKET_USE_NODELAY_def SOCKET_DONT_SET_QUEUE_SIZES_def

definition os_secure :: os where
  "os_secure = snd (tcp_connect (os_init []) [0x68] 443 TCP_OPTION_SECURE)"

lemma os_secure_connected: "tcp_connect (os_init []) [0x68] 443 TCP_OPTION_SECURE = ((0, 1), os_secure)"
  unfolding os_secure_def by (simp add: connect_eval)

lemma os_secure_send: "tcp_send os_secure 1 [1, 2] 0 = Some (0, os_secure\<lparr>os_tx := [(3, [1, 2])]\<rparr>)"
  unfolding os_secure_def
  by (simp add: connect_eval tcp_send_def tcp_send_loop.simps kernel_send_def DTCPBUF_def)

theorem secure_connection_sends_in_clear_witness:
  "\<exists>ds. os_tx (os_secure\<lparr>os_tx := [(3, [1, 2])]\<rparr>) =
     os_tx os_secure @ map (Pair (at0 (the (os_sock os_secure 1)))) ds \<and> concat ds = [1, 2]"
  using secure_connection_sends_in_clear [OF _ os_secure_connected _ os_secure_send]
  by (simp add: TCP_OPTION_SECURE_def os_init_def)

end
