(* ===== verification/Mqtt_Recv.thy ===== *)
theory Mqtt_Recv
  imports Mqtt_Codec Linux_Tcp
begin

section \<open>Sending and receiving packets (mqtt/mqtt.recv.c)\<close>

text \<open>
  \<open>mqtt_send\<close> and \<open>mqtt_recv\<close> over a platform \<open>p\<close> and its world \<open>w\<close>.  The receive buffer is the list
  \<open>buffer\<close> of the bytes received so far, its allocated size \<open>buffer_max_len\<close> is kept beside it, and a
  receive that stores bytes behind that size is \<open>None\<close>.  The two loops are the two \<open>while\<close> loops of
  the source; they may wait for ever, so they are partial functions.  The results are the return
  code or the packet, the client, and the world.
\<close>

record mqtt_client =
  sock :: handle
  last_recv :: int
  byte_sent :: int
  byte_recv :: int

definition MQTT_DEFAULT_RECV_BUF_LEN :: int where "MQTT_DEFAULT_RECV_BUF_LEN = 128"

definition mqtt_send ::
  "'w platform \<Rightarrow> mqtt_client \<Rightarrow> bytes \<Rightarrow> int \<Rightarrow> int \<Rightarrow> 'w \<Rightarrow> (int \<times> mqtt_client \<times> 'w) option" where
  "mqtt_send p client buf len timeout w =
     (case p_tcp_send p w (sock client) buf timeout of
        None \<Rightarrow> None
      | Some (ret, w) \<Rightarrow>
          Some (0, if ret = 0 then client\<lparr>byte_sent := byte_sent client + len\<rparr> else client, w))"

text \<open>\<open>_memory_realloc\<close> of the buffer to \<open>n\<close> bytes when it has no room for \<open>read_len\<close> more: the new
  size, or NULL.\<close>

definition recv_room :: "'w platform \<Rightarrow> bytes \<Rightarrow> int \<Rightarrow> int \<Rightarrow> 'w \<Rightarrow> int option \<times> 'w" where
  "recv_room p buffer buffer_max_len read_len w =
     (let buffer_cur_len = int (length buffer) in
      if read_len > buffer_max_len - buffer_cur_len
      then (case p_malloc p w of
              (m, w) \<Rightarrow> (case m (c_size (buffer_cur_len + read_len)) of
                          None \<Rightarrow> None
                        | Some _ \<Rightarrow> Some (buffer_cur_len + read_len), w))
      else (Some buffer_max_len, w))"

partial_function (option) recv_header ::
  "'w platform \<Rightarrow> int \<Rightarrow> mqtt_client \<Rightarrow> bytes \<Rightarrow> int \<Rightarrow> int \<Rightarrow> int \<Rightarrow> 'w \<Rightarrow>
   ((int + bytes \<times> int \<times> int) \<times> mqtt_client \<times> 'w) option" where
  "recv_header p timeout client buffer buffer_max_len read_len starting_time w =
     (if read_len > 0 then
        case p_time_now p w of (now, w) \<Rightarrow>
        let wait_time = starting_time + timeout - now in
        if wait_time < 0 then Some (Inl ERR_TR50_TIMEOUT, client, w)
        else case recv_room p buffer buffer_max_len read_len w of
          (None, w) \<Rightarrow> Some (Inl ERR_TR50_MALLOC, client, w)
        | (Some buffer_max_len, w) \<Rightarrow>
            (case p_tcp_recv p w (sock client) read_len (c_int wait_time) of
               None \<Rightarrow> None
             | Some ((ret, bs), w) \<Rightarrow>
                 if ret < 0 then
                   (if int (length buffer) > 0 \<and> ret = ERR_TR50_TIMEOUT
                    then Some (Inl ERR_TR50_TIMEOUT, client, w)
                    else Some (Inl ret, client, w))
                 else if int (length buffer) + int (length bs) > buffer_max_len then None
                 else
                   case (if buffer = [] then p_time_now p w else (starting_time, w)) of
                     (starting_time, w) \<Rightarrow>
                   let client = client\<lparr>byte_recv := byte_recv client + int (length bs)\<rparr>;
                       buffer = buffer @ bs
                   in if int (length buffer) > 1 \<and> last buffer AND 128 = 0
                      then Some (Inr (buffer, buffer_max_len, starting_time), client, w)
                      else recv_header p timeout client buffer buffer_max_len 1 starting_time w)
      else Some (Inr (buffer, buffer_max_len, starting_time), client, w))"

partial_function (option) recv_rest ::
  "'w platform \<Rightarrow> int \<Rightarrow> mqtt_client \<Rightarrow> bytes \<Rightarrow> int \<Rightarrow> int \<Rightarrow> 'w \<Rightarrow>
   ((int + bytes) \<times> mqtt_client \<times> 'w) option" where
  "recv_rest p wait_time client buffer buffer_max_len read_len w =
     (if read_len > 0 then
        case p_tcp_recv p w (sock client) read_len (c_int wait_time) of
          None \<Rightarrow> None
        | Some ((ret, bs), w) \<Rightarrow>
            if ret < 0 then Some (Inl ret, client, w)
            else if int (length buffer) + int (length bs) > buffer_max_len then None
            else recv_rest p wait_time (client\<lparr>byte_recv := byte_recv client + int (length bs)\<rparr>)
                   (buffer @ bs) buffer_max_len (read_len - int (length bs)) w
      else Some (Inr buffer, client, w))"

declare recv_header.simps [code] recv_rest.simps [code]

definition mqtt_recv ::
  "'w platform \<Rightarrow> mqtt_client \<Rightarrow> int \<Rightarrow> 'w \<Rightarrow> ((int + bytes) \<times> mqtt_client \<times> 'w) option" where
  "mqtt_recv p client timeout w =
     (case p_time_now p w of (starting_time, w) \<Rightarrow>
      case p_malloc p w of (m, w) \<Rightarrow>
      case m (c_size MQTT_DEFAULT_RECV_BUF_LEN) of
        None \<Rightarrow> Some (Inl ERR_TR50_MALLOC, client, w)
      | Some _ \<Rightarrow>
        case recv_header p timeout client [] MQTT_DEFAULT_RECV_BUF_LEN 2 starting_time w of
          None \<Rightarrow> None
        | Some (Inl ret, client, w) \<Rightarrow> Some (Inl ret, client, w)
        | Some (Inr (buffer, buffer_max_len, starting_time), client, w) \<Rightarrow>
          case mqtt_decode_header_length (drop 1 buffer) (int (length buffer)) of
            None \<Rightarrow> None
          | Some (Inl _) \<Rightarrow> Some (Inl ERR_TR50_MQTT_RECV_DECODE_HDR_LEN, client, w)
          | Some (Inr (_, remaining_len)) \<Rightarrow>
            case recv_room p buffer buffer_max_len remaining_len w of
              (None, w) \<Rightarrow> Some (Inl ERR_TR50_MALLOC, client, w)
            | (Some buffer_max_len, w) \<Rightarrow>
              case p_time_now p w of (now, w) \<Rightarrow>
              let wait_time = starting_time + timeout - now;
                  wait_time = (if wait_time < 0 then 0 else wait_time)
              in case recv_rest p wait_time client buffer buffer_max_len remaining_len w of
                   None \<Rightarrow> None
                 | Some (Inl ret, client, w) \<Rightarrow> Some (Inl ret, client, w)
                 | Some (Inr buffer, client, w) \<Rightarrow>
                     (case p_time_now p w of (now, w) \<Rightarrow> Some (Inr buffer, client\<lparr>last_recv := now\<rparr>, w)))"

subsection \<open>Frames\<close>

text \<open>The bytes after the first of a fixed header: the length field ends with its first byte without
  the continuation bit.\<close>

definition length_field :: "bytes \<Rightarrow> bool" where
  "length_field hdr \<longleftrightarrow> hdr \<noteq> [] \<and> last hdr AND 128 = 0 \<and> (\<forall>x \<in> set (butlast hdr). x AND 128 \<noteq> 0)"

definition mqtt_frame :: "bytes \<Rightarrow> bool" where
  "mqtt_frame data \<longleftrightarrow> (\<exists>b hdr body. data = b # hdr @ body \<and> length_field hdr \<and>
     mqtt_decode_header_length hdr (int (length hdr) + 1) = Some (Inr (int (length hdr), int (length body))))"

lemma decode_loop_field:
  "mqtt_decode_header_loop ptr pl r dl m = Some (d, r', v) \<Longrightarrow> d AND 128 = 0 \<Longrightarrow> length_field ptr \<Longrightarrow>
   r' = r + int (length ptr)"
proof (induction ptr pl r dl m rule: mqtt_decode_header_loop.induct)
  case (2 e ptr pl r dl m)
  show ?case
  proof (cases "e AND 128 \<noteq> 0 \<and> r + 1 \<le> pl \<and> r + 1 < 4")
    case True
    then have "ptr \<noteq> []" using "2.prems" by (auto simp: Let_def)
    with True 2 show ?thesis by (simp add: Let_def length_field_def)
  next
    case False
    then have "e = d" "r' = r + 1" using "2.prems" by (auto simp: Let_def)
    moreover from this have "ptr = []" using "2.prems" by (auto simp: length_field_def split: if_splits)
    ultimately show ?thesis by simp
  qed
qed simp

lemma decode_loop_bounds:
  "mqtt_decode_header_loop ptr pl r dl m = Some (d, r', v) \<Longrightarrow> 0 \<le> r \<Longrightarrow> r < 4 \<Longrightarrow> 0 \<le> m \<Longrightarrow>
   dl \<le> v \<and> v \<le> dl + m * (128 ^ nat (4 - r) - 1)"
proof (induction ptr pl r dl m rule: mqtt_decode_header_loop.induct)
  case (2 e ptr pl r dl m)
  have e: "0 \<le> uint (e AND 127)" "uint (e AND 127) \<le> 127"
  proof -
    have "uint (e AND 127) = uint e mod 128"
      using take_bit_eq_mod [of 7 "uint e"] take_bit_eq_mask [of 7 "uint e"]
      by (simp add: unsigned_and_eq mask_eq_exp_minus_1)
    then show "0 \<le> uint (e AND 127)" "uint (e AND 127) \<le> 127" by simp_all
  qed
  have k: "nat (4 - r) = Suc (nat (4 - (r + 1)))" using "2.prems" by simp
  have step: "0 \<le> uint (e AND 127) * m" "uint (e AND 127) * m \<le> 127 * m"
    using e "2.prems" by (simp_all add: mult_right_mono)
  show ?case
  proof (cases "e AND 128 \<noteq> 0 \<and> r + 1 \<le> pl \<and> r + 1 < 4")
    case True
    then have "dl + uint (e AND 127) * m \<le> v \<and>
      v \<le> dl + uint (e AND 127) * m + m * 128 * (128 ^ nat (4 - (r + 1)) - 1)"
      using "2.prems" by (intro "2.IH") (simp_all add: Let_def)
    with step show ?thesis unfolding k by (simp add: algebra_simps)
  next
    case False
    then have v: "v = dl + uint (e AND 127) * m" using "2.prems" by (auto simp: Let_def)
    have "(128 :: int) * m \<le> 128 ^ nat (4 - r) * m"
      using "2.prems" unfolding k by (intro mult_right_mono) simp_all
    with v step show ?thesis by (simp add: algebra_simps)
  qed
qed simp

lemma decode_length_field:
  assumes "mqtt_decode_header_length hdr pl = Some (Inr (k, n))" "length_field hdr"
  shows "k = int (length hdr)" "0 \<le> n" "n \<le> 268435455"
  using assms decode_loop_field [of hdr pl 0 0 1] decode_loop_bounds [of hdr pl 0 0 1]
  by (auto simp: mqtt_decode_header_length_def split: if_splits Option.bind_splits)

lemma decode_field_defined: "length_field hdr \<Longrightarrow> mqtt_decode_header_length hdr pl \<noteq> None"
proof -
  have "mqtt_decode_header_loop hdr pl r dl m \<noteq> None" if "length_field hdr" for r dl m
    using that
  proof (induction hdr pl r dl m rule: mqtt_decode_header_loop.induct)
    case (2 e ptr pl r dl m)
    then show ?case by (cases "ptr = []") (auto simp: Let_def length_field_def)
  qed (simp add: length_field_def)
  then show "length_field hdr \<Longrightarrow> mqtt_decode_header_length hdr pl \<noteq> None"
    by (auto simp: mqtt_decode_header_length_def split: Option.bind_splits)
qed

lemma length_field_varint: "length_field (varint n)"
proof (induction n rule: varint.induct)
  case (1 n)
  show ?case
  proof (cases "n < 128")
    case True
    then show ?thesis by (simp add: varint.simps [of n] length_field_def low_byte_128)
  next
    case False
    then have v: "varint n = (of_nat (n mod 128) OR 0x80) # varint (n div 128)"
      by (simp add: varint.simps [of n])
    show ?thesis
      using 1 [OF False] low_byte_cont_128 [of "of_nat (n mod 128)"] unfolding v length_field_def by simp
  qed
qed

text \<open>Length fields are a prefix code.\<close>

lemma length_field_simps [simp]:
  "\<not> length_field []"
  "length_field (a # h) \<longleftrightarrow> (if h = [] then a AND 128 = 0 else a AND 128 \<noteq> 0 \<and> length_field h)"
  by (auto simp: length_field_def)

lemma length_field_prefix:
  "length_field h1 \<Longrightarrow> length_field h2 \<Longrightarrow> h1 @ x = h2 @ y \<Longrightarrow> h1 = h2"
proof (induction h1 arbitrary: h2)
  case (Cons a h1)
  obtain b h2' where h2: "h2 = b # h2'"
    using Cons.prems(2) by (cases h2) simp_all
  then show ?case
    using Cons.prems Cons.IH [of h2'] by (simp split: if_splits)
qed simp

subsection \<open>What the loops receive, over any transport\<close>

text \<open>The state in which the header loop is entered: nothing received and two bytes asked for, or a
  first byte and continuation bytes received and one more asked for.\<close>

definition header_open :: "bytes \<Rightarrow> int \<Rightarrow> bool" where
  "header_open buffer read_len \<longleftrightarrow> (buffer = [] \<and> read_len = 2) \<or>
     (buffer \<noteq> [] \<and> read_len = 1 \<and> (\<forall>x \<in> set (tl buffer). x AND 128 \<noteq> 0))"

lemma header_open_extend:
  assumes "header_open buffer n" "bs \<noteq> []" "int (length bs) \<le> n"
  shows "int (length (buffer @ bs)) > 1 \<and> last (buffer @ bs) AND 128 = 0 \<Longrightarrow> length_field (tl (buffer @ bs))"
    and "\<not> (int (length (buffer @ bs)) > 1 \<and> last (buffer @ bs) AND 128 = 0) \<Longrightarrow> header_open (buffer @ bs) 1"
proof -
  consider (two) a b where "buffer = []" "bs = [a, b]" | (one) a where "buffer = []" "bs = [a]"
    | (more) c where "buffer \<noteq> []" "bs = [c]" "\<forall>x \<in> set (tl buffer). x AND 128 \<noteq> 0"
    using assms
    by (cases bs; cases "tl bs") (auto simp: header_open_def)
  then have "(int (length (buffer @ bs)) > 1 \<and> last (buffer @ bs) AND 128 = 0 \<longrightarrow> length_field (tl (buffer @ bs))) \<and>
    (\<not> (int (length (buffer @ bs)) > 1 \<and> last (buffer @ bs) AND 128 = 0) \<longrightarrow> header_open (buffer @ bs) 1)"
  proof cases
    case more
    then obtain a t where "buffer = a # t" by (cases buffer) auto
    with more show ?thesis by (auto simp: header_open_def length_field_def)
  qed (simp_all add: header_open_def)
  then show "int (length (buffer @ bs)) > 1 \<and> last (buffer @ bs) AND 128 = 0 \<Longrightarrow> length_field (tl (buffer @ bs))"
    and "\<not> (int (length (buffer @ bs)) > 1 \<and> last (buffer @ bs) AND 128 = 0) \<Longrightarrow> header_open (buffer @ bs) 1"
    by blast+
qed

text \<open>\<open>received\<close>: a client and world after the bytes \<open>ext\<close> have been taken from the stream.\<close>

definition received ::
  "('w \<Rightarrow> handle \<Rightarrow> bytes) \<Rightarrow> mqtt_client \<Rightarrow> 'w \<Rightarrow> bytes \<Rightarrow> mqtt_client \<Rightarrow> 'w \<Rightarrow> bool" where
  "received pending client w ext client' w' \<longleftrightarrow>
     pending w (sock client) = ext @ pending w' (sock client) \<and>
     client' = client\<lparr>byte_recv := byte_recv client + int (length ext)\<rparr>"

lemma received_nil: "pending w' (sock client) = pending w (sock client) \<Longrightarrow> received pending client w [] client w'"
  by (simp add: received_def)

lemma received_step:
  assumes "pending w (sock client) = bs @ pending w1 (sock client)"
    and "received pending (client\<lparr>byte_recv := byte_recv client + int (length bs)\<rparr>) w1 ext client' w'"
  shows "received pending client w (bs @ ext) client' w'"
  using assms by (simp add: received_def)

context transport
begin

lemma room_law:
  assumes "recv_room p buffer mx n w = (r, w')" "int (length buffer) \<le> mx"
  shows "pending w' = pending w" "r = Some max' \<Longrightarrow> int (length buffer) + n \<le> max' \<and> mx \<le> max'"
  using assms malloc_law by (auto simp: recv_room_def Let_def split: if_splits prod.splits option.splits)

lemma header_result:
  assumes r: "recv_header p t client buffer mx n st w = Some (r, client', w')"
    and pre: "header_open buffer n" "int (length buffer) \<le> mx"
  shows "\<exists>ext. received pending client w ext client' w' \<and>
    (case r of Inl e \<Rightarrow> True | Inr (buf, max', _) \<Rightarrow>
       buf = buffer @ ext \<and> length_field (tl buf) \<and> int (length buf) \<le> max')"
proof -
  define P where "P client buffer mx n w x \<longleftrightarrow> (header_open buffer n \<longrightarrow> int (length buffer) \<le> mx \<longrightarrow>
    (\<exists>ext. received pending client w ext (fst (snd x)) (snd (snd x)) \<and>
      (case fst x of Inl e \<Rightarrow> True | Inr (buf, max', _) \<Rightarrow>
         buf = buffer @ ext \<and> length_field (tl buf) \<and> int (length buf) \<le> max')))"
    for client buffer mx n w and x :: "(int + bytes \<times> int \<times> int) \<times> mqtt_client \<times> 'w"
  have "p = p \<longrightarrow> P client buffer mx n w (r, client', w')"
  proof (rule recv_header.raw_induct [where P = "\<lambda>q _ client buffer mx n _ w x. q = p \<longrightarrow> P client buffer mx n w x", OF _ r],
      intro impI, goal_cases)
    case (1 f q t client buffer mx n st w x)
    note ih = 1(1) and body = 1(2) and q = 1(3)
    show ?case
      unfolding P_def
    proof (intro impI)
      assume pre: "header_open buffer n" "int (length buffer) \<le> mx"
      then have n: "0 < n" "n < 2 ^ 31" by (auto simp: header_open_def)
      obtain now w1 where w1: "p_time_now p w = (now, w1)" by fastforce
      obtain room w2 where w2: "recv_room p buffer mx n w1 = (room, w2)" by fastforce
      have pend: "pending w2 = pending w"
        using time_law [OF w1] room_law(1) [OF w2 pre(2)] by simp
      consider (late) "st + t - now < 0" "x = (Inl ERR_TR50_TIMEOUT, client, w1)"
        | (full) "x = (Inl ERR_TR50_MALLOC, client, w2)"
        | (recv) max' ret bs w3 where "room = Some max'" "\<not> st + t - now < 0"
            "p_tcp_recv p w2 (sock client) n (c_int (st + t - now)) = Some ((ret, bs), w3)"
        using body n(1) w1 w2 q
        by (auto simp: Let_def split: if_splits option.splits prod.splits)
      then show "\<exists>ext. received pending client w ext (fst (snd x)) (snd (snd x)) \<and>
        (case fst x of Inl e \<Rightarrow> True | Inr (buf, max', _) \<Rightarrow>
           buf = buffer @ ext \<and> length_field (tl buf) \<and> int (length buf) \<le> max')"
      proof cases
        case late
        then show ?thesis using time_law [OF w1] by (intro exI [of _ "[]"]) (simp add: received_nil)
      next
        case full
        then show ?thesis using pend by (intro exI [of _ "[]"]) (simp add: received_nil)
      next
        case recv
        note room = room_law(2) [OF w2 pre(2) recv(1)]
        note law = recv_law [OF recv(3) n]
        show ?thesis
        proof (cases "ret < 0")
          case True
          then have "\<exists>e. x = (Inl e, client, w3)"
            using body n(1) w1 w2 q recv by (auto simp: Let_def split: if_splits)
          then show ?thesis using True law pend by (intro exI [of _ "[]"]) (auto simp: received_nil)
        next
          case False
          then have bs: "bs \<noteq> []" "int (length bs) \<le> n" "pending w (sock client) = bs @ pending w3 (sock client)"
            using law pend by auto
          obtain st' w4 where w4: "(if buffer = [] then p_time_now p w3 else (st, w3)) = (st', w4)" by fastforce
          then have pend4: "pending w4 = pending w3"
            by (auto split: if_splits dest: time_law)
          let ?client = "client\<lparr>byte_recv := byte_recv client + int (length bs)\<rparr>"
          have len: "int (length (buffer @ bs)) \<le> max'" using room bs(2) by simp
          have x: "(if int (length (buffer @ bs)) > 1 \<and> last (buffer @ bs) AND 128 = 0
              then Some (Inr (buffer @ bs, max', st'), ?client, w4)
              else f p t ?client (buffer @ bs) max' 1 st' w4) = Some x"
            using body n(1) w1 w2 q recv False w4 len by (auto simp: Let_def split: if_splits)
          show ?thesis
          proof (cases "int (length (buffer @ bs)) > 1 \<and> last (buffer @ bs) AND 128 = 0")
            case True
            then have "x = (Inr (buffer @ bs, max', st'), ?client, w4)" using x by simp
            moreover have "received pending client w bs ?client w4"
              using bs(3) pend4 by (simp add: received_def)
            ultimately show ?thesis
              using header_open_extend(1) [OF pre(1) bs(1,2) True] len by auto
          next
            case more: False
            then have "P ?client (buffer @ bs) max' 1 w4 x"
              using x ih by (simp split: if_splits)
            then obtain ext where ext: "received pending ?client w4 ext (fst (snd x)) (snd (snd x))"
              "case fst x of Inl e \<Rightarrow> True | Inr (buf, max', _) \<Rightarrow>
                 buf = (buffer @ bs) @ ext \<and> length_field (tl buf) \<and> int (length buf) \<le> max'"
              unfolding P_def using header_open_extend(2) [OF pre(1) bs(1,2) more] len by blast
            have "received pending client w (bs @ ext) (fst (snd x)) (snd (snd x))"
              by (rule received_step [OF _ ext(1)]) (simp add: bs(3) pend4)
            with ext(2) show ?thesis by (intro exI [of _ "bs @ ext"]) (auto split: sum.splits)
          qed
        qed
      qed
    qed
  qed
  then show ?thesis using pre unfolding P_def by simp
qed

lemma rest_result:
  assumes r: "recv_rest p t client buffer mx n w = Some (r, client', w')"
    and pre: "0 \<le> n" "n < 2 ^ 31" "int (length buffer) + n \<le> mx"
  shows "\<exists>ext. received pending client w ext client' w' \<and>
    (case r of Inl e \<Rightarrow> True | Inr buf \<Rightarrow> buf = buffer @ ext \<and> int (length ext) = n)"
proof -
  define P where "P client buffer mx n w x \<longleftrightarrow>
    (0 \<le> n \<longrightarrow> n < 2 ^ 31 \<longrightarrow> int (length buffer) + n \<le> mx \<longrightarrow>
     (\<exists>ext. received pending client w ext (fst (snd x)) (snd (snd x)) \<and>
       (case fst x of Inl e \<Rightarrow> True | Inr buf \<Rightarrow> buf = buffer @ ext \<and> int (length ext) = n)))"
    for client buffer mx n w and x :: "(int + bytes) \<times> mqtt_client \<times> 'w"
  have "p = p \<longrightarrow> P client buffer mx n w (r, client', w')"
  proof (rule recv_rest.raw_induct [where P = "\<lambda>q _ client buffer mx n w x. q = p \<longrightarrow> P client buffer mx n w x", OF _ r],
      intro impI, goal_cases)
    case (1 f q t client buffer mx n w x)
    note ih = 1(1) and body = 1(2) and q = 1(3)
    show ?case
      unfolding P_def
    proof (intro impI)
      assume pre: "0 \<le> n" "n < 2 ^ 31" "int (length buffer) + n \<le> mx"
      show "\<exists>ext. received pending client w ext (fst (snd x)) (snd (snd x)) \<and>
        (case fst x of Inl e \<Rightarrow> True | Inr buf \<Rightarrow> buf = buffer @ ext \<and> int (length ext) = n)"
      proof (cases "n > 0")
        case False
        then show ?thesis
          using body pre by (intro exI [of _ "[]"]) (auto simp: received_nil)
      next
        case True
        then obtain ret bs w1 where recv: "p_tcp_recv p w (sock client) n (c_int t) = Some ((ret, bs), w1)"
          using body q by (auto split: option.splits)
        note law = recv_law [OF recv True pre(2)]
        show ?thesis
        proof (cases "ret < 0")
          case neg: True
          then have "x = (Inl ret, client, w1)" using body q True recv by simp
          then show ?thesis using law neg by (intro exI [of _ "[]"]) (auto simp: received_nil)
        next
          case False
          then have bs: "bs \<noteq> []" "int (length bs) \<le> n" "pending w (sock client) = bs @ pending w1 (sock client)"
            using law by auto
          let ?client = "client\<lparr>byte_recv := byte_recv client + int (length bs)\<rparr>"
          have "f p t ?client (buffer @ bs) mx (n - int (length bs)) w1 = Some x"
            using body q True recv False bs(2) pre(3) by (auto split: if_splits)
          from ih [OF this] obtain ext where ext: "received pending ?client w1 ext (fst (snd x)) (snd (snd x))"
            "case fst x of Inl e \<Rightarrow> True | Inr buf \<Rightarrow> buf = (buffer @ bs) @ ext \<and> int (length ext) = n - int (length bs)"
            unfolding P_def using pre bs(2) by auto
          have "received pending client w (bs @ ext) (fst (snd x)) (snd (snd x))"
            by (rule received_step [OF _ ext(1)]) (simp add: bs(3))
          with ext(2) show ?thesis by (intro exI [of _ "bs @ ext"]) (auto split: sum.splits)
        qed
      qed
    qed
  qed
  then show ?thesis using pre unfolding P_def by simp
qed

lemma frameI:
  assumes "length_field (tl buffer)" "mqtt_decode_header_length (drop 1 buffer) (int (length buffer)) = Some (Inr (k, n))"
    and "int (length ext) = n"
  shows "mqtt_frame (buffer @ ext)"
proof -
  obtain b hdr where b: "buffer = b # hdr" using assms(1) by (cases buffer) auto
  moreover from this have "k = int (length hdr)"
    using decode_length_field(1) assms(1,2) by simp
  ultimately show ?thesis
    unfolding mqtt_frame_def using assms by (intro exI [of _ b] exI [of _ hdr] exI [of _ ext]) (simp add: add.commute)
qed

text \<open>A receive that succeeds returns one frame and takes it, and nothing else, off the stream; one
  that fails has taken some bytes off it.\<close>

lemma recv_result:
  assumes "mqtt_recv p client t w = Some (r, client', w')"
  shows "\<exists>ext. pending w (sock client) = ext @ pending w' (sock client) \<and>
    byte_recv client' = byte_recv client + int (length ext) \<and> sock client' = sock client \<and>
    (case r of Inl e \<Rightarrow> True | Inr data \<Rightarrow> data = ext \<and> mqtt_frame data)"
proof -
  obtain st w1 where w1: "p_time_now p w = (st, w1)" by fastforce
  obtain m w2 where w2: "p_malloc p w1 = (m, w2)" by fastforce
  have pend2: "pending w2 = pending w" using time_law [OF w1] malloc_law [OF w2] by simp
  show ?thesis
  proof (cases "m (c_size MQTT_DEFAULT_RECV_BUF_LEN)")
    case None
    then show ?thesis using assms w1 w2 pend2 by (auto simp: mqtt_recv_def)
  next
    case (Some blk)
    then obtain h c3 w3 where h: "recv_header p t client [] MQTT_DEFAULT_RECV_BUF_LEN 2 st w2 = Some (h, c3, w3)"
      using assms w1 w2 by (auto simp: mqtt_recv_def split: option.splits)
    obtain ext where e: "received pending client w2 ext c3 w3"
      "case h of Inl e \<Rightarrow> True | Inr (buf, max', _) \<Rightarrow> buf = ext \<and> length_field (tl buf) \<and> int (length buf) \<le> max'"
      using header_result [OF h] unfolding append_Nil
      by (auto simp: header_open_def MQTT_DEFAULT_RECV_BUF_LEN_def)
    show ?thesis
    proof (cases h)
      case (Inl code)
      then show ?thesis
        using assms w1 w2 Some h e pend2 by (auto simp: mqtt_recv_def received_def)
    next
      case (Inr hdr)
      then obtain mx st' where hdr: "hdr = (ext, mx, st')" "length_field (tl ext)" "int (length ext) \<le> mx"
        using e(2) by (cases hdr) auto
      have part: ?thesis if "r = Inl code" "client' = c3" "pending w' = pending w3" for code
        using that e(1) pend2 by (auto simp: received_def)
      have "mqtt_decode_header_length (drop 1 ext) (int (length ext)) \<noteq> None"
        using decode_field_defined [OF hdr(2)] by (simp add: drop_Suc)
      then consider code where "mqtt_decode_header_length (drop 1 ext) (int (length ext)) = Some (Inl code)"
        | k n where "mqtt_decode_header_length (drop 1 ext) (int (length ext)) = Some (Inr (k, n))"
        by (metis option.exhaust sum.exhaust surj_pair)
      then show ?thesis
      proof cases
        case 1
        then have "r = Inl ERR_TR50_MQTT_RECV_DECODE_HDR_LEN" "client' = c3" "pending w' = pending w3"
          using assms w1 w2 Some h Inr hdr(1) by (auto simp: mqtt_recv_def)
        then show ?thesis by (rule part)
      next
        case 2
        have n: "0 \<le> n" "n < 2 ^ 31"
          using decode_length_field [of "tl ext"] hdr(2) 2 by (fastforce simp: drop_Suc)+
        obtain room w4 where w4: "recv_room p ext mx n w3 = (room, w4)" by fastforce
        note rl = room_law [OF w4 hdr(3)]
        show ?thesis
        proof (cases room)
          case None
          then have "r = Inl ERR_TR50_MALLOC" "client' = c3" "pending w' = pending w3"
            using assms w1 w2 \<open>m _ = Some blk\<close> h Inr hdr(1) 2 w4 rl(1) by (auto simp: mqtt_recv_def)
          then show ?thesis by (rule part)
        next
          case (Some mx')
          obtain now w5 where w5: "p_time_now p w4 = (now, w5)" by fastforce
          obtain wt q c6 w6 where q: "recv_rest p wt c3 ext mx' n w5 = Some (q, c6, w6)"
            and out: "case q of Inl code \<Rightarrow> r = Inl code \<and> client' = c6 \<and> w' = w6
              | Inr buf \<Rightarrow> r = Inr buf \<and> (\<exists>now. client' = c6\<lparr>last_recv := now\<rparr> \<and> p_time_now p w6 = (now, w'))"
            using assms w1 w2 \<open>m _ = Some blk\<close> h Inr hdr(1) 2 w4 w5 Some
            by (auto simp: mqtt_recv_def Let_def split: option.splits sum.splits prod.splits)
          obtain ext' where e': "received pending c3 w5 ext' c6 w6"
            "case q of Inl e \<Rightarrow> True | Inr buf \<Rightarrow> buf = ext @ ext' \<and> int (length ext') = n"
            using rest_result [OF q n] rl(2) [OF Some] by auto
          have pend5: "pending w5 = pending w3" using time_law [OF w5] rl(1) by simp
          have all: "pending w (sock client) = (ext @ ext') @ pending w6 (sock client)"
            "byte_recv c6 = byte_recv client + int (length (ext @ ext'))" "sock c6 = sock client"
            using e(1) e'(1) pend2 pend5 by (auto simp: received_def)
          show ?thesis
          proof (cases q)
            case (Inl code)
            then show ?thesis using out all by (intro exI [of _ "ext @ ext'"]) auto
          next
            case (Inr buf)
            then have "mqtt_frame (ext @ ext')" "r = Inr (ext @ ext')"
              using frameI [OF hdr(2) 2] e'(2) out by auto
            then show ?thesis
              using out Inr all by (intro exI [of _ "ext @ ext'"]) (auto dest: time_law)
          qed
        qed
      qed
    qed
  qed
qed

end

subsection \<open>When the packet is there\<close>

text \<open>A transport that answers at once while bytes are there: in a \<open>ready\<close> world a receive gets
  some of the waiting bytes, the clock stands at \<open>clock\<close>, and the allocator has memory.\<close>

locale prompt_transport = transport p pending for p :: "'w platform" and pending :: "'w \<Rightarrow> handle \<Rightarrow> bytes" +
  fixes ready :: "'w \<Rightarrow> handle \<Rightarrow> bool" and clock :: int
  assumes prompt_recv: "\<lbrakk>ready w h; pending w h \<noteq> []; 0 < n; n < 2 ^ 31; 0 \<le> t\<rbrakk> \<Longrightarrow>
      \<exists>bs w'. p_tcp_recv p w h n t = Some ((0, bs), w') \<and> ready w' h"
    and prompt_time: "ready w h \<Longrightarrow> \<exists>w'. p_time_now p w = (clock, w') \<and> ready w' h"
    and prompt_malloc: "\<lbrakk>ready w h; p_malloc p w = (m, w')\<rbrakk> \<Longrightarrow> live m \<and> ready w' h"
begin

lemma room_ready:
  assumes "ready w h"
  shows "\<exists>mx' w'. recv_room p buffer mx n w = (Some mx', w') \<and> ready w' h"
proof -
  obtain m w' where m: "p_malloc p w = (m, w')" by fastforce
  then obtain blk where "m (c_size (int (length buffer) + n)) = Some blk" "ready w' h"
    using prompt_malloc [OF assms m] by (auto simp: live_def)
  with m assms show ?thesis
    by (auto simp: recv_room_def Let_def)
qed

lemma header_complete:
  assumes "ready w (sock client)" "header_open buffer n" "int (length buffer) \<le> mx"
    and "buffer @ pending w (sock client) = (b # hdr) @ later" "length_field hdr"
    and "length buffer < length (b # hdr)" "0 \<le> t" "t < 2 ^ 31"
  shows "\<exists>x client' w'. recv_header p t client buffer mx n clock w = Some (Inr x, client', w') \<and>
    snd (snd x) = clock \<and> ready w' (sock client)"
  using assms
proof (induction "length (b # hdr) - length buffer" arbitrary: buffer n mx client w rule: less_induct)
  case less
  have n: "0 < n" "n < 2 ^ 31" using less.prems(2) by (auto simp: header_open_def)
  obtain w1 where w1: "p_time_now p w = (clock, w1)" "ready w1 (sock client)"
    using prompt_time [OF less.prems(1)] by blast
  obtain mx' w2 where w2: "recv_room p buffer mx n w1 = (Some mx', w2)" "ready w2 (sock client)"
    using room_ready [OF w1(2)] by blast
  note room = room_law [OF w2(1) less.prems(3)]
  have pend2: "pending w2 = pending w" using time_law [OF w1(1)] room(1) by simp
  have "pending w (sock client) \<noteq> []"
    using less.prems(4,6) by (metis append.right_neutral length_append less_add_eq_less less_not_refl not_add_less1)
  then obtain bs w3 where w3: "p_tcp_recv p w2 (sock client) n (c_int (clock + t - clock)) = Some ((0, bs), w3)"
    "ready w3 (sock client)"
    using prompt_recv [OF w2(2) _ n, of t] less.prems(7,8) pend2 by (auto simp: c_int_id)
  have bs: "bs \<noteq> []" "int (length bs) \<le> n" "pending w (sock client) = bs @ pending w3 (sock client)"
    using recv_law [OF w3(1) n] pend2 by auto
  obtain w4 where w4: "(if buffer = [] then p_time_now p w3 else (clock, w3)) = (clock, w4)" "ready w4 (sock client)"
    using prompt_time [OF w3(2)] w3(2) by (cases "buffer = []") auto
  have pend4: "pending w4 = pending w3" using w4(1) by (auto split: if_splits dest: time_law)
  let ?client = "client\<lparr>byte_recv := byte_recv client + int (length bs)\<rparr>"
  have len: "int (length (buffer @ bs)) \<le> mx'" using room(2) [OF refl] bs(2) by simp
  have eq: "recv_header p t client buffer mx n clock w =
      (if int (length (buffer @ bs)) > 1 \<and> last (buffer @ bs) AND 128 = 0
       then Some (Inr (buffer @ bs, mx', clock), ?client, w4)
       else recv_header p t ?client (buffer @ bs) mx' 1 clock w4)"
    using n(1) w1(1) w2(1) w3(1) w4(1) len less.prems(7)
    by (subst recv_header.simps) (auto simp: Let_def)
  show ?case
  proof (cases "int (length (buffer @ bs)) > 1 \<and> last (buffer @ bs) AND 128 = 0")
    case True
    then show ?thesis using eq w4(2) by simp
  next
    case False
    have open': "header_open (buffer @ bs) 1"
      by (rule header_open_extend(2) [OF less.prems(2) bs(1,2) False])
    have split: "(buffer @ bs) @ pending w4 (sock client) = (b # hdr) @ later"
      using less.prems(4) bs(3) pend4 by simp
    have "length (buffer @ bs) < length (b # hdr)"
    proof (rule ccontr)
      assume "\<not> length (buffer @ bs) < length (b # hdr)"
      moreover have "length (buffer @ bs) \<le> length (b # hdr)"
        using less.prems(2,5,6) bs(2) by (cases hdr) (auto simp: header_open_def)
      ultimately have "buffer @ bs = b # hdr"
        using split by (metis append_eq_append_conv le_antisym not_le)
      then show False using False less.prems(5) by (cases hdr) (auto simp: length_field_def)
    qed
    moreover have "length (b # hdr) - length (buffer @ bs) < length (b # hdr) - length buffer"
      using bs(1) less.prems(6) by (cases bs) auto
    ultimately have "\<exists>x client' w'. recv_header p t ?client (buffer @ bs) mx' 1 clock w4 = Some (Inr x, client', w') \<and>
      snd (snd x) = clock \<and> ready w' (sock ?client)"
      using open' len split w4(2) less.prems(5,7,8) by (intro less.hyps) simp_all
    then have "\<exists>x client' w'. recv_header p t ?client (buffer @ bs) mx' 1 clock w4 = Some (Inr x, client', w') \<and>
      snd (snd x) = clock \<and> ready w' (sock client)"
      by simp
    then show ?thesis unfolding eq if_not_P [OF False] .
  qed
qed

lemma rest_complete:
  assumes "ready w (sock client)" "0 \<le> n" "n < 2 ^ 31" "int (length buffer) + n \<le> mx"
    and "n \<le> int (length (pending w (sock client)))" "0 \<le> t" "t < 2 ^ 31"
  shows "\<exists>buf client' w'. recv_rest p t client buffer mx n w = Some (Inr buf, client', w') \<and> ready w' (sock client)"
  using assms
proof (induction "nat n" arbitrary: n buffer client w rule: less_induct)
  case less
  show ?case
  proof (cases "n > 0")
    case False
    then show ?thesis using less.prems(1) by (subst recv_rest.simps) auto
  next
    case True
    then have "pending w (sock client) \<noteq> []" using less.prems(5) by auto
    then obtain bs w1 where w1: "p_tcp_recv p w (sock client) n (c_int t) = Some ((0, bs), w1)" "ready w1 (sock client)"
      using prompt_recv [OF less.prems(1) _ True less.prems(3), of t] less.prems(6,7) by (auto simp: c_int_id)
    have bs: "bs \<noteq> []" "int (length bs) \<le> n" "pending w (sock client) = bs @ pending w1 (sock client)"
      using recv_law [OF w1(1) True less.prems(3)] by auto
    have "nat (n - int (length bs)) < nat n" using bs(1) True by (cases bs) auto
    from less.hyps [OF this, of w1 "client\<lparr>byte_recv := byte_recv client + int (length bs)\<rparr>" "buffer @ bs"]
    show ?thesis
      using True w1 bs less.prems by (subst recv_rest.simps) auto
  qed
qed

lemma recv_complete:
  assumes "ready w (sock client)" "pending w (sock client) = framed b body @ rest"
    and "length body \<le> 268435455" "0 \<le> t" "t < 2 ^ 31"
  shows "\<exists>client' w'. mqtt_recv p client t w = Some (Inr (framed b body), client', w') \<and>
    pending w' (sock client) = rest"
proof -
  let ?hdr = "varint (length body)"
  obtain w1 where w1: "p_time_now p w = (clock, w1)" "ready w1 (sock client)"
    using prompt_time [OF assms(1)] by blast
  obtain m w2 where w2: "p_malloc p w1 = (m, w2)" by fastforce
  then obtain blk where blk: "m (c_size MQTT_DEFAULT_RECV_BUF_LEN) = Some blk" "ready w2 (sock client)"
    using prompt_malloc [OF w1(2)] by (auto simp: live_def)
  have pend2: "pending w2 = pending w" using time_law [OF w1(1)] malloc_law [OF w2] by simp
  have start: "[] @ pending w2 (sock client) = (b # ?hdr) @ (body @ rest)"
    using assms(2) pend2 by (simp add: framed_def)
  obtain buf mx' client3 w3 where h: "recv_header p t client [] MQTT_DEFAULT_RECV_BUF_LEN 2 clock w2 =
      Some (Inr (buf, mx', clock), client3, w3)" "ready w3 (sock client)"
    using header_complete [OF blk(2) _ _ start length_field_varint _ assms(4,5), of 2 MQTT_DEFAULT_RECV_BUF_LEN]
    by (auto simp: header_open_def MQTT_DEFAULT_RECV_BUF_LEN_def)
  have hr: "received pending client w2 buf client3 w3" "length_field (tl buf)" "int (length buf) \<le> mx'"
    using header_result [OF h(1)] unfolding append_Nil by (auto simp: header_open_def MQTT_DEFAULT_RECV_BUF_LEN_def)
  then obtain c hdr where buf: "buf = c # hdr" by (cases buf) auto
  then have eq: "c # hdr @ pending w3 (sock client) = b # ?hdr @ (body @ rest)"
    using hr(1) start by (simp add: received_def)
  then have h1: "hdr = ?hdr"
    using hr(2) unfolding buf list.sel list.inject by (intro length_field_prefix [OF _ length_field_varint]) blast+
  have hdr: "hdr = ?hdr" "c = b" "pending w3 (sock client) = body @ rest" "sock client3 = sock client"
    using hr(1) eq unfolding h1 received_def by simp_all
  have dec: "mqtt_decode_header_length (drop 1 buf) (int (length buf)) = Some (Inr (int (length ?hdr), int (length body)))"
    using decode_header_length_varint [OF assms(3), of "int (length buf)" "[]"] by (simp add: buf hdr)
  obtain mx4 w4 where w4: "recv_room p buf mx' (int (length body)) w3 = (Some mx4, w4)" "ready w4 (sock client)"
    using room_ready [OF h(2)] by blast
  note room = room_law [OF w4(1) hr(3)]
  obtain w5 where w5: "p_time_now p w4 = (clock, w5)" "ready w5 (sock client)"
    using prompt_time [OF w4(2)] by blast
  have pend5: "pending w5 = pending w3" using time_law [OF w5(1)] room(1) by simp
  obtain data client6 w6 where q: "recv_rest p t client3 buf mx4 (int (length body)) w5 = Some (Inr data, client6, w6)"
    "ready w6 (sock client)"
    using rest_complete [of w5 client3 "int (length body)" buf mx4 t] w5(2) hdr(3,4) pend5 assms(3,4,5) room(2)
    by auto
  obtain w7 where w7: "p_time_now p w6 = (clock, w7)"
    using prompt_time [OF q(2)] by blast
  have "data = framed b body" "pending w6 (sock client) = rest"
  proof -
    obtain ext where ext: "received pending client3 w5 ext client6 w6" "data = buf @ ext"
      "int (length ext) = int (length body)"
      using rest_result [OF q(1)] room(2) [OF refl] assms(3) by auto
    then have "body @ rest = ext @ pending w6 (sock client)"
      using hdr(3,4) pend5 by (simp add: received_def)
    with ext(3) have "ext = body" "pending w6 (sock client) = rest"
      by (metis append_eq_append_conv of_nat_eq_iff)+
    with ext(2) show "data = framed b body" "pending w6 (sock client) = rest"
      by (simp_all add: buf framed_def hdr(2) h1)
  qed
  moreover have "mqtt_recv p client t w = Some (Inr data, client6\<lparr>last_recv := clock\<rparr>, w7)"
    using w1(1) w2 blk(1) h(1) dec w4(1) w5(1) q(1) w7 assms(4) by (simp add: mqtt_recv_def Let_def)
  ultimately show ?thesis using time_law [OF w7] by auto
qed

end

subsection \<open>The receive returns when the connection does not stay silent\<close>

text \<open>A transport on which a receive always comes back in a \<open>closing\<close> world.\<close>

locale closing_transport = transport p pending for p :: "'w platform" and pending :: "'w \<Rightarrow> handle \<Rightarrow> bytes" +
  fixes closing :: "'w \<Rightarrow> handle \<Rightarrow> bool"
  assumes closing_recv: "closing w h \<Longrightarrow> \<exists>ret bs w'. p_tcp_recv p w h n t = Some ((ret, bs), w') \<and> closing w' h"
    and closing_time: "\<lbrakk>closing w h; p_time_now p w = (now, w')\<rbrakk> \<Longrightarrow> closing w' h"
    and closing_malloc: "\<lbrakk>closing w h; p_malloc p w = (m, w')\<rbrakk> \<Longrightarrow> closing w' h"
begin

lemma closing_room: "closing w h \<Longrightarrow> recv_room p buffer mx n w = (r, w') \<Longrightarrow> closing w' h"
  by (auto simp: recv_room_def Let_def split: if_splits prod.splits dest: closing_malloc)

lemma header_total:
  assumes "closing w (sock client)" "header_open buffer n" "int (length buffer) \<le> mx"
  shows "\<exists>r client' w'. recv_header p t client buffer mx n st w = Some (r, client', w') \<and>
    closing w' (sock client) \<and> sock client' = sock client"
  using assms
proof (induction "length (pending w (sock client))" arbitrary: buffer n mx client st w rule: less_induct)
  case less
  have n: "0 < n" "n < 2 ^ 31" using less.prems(2) by (auto simp: header_open_def)
  obtain now w1 where w1: "p_time_now p w = (now, w1)" by fastforce
  obtain room w2 where w2: "recv_room p buffer mx n w1 = (room, w2)" by fastforce
  note room = room_law [OF w2 less.prems(3)]
  have c1: "closing w1 (sock client)" by (rule closing_time [OF less.prems(1) w1])
  have c2: "closing w2 (sock client)" by (rule closing_room [OF c1 w2])
  have pend2: "pending w2 = pending w" using time_law [OF w1] room(1) by simp
  obtain ret bs w3 where w3: "p_tcp_recv p w2 (sock client) n (c_int (st + t - now)) = Some ((ret, bs), w3)"
    "closing w3 (sock client)"
    using closing_recv [OF c2] by blast
  obtain st' w4 where w4: "(if buffer = [] then p_time_now p w3 else (st, w3)) = (st', w4)" by fastforce
  have c4: "closing w4 (sock client)" "pending w4 = pending w3"
    using w4 w3(2) by (auto split: if_splits dest: closing_time time_law)
  let ?client = "client\<lparr>byte_recv := byte_recv client + int (length bs)\<rparr>"
  let ?done = "int (length (buffer @ bs)) > 1 \<and> last (buffer @ bs) AND 128 = 0"
  show ?case
  proof (cases "st + t - now < 0 \<or> room = None \<or> ret < 0")
    case True
    then show ?thesis
      using n(1) w1 w2 w3 c1 c2 by (cases room; subst recv_header.simps) (auto simp: Let_def)
  next
    case False
    then obtain mx' where mx': "room = Some mx'" by auto
    have bs: "bs \<noteq> []" "int (length bs) \<le> n" "pending w (sock client) = bs @ pending w3 (sock client)"
      using recv_law [OF w3(1) n] False pend2 by auto
    have len: "int (length (buffer @ bs)) \<le> mx'" using room(2) [OF mx'] bs(2) by simp
    have eq: "recv_header p t client buffer mx n st w =
        (if ?done then Some (Inr (buffer @ bs, mx', st'), ?client, w4)
         else recv_header p t ?client (buffer @ bs) mx' 1 st' w4)"
      using n(1) w1 w2 w3(1) w4 len False mx' by (subst recv_header.simps) (auto simp: Let_def)
    show ?thesis
    proof (cases ?done)
      case True
      then show ?thesis using eq c4 by simp
    next
      case more: False
      have "length (pending w4 (sock ?client)) < length (pending w (sock client))"
        using bs(1,3) c4(2) by simp
      from less.hyps [OF this _ header_open_extend(2) [OF less.prems(2) bs(1,2) more] len] c4(1)
      show ?thesis unfolding eq if_not_P [OF more] by simp
    qed
  qed
qed

lemma rest_total:
  assumes "closing w (sock client)" "0 \<le> n" "n < 2 ^ 31" "int (length buffer) + n \<le> mx"
  shows "recv_rest p t client buffer mx n w \<noteq> None"
  using assms
proof (induction "nat n" arbitrary: n buffer client w rule: less_induct)
  case less
  show ?case
  proof (cases "n > 0")
    case False
    then show ?thesis by (subst recv_rest.simps) simp
  next
    case True
    obtain ret bs w1 where w1: "p_tcp_recv p w (sock client) n (c_int t) = Some ((ret, bs), w1)" "closing w1 (sock client)"
      using closing_recv [OF less.prems(1)] by blast
    note law = recv_law [OF w1(1) True less.prems(3)]
    show ?thesis
    proof (cases "ret < 0")
      case neg: True
      then show ?thesis using True w1 by (subst recv_rest.simps) simp
    next
      case False
      then have bs: "bs \<noteq> []" "int (length bs) \<le> n" using law by auto
      have "nat (n - int (length bs)) < nat n" using bs(1) True by (cases bs) auto
      from less.hyps [OF this, of w1 "client\<lparr>byte_recv := byte_recv client + int (length bs)\<rparr>" "buffer @ bs"]
      show ?thesis
        using True w1 bs False less.prems by (subst recv_rest.simps) auto
    qed
  qed
qed

lemma recv_total:
  assumes "closing w (sock client)"
  shows "mqtt_recv p client t w \<noteq> None"
proof -
  obtain st w1 where w1: "p_time_now p w = (st, w1)" by fastforce
  obtain m w2 where w2: "p_malloc p w1 = (m, w2)" by fastforce
  have c2: "closing w2 (sock client)"
    by (rule closing_malloc [OF closing_time [OF assms w1] w2])
  obtain r client3 w3 where h: "recv_header p t client [] MQTT_DEFAULT_RECV_BUF_LEN 2 st w2 = Some (r, client3, w3)"
    "closing w3 (sock client)" "sock client3 = sock client"
    using header_total [OF c2, of "[]" 2 MQTT_DEFAULT_RECV_BUF_LEN t st]
    by (auto simp: header_open_def MQTT_DEFAULT_RECV_BUF_LEN_def)
  show ?thesis
  proof (cases "\<exists>buf mx st'. r = Inr (buf, mx, st')")
    case False
    then obtain e where "r = Inl e" by (cases r) auto
    then show ?thesis using w1 w2 h(1) by (simp add: mqtt_recv_def split: option.split)
  next
    case True
    then obtain buf mx st' where r: "r = Inr (buf, mx, st')" by blast
    have buf: "length_field (tl buf)" "int (length buf) \<le> mx"
      using header_result [OF h(1)] by (auto simp: r header_open_def MQTT_DEFAULT_RECV_BUF_LEN_def)
    have "mqtt_decode_header_length (drop 1 buf) (int (length buf)) \<noteq> None"
      using decode_field_defined [OF buf(1)] by (simp add: drop_Suc)
    then consider code where "mqtt_decode_header_length (drop 1 buf) (int (length buf)) = Some (Inl code)"
      | k n where "mqtt_decode_header_length (drop 1 buf) (int (length buf)) = Some (Inr (k, n))"
      by (metis option.exhaust sum.exhaust surj_pair)
    then show ?thesis
    proof cases
      case 1
      then show ?thesis using w1 w2 h(1) r by (simp add: mqtt_recv_def split: option.split)
    next
      case 2
      have n: "0 \<le> n" "n < 2 ^ 31"
        using decode_length_field [of "tl buf"] buf(1) 2 by (fastforce simp: drop_Suc)+
      obtain room w4 where w4: "recv_room p buf mx n w3 = (room, w4)" by fastforce
      obtain now w5 where w5: "p_time_now p w4 = (now, w5)" by fastforce
      have "closing w5 (sock client3)"
        using closing_time [OF closing_room [OF h(2) w4] w5] h(3) by simp
      then have rest: "\<exists>q c v. recv_rest p wt client3 buf mx' n w5 = Some (q, c, v)" if "room = Some mx'" for mx' wt
        using rest_total n room_law(2) [OF w4 buf(2) that] by (metis option.exhaust prod_cases3)
      show ?thesis
      proof (cases room)
        case None
        then show ?thesis
          using w1 w2 h(1) r 2 w4 by (simp add: mqtt_recv_def split: option.split)
      next
        case (Some mx')
        obtain q c v q' c' v' where "recv_rest p 0 client3 buf mx' n w5 = Some (q, c, v)"
          "recv_rest p (st' + t - now) client3 buf mx' n w5 = Some (q', c', v')"
          using rest [OF Some] by metis
        then show ?thesis
          using w1 w2 h(1) r 2 w4 w5 Some
          by (cases q; cases q') (simp_all add: mqtt_recv_def Let_def split: option.split prod.split)
      qed
      qed
  qed
qed

end

subsection \<open>On linux\<close>

definition data_only :: "rx_event list \<Rightarrow> bool" where
  "data_only es \<longleftrightarrow> (\<forall>e \<in> set es. \<exists>bs. e = RxData bs)"

text \<open>A plain connection on which only data arrives, a clock that stands at \<open>T\<close>, memory.\<close>

definition os_ready :: "int \<Rightarrow> os \<Rightarrow> handle \<Rightarrow> bool" where
  "os_ready T os h \<longleftrightarrow> h \<noteq> 0 \<and> clear h os \<and> data_only (os_rx os h) \<and> os_ticks os = [] \<and> os_time os = T \<and> os_oom os = []"

lemma data_only_select:
  "data_only es \<Longrightarrow> rx_bytes es \<noteq> [] \<Longrightarrow> \<exists>es'. rx_select es = (1, es') \<and> data_only es' \<and> rx_bytes es' = rx_bytes es"
  by (induction es rule: rx_select.induct) (auto simp: data_only_def)

lemma data_only_recv:
  "data_only es \<Longrightarrow> rx_bytes es \<noteq> [] \<Longrightarrow> 0 < n \<Longrightarrow>
   \<exists>r bs es'. rx_recv n es = Some ((r, bs), es') \<and> 0 < r \<and> data_only es'"
  by (induction n es rule: rx_recv.induct) (auto simp: data_only_def)

lemma clear_set_rx [simp]: "clear h (set_rx h' es os) = clear h os"
  by (simp add: clear_def set_rx_def)

lemma ready_set_rx: "os_ready T os h \<Longrightarrow> data_only es \<Longrightarrow> os_ready T (set_rx h es os) h"
  by (simp add: os_ready_def) (simp add: set_rx_def)

lemma set_rx_sock [simp]: "os_sock (set_rx h es os) = os_sock os"
  by (simp add: set_rx_def)

lemma set_rx_twice: "set_rx h es (set_rx h es' os) = set_rx h es os"
  by (simp add: set_rx_def)

lemma linux_prompt_recv:
  assumes "os_ready T os h" "rx_bytes (os_rx os h) \<noteq> []" "0 < n" "n < 2 ^ 31" "0 \<le> t"
  shows "\<exists>bs os'. tcp_recv os h n t = Some ((0, bs), os') \<and> os_ready T os' h"
proof -
  obtain sock where sock: "os_sock os h = Some sock" "at8 sock = 0" "h \<noteq> 0"
    using assms(1) by (auto simp: os_ready_def clear_def)
  have d: "data_only (os_rx os h)" using assms(1) by (simp add: os_ready_def)
  obtain r es where es: "(if t > 0 then rx_select (os_rx os h) else (1, os_rx os h)) = (r, es)" "r = 1"
    "data_only es" "rx_bytes es \<noteq> []"
    using data_only_select [OF d assms(2)] d assms(2) by (cases "t > 0") auto
  have "0 < c_size n" using assms(3,4) by (simp add: c_size_nonneg)
  then obtain k bs es' where k: "rx_recv (c_size n) es = Some ((k, bs), es')" "0 < k" "data_only es'"
    using data_only_recv [OF es(3,4)] by blast
  have "tcp_recv os h n t = Some ((0, bs), set_rx h es' os)"
    using sock es(1,2) k(1,2) assms(5) by (simp add: tcp_recv_def Let_def set_rx_twice split: if_splits)
  with ready_set_rx [OF assms(1) k(3)] show ?thesis by blast
qed

interpretation linux_prompt: prompt_transport linux_platform "\<lambda>os h. rx_bytes (os_rx os h)" "os_ready T" T for T
proof
  show "\<exists>bs os'. p_tcp_recv linux_platform os h n t = Some ((0, bs), os') \<and> os_ready T os' h"
    if "os_ready T os h" "rx_bytes (os_rx os h) \<noteq> []" "0 < n" "n < 2 ^ 31" "0 \<le> t" for os h n t
    using linux_prompt_recv [OF that] by (simp add: linux_platform_def)
  show "\<exists>os'. p_time_now linux_platform os = (T, os') \<and> os_ready T os' h" if "os_ready T os h" for os h
    using that by (simp add: linux_platform_def time_now_def os_ready_def)
  show "live m \<and> os_ready T os' h" if "os_ready T os h" "p_malloc linux_platform os = (m, os')" for os h m os'
    using that by (auto simp: linux_platform_def linux_malloc_def os_ready_def live_def)
qed

text \<open>A plain connection whose peer at last closes it or fails.\<close>

fun rx_ends :: "rx_event list \<Rightarrow> bool" where
  "rx_ends [] = False"
| "rx_ends (RxShutdown # es) = True"
| "rx_ends (e # es) = rx_ends es"

definition os_closing :: "os \<Rightarrow> handle \<Rightarrow> bool" where
  "os_closing os h \<longleftrightarrow> h \<noteq> 0 \<and> clear h os \<and> rx_ends (os_rx os h)"

lemma rx_ends_select: "rx_select es = (r, es') \<Longrightarrow> rx_ends es \<Longrightarrow> rx_ends es'"
  by (induction es arbitrary: r rule: rx_select.induct) auto

lemma rx_ends_recv: "rx_ends es \<Longrightarrow> \<exists>r bs es'. rx_recv n es = Some ((r, bs), es') \<and> rx_ends es'"
  by (induction n es rule: rx_recv.induct) auto

lemma linux_closing_recv:
  assumes "os_closing os h"
  shows "\<exists>ret bs os'. tcp_recv os h n t = Some ((ret, bs), os') \<and> os_closing os' h"
proof -
  obtain sock where sock: "os_sock os h = Some sock" "at8 sock = 0" "h \<noteq> 0"
    using assms by (auto simp: os_closing_def clear_def)
  have e: "rx_ends (os_rx os h)" using assms by (simp add: os_closing_def)
  obtain r es where es: "(if t > 0 then rx_select (os_rx os h) else (1, os_rx os h)) = (r, es)" "rx_ends es"
    using e by (cases "rx_select (os_rx os h)"; cases "t > 0") (auto dest: rx_ends_select)
  obtain k bs es' where k: "rx_recv (c_size n) es = Some ((k, bs), es')" "rx_ends es'"
    using rx_ends_recv [OF es(2)] by blast
  have sock': "clear h os" using sock by (simp add: clear_def)
  show ?thesis
    using sock es k e sock' by (simp add: tcp_recv_def Let_def os_closing_def set_rx_twice)
qed

interpretation linux_closing: closing_transport linux_platform "\<lambda>os h. rx_bytes (os_rx os h)" os_closing
proof
  show "\<exists>ret bs os'. p_tcp_recv linux_platform os h n t = Some ((ret, bs), os') \<and> os_closing os' h"
    if "os_closing os h" for os h n t
    using linux_closing_recv [OF that] by (simp add: linux_platform_def)
  show "os_closing os' h" if "os_closing os h" "p_time_now linux_platform os = (now, os')" for os h now os'
    using that by (auto simp: linux_platform_def time_now_def os_closing_def clear_def split: list.splits)
  show "os_closing os' h" if "os_closing os h" "p_malloc linux_platform os = (m, os')" for os h m os'
    using that clear_malloc [of os m os' h] rx_frame_result(2) [of os m os'] by (simp add: linux_platform_def os_closing_def)
qed

subsection \<open>Properties\<close>

text \<open>C1: A receive that succeeds returns exactly one MQTT packet: a type byte, a length field and as
  many bytes as that field says.  It takes that packet and nothing more off the connection, however
  the bytes were split on their way, and counts its bytes.\<close>

theorem mqtt_recv_one_packet:
  assumes "mqtt_recv linux_platform client t os = Some (Inr data, client', os')"
  shows "mqtt_frame data \<and> rx_bytes (os_rx os (sock client)) = data @ rx_bytes (os_rx os' (sock client)) \<and>
    byte_recv client' = byte_recv client + int (length data)"
  using linux.recv_result [OF assms] by auto

text \<open>C5: A packet that is there is received: on a plain connection on which data arrives, in pieces of
  any size, and with memory and time enough, the receive returns the packet the stream starts
  with, for every packet the format can express, and leaves what follows.\<close>

theorem mqtt_recv_complete:
  assumes "os_ready T os (sock client)" "rx_bytes (os_rx os (sock client)) = framed b body @ rest"
    and "length body \<le> 268435455" "0 \<le> t" "t < 2 ^ 31"
  shows "\<exists>client' os'. mqtt_recv linux_platform client t os = Some (Inr (framed b body), client', os') \<and>
    rx_bytes (os_rx os' (sock client)) = rest"
  by (rule linux_prompt.recv_complete [OF assms])

definition client_demo :: mqtt_client where
  "client_demo = \<lparr>sock = 1, last_recv = 0, byte_sent = 0, byte_recv = 0\<rparr>"

definition os_ping :: os where
  "os_ping = os_open [RxData [0xD0], RxData [0, 0x40, 2]]"

lemma os_ping_ready: "os_ready 0 os_ping (sock client_demo)"
  by (simp add: os_ready_def os_ping_def client_demo_def os_open_def os_init_def clear_def data_only_def)

lemma os_ping_bytes: "rx_bytes (os_rx os_ping (sock client_demo)) = framed 0xD0 [] @ [0x40, 2]"
  by (simp add: os_ping_def client_demo_def os_open_def framed_def varint.simps [of 0])

theorem mqtt_recv_complete_witness:
  "\<exists>client' os'. mqtt_recv linux_platform client_demo 5000 os_ping = Some (Inr (framed 0xD0 []), client', os') \<and>
    rx_bytes (os_rx os' (sock client_demo)) = [0x40, 2]"
  by (rule mqtt_recv_complete [OF os_ping_ready os_ping_bytes]) simp_all

lemma os_ping_received:
  "\<exists>client' os'. mqtt_recv linux_platform client_demo 5000 os_ping = Some (Inr (framed 0xD0 []), client', os')"
  using linux_prompt.recv_complete [OF os_ping_ready os_ping_bytes, of 5000] by auto

theorem mqtt_recv_one_packet_witness:
  "\<exists>client' os'. mqtt_recv linux_platform client_demo 5000 os_ping = Some (Inr (framed 0xD0 []), client', os') \<and>
    mqtt_frame (framed 0xD0 [])"
  using os_ping_received mqtt_recv_one_packet by blast

text \<open>C16: The receive returns, and stores nothing outside its buffer, whatever the peer sends, as long as
  the peer closes the connection in the end; over a peer that stays silent it can wait for ever.\<close>

theorem mqtt_recv_returns:
  assumes "os_closing os (sock client)"
  shows "mqtt_recv linux_platform client t os \<noteq> None"
  using assms by (rule linux_closing.recv_total)

theorem mqtt_recv_returns_witness:
  "mqtt_recv linux_platform client_demo 5000 (os_open [RxData [0xD0, 0x80], RxTimeout, RxShutdown]) \<noteq> None"
  by (rule mqtt_recv_returns) (simp add: os_closing_def client_demo_def os_open_def os_init_def clear_def)

text \<open>When a peer stalls after the first byte of a packet, the receive gives up with the very code
  it gives when nothing has arrived at all, ERR_TR50_TCP_TIMEOUT, and the byte it took is lost: the
  next receive starts in the middle of the packet.  (The source means to return another code there,
  but tests for one the socket layer never returns.)\<close>

theorem mqtt_recv_stalled_packet:
  "(\<exists>client' os'. mqtt_recv linux_platform client_demo 5000 (os_open [RxData [b], RxTimeout, RxData later]) =
      Some (Inl ERR_TR50_TCP_TIMEOUT, client', os') \<and> rx_bytes (os_rx os' 1) = later) \<and>
   (\<exists>client' os'. mqtt_recv linux_platform client_demo 5000 (os_open [RxTimeout, RxData later]) =
      Some (Inl ERR_TR50_TCP_TIMEOUT, client', os') \<and> rx_bytes (os_rx os' 1) = later)"
  by (simp add: mqtt_recv_def recv_header.simps recv_room_def Let_def linux_platform_def os_open_def os_init_def
      client_demo_def time_now_def linux_malloc_def tcp_recv_def set_rx_def sock_set_err_def upd_sock_def
      c_int_id c_size_def MQTT_DEFAULT_RECV_BUF_LEN_def err_code)

end
