(* ===== verification/Mqtt_Client.thy ===== *)
theory Mqtt_Client
  imports Mqtt_Recv
begin

section \<open>The synchronous MQTT client (mqtt/mqtt.c)\<close>

text \<open>
  Connection parameters, the connect handshake, and the operations that build one packet and send
  it, over a platform \<open>p\<close> and its world \<open>w\<close>.  Heap blocks that are only built, sent and freed are
  values.  A string argument that the source passes to \<open>strlen\<close> without a test is a byte list; one
  it tests for NULL is an option, and so is a field that holds a clone that may have failed.
\<close>

record mqtt_connect_params =
  host :: "bytes option"
  port :: int
  client_id :: bytes
  username :: "bytes option"
  password :: "bytes option"
  keepalive_in_sec :: u16
  use_ssl :: int
  use_https_proxy :: int
  proxy_type :: int
  proxy_addr :: "bytes option"
  proxy_username :: "bytes option"
  proxy_password :: "bytes option"

definition sizeof_mqtt_connect_params :: nat where "sizeof_mqtt_connect_params = 112"
definition sizeof_mqtt_client :: nat where "sizeof_mqtt_client = 40"

text \<open>\<open>_memory_clone(s, strlen(s))\<close>\<close>

definition clone_string :: "'w platform \<Rightarrow> bytes \<Rightarrow> 'w \<Rightarrow> bytes option \<times> 'w" where
  "clone_string p s w = (case p_malloc p w of (m, w) \<Rightarrow> (map_option (\<lambda>_. s) (m (length s + 1)), w))"

definition mqtt_connect_params_create ::
  "'w platform \<Rightarrow> bytes \<Rightarrow> bytes \<Rightarrow> int \<Rightarrow> u16 \<Rightarrow> 'w \<Rightarrow> (int + mqtt_connect_params) \<times> 'w" where
  "mqtt_connect_params_create p cid hst prt keepalive w =
     (case p_malloc p w of (m, w) \<Rightarrow>
      case m sizeof_mqtt_connect_params of
        None \<Rightarrow> (Inl ERR_TR50_MALLOC, w)
      | Some _ \<Rightarrow>
          (case clone_string p hst w of (h, w) \<Rightarrow>
             (Inr \<lparr>host = h, port = prt, client_id = take 23 cid, username = None, password = None,
                   keepalive_in_sec = keepalive, use_ssl = 0, use_https_proxy = 0, proxy_type = 0,
                   proxy_addr = None, proxy_username = None, proxy_password = None\<rparr>, w)))"

definition mqtt_connect_params_set_username ::
  "'w platform \<Rightarrow> mqtt_connect_params \<Rightarrow> bytes \<Rightarrow> bytes \<Rightarrow> 'w \<Rightarrow> (int \<times> mqtt_connect_params) \<times> 'w" where
  "mqtt_connect_params_set_username p params user pass w =
     (case clone_string p user w of (u, w) \<Rightarrow>
      case clone_string p pass w of (pw, w) \<Rightarrow>
        ((0, params\<lparr>username := u, password := pw\<rparr>), w))"

definition mqtt_connect_params_use_ssl :: "mqtt_connect_params \<Rightarrow> int \<times> mqtt_connect_params" where
  "mqtt_connect_params_use_ssl params = (0, params\<lparr>use_ssl := 1\<rparr>)"

definition mqtt_connect_params_use_https_proxy :: "mqtt_connect_params \<Rightarrow> int \<times> mqtt_connect_params" where
  "mqtt_connect_params_use_https_proxy params = (0, params\<lparr>use_ssl := 1, use_https_proxy := 1\<rparr>)"

definition clone_if :: "'w platform \<Rightarrow> bytes option \<Rightarrow> bytes option \<Rightarrow> 'w \<Rightarrow> bytes option \<times> 'w" where
  "clone_if p s old w = (case s of None \<Rightarrow> (old, w) | Some s \<Rightarrow> clone_string p s w)"

definition mqtt_connect_params_use_proxy ::
  "'w platform \<Rightarrow> mqtt_connect_params \<Rightarrow> int \<Rightarrow> bytes option \<Rightarrow> bytes option \<Rightarrow> bytes option \<Rightarrow> 'w \<Rightarrow>
   (int \<times> mqtt_connect_params) \<times> 'w" where
  "mqtt_connect_params_use_proxy p params type addr user pass w =
     (case clone_if p addr (proxy_addr params) w of (a, w) \<Rightarrow>
      case clone_if p user (proxy_username params) w of (u, w) \<Rightarrow>
      case clone_if p pass (proxy_password params) w of (pw, w) \<Rightarrow>
        ((0, params\<lparr>proxy_type := type, proxy_addr := a, proxy_username := u, proxy_password := pw\<rparr>), w))"

text \<open>The blocks \<open>mqtt_connect_params_delete\<close> frees besides the structure; the proxy strings are not
  among them.\<close>

definition mqtt_connect_params_delete :: "mqtt_connect_params \<Rightarrow> int \<times> bytes option list" where
  "mqtt_connect_params_delete params =
     (0, filter (\<lambda>s. s \<noteq> None) [host params, username params, password params])"

definition mqtt_connect_params_get_keepalive :: "mqtt_connect_params \<Rightarrow> u16" where
  "mqtt_connect_params_get_keepalive params = keepalive_in_sec params"

subsection \<open>Connecting\<close>

definition is_crlf :: "byte \<Rightarrow> bool" where
  "is_crlf b \<longleftrightarrow> b = 0x0D \<or> b = 0x0A"

text \<open>The loop of \<open>_mqtt_https_connect\<close>: one byte at a time until four line-end bytes in a row or 255
  bytes.  A successful receive of one byte stores one byte.\<close>

function https_loop :: "'w platform \<Rightarrow> handle \<Rightarrow> bytes \<Rightarrow> nat \<Rightarrow> 'w \<Rightarrow> ((int + bytes) \<times> 'w) option" where
  "https_loop p h reply term_char w =
     (if length reply < 255 then
        case p_tcp_recv p w h 1 1000 of
          None \<Rightarrow> None
        | Some ((ret, bs), w) \<Rightarrow>
            if ret \<noteq> 0 then Some (Inl ret, w)
            else case bs of
              [] \<Rightarrow> None
            | buf # _ \<Rightarrow>
                if is_crlf buf then
                  (if term_char + 1 \<ge> 4 then Some (Inr (reply @ [buf]), w)
                   else https_loop p h (reply @ [buf]) (term_char + 1) w)
                else https_loop p h (reply @ [buf]) 0 w
      else Some (Inr reply, w))"
  by pat_completeness auto
termination by (relation "measure (\<lambda>(p, h, reply, term_char, w). 255 - length reply)") auto

declare https_loop.simps [simp del]

definition crlf :: bytes where "crlf = [0x0D, 0x0A]"

definition mqtt_https_connect :: "'w platform \<Rightarrow> handle \<Rightarrow> mqtt_connect_params \<Rightarrow> 'w \<Rightarrow> (int \<times> 'w) option" where
  "mqtt_https_connect p h params w =
     (case host params of
        None \<Rightarrow> None
      | Some hst \<Rightarrow>
          let http_request = take 255 (cstr ''GET /mqtt HTTP/1.1'' @ crlf @ cstr ''host: '' @ hst @ crlf @ crlf)
          in case p_tcp_send p w h http_request 1000 of
               None \<Rightarrow> None
             | Some (ret, w) \<Rightarrow>
                 if ret \<noteq> 0 then Some (ret, w)
                 else case https_loop p h [] 0 w of
                   None \<Rightarrow> None
                 | Some (Inl ret, w) \<Rightarrow> Some (ret, w)
                 | Some (Inr reply, w) \<Rightarrow>
                     let text = takeWhile (\<lambda>b. b \<noteq> 0) reply in
                     if take 15 text \<noteq> cstr ''HTTP/1.1 200 OK'' \<or> drop (length text - 4) text \<noteq> crlf @ crlf
                     then Some (ERR_TR50_HTTP_PROXY_FAILED, w)
                     else Some (0, w))"

text \<open>The label \<open>end_error\<close> of \<open>mqtt_connect\<close>, reached with \<open>ret\<close> not 0: close the socket, if any.\<close>

definition connect_end_error ::
  "'w platform \<Rightarrow> handle \<Rightarrow> int \<Rightarrow> 'w \<Rightarrow> ((int + mqtt_client) \<times> 'w) option" where
  "connect_end_error p h ret w =
     (case p_tcp_disconnect p w h of None \<Rightarrow> None | Some (_, w) \<Rightarrow> Some (Inl ret, w))"

text \<open>The three stages of \<open>mqtt_connect\<close>, in its order: wait for the CONNACK; build and send the
  CONNECT; open the socket (and the HTTPS tunnel).\<close>

definition connect_wait_ack ::
  "'w platform \<Rightarrow> mqtt_client \<Rightarrow> 'w \<Rightarrow> ((int + mqtt_client) \<times> 'w) option" where
  "connect_wait_ack p client w =
     (case mqtt_recv p client 5000 w of
        None \<Rightarrow> None
      | Some (Inl ret, client, w) \<Rightarrow> connect_end_error p (sock client) ret w
      | Some (Inr rsp, client, w) \<Rightarrow>
          (case mqtt_msg_process_connack rsp (int (length rsp)) of
             None \<Rightarrow> None
           | Some ret \<Rightarrow> if ret \<noteq> 0 then connect_end_error p (sock client) ret w else Some (Inr client, w)))"

definition connect_request ::
  "'w platform \<Rightarrow> mqtt_connect_params \<Rightarrow> handle \<Rightarrow> 'w \<Rightarrow> ((int + mqtt_client) \<times> 'w) option" where
  "connect_request p params h w =
     (case p_malloc p w of (m, w) \<Rightarrow>
      case mqtt_msg_build_connect m (client_id params) (username params) (password params)
             (keepalive_in_sec params) of
        None \<Rightarrow> None
      | Some (Inl ret) \<Rightarrow> connect_end_error p h ret w
      | Some (Inr (req, req_len)) \<Rightarrow>
          (case mqtt_send p \<lparr>sock = h, last_recv = 0, byte_sent = 0, byte_recv = 0\<rparr> req req_len 5000 w of
             None \<Rightarrow> None
           | Some (ret, client, w) \<Rightarrow>
               if ret \<noteq> 0 then connect_end_error p h ret w else connect_wait_ack p client w))"

definition connect_socket ::
  "'w platform \<Rightarrow> mqtt_connect_params \<Rightarrow> bytes \<Rightarrow> 'w \<Rightarrow> ((int \<times> handle) \<times> 'w) option" where
  "connect_socket p params hst w =
     (let options = (if use_ssl params \<noteq> 0 then 0 OR TCP_OPTION_SECURE else 0) in
      if proxy_type params > 0
      then p_tcp_connect_proxy p w hst (port params) options (proxy_type params) (proxy_addr params)
             (proxy_username params) (proxy_password params)
      else p_tcp_connect p w hst (port params) options)"

definition mqtt_connect ::
  "'w platform \<Rightarrow> mqtt_connect_params \<Rightarrow> 'w \<Rightarrow> ((int + mqtt_client) \<times> 'w) option" where
  "mqtt_connect p params w =
     (case p_malloc p w of (m, w) \<Rightarrow>
      if m sizeof_mqtt_client = None then Some (Inl ERR_TR50_MALLOC, w)
      else case host params of
        None \<Rightarrow> None
      | Some hst \<Rightarrow>
          (case connect_socket p params hst w of
             None \<Rightarrow> None
           | Some ((ret, h), w) \<Rightarrow>
               if ret \<noteq> 0 then connect_end_error p 0 ret w
               else if use_https_proxy params \<noteq> 0
               then (case mqtt_https_connect p h params w of
                       None \<Rightarrow> None
                     | Some (ret, w) \<Rightarrow>
                         if ret \<noteq> 0 then connect_end_error p h ret w else connect_request p params h w)
               else connect_request p params h w))"

text \<open>\<open>mqtt_disconnect\<close>: the return code; afterwards the client is gone.\<close>

definition mqtt_disconnect :: "'w platform \<Rightarrow> mqtt_client \<Rightarrow> 'w \<Rightarrow> (int \<times> 'w) option" where
  "mqtt_disconnect p client w =
     (case p_malloc p w of (m, w) \<Rightarrow>
      case mqtt_msg_build_disconnect m of
        None \<Rightarrow> None
      | Some (Inl ret) \<Rightarrow> Some (ret, w)
      | Some (Inr (msg, msg_len)) \<Rightarrow>
          (case mqtt_send p client msg msg_len 5000 w of
             None \<Rightarrow> None
           | Some (ret, client, w) \<Rightarrow>
               (case p_tcp_disconnect p w (sock client) of None \<Rightarrow> None | Some (_, w) \<Rightarrow> Some (ret, w))))"

subsection \<open>Requests\<close>

text \<open>What the request functions share: allocate and build, then send.\<close>

definition build_and_send ::
  "'w platform \<Rightarrow> mqtt_client \<Rightarrow> (malloc \<Rightarrow> (int + bytes \<times> int) option) \<Rightarrow> 'w \<Rightarrow> (int \<times> mqtt_client \<times> 'w) option" where
  "build_and_send p client build w =
     (case p_malloc p w of (m, w) \<Rightarrow>
      case build m of
        None \<Rightarrow> None
      | Some (Inl ret) \<Rightarrow> Some (ret, client, w)
      | Some (Inr (req, req_len)) \<Rightarrow> mqtt_send p client req req_len 5000 w)"

definition mqtt_publish ::
  "'w platform \<Rightarrow> mqtt_client \<Rightarrow> int \<Rightarrow> int \<Rightarrow> u16 \<Rightarrow> bytes \<Rightarrow> bytes \<Rightarrow> int \<Rightarrow> 'w \<Rightarrow>
   (int \<times> mqtt_client \<times> 'w) option" where
  "mqtt_publish p client qos retain message_id topic data data_len w =
     build_and_send p client (\<lambda>m. mqtt_msg_build_publish m topic qos retain message_id data data_len) w"

text \<open>\<open>mqtt_puback\<close> passes \<open>(qos, message_id)\<close> to a builder whose parameters are \<open>(msg_id, qos)\<close>.\<close>

definition mqtt_puback ::
  "'w platform \<Rightarrow> mqtt_client \<Rightarrow> u16 \<Rightarrow> int \<Rightarrow> 'w \<Rightarrow> (int \<times> mqtt_client \<times> 'w) option" where
  "mqtt_puback p client message_id qos w =
     build_and_send p client (\<lambda>m. mqtt_msg_build_puback m (word_of_int qos) (uint message_id)) w"

definition mqtt_ping :: "'w platform \<Rightarrow> mqtt_client \<Rightarrow> 'w \<Rightarrow> (int \<times> mqtt_client \<times> 'w) option" where
  "mqtt_ping p client w = build_and_send p client mqtt_msg_build_ping w"

definition mqtt_subscribe ::
  "'w platform \<Rightarrow> mqtt_client \<Rightarrow> u16 \<Rightarrow> bytes \<Rightarrow> int \<Rightarrow> 'w \<Rightarrow> (int \<times> mqtt_client \<times> 'w) option" where
  "mqtt_subscribe p client mid topic qos w =
     build_and_send p client (\<lambda>m. mqtt_msg_build_subscribe m topic qos mid) w"

definition mqtt_unsubscribe ::
  "'w platform \<Rightarrow> mqtt_client \<Rightarrow> u16 \<Rightarrow> bytes \<Rightarrow> 'w \<Rightarrow> (int \<times> mqtt_client \<times> 'w) option" where
  "mqtt_unsubscribe p client mid topic w =
     build_and_send p client (\<lambda>m. mqtt_msg_build_unsubscribe m topic mid) w"

subsection \<open>Statistics\<close>

definition mqtt_stats_byte_sent :: "mqtt_client option \<Rightarrow> int" where
  "mqtt_stats_byte_sent client = (case client of None \<Rightarrow> 0 | Some c \<Rightarrow> byte_sent c)"

definition mqtt_stats_byte_recv :: "mqtt_client option \<Rightarrow> int" where
  "mqtt_stats_byte_recv client = (case client of None \<Rightarrow> 0 | Some c \<Rightarrow> byte_recv c)"

definition mqtt_stats_clear :: "mqtt_client option \<Rightarrow> mqtt_client option" where
  "mqtt_stats_clear client = map_option (\<lambda>c. c\<lparr>byte_recv := 0, byte_sent := 0\<rparr>) client"

subsection \<open>What the requests put on the wire\<close>

lemma malloc_tx: "linux_malloc os = (m, os') \<Longrightarrow> os_tx os' = os_tx os \<and> os_sock os' = os_sock os"
  by (auto simp: linux_malloc_def split: list.splits)

text \<open>A request on a plain connection whose builder returns the packet \<open>pkt\<close>: the packet, or as much
  of it as the kernel took, goes out, and the answer is 0 whatever the kernel took.\<close>

lemma build_and_send_linux:
  assumes sock: "clear (sock client) os" "sock client \<noteq> 0"
    and build: "\<And>m. malloc_spec m \<Longrightarrow> build m = built m pkt"
    and call: "build_and_send linux_platform client build os = Some (ret, client', os')"
  shows "(ret = ERR_TR50_MALLOC \<and> os_tx os' = os_tx os \<and> client' = client) \<or>
    (ret = 0 \<and> (\<exists>ds rest. os_tx os' = os_tx os @ map (Pair (at0 (the (os_sock os (sock client))))) ds \<and>
      pkt = concat ds @ rest \<and>
      (rest = [] \<or> byte_sent client' = byte_sent client)))"
proof -
  obtain m os1 where m: "linux_malloc os = (m, os1)" by fastforce
  have b: "build m = built m pkt" by (rule build [OF linux_malloc_spec [OF m]])
  note tx = malloc_tx [OF m]
  have clear1: "clear (sock client) os1" using sock(1) clear_malloc [OF m] by simp
  show ?thesis
  proof (cases "m (length pkt)")
    case None
    then show ?thesis
      using call m tx by (auto simp: build_and_send_def linux_platform_def b built_def)
  next
    case (Some blk)
    then obtain e where e: "tcp_send os1 (sock client) pkt 5000 = Some (e, os')"
      "ret = 0" "client' = (if e = 0 then client\<lparr>byte_sent := byte_sent client + int (length pkt)\<rparr> else client)"
      using call m by (auto simp: build_and_send_def linux_platform_def b built_def mqtt_send_def split: option.splits)
    from clear_tcp_send [OF clear1 sock(2) e(1)] obtain ds rest where
      "os_tx os' = os_tx os1 @ map (Pair (at0 (the (os_sock os1 (sock client))))) ds"
      "pkt = concat ds @ rest" "e = 0 \<longrightarrow> rest = []" by blast
    with e(2,3) tx show ?thesis by auto
  qed
qed


lemma os_open_clear: "clear (sock client_demo) (os_open es)" "sock client_demo \<noteq> 0"
  by (simp_all add: clear_def os_open_def client_demo_def)

lemma publish_demo:
  "\<exists>client' os'. mqtt_publish linux_platform client_demo 0 0 0 [0x74] [0x68] 1 (os_open []) = Some (0, client', os') \<and>
     os_tx os' = [(3, [0x30, 4, 0, 1, 0x74, 0x68])]"
proof -
  have b: "mqtt_msg_build_publish (\<lambda>n. Some (replicate n 0xAA)) [0x74] 0 0 0 [0x68] 1 =
      Some (Inr ([0x30, 4, 0, 1, 0x74, 0x68], 6))"
    by code_simp
  show ?thesis
    by (simp add: mqtt_publish_def build_and_send_def linux_platform_def os_open_def os_init_def linux_malloc_def
        b mqtt_send_def tcp_send_def tcp_send_loop.simps kernel_send_def sys_def client_demo_def DTCPBUF_def Let_def)
qed


text \<open>No request of the client ever reports that its packet could not be sent: on every platform,
  when the socket layer refuses the packet with an error, the publish still answers 0.\<close>

theorem mqtt_publish_hides_send_failure:
  assumes "p_malloc p w = (m, w1)"
    and "mqtt_msg_build_publish m topic qos retain mid payload n = Some (Inr (pkt, len))"
    and "p_tcp_send p w1 (sock client) pkt 5000 = Some (e, w2)" "e \<noteq> 0"
  shows "mqtt_publish p client qos retain mid topic payload n w = Some (0, client, w2)"
  using assms by (simp add: mqtt_publish_def build_and_send_def mqtt_send_def)

theorem mqtt_publish_hides_send_failure_witness:
  "\<exists>os'. mqtt_publish linux_platform client_demo 0 0 0 [0x74] [0x68] 1
     ((os_open [])\<lparr>os_ans := (\<lambda>_. [])(Sys_send := [- 1])\<rparr>) = Some (0, client_demo, os')"
proof -
  let ?os = "(os_open [])\<lparr>os_ans := (\<lambda>_. [])(Sys_send := [- 1])\<rparr>"
  have b: "mqtt_msg_build_publish (\<lambda>n. Some (replicate n 0xAA)) [0x74] 0 0 0 [0x68] 1 =
      Some (Inr ([0x30, 4, 0, 1, 0x74, 0x68], 6))"
    by code_simp
  have m: "p_malloc linux_platform ?os = ((\<lambda>n. Some (replicate n 0xAA)), ?os)"
    by (simp add: linux_platform_def linux_malloc_def os_open_def os_init_def)
  obtain os' where "p_tcp_send linux_platform ?os (sock client_demo) [0x30, 4, 0, 1, 0x74, 0x68] 5000 =
      Some (ERR_TR50_SOCK_SEND_FAILED, os')"
    by (simp add: linux_platform_def os_open_def os_init_def tcp_send_def tcp_send_loop.simps kernel_send_def
        sys_def client_demo_def DTCPBUF_def Let_def)
  from mqtt_publish_hides_send_failure [OF m b this] show ?thesis
    by (auto simp: err_code)
qed

text \<open>The acknowledgement of a received message does not carry the id of that message: the packet
  \<open>mqtt_puback\<close> sends is built from its qos argument alone, and reads back as the id \<open>qos\<close>.\<close>

theorem mqtt_puback_sends_qos_as_id:
  assumes "clear (sock client) os" "sock client \<noteq> 0"
    and "mqtt_puback linux_platform client mid qos os = Some (ret, client', os')"
  shows "(ret = ERR_TR50_MALLOC \<and> os_tx os' = os_tx os) \<or>
    (ret = 0 \<and> (\<exists>ds rest. os_tx os' = os_tx os @ map (Pair (at0 (the (os_sock os (sock client))))) ds \<and>
      [MQTT_MSG_TYPE_PUBACK, 2] @ be16 (word_of_int qos) = concat ds @ rest))"
  using build_and_send_linux [OF assms(1,2) build_puback_bytes assms(3) [unfolded mqtt_puback_def]] by blast

theorem mqtt_puback_sends_qos_as_id_witness:
  "\<exists>ds rest. [(3, [0x40, 2, 0, 1 :: byte])] = map (Pair (3 :: int)) ds \<and>
     [MQTT_MSG_TYPE_PUBACK, 2] @ be16 1 = concat ds @ rest"
proof -
  have b: "mqtt_msg_build_puback (\<lambda>n. Some (replicate n 0xAA)) 1 0x1234 = Some (Inr ([0x40, 2, 0, 1], 4))"
    by code_simp
  obtain client' os' where r: "mqtt_puback linux_platform client_demo 0x1234 1 (os_open []) = Some (0, client', os')"
    "os_tx os' = [(3, [0x40, 2, 0, 1])]"
    by (simp add: mqtt_puback_def build_and_send_def linux_platform_def os_open_def os_init_def linux_malloc_def
        b mqtt_send_def tcp_send_def tcp_send_loop.simps kernel_send_def sys_def client_demo_def DTCPBUF_def Let_def)
  from mqtt_puback_sends_qos_as_id [OF os_open_clear r(1)] r(2) show ?thesis
    by (simp add: err_code) (auto simp: os_open_def os_init_def client_demo_def)
qed

lemma connack_accepted:
  "mqtt_msg_process_connack rsp (int (length rsp)) = Some 0 \<Longrightarrow>
   length rsp = 4 \<and> rsp ! 0 AND MQTT_GET_MSG_TYPE = MQTT_MSG_TYPE_CONNACK \<and> rsp ! 3 = 0"
  by (auto simp: mqtt_msg_process_connack_def err_code peek_def split: if_splits Option.bind_splits)

text \<open>C9: A connect without proxies succeeds only after the broker has accepted it: the first thing the
  peer of the new connection sent is a whole CONNACK packet of four bytes with return code 0, and
  the client starts reading right behind it.\<close>

theorem mqtt_connect_accepted:
  assumes "mqtt_connect linux_platform params os = Some (Inr client, os')"
    and "\<not> proxy_type params > 0" "use_https_proxy params = 0" "os_peers os = es # later_peers"
  shows "\<exists>rsp. rx_bytes es = rsp @ rx_bytes (os_rx os' (sock client)) \<and> mqtt_frame rsp \<and> length rsp = 4 \<and>
    rsp ! 0 AND MQTT_GET_MSG_TYPE = MQTT_MSG_TYPE_CONNACK \<and> rsp ! 3 = 0"
proof -
  have end_error: "connect_end_error linux_platform h ret os2 \<noteq> Some (Inr client, os')" for h ret os2
    by (auto simp: connect_end_error_def split: option.split)
  obtain m os0 where m: "linux_malloc os = (m, os0)" by fastforce
  obtain hst h os1 where s: "connect_socket linux_platform params hst os0 = Some ((0, h), os1)"
    and req: "connect_request linux_platform params h os1 = Some (Inr client, os')"
    using assms(1,3) end_error m
    by (auto simp: mqtt_connect_def split: option.splits if_splits prod.splits) (auto simp: linux_platform_def)
  then obtain opts where c: "tcp_connect os0 hst (port params) opts = ((0, h), os1)"
    using assms(2) by (auto simp: connect_socket_def Let_def linux_platform_def)
  obtain m' os2 where m': "linux_malloc os1 = (m', os2)" by fastforce
  obtain r len client1 os3 where
    s: "mqtt_send linux_platform \<lparr>sock = h, last_recv = 0, byte_sent = 0, byte_recv = 0\<rparr> r len 5000 os2 =
      Some (0, client1, os3)"
    and w: "connect_wait_ack linux_platform client1 os3 = Some (Inr client, os')"
    using req end_error m'
    by (auto simp: connect_request_def split: option.splits if_splits prod.splits sum.splits)
      (auto simp: linux_platform_def)
  obtain rsp where r: "mqtt_recv linux_platform client1 5000 os3 = Some (Inr rsp, client, os')"
    and ack: "mqtt_msg_process_connack rsp (int (length rsp)) = Some 0"
    using w end_error by (auto simp: connect_wait_ack_def split: option.splits if_splits prod.splits sum.splits)
  obtain mm os0' where mm: "linux_malloc os0 = (mm, os0')" by fastforce
  have "os_rx os1 h = es"
    using clear_connect [OF mm, of hst "port params" opts] c assms(4) peers_frame(2) [OF m]
    by (simp add: clear_result_def first_peer_def)
  moreover have "os_rx os3 = os_rx os1 \<and> sock client1 = h"
    using s rx_frame_result(2) [OF m'] tcp_send_rx
    by (auto simp: mqtt_send_def linux_platform_def split: option.splits)
  ultimately have "rx_bytes es = rsp @ rx_bytes (os_rx os' (sock client)) \<and> mqtt_frame rsp"
    using linux.recv_result [OF r] by auto
  with connack_accepted [OF ack] show ?thesis by blast
qed

definition params_demo :: mqtt_connect_params where
  "params_demo = \<lparr>host = Some [0x68], port = 1883, client_id = [0x63], username = None, password = None,
     keepalive_in_sec = 60, use_ssl = 0, use_https_proxy = 0, proxy_type = 0, proxy_addr = None,
     proxy_username = None, proxy_password = None\<rparr>"

definition os_broker :: os where
  "os_broker = os_init [[RxData [0x20, 2], RxData [0, 0, 9]]]"

definition os_connected :: os where
  "os_connected = snd (tcp_connect os_broker [0x68] 1883 0)"

lemma os_broker_connected: "tcp_connect os_broker [0x68] 1883 0 = ((0, 1), os_connected)"
  unfolding os_connected_def os_broker_def by (simp add: connect_eval)

lemma os_connected_eq: "os_connected = (os_init [])\<lparr>os_sock := [1 \<mapsto> \<lparr>at0 = 3, at4 = 0, at8 = 0, at12 = 0, at16 = 0\<rparr>],
    os_next := 2, os_rx := (\<lambda>_. [])(1 := [RxData [0x20, 2], RxData [0, 0, 9]])\<rparr>"
  unfolding os_connected_def os_broker_def by (simp add: connect_eval)

lemma connect_demo:
  "\<exists>client os'. mqtt_connect linux_platform params_demo os_broker = Some (Inr client, os')"
proof -
  have b: "mqtt_msg_build_connect (\<lambda>n. Some (replicate n 0xAA)) [0x63] None None 60 =
    Some (Inr ([0x10, 15, 0, 6, 0x4D, 0x51, 0x49, 0x73, 0x64, 0x70, 3, 0, 0, 60, 0, 1, 0x63], 17))"
    by code_simp
  have r: "\<exists>client' os'. mqtt_recv linux_platform client 5000 os = Some (Inr (framed 0x20 [0, 0]), client', os')"
    if "os_ready 0 os (sock client)" "rx_bytes (os_rx os (sock client)) = framed 0x20 [0, 0] @ [9]" for client os
    using linux_prompt.recv_complete [OF that, of 5000] by auto
  have f: "framed 0x20 [0, 0] = [0x20, 2, 0, 0]"
    by (simp add: framed_def varint.simps [of "Suc (Suc 0)"])
  have m: "linux_malloc os_broker = ((\<lambda>n. Some (replicate n 0xAA)), os_broker)"
    "linux_malloc os_connected = ((\<lambda>n. Some (replicate n 0xAA)), os_connected)"
    by (simp_all add: os_connected_eq os_broker_def os_init_def linux_malloc_def)
  let ?req = "[0x10, 15, 0, 6, 0x4D, 0x51, 0x49, 0x73, 0x64, 0x70, 3, 0, 0, 60, 0, 1, 0x63] :: bytes"
  have s: "tcp_send os_connected 1 ?req 5000 = Some (0, os_connected\<lparr>os_tx := [(3, ?req)]\<rparr>)"
    by (simp add: os_connected_eq os_init_def tcp_send_def tcp_send_loop.simps kernel_send_def sys_def DTCPBUF_def Let_def)
  obtain client' os' where "mqtt_recv linux_platform \<lparr>sock = 1, last_recv = 0, byte_sent = 17, byte_recv = 0\<rparr> 5000
      (os_connected\<lparr>os_tx := [(3, ?req)]\<rparr>) = Some (Inr [0x20, 2, 0, 0], client', os')"
    using r [of "os_connected\<lparr>os_tx := [(3, ?req)]\<rparr>" "\<lparr>sock = 1, last_recv = 0, byte_sent = 17, byte_recv = 0\<rparr>"]
    by (auto simp: f os_ready_def os_connected_eq os_init_def clear_def data_only_def)
  then show ?thesis
    using m s b os_broker_connected
    by (simp add: mqtt_connect_def connect_socket_def connect_request_def connect_wait_ack_def Let_def
        linux_platform_def params_demo_def mqtt_send_def
        mqtt_msg_process_connack_def peek_def wire_const)
qed

theorem mqtt_connect_accepted_witness:
  "\<exists>rsp rest. [0x20, 2, 0, 0, 9 :: byte] = rsp @ rest \<and> mqtt_frame rsp \<and> length rsp = 4"
proof -
  obtain client os' where c: "mqtt_connect linux_platform params_demo os_broker = Some (Inr client, os')"
    using connect_demo by blast
  have "os_peers os_broker = [RxData [0x20, 2], RxData [0, 0, 9]] # []"
    by (simp add: os_broker_def os_init_def)
  from mqtt_connect_accepted [OF c _ _ this] show ?thesis
    by (auto simp: params_demo_def)
qed

end
