(* ===== verification/Mqtt_Qos.thy ===== *)
theory Mqtt_Qos
  imports Tr50_Error "HOL-Library.Multiset"
begin

section \<open>Outstanding acknowledgements (mqtt/mqtt.qos.c)\<close>

text \<open>
  The table of requests that wait for a PUBACK, SUBACK or UNSUBACK.  The state is the C record
  without its mutex: every function takes the mutex for its whole body, except that it is
  released around a callback.  A callback is an event (callback, status, custom) in the result;
  \<open>None\<close> stands for a NULL callback, which is not called.  \<open>mqtt_qos_clear\<close> releases the mutex
  at every callback, and the one operation other threads (or the callback itself) perform on the
  table is \<open>mqtt_qos_add\<close>: the requests they add at each release are an argument of the model.
  \<open>qos_outstanding\<close> is the abstraction, the multiset of waiting requests; the locale
  \<open>ack_table\<close> is the contract the MQTT client relies on.
\<close>

subsection \<open>State\<close>

record qos_record =
  is_used :: bool
  msg_id :: u16
  callback :: "nat option"
  custom :: nat
  expiration_timestamp :: int

record mqtt_qos =
  max_size :: nat
  current_size :: int
  records :: "qos_record list"
  timeout_in_sec :: int

type_synonym qos_call = "nat option \<times> int \<times> nat"
type_synonym qos_request = "u16 \<times> nat option \<times> nat"

definition qos_record_zero :: qos_record where
  "qos_record_zero = \<lparr>is_used = False, msg_id = 0, callback = None, custom = 0, expiration_timestamp = 0\<rparr>"

subsection \<open>Operations\<close>

text \<open>\<open>sizeof(_MQTT_QOS)\<close> and \<open>sizeof(_MQTT_QOS_RECORD)\<close> on LP64.\<close>

definition sizeof_mqtt_qos :: nat where "sizeof_mqtt_qos = 32"
definition sizeof_mqtt_qos_record :: nat where "sizeof_mqtt_qos_record = 32"

definition mqtt_qos_create :: "malloc \<Rightarrow> malloc \<Rightarrow> byte \<Rightarrow> int \<Rightarrow> int + mqtt_qos" where
  "mqtt_qos_create malloc1 malloc2 sz timeout =
     (case malloc1 sizeof_mqtt_qos of
        None \<Rightarrow> Inl ERR_TR50_MALLOC
      | Some _ \<Rightarrow>
          (case malloc2 (unat sz * sizeof_mqtt_qos_record) of
             None \<Rightarrow> Inl ERR_TR50_MALLOC
           | Some _ \<Rightarrow> Inr \<lparr>max_size = unat sz, current_size = 0,
                           records = replicate (unat sz) qos_record_zero, timeout_in_sec = timeout\<rparr>))"

text \<open>The search loops of the operations, over the records from index \<open>i\<close> on; the rest of the
  array is untouched.\<close>

fun qos_add_loop :: "qos_record list \<Rightarrow> qos_record \<Rightarrow> qos_record list option" where
  "qos_add_loop [] new = None"
| "qos_add_loop (r # rs) new =
     (if is_used r then map_option ((#) r) (qos_add_loop rs new) else Some (new # rs))"

definition mqtt_qos_add ::
  "mqtt_qos \<Rightarrow> int \<Rightarrow> u16 \<Rightarrow> nat option \<Rightarrow> nat \<Rightarrow> int \<times> mqtt_qos" where
  "mqtt_qos_add mq now mid cb cust =
     (case qos_add_loop (records mq)
             \<lparr>is_used = True, msg_id = mid, callback = cb, custom = cust,
              expiration_timestamp = now + timeout_in_sec mq\<rparr> of
        Some rs \<Rightarrow> (0, mq\<lparr>records := rs, current_size := current_size mq + 1\<rparr>)
      | None \<Rightarrow> (ERR_MQTT_QOS_FULL, mq))"

fun qos_signal_loop :: "qos_record list \<Rightarrow> u16 \<Rightarrow> (qos_record \<times> qos_record list) option" where
  "qos_signal_loop [] mid = None"
| "qos_signal_loop (r # rs) mid =
     (if \<not> is_used r \<or> msg_id r \<noteq> mid
      then map_option (\<lambda>(hit, rs'). (hit, r # rs')) (qos_signal_loop rs mid)
      else Some (r, r\<lparr>is_used := False\<rparr> # rs))"

definition mqtt_qos_signal :: "mqtt_qos \<Rightarrow> u16 \<Rightarrow> int \<times> qos_call list \<times> mqtt_qos" where
  "mqtt_qos_signal mq mid =
     (if current_size mq = 0 then (ERR_MQTT_QOS_NOTFOUND, [], mq)
      else case qos_signal_loop (records mq) mid of
             Some (r, rs) \<Rightarrow> (0, [(callback r, 0, custom r)],
                             mq\<lparr>records := rs, current_size := current_size mq - 1\<rparr>)
           | None \<Rightarrow> (ERR_MQTT_QOS_NOTFOUND, [], mq))"

text \<open>The requests (time, id, callback, custom) added while the mutex is released.\<close>

type_synonym qos_adds = "(int \<times> qos_request) list"

definition qos_adds :: "qos_adds \<Rightarrow> mqtt_qos \<Rightarrow> mqtt_qos" where
  "qos_adds as mq = fold (\<lambda>(now, mid, cb, cust) q. snd (mqtt_qos_add q now mid cb cust)) as mq"

lemma qos_add_loop_length: "qos_add_loop rs new = Some rs' \<Longrightarrow> length rs' = length rs"
  by (induction rs arbitrary: rs') (auto split: if_splits)

lemma mqtt_qos_add_sizes [simp]:
  "max_size (snd (mqtt_qos_add mq now mid cb cust)) = max_size mq"
  "length (records (snd (mqtt_qos_add mq now mid cb cust))) = length (records mq)"
  by (auto simp: mqtt_qos_add_def qos_add_loop_length split: option.split)

lemma qos_adds_sizes [simp]:
  "max_size (qos_adds as mq) = max_size mq"
  "length (records (qos_adds as mq)) = length (records mq)"
  unfolding qos_adds_def by (induction as arbitrary: mq) (auto split: prod.split)

text \<open>The loop of \<open>mqtt_qos_clear\<close> from index \<open>i\<close> on; \<open>others\<close> gives what is added at each release
  of the mutex.\<close>

function qos_clear_loop ::
  "(qos_call \<Rightarrow> qos_adds) \<Rightarrow> int \<Rightarrow> nat \<Rightarrow> mqtt_qos \<Rightarrow> qos_call list \<times> mqtt_qos" where
  "qos_clear_loop others status i mq =
     (if i < max_size mq then
        let r = records mq ! i in
        if \<not> is_used r then qos_clear_loop others status (Suc i) mq
        else let mq = mq\<lparr>records := (records mq)[i := r\<lparr>is_used := False\<rparr>],
                         current_size := current_size mq - 1\<rparr>;
                 call = (callback r, status, custom r);
                 (calls, mq) = qos_clear_loop others status (Suc i) (qos_adds (others call) mq)
             in (call # calls, mq)
      else ([], mq))"
  by pat_completeness auto
termination
  by (relation "measure (\<lambda>(others, status, i, mq). max_size mq - i)") auto

declare qos_clear_loop.simps [simp del]

definition mqtt_qos_clear ::
  "(qos_call \<Rightarrow> qos_adds) \<Rightarrow> mqtt_qos \<Rightarrow> int \<Rightarrow> qos_call list \<times> mqtt_qos" where
  "mqtt_qos_clear others mq status =
     (if current_size mq = 0 then ([], mq) else qos_clear_loop others status 0 mq)"

fun qos_expired_loop :: "int \<Rightarrow> int \<Rightarrow> qos_record list \<Rightarrow> bool \<times> qos_record list" where
  "qos_expired_loop timeout now [] = (False, [])"
| "qos_expired_loop timeout now (r # rs) =
     (if \<not> is_used r then (case qos_expired_loop timeout now rs of (b, rs) \<Rightarrow> (b, r # rs))
      else if expiration_timestamp r - timeout > now
      then (case qos_expired_loop timeout now rs of
              (b, rs) \<Rightarrow> (b, r\<lparr>expiration_timestamp := timeout + now\<rparr> # rs))
      else if expiration_timestamp r > now
      then (case qos_expired_loop timeout now rs of (b, rs) \<Rightarrow> (b, r # rs))
      else (True, r # rs))"

text \<open>The loop runs to \<open>current_size\<close>, not to \<open>max_size\<close>.\<close>

definition mqtt_qos_any_expired :: "mqtt_qos \<Rightarrow> int \<Rightarrow> bool \<times> mqtt_qos" where
  "mqtt_qos_any_expired mq now =
     (if current_size mq = 0 then (False, mq)
      else let n = nat (current_size mq) in
           case qos_expired_loop (timeout_in_sec mq) now (take n (records mq)) of
             (b, rs) \<Rightarrow> (b, mq\<lparr>records := rs @ drop n (records mq)\<rparr>))"

subsection \<open>Abstraction and invariant\<close>

definition qos_key :: "qos_record \<Rightarrow> qos_request" where
  "qos_key r = (msg_id r, callback r, custom r)"

definition qos_waiting :: "qos_record list \<Rightarrow> qos_request multiset" where
  "qos_waiting rs = mset (map qos_key (filter is_used rs))"

definition qos_outstanding :: "mqtt_qos \<Rightarrow> qos_request multiset" where
  "qos_outstanding mq = qos_waiting (records mq)"

definition qos_inv :: "mqtt_qos \<Rightarrow> bool" where
  "qos_inv mq \<longleftrightarrow> length (records mq) = max_size mq \<and>
     current_size mq = int (size (qos_outstanding mq)) \<and> 0 \<le> timeout_in_sec mq"

lemma qos_waiting_simps [simp]:
  "qos_waiting [] = {#}"
  "qos_waiting (r # rs) = (if is_used r then add_mset (qos_key r) (qos_waiting rs) else qos_waiting rs)"
  "qos_waiting (rs @ rs') = qos_waiting rs + qos_waiting rs'"
  by (simp_all add: qos_waiting_def)

lemma qos_waiting_replicate [simp]: "qos_waiting (replicate n qos_record_zero) = {#}"
  by (simp add: qos_waiting_def qos_record_zero_def)

lemma size_qos_waiting: "size (qos_waiting rs) \<le> length rs"
  by (induction rs) auto

lemma size_outstanding_le: "qos_inv mq \<Longrightarrow> current_size mq \<le> int (max_size mq)"
  using size_qos_waiting [of "records mq"] by (auto simp: qos_inv_def qos_outstanding_def)

lemma qos_add_loop_None: "qos_add_loop rs new = None \<longleftrightarrow> size (qos_waiting rs) = length rs"
proof (induction rs)
  case (Cons r rs)
  then show ?case using size_qos_waiting [of rs] by auto
qed simp

lemma qos_add_loop_Some:
  "qos_add_loop rs new = Some rs' \<Longrightarrow> is_used new \<Longrightarrow>
   qos_waiting rs' = add_mset (qos_key new) (qos_waiting rs)"
  by (induction rs arbitrary: rs') (auto split: if_splits)

lemma qos_add_loop_update:
  "qos_add_loop rs new = Some rs' \<Longrightarrow> \<exists>k < length rs. \<not> is_used (rs ! k) \<and> rs' = rs[k := new]"
proof (induction rs arbitrary: rs')
  case (Cons r rs)
  show ?case
  proof (cases "is_used r")
    case True
    with Cons.prems obtain rs'' where "qos_add_loop rs new = Some rs''" "rs' = r # rs''"
      by auto
    with Cons.IH [of rs''] obtain k where "k < length rs" "\<not> is_used (rs ! k)" "rs'' = rs[k := new]"
      by blast
    then show ?thesis using \<open>rs' = r # rs''\<close> by (intro exI [of _ "Suc k"]) simp
  qed (use Cons.prems in auto)
qed simp

lemma qos_signal_loop_None:
  "qos_signal_loop rs mid = None \<longleftrightarrow> (\<forall>x \<in># qos_waiting rs. fst x \<noteq> mid)"
  by (induction rs) (auto simp: qos_key_def split: option.split)

lemma qos_signal_loop_Some:
  "qos_signal_loop rs mid = Some (r, rs') \<Longrightarrow>
   msg_id r = mid \<and> length rs' = length rs \<and> qos_waiting rs = add_mset (qos_key r) (qos_waiting rs')"
  by (induction rs arbitrary: rs') (auto split: if_splits)

lemma qos_expired_loop_waiting:
  "qos_expired_loop t now rs = (b, rs') \<Longrightarrow> length rs' = length rs \<and> qos_waiting rs' = qos_waiting rs"
  by (induction rs arbitrary: b rs') (auto simp: qos_key_def split: if_splits prod.splits)

lemma qos_expired_loop_result:
  "0 \<le> t \<Longrightarrow> fst (qos_expired_loop t now rs) \<longleftrightarrow> (\<exists>r \<in> set rs. is_used r \<and> expiration_timestamp r \<le> now)"
  by (induction rs) (auto split: prod.split)

subsection \<open>What each operation does to the outstanding requests\<close>

lemma create_spec:
  "mqtt_qos_create m1 m2 sz t = Inr mq \<Longrightarrow> 0 \<le> t \<Longrightarrow>
   qos_inv mq \<and> qos_outstanding mq = {#} \<and> max_size mq = unat sz \<and> timeout_in_sec mq = t"
  by (auto simp: mqtt_qos_create_def qos_inv_def qos_outstanding_def split: option.splits)

lemma add_spec:
  assumes "qos_inv mq" "mqtt_qos_add mq now mid cb cust = (ret, mq')"
  shows "qos_inv mq'" and "max_size mq' = max_size mq"
    and "ret = (if current_size mq < int (max_size mq) then 0 else ERR_MQTT_QOS_FULL)"
    and "qos_outstanding mq' =
      (if ret = 0 then add_mset (mid, cb, cust) (qos_outstanding mq) else qos_outstanding mq)"
proof -
  let ?new = "\<lparr>is_used = True, msg_id = mid, callback = cb, custom = cust,
              expiration_timestamp = now + timeout_in_sec mq\<rparr>"
  consider (full) "qos_add_loop (records mq) ?new = None" "ret = ERR_MQTT_QOS_FULL" "mq' = mq"
    | (room) rs where "qos_add_loop (records mq) ?new = Some rs" "ret = 0"
        "mq' = mq\<lparr>records := rs, current_size := current_size mq + 1\<rparr>"
    using assms(2) by (auto simp: mqtt_qos_add_def split: option.splits)
  then have "qos_inv mq' \<and> max_size mq' = max_size mq \<and>
    ret = (if current_size mq < int (max_size mq) then 0 else ERR_MQTT_QOS_FULL) \<and>
    qos_outstanding mq' =
      (if ret = 0 then add_mset (mid, cb, cust) (qos_outstanding mq) else qos_outstanding mq)"
  proof cases
    case full
    then have "\<not> current_size mq < int (max_size mq)"
      using assms(1) unfolding qos_add_loop_None by (simp add: qos_inv_def qos_outstanding_def)
    with full assms(1) show ?thesis by (simp add: err_code)
  next
    case room
    then have "size (qos_waiting (records mq)) \<noteq> length (records mq)"
      using qos_add_loop_None [of "records mq" ?new] by auto
    then have "current_size mq < int (max_size mq)"
      using assms(1) size_qos_waiting [of "records mq"] by (simp add: qos_inv_def qos_outstanding_def)
    moreover have "qos_waiting rs = add_mset (mid, cb, cust) (qos_waiting (records mq))"
      using qos_add_loop_Some [OF room(1)] by (simp add: qos_key_def)
    ultimately show ?thesis
      using room assms(1) qos_add_loop_length [OF room(1)] by (simp add: qos_inv_def qos_outstanding_def)
  qed
  then show "qos_inv mq'" "max_size mq' = max_size mq"
    "ret = (if current_size mq < int (max_size mq) then 0 else ERR_MQTT_QOS_FULL)"
    "qos_outstanding mq' =
      (if ret = 0 then add_mset (mid, cb, cust) (qos_outstanding mq) else qos_outstanding mq)"
    by blast+
qed

text \<open>A signal either finds no request with the id, or completes exactly one of them.\<close>

lemma signal_spec:
  assumes "qos_inv mq" "mqtt_qos_signal mq mid = (ret, calls, mq')"
  obtains (missing) "ret = ERR_MQTT_QOS_NOTFOUND" "calls = []" "mq' = mq"
      "\<forall>x \<in># qos_outstanding mq. fst x \<noteq> mid"
    | (hit) cb cust where "ret = 0" "calls = [(cb, 0, cust)]" "qos_inv mq'" "max_size mq' = max_size mq"
      "qos_outstanding mq = add_mset (mid, cb, cust) (qos_outstanding mq')"
proof (cases "current_size mq = 0")
  case True
  then have "qos_outstanding mq = {#}" using assms(1) by (simp add: qos_inv_def)
  with True assms(2) missing show thesis by (simp add: mqtt_qos_signal_def)
next
  case False
  show thesis
  proof (cases "qos_signal_loop (records mq) mid")
    case None
    with False assms(2) missing show thesis
      by (simp add: mqtt_qos_signal_def qos_signal_loop_None [symmetric] qos_outstanding_def)
  next
    case (Some p)
    obtain r rs where p: "p = (r, rs)" by (cases p)
    note s = qos_signal_loop_Some [OF Some [unfolded p]]
    have "mq' = mq\<lparr>records := rs, current_size := current_size mq - 1\<rparr>" "ret = 0"
      "calls = [(callback r, 0, custom r)]"
      using False assms(2) Some p by (simp_all add: mqtt_qos_signal_def)
    with s assms(1) hit show thesis
      by (auto simp: qos_inv_def qos_outstanding_def qos_key_def)
  qed
qed

lemma any_expired_spec:
  assumes "qos_inv mq" "mqtt_qos_any_expired mq now = (b, mq')"
  shows "qos_inv mq'" "qos_outstanding mq' = qos_outstanding mq" "max_size mq' = max_size mq"
proof -
  let ?n = "nat (current_size mq)"
  obtain b' rs where l: "qos_expired_loop (timeout_in_sec mq) now (take ?n (records mq)) = (b', rs)"
    by fastforce
  have w: "qos_waiting (take ?n (records mq)) + qos_waiting (drop ?n (records mq)) = qos_outstanding mq"
    by (simp add: qos_outstanding_def qos_waiting_simps(3) [symmetric] del: qos_waiting_simps(3))
  note s = qos_expired_loop_waiting [OF l]
  have "qos_inv mq' \<and> qos_outstanding mq' = qos_outstanding mq \<and> max_size mq' = max_size mq"
  proof (cases "current_size mq = 0")
    case False
    then have "mq' = mq\<lparr>records := rs @ drop ?n (records mq)\<rparr>"
      using assms(2) l by (simp add: mqtt_qos_any_expired_def Let_def)
    with s w assms(1) show ?thesis
      by (auto simp: qos_inv_def qos_outstanding_def)
  qed (use assms in \<open>simp add: mqtt_qos_any_expired_def\<close>)
  then show "qos_inv mq'" "qos_outstanding mq' = qos_outstanding mq" "max_size mq' = max_size mq"
    by blast+
qed

lemma adds_inv [simp]: "qos_inv mq \<Longrightarrow> qos_inv (qos_adds as mq)"
proof (induction as arbitrary: mq)
  case (Cons a as)
  obtain now mid cb cust where a: "a = (now, mid, cb, cust)" by (cases a)
  have "qos_inv (snd (mqtt_qos_add mq now mid cb cust))"
    using add_spec(1) [OF Cons.prems] by (metis prod.collapse)
  with Cons.IH show ?case by (simp add: qos_adds_def a)
qed (simp add: qos_adds_def)

text \<open>The calls that complete the requests \<open>reqs\<close> with one status.\<close>

definition completions :: "int \<Rightarrow> qos_request multiset \<Rightarrow> qos_call multiset" where
  "completions status reqs = image_mset (\<lambda>(_, cb, cust). (cb, status, cust)) reqs"

lemma completions_simps [simp]:
  "completions status {#} = {#}"
  "completions status (add_mset (mid, cb, cust) reqs) = add_mset (cb, status, cust) (completions status reqs)"
  "completions status (A + B) = completions status A + completions status B"
  by (simp_all add: completions_def)

lemma completions_mono: "A \<subseteq># B \<Longrightarrow> completions status A \<subseteq># completions status B"
  by (simp add: completions_def image_mset_subseteq_mono)

lemma completions_key: "completions status (add_mset (qos_key r) A) =
    add_mset (callback r, status, custom r) (completions status A)"
  by (simp add: qos_key_def)

lemma adds_waiting_drop:
  "qos_waiting (drop i (records mq)) \<subseteq># qos_waiting (drop i (records (qos_adds as mq)))"
proof (induction as arbitrary: mq)
  case (Cons a as)
  obtain now mid cb cust where a: "a = (now, mid, cb, cust)" by (cases a)
  let ?q = "snd (mqtt_qos_add mq now mid cb cust)"
  have "qos_waiting (drop i (records mq)) \<subseteq># qos_waiting (drop i (records ?q))"
  proof (cases "qos_add_loop (records mq) \<lparr>is_used = True, msg_id = mid, callback = cb, custom = cust,
              expiration_timestamp = now + timeout_in_sec mq\<rparr>")
    case (Some rs)
    then have q: "records ?q = rs" by (simp add: mqtt_qos_add_def)
    obtain k new where k: "k < length (records mq)" "\<not> is_used (records mq ! k)"
      "rs = (records mq)[k := new]"
      using qos_add_loop_update [OF Some] by blast
    have upd: "qos_waiting xs \<subseteq># qos_waiting (xs[j := new])" if "j < length xs" "\<not> is_used (xs ! j)" for xs j
      using that by (induction xs arbitrary: j) (auto simp: nth_Cons split: nat.splits)
    show ?thesis
    proof (cases "k < i")
      case True
      then show ?thesis by (simp add: q k(3))
    next
      case False
      then show ?thesis
        using upd [of "k - i" "drop i (records mq)"] k by (simp add: q drop_update_swap)
    qed
  qed (simp add: mqtt_qos_add_def)
  also have "\<dots> \<subseteq># qos_waiting (drop i (records (qos_adds as ?q)))"
    by (rule Cons.IH)
  finally show ?case by (simp add: qos_adds_def a)
qed (simp add: qos_adds_def)

lemma waiting_drop_nth:
  "i < length rs \<Longrightarrow> qos_waiting (drop i rs) =
     (if is_used (rs ! i) then add_mset (qos_key (rs ! i)) (qos_waiting (drop (Suc i) rs))
      else qos_waiting (drop (Suc i) rs))"
  by (simp add: Cons_nth_drop_Suc [symmetric])

lemma waiting_release:
  "i < length rs \<Longrightarrow> is_used (rs ! i) \<Longrightarrow>
   qos_waiting rs = add_mset (qos_key (rs ! i)) (qos_waiting (rs[i := (rs ! i)\<lparr>is_used := False\<rparr>]))"
  by (induction rs arbitrary: i) (auto simp: nth_Cons split: nat.splits)

lemma release_inv:
  assumes "qos_inv mq" "i < max_size mq" "is_used (records mq ! i)"
  shows "qos_inv (mq\<lparr>records := (records mq)[i := (records mq ! i)\<lparr>is_used := False\<rparr>],
                    current_size := current_size mq - 1\<rparr>)"
  using assms waiting_release [of i "records mq"] by (auto simp: qos_inv_def qos_outstanding_def)

lemma clear_loop_spec:
  "qos_inv mq \<Longrightarrow> qos_clear_loop others status i mq = (calls, mq') \<Longrightarrow>
   qos_inv mq' \<and> max_size mq' = max_size mq \<and>
   completions status (qos_waiting (drop i (records mq))) \<subseteq># mset calls \<and>
   (\<forall>c \<in> set calls. fst (snd c) = status)"
proof (induction others status i mq arbitrary: calls mq' rule: qos_clear_loop.induct)
  case (1 others status i mq)
  let ?r = "records mq ! i"
  let ?mq = "mq\<lparr>records := (records mq)[i := ?r\<lparr>is_used := False\<rparr>], current_size := current_size mq - 1\<rparr>"
  consider (stop) "\<not> i < max_size mq" | (skip) "i < max_size mq" "\<not> is_used ?r"
    | (call) "i < max_size mq" "is_used ?r" by blast
  then show ?case
  proof cases
    case stop
    then show ?thesis
      using "1.prems" by (simp add: qos_clear_loop.simps [of others status i mq] qos_inv_def)
  next
    case skip
    then have "qos_clear_loop others status (Suc i) mq = (calls, mq')"
      using "1.prems"(2) by (simp add: qos_clear_loop.simps [of others status i mq] Let_def)
    then show ?thesis
      using "1.IH"(1) [OF skip(1) refl skip(2) "1.prems"(1)] skip waiting_drop_nth [of i "records mq"] "1.prems"(1)
      by (simp add: qos_inv_def)
  next
    case call
    let ?c = "(callback ?r, status, custom ?r)"
    let ?mq' = "qos_adds (others ?c) ?mq"
    obtain calls' where c: "qos_clear_loop others status (Suc i) ?mq' = (calls', mq')" "calls = ?c # calls'"
      using "1.prems"(2) call
      by (auto simp: qos_clear_loop.simps [of others status i mq] Let_def split: prod.splits)
    have inv: "qos_inv ?mq'"
      using release_inv [OF "1.prems"(1) call] by simp
    have ih: "qos_inv mq' \<and> max_size mq' = max_size ?mq' \<and>
      completions status (qos_waiting (drop (Suc i) (records ?mq'))) \<subseteq># mset calls' \<and>
      (\<forall>c \<in> set calls'. fst (snd c) = status)"
      by (rule "1.IH"(2)) (use call c(1) inv in simp_all)
    have "qos_waiting (drop (Suc i) (records mq)) \<subseteq># qos_waiting (drop (Suc i) (records ?mq'))"
      using adds_waiting_drop [of "Suc i" ?mq] by simp
    then have "completions status (qos_waiting (drop (Suc i) (records mq))) \<subseteq># mset calls'"
      using ih completions_mono subset_mset.order_trans by blast
    then show ?thesis
      using ih c(2) call waiting_drop_nth [of i "records mq"] "1.prems"(1)
      by (simp add: qos_inv_def completions_key)
  qed
qed

lemma clear_loop_alone:
  "qos_inv mq \<Longrightarrow> qos_clear_loop (\<lambda>_. []) status i mq = (calls, mq') \<Longrightarrow>
   mset calls = completions status (qos_waiting (drop i (records mq))) \<and>
   qos_waiting (records mq') = qos_waiting (take i (records mq))"
proof (induction "\<lambda>_ :: qos_call. [] :: qos_adds" status i mq arbitrary: calls mq' rule: qos_clear_loop.induct)
  case (1 status i mq)
  let ?r = "records mq ! i"
  let ?mq = "mq\<lparr>records := (records mq)[i := ?r\<lparr>is_used := False\<rparr>], current_size := current_size mq - 1\<rparr>"
  have len: "length (records mq) = max_size mq"
    using "1.prems"(1) by (simp add: qos_inv_def)
  consider (stop) "\<not> i < max_size mq" | (skip) "i < max_size mq" "\<not> is_used ?r"
    | (call) "i < max_size mq" "is_used ?r" by blast
  then show ?case
  proof cases
    case stop
    then show ?thesis
      using "1.prems"(2) len by (simp add: qos_clear_loop.simps [of _ status i mq])
  next
    case skip
    then have "qos_clear_loop (\<lambda>_. []) status (Suc i) mq = (calls, mq')"
      using "1.prems"(2) by (simp add: qos_clear_loop.simps [of _ status i mq] Let_def)
    then show ?thesis
      using "1.hyps"(1) [OF skip(1) refl skip(2) "1.prems"(1)] skip waiting_drop_nth [of i "records mq"] len
      by (simp add: take_Suc_conv_app_nth)
  next
    case call
    obtain calls' where c: "qos_clear_loop (\<lambda>_. []) status (Suc i) ?mq = (calls', mq')"
      "calls = (callback ?r, status, custom ?r) # calls'"
      using "1.prems"(2) call
      by (auto simp: qos_clear_loop.simps [of _ status i mq] Let_def qos_adds_def split: prod.splits)
    have "mset calls' = completions status (qos_waiting (drop (Suc i) (records ?mq))) \<and>
      qos_waiting (records mq') = qos_waiting (take (Suc i) (records ?mq))"
      using "1.hyps"(2) [of ?r ?mq "(callback ?r, status, custom ?r)" calls' mq']
        call c(1) release_inv [OF "1.prems"(1) call]
      by (simp add: qos_adds_def)
    then show ?thesis
      using c(2) call len waiting_drop_nth [of i "records mq"]
      by (simp add: completions_key take_Suc_conv_app_nth take_update_swap
        list_update_append)
  qed
qed

lemma clear_spec:
  assumes "qos_inv mq" "mqtt_qos_clear (\<lambda>_. []) mq status = (calls, mq')"
  shows "qos_inv mq' \<and> qos_outstanding mq' = {#} \<and> mset calls = completions status (qos_outstanding mq)"
proof (cases "current_size mq = 0")
  case True
  then show ?thesis using assms by (auto simp: mqtt_qos_clear_def qos_inv_def)
next
  case False
  then have l: "qos_clear_loop (\<lambda>_. []) status 0 mq = (calls, mq')"
    using assms(2) by (simp add: mqtt_qos_clear_def)
  show ?thesis
    using clear_loop_spec [OF assms(1) l] clear_loop_alone [OF assms(1) l]
    by (simp add: qos_outstanding_def)
qed

subsection \<open>The contract of the acknowledgement table\<close>

text \<open>One operation on a table and the run of a sequence of them: the requests accepted, the
  callbacks called, and the table.\<close>

datatype qos_op = QAdd int u16 "nat option" nat | QSignal u16 | QClear int | QExpired int

fun ack_step ::
  "('t \<Rightarrow> int \<Rightarrow> u16 \<Rightarrow> nat option \<Rightarrow> nat \<Rightarrow> int \<times> 't) \<Rightarrow> ('t \<Rightarrow> u16 \<Rightarrow> int \<times> qos_call list \<times> 't) \<Rightarrow>
   ('t \<Rightarrow> int \<Rightarrow> qos_call list \<times> 't) \<Rightarrow> ('t \<Rightarrow> int \<Rightarrow> bool \<times> 't) \<Rightarrow>
   qos_op \<Rightarrow> 't \<Rightarrow> qos_request list \<times> qos_call list \<times> 't" where
  "ack_step add signal clear expired (QAdd now mid cb cust) t =
     (case add t now mid cb cust of (ret, t) \<Rightarrow> (if ret = 0 then [(mid, cb, cust)] else [], [], t))"
| "ack_step add signal clear expired (QSignal mid) t = (case signal t mid of (ret, calls, t) \<Rightarrow> ([], calls, t))"
| "ack_step add signal clear expired (QClear status) t = (case clear t status of (calls, t) \<Rightarrow> ([], calls, t))"
| "ack_step add signal clear expired (QExpired now) t = ([], [], snd (expired t now))"

fun ack_run ::
  "('t \<Rightarrow> int \<Rightarrow> u16 \<Rightarrow> nat option \<Rightarrow> nat \<Rightarrow> int \<times> 't) \<Rightarrow> ('t \<Rightarrow> u16 \<Rightarrow> int \<times> qos_call list \<times> 't) \<Rightarrow>
   ('t \<Rightarrow> int \<Rightarrow> qos_call list \<times> 't) \<Rightarrow> ('t \<Rightarrow> int \<Rightarrow> bool \<times> 't) \<Rightarrow>
   qos_op list \<Rightarrow> 't \<Rightarrow> qos_request list \<times> qos_call list \<times> 't" where
  "ack_run add signal clear expired [] t = ([], [], t)"
| "ack_run add signal clear expired (op # ops) t =
     (case ack_step add signal clear expired op t of (acc, calls, t) \<Rightarrow>
      case ack_run add signal clear expired ops t of (acc', calls', t) \<Rightarrow> (acc @ acc', calls @ calls', t))"

text \<open>A request and a call seen as the client that waits: its callback and argument.\<close>

definition request_client :: "qos_request \<Rightarrow> nat option \<times> nat" where
  "request_client q = snd q"

definition call_client :: "qos_call \<Rightarrow> nat option \<times> nat" where
  "call_client c = (fst c, snd (snd c))"

lemma call_client_completions:
  "image_mset call_client (completions status reqs) = image_mset request_client reqs"
  by (induction reqs) (auto simp: completions_def call_client_def request_client_def split: prod.split)

lemma multiset_chain:
  assumes "a1 + b = c1 + d" "a2 + d = c2 + (e :: 'a multiset)"
  shows "(a1 + a2) + b = (c1 + c2) + e"
proof -
  have "(a1 + a2) + b = a2 + (a1 + b)" by (simp add: ac_simps)
  also have "\<dots> = c1 + (a2 + d)" by (simp add: assms(1) ac_simps)
  also have "\<dots> = (c1 + c2) + e" by (simp add: assms(2) ac_simps)
  finally show ?thesis .
qed

locale ack_table =
  fixes add :: "'t \<Rightarrow> int \<Rightarrow> u16 \<Rightarrow> nat option \<Rightarrow> nat \<Rightarrow> int \<times> 't"
    and signal :: "'t \<Rightarrow> u16 \<Rightarrow> int \<times> qos_call list \<times> 't"
    and clear :: "'t \<Rightarrow> int \<Rightarrow> qos_call list \<times> 't"
    and expired :: "'t \<Rightarrow> int \<Rightarrow> bool \<times> 't"
    and outs :: "'t \<Rightarrow> qos_request multiset"
    and ok :: "'t \<Rightarrow> bool"
  assumes add_law: "\<lbrakk>ok t; add t now mid cb cust = (ret, t')\<rbrakk> \<Longrightarrow>
      ok t' \<and> outs t' = (if ret = 0 then add_mset (mid, cb, cust) (outs t) else outs t)"
    and signal_law: "\<lbrakk>ok t; signal t mid = (ret, calls, t')\<rbrakk> \<Longrightarrow>
      ok t' \<and> (calls = [] \<and> outs t' = outs t \<or>
        (\<exists>cb cust. calls = [(cb, 0, cust)] \<and> outs t = add_mset (mid, cb, cust) (outs t')))"
    and clear_law: "\<lbrakk>ok t; clear t status = (calls, t')\<rbrakk> \<Longrightarrow>
      ok t' \<and> outs t' = {#} \<and> mset calls = completions status (outs t)"
    and expired_law: "ok t \<Longrightarrow> ok (snd (expired t now)) \<and> outs (snd (expired t now)) = outs t"
begin

lemma step_conserves:
  assumes "ok t" "ack_step add signal clear expired op t = (acc, calls, t')"
  shows "ok t' \<and> image_mset request_client (mset acc) + image_mset request_client (outs t) =
    image_mset call_client (mset calls) + image_mset request_client (outs t')"
proof (cases op)
  case (QAdd now mid cb cust)
  then show ?thesis
    using assms add_law [OF assms(1), of now mid cb cust] by (auto split: prod.splits if_splits)
next
  case (QSignal mid)
  then obtain ret where "signal t mid = (ret, calls, t')" "acc = []"
    using assms(2) by (auto split: prod.splits)
  with signal_law [OF assms(1), of mid ret calls t'] show ?thesis
    by (auto simp: call_client_def request_client_def)
next
  case (QClear status)
  then show ?thesis
    using assms clear_law [OF assms(1), of status] call_client_completions [of status "outs t"]
    by (auto split: prod.splits)
next
  case (QExpired now)
  then show ?thesis using assms expired_law [of t now] by auto
qed

lemma run_conserves:
  "ok t \<Longrightarrow> ack_run add signal clear expired ops t = (acc, calls, t') \<Longrightarrow>
   ok t' \<and> image_mset request_client (mset acc) + image_mset request_client (outs t) =
     image_mset call_client (mset calls) + image_mset request_client (outs t')"
proof (induction ops arbitrary: t acc calls t')
  case (Cons op ops)
  obtain acc1 calls1 t1 where s: "ack_step add signal clear expired op t = (acc1, calls1, t1)"
    by (cases "ack_step add signal clear expired op t")
  obtain acc2 calls2 t2 where r: "ack_run add signal clear expired ops t1 = (acc2, calls2, t2)"
    by (cases "ack_run add signal clear expired ops t1")
  have e: "acc = acc1 @ acc2" "calls = calls1 @ calls2" "t' = t2"
    using Cons.prems(2) s r by auto
  note st = step_conserves [OF Cons.prems(1) s]
  note ih = Cons.IH [OF conjunct1 [OF st] r]
  show ?case
    using ih multiset_chain [OF conjunct2 [OF st] conjunct2 [OF ih]] unfolding e by simp
qed simp

end

interpretation qos: ack_table mqtt_qos_add mqtt_qos_signal "mqtt_qos_clear (\<lambda>_. [])"
  mqtt_qos_any_expired qos_outstanding qos_inv
proof
  show "qos_inv t' \<and> qos_outstanding t' =
      (if ret = 0 then add_mset (mid, cb, cust) (qos_outstanding t) else qos_outstanding t)"
    if "qos_inv t" "mqtt_qos_add t now mid cb cust = (ret, t')" for t now mid cb cust ret t'
    using add_spec(1,4) [OF that] by blast
  show "qos_inv t' \<and> (calls = [] \<and> qos_outstanding t' = qos_outstanding t \<or>
      (\<exists>cb cust. calls = [(cb, 0, cust)] \<and> qos_outstanding t = add_mset (mid, cb, cust) (qos_outstanding t')))"
    if "qos_inv t" "mqtt_qos_signal t mid = (ret, calls, t')" for t mid ret calls t'
    using signal_spec [OF that] that(1) by metis
  show "qos_inv t' \<and> qos_outstanding t' = {#} \<and> mset calls = completions status (qos_outstanding t)"
    if "qos_inv t" "mqtt_qos_clear (\<lambda>_. []) t status = (calls, t')" for t status calls t'
    using that by (rule clear_spec)
  show "qos_inv (snd (mqtt_qos_any_expired t now)) \<and>
      qos_outstanding (snd (mqtt_qos_any_expired t now)) = qos_outstanding t"
    if "qos_inv t" for t now
    using any_expired_spec(1,2) [OF that prod.collapse [symmetric]] by blast
qed

subsection \<open>Properties\<close>

text \<open>C8: Every request the table accepts is completed exactly once: over any sequence of adds,
  acknowledgements, expiry checks and clears of a fresh table, the clients (callback and argument)
  of the accepted requests are those called back plus those still waiting, and after a final clear
  they are exactly those called back.\<close>

theorem qos_exactly_once:
  assumes "mqtt_qos_create m1 m2 sz timeout = Inr mq" "0 \<le> timeout"
    and run: "ack_run mqtt_qos_add mqtt_qos_signal (mqtt_qos_clear (\<lambda>_. [])) mqtt_qos_any_expired ops mq
      = (acc, calls, mq')"
  shows "image_mset request_client (mset acc) =
      image_mset call_client (mset calls) + image_mset request_client (qos_outstanding mq') \<and>
    image_mset request_client (mset acc) =
      image_mset call_client (mset (calls @ fst (mqtt_qos_clear (\<lambda>_. []) mq' status)))"
proof -
  have mq: "qos_inv mq" "qos_outstanding mq = {#}"
    using create_spec [OF assms(1,2)] by blast+
  note c = qos.run_conserves [OF mq(1) run]
  from c mq(2) have e: "image_mset request_client (mset acc) =
      image_mset call_client (mset calls) + image_mset request_client (qos_outstanding mq')"
    by simp
  have "mset (fst (mqtt_qos_clear (\<lambda>_. []) mq' status)) = completions status (qos_outstanding mq')"
    using clear_spec [OF conjunct1 [OF c] prod.collapse [symmetric]] by blast
  with e show ?thesis
    by (simp add: call_client_completions)
qed

text \<open>A table of two records, two requests, the first acknowledged.\<close>

definition qos_demo :: mqtt_qos where
  "qos_demo = \<lparr>max_size = 2, current_size = 1,
     records = [\<lparr>is_used = False, msg_id = 1, callback = Some 10, custom = 100, expiration_timestamp = 30\<rparr>,
                \<lparr>is_used = True, msg_id = 2, callback = Some 20, custom = 200, expiration_timestamp = 30\<rparr>],
     timeout_in_sec = 30\<rparr>"

lemma qos_demo_reached:
  "mqtt_qos_create malloc_zero malloc_zero 2 30 =
     Inr \<lparr>max_size = 2, current_size = 0, records = [qos_record_zero, qos_record_zero], timeout_in_sec = 30\<rparr>"
  "ack_run mqtt_qos_add mqtt_qos_signal (mqtt_qos_clear (\<lambda>_. [])) mqtt_qos_any_expired
     [QAdd 0 1 (Some 10) 100, QAdd 0 2 (Some 20) 200, QSignal 1]
     \<lparr>max_size = 2, current_size = 0, records = [qos_record_zero, qos_record_zero], timeout_in_sec = 30\<rparr> =
     ([(1, Some 10, 100), (2, Some 20, 200)], [(Some 10, 0, 100)], qos_demo)"
proof -
  have "replicate 2 qos_record_zero = [qos_record_zero, qos_record_zero]"
    by (simp add: numeral_2_eq_2)
  then show "mqtt_qos_create malloc_zero malloc_zero 2 30 =
     Inr \<lparr>max_size = 2, current_size = 0, records = [qos_record_zero, qos_record_zero], timeout_in_sec = 30\<rparr>"
    by (simp add: mqtt_qos_create_def malloc_zero_def)
qed (simp add: mqtt_qos_add_def mqtt_qos_signal_def qos_record_zero_def qos_demo_def)

theorem qos_exactly_once_witness:
  "image_mset request_client {#(1, Some 10, 100), (2, Some 20, 200)#} =
   image_mset call_client {#(Some 10, 0, 100)#} + image_mset request_client (qos_outstanding qos_demo)"
  using qos_exactly_once [OF qos_demo_reached(1) _ qos_demo_reached(2)] by simp

text \<open>Even while other threads add requests each time the lock is released around a callback,
  clearing the table calls back, with the status it was given, every request that waited when it
  started, gives every call that status, and keeps the table well formed.\<close>

theorem qos_clear_completes_all:
  assumes "qos_inv mq" "mqtt_qos_clear others mq status = (calls, mq')"
  shows "completions status (qos_outstanding mq) \<subseteq># mset calls \<and> (\<forall>c \<in> set calls. fst (snd c) = status) \<and> qos_inv mq'"
proof (cases "current_size mq = 0")
  case True
  then show ?thesis using assms by (auto simp: mqtt_qos_clear_def qos_inv_def)
next
  case False
  then have "qos_clear_loop others status 0 mq = (calls, mq')"
    using assms(2) by (simp add: mqtt_qos_clear_def)
  from clear_loop_spec [OF assms(1) this] show ?thesis
    by (simp add: qos_outstanding_def)
qed

lemma qos_demo_inv [simp]: "qos_inv qos_demo"
  by (simp add: qos_demo_def qos_inv_def qos_outstanding_def)

theorem qos_clear_completes_all_witness:
  "\<exists>calls mq'. mqtt_qos_clear (\<lambda>_. [(5, 3, None, 0)]) qos_demo ERR_MQTT_QOS_FAILURE = (calls, mq') \<and>
     {#(Some 20, ERR_MQTT_QOS_FAILURE, 200)#} \<subseteq># mset calls"
proof -
  obtain calls mq' where "mqtt_qos_clear (\<lambda>_. [(5, 3, None, 0)]) qos_demo ERR_MQTT_QOS_FAILURE = (calls, mq')"
    by fastforce
  with qos_clear_completes_all [OF qos_demo_inv this] show ?thesis
    by (simp add: qos_outstanding_def qos_demo_def qos_key_def)
qed

text \<open>A request is refused exactly when all \<open>max_size\<close> records are in use, and a refused
  request leaves the table as it was.\<close>

theorem qos_add_refused_iff:
  assumes "qos_inv mq" "mqtt_qos_add mq now mid cb cust = (ret, mq')"
  shows "(ret = 0 \<or> ret = ERR_MQTT_QOS_FULL) \<and>
    (ret = ERR_MQTT_QOS_FULL \<longleftrightarrow> current_size mq = int (max_size mq)) \<and>
    (ret = ERR_MQTT_QOS_FULL \<longrightarrow> mq' = mq)"
  using assms add_spec(3) [OF assms] size_outstanding_le [OF assms(1)]
  by (auto simp: err_code mqtt_qos_add_def split: option.splits if_splits)

theorem qos_add_refused_iff_witness:
  "fst (mqtt_qos_add qos_demo 7 9 None 0) = 0"
proof -
  obtain ret mq' where e: "mqtt_qos_add qos_demo 7 9 None 0 = (ret, mq')" by fastforce
  from qos_add_refused_iff [OF qos_demo_inv e] e show ?thesis
    by (auto simp: qos_demo_def)
qed

text \<open>The expiry check reports a timeout exactly when one of the first \<open>current_size\<close> records
  is waiting and past its deadline: records behind that bound are not looked at.\<close>

theorem qos_any_expired_iff:
  assumes "qos_inv mq"
  shows "fst (mqtt_qos_any_expired mq now) \<longleftrightarrow>
    (\<exists>r \<in> set (take (nat (current_size mq)) (records mq)). is_used r \<and> expiration_timestamp r \<le> now)"
  using assms qos_expired_loop_result [of "timeout_in_sec mq" now "take (nat (current_size mq)) (records mq)"]
  by (auto simp: mqtt_qos_any_expired_def Let_def qos_inv_def split: prod.splits)

text \<open>The second request of \<open>qos_demo\<close> waits behind the hole the first one left, and no expiry check
  at any time reports it.\<close>

theorem qos_any_expired_iff_witness:
  "(\<forall>now. \<not> fst (mqtt_qos_any_expired qos_demo now)) \<and> (2, Some 20, 200) \<in># qos_outstanding qos_demo"
  using qos_any_expired_iff [OF qos_demo_inv]
  by (simp add: qos_demo_def qos_outstanding_def qos_key_def)

end
