(* ===== verification/Mqtt_Async.thy ===== *)
theory Mqtt_Async
  imports Mqtt_Client Mqtt_Qos
begin

section \<open>The asynchronous MQTT client (mqtt/mqtt.async.c)\<close>

text \<open>
  One client is shared by the application's threads, which call the \<open>mqtt_async_...\<close> functions, and
  the handler thread, which receives, checks acknowledgements, keeps the connection alive and
  reconnects.  What happens under the client's mutex is one step; the handler's program is cut at
  the places where it holds no lock, with a program counter, so that the calls of other threads can
  come in between.  User callbacks are events; the answers of the should-reconnect callback are an
  input of the handler's step.  \<open>None\<close> is a call that never returns or has no defined result, among
  them every use of a NULL \<open>client->mqtt\<close>.
\<close>

subsection \<open>State\<close>

definition MQTT_QOS_DEFAULT_SIZE :: byte where "MQTT_QOS_DEFAULT_SIZE = 32"
definition MQTT_QOS_DEFAULT_TIMEOUT :: int where "MQTT_QOS_DEFAULT_TIMEOUT = 30"
definition MQTT_PAYLOAD_QOS_0 :: int where "MQTT_PAYLOAD_QOS_0 = 0"
definition MQTT_PAYLOAD_QOS_1 :: int where "MQTT_PAYLOAD_QOS_1 = 1"

named_theorems state_code \<open>the numbers of the client's states\<close>

definition STATE_CREATED :: int where [state_code]: "STATE_CREATED = 0"
definition STATE_CONNECTING :: int where [state_code]: "STATE_CONNECTING = 1"
definition STATE_CONNECTED :: int where [state_code]: "STATE_CONNECTED = 2"
definition STATE_BROKEN :: int where [state_code]: "STATE_BROKEN = 3"
definition STATE_RECONNECTING :: int where [state_code]: "STATE_RECONNECTING = 4"
definition STATE_DISABLED :: int where [state_code]: "STATE_DISABLED = 5"
definition STATE_DELETING :: int where [state_code]: "STATE_DELETING = 6"
definition STATE_DELETED :: int where [state_code]: "STATE_DELETED = 7"

record async_client =
  connect_params :: mqtt_connect_params
  timeout_in_ms :: int
  msg_id_seq :: int
  state_change_callback :: bool
  state :: int
  thread_id :: int
  check_thread_id :: int
  mqtt :: "mqtt_client option"
  qos :: mqtt_qos
  outstanding_ping :: int
  stats_reconnect_count :: int
  stats_reconnect_attempt_count :: int
  stats_total_byte_sent :: int
  stats_total_byte_recv :: int

text \<open>What the application sees: a state change (old, new, error, reason), a published message
  (topic, payload, length), the completion of a request.\<close>

datatype event =
  EvState int int int string
| EvPublish "bytes option" "bytes option" int
| EvQos qos_call

definition async_state_change ::
  "async_client \<Rightarrow> int \<Rightarrow> int \<Rightarrow> int \<Rightarrow> string \<Rightarrow> async_client \<times> event list" where
  "async_state_change client old_state new_state err why =
     (client\<lparr>state := new_state, check_thread_id := 0\<rparr>,
      if state_change_callback client then [EvState old_state new_state err why] else [])"

text \<open>\<open>if (client->state == CONNECTED) state_change(CONNECTED, BROKEN, ...)\<close>, as the handler does
  under the mutex.\<close>

definition async_break :: "async_client \<Rightarrow> int \<Rightarrow> string \<Rightarrow> async_client \<times> event list" where
  "async_break client err why =
     (if state client = STATE_CONNECTED
      then async_state_change client STATE_CONNECTED STATE_BROKEN err why else (client, []))"

subsection \<open>Keep-alive and reconnection\<close>

type_synonym 'w async_result = "(async_client \<times> 'w \<times> event list) option"

definition async_handler_keepalive :: "'w platform \<Rightarrow> async_client \<Rightarrow> 'w \<Rightarrow> 'w async_result" where
  "async_handler_keepalive p client w =
     (let keepalive_in_ms = uint (mqtt_connect_params_get_keepalive (connect_params client)) * 1000 in
      if state client \<noteq> STATE_CONNECTED then Some (client, w, [])
      else if keepalive_in_ms \<le> 0 then Some (client, w, [])
      else if outstanding_ping client > 1 then
        (case async_break client 0 ''MQTT Heartbeat no response.'' of
           (client, evs) \<Rightarrow> Some (client\<lparr>outstanding_ping := 0\<rparr>, w, evs))
      else case mqtt client of
        None \<Rightarrow> None
      | Some mq \<Rightarrow>
          (case p_time_now p w of (now, w) \<Rightarrow>
           if last_recv mq + keepalive_in_ms < now + timeout_in_ms client then
             (case mqtt_ping p mq w of
                None \<Rightarrow> None
              | Some (ret, mq, w) \<Rightarrow>
                  let client = client\<lparr>mqtt := Some mq\<rparr> in
                  if ret \<noteq> 0
                  then (case async_break client 0 ''MQTT Heartbeat failed.'' of (client, evs) \<Rightarrow> Some (client, w, evs))
                  else Some (client\<lparr>outstanding_ping := outstanding_ping client + 1\<rparr>, w, []))
           else Some (client, w, [])))"

text \<open>The part of \<open>_mqtt_async_handler_reconnect\<close> under the mutex, entered in state BROKEN: close the
  old connection, try a new one.\<close>

definition async_drop_connection :: "'w platform \<Rightarrow> async_client \<Rightarrow> 'w \<Rightarrow> (async_client \<times> 'w) option" where
  "async_drop_connection p client w =
     (case mqtt client of
        None \<Rightarrow> Some (client, w)
      | Some mq \<Rightarrow>
          (case mqtt_disconnect p mq w of
             None \<Rightarrow> None
           | Some (_, w) \<Rightarrow>
               Some (client\<lparr>stats_total_byte_recv := stats_total_byte_recv client + mqtt_stats_byte_recv (Some mq),
                            stats_total_byte_sent := stats_total_byte_sent client + mqtt_stats_byte_sent (Some mq),
                            mqtt := None\<rparr>, w)))"

definition async_reconnect_once :: "'w platform \<Rightarrow> async_client \<Rightarrow> 'w \<Rightarrow> 'w async_result" where
  "async_reconnect_once p client w =
     (case async_drop_connection p client w of
        None \<Rightarrow> None
      | Some (client, w) \<Rightarrow>
          (case async_state_change client STATE_BROKEN STATE_RECONNECTING 0 ''MQTT Reconnecting...'' of
             (client, evs) \<Rightarrow>
           let client = client\<lparr>stats_reconnect_attempt_count := stats_reconnect_attempt_count client + 1\<rparr> in
           case mqtt_connect p (connect_params client) w of
             None \<Rightarrow> None
           | Some (Inr mq, w) \<Rightarrow>
               (case async_state_change
                       (client\<lparr>mqtt := Some mq, stats_reconnect_count := stats_reconnect_count client + 1\<rparr>)
                       STATE_RECONNECTING STATE_CONNECTED 0 ''MQTT Reconnected.'' of
                  (client, evs') \<Rightarrow> Some (client, w, evs @ evs'))
           | Some (Inl ret, w) \<Rightarrow>
               (case async_state_change client STATE_RECONNECTING STATE_BROKEN ret
                       ''MQTT Client broken.  Reconnect failed.'' of
                  (client, evs') \<Rightarrow> Some (client, w, evs @ evs'))))"

subsection \<open>A received packet\<close>

text \<open>\<open>mqtt_qos_signal\<close> on the client's table; its return code is not used.\<close>

definition async_signal :: "async_client \<Rightarrow> u16 \<Rightarrow> async_client \<times> event list" where
  "async_signal client mid =
     (case mqtt_qos_signal (qos client) mid of
        (_, calls, q) \<Rightarrow> (client\<lparr>qos := q\<rparr>, map EvQos calls))"

definition async_publish_received :: "'w platform \<Rightarrow> async_client \<Rightarrow> publish_msg \<Rightarrow> 'w \<Rightarrow> 'w async_result" where
  "async_publish_received p client msg w =
     (let ev = [EvPublish (pub_topic msg) (pub_payload msg) (pub_payload_len msg)] in
      if pub_qos msg > MQTT_PAYLOAD_QOS_0 then
        (case (mqtt client, pub_msg_id msg) of
           (Some mq, Some mid) \<Rightarrow>
             (case mqtt_puback p mq mid (pub_qos msg) w of
                None \<Rightarrow> None
              | Some (_, mq, w) \<Rightarrow> Some (client\<lparr>mqtt := Some mq\<rparr>, w, ev))
         | _ \<Rightarrow> None)
      else Some (client, w, ev))"

definition async_handler_process ::
  "'w platform \<Rightarrow> async_client \<Rightarrow> bytes \<Rightarrow> 'w \<Rightarrow> (int \<times> async_client \<times> 'w \<times> event list) option" where
  "async_handler_process p client data w =
     (let len = int (length data) in
      case mqtt_msg_cmd_get data of
        None \<Rightarrow> None
      | Some cmd \<Rightarrow>
          if cmd = MQTT_MSG_TYPE_PUBLISH then
            (case p_malloc p w of (m1, w) \<Rightarrow>
             case p_malloc p w of (m2, w) \<Rightarrow>
             case mqtt_msg_process_publish m1 m2 data len of
               None \<Rightarrow> None
             | Some (Inl ret) \<Rightarrow> Some (ret, client, w, [])
             | Some (Inr msg) \<Rightarrow> map_option (Pair 0) (async_publish_received p client msg w))
          else if cmd = MQTT_MSG_TYPE_PINGRESP then Some (0, client\<lparr>outstanding_ping := 0\<rparr>, w, [])
          else if cmd = MQTT_MSG_TYPE_PUBACK then
            (case mqtt_msg_process_puback data len of
               None \<Rightarrow> None
             | Some (Inl ret) \<Rightarrow> Some (ret, client, w, [])
             | Some (Inr mid) \<Rightarrow> (case async_signal client mid of (client, evs) \<Rightarrow> Some (0, client, w, evs)))
          else if cmd = MQTT_MSG_TYPE_SUBACK then
            (case mqtt_msg_process_suback data len of
               None \<Rightarrow> None
             | Some (Inl ret) \<Rightarrow> Some (ret, client, w, [])
             | Some (Inr (mid, _)) \<Rightarrow> (case async_signal client mid of (client, evs) \<Rightarrow> Some (0, client, w, evs)))
          else if cmd = MQTT_MSG_TYPE_UNSUBACK then
            (case mqtt_msg_process_unsuback data len of
               None \<Rightarrow> None
             | Some (Inl ret) \<Rightarrow> Some (ret, client, w, [])
             | Some (Inr mid) \<Rightarrow> (case async_signal client mid of (client, evs) \<Rightarrow> Some (0, client, w, evs)))
          else Some (0, client, w, []))"

subsection \<open>The handler thread\<close>

text \<open>Where the handler is: at the top of its loop, before the acknowledgement check, before the
  keep-alive, in the outer loop of the reconnection (with \<open>total_disconnected_in_ms\<close>), in its inner
  waiting loop (with \<open>total_disconnected_in_ms\<close> and \<open>counter\<close>), behind the loop, returned.\<close>

datatype pc = PLoop | PQos | PKeepalive | PReconnect int | PWait int int | PStop | PDone

text \<open>The handler's first action: note the thread's id (\<open>tid\<close> is what \<open>_thread_id\<close> gives, \<open>None\<close> on its
  failure).\<close>

definition async_handler_begin :: "int option \<Rightarrow> async_client \<Rightarrow> async_client" where
  "async_handler_begin tid client = (case tid of None \<Rightarrow> client | Some t \<Rightarrow> client\<lparr>thread_id := t\<rparr>)"

text \<open>The handler's variable \<open>ret\<close> keeps the result of the last receive; it is the error a later
  acknowledgement timeout reports.\<close>

definition async_handler_recv ::
  "'w platform \<Rightarrow> async_client \<Rightarrow> 'w \<Rightarrow> (int \<times> async_client \<times> 'w \<times> event list) option" where
  "async_handler_recv p client w =
     (case mqtt client of
        None \<Rightarrow> None
      | Some mq \<Rightarrow>
          (case mqtt_recv p mq (timeout_in_ms client) w of
             None \<Rightarrow> None
           | Some (Inl ret, mq, w) \<Rightarrow>
               let client = client\<lparr>mqtt := Some mq\<rparr> in
               if ret \<noteq> ERR_TR50_TCP_TIMEOUT
               then (case async_break client ret ''MQTT Receive failed.'' of (client, evs) \<Rightarrow> Some (ret, client, w, evs))
               else Some (ret, client, w, [])
           | Some (Inr data, mq, w) \<Rightarrow>
               (case async_handler_process p (client\<lparr>mqtt := Some mq\<rparr>) data w of
                  None \<Rightarrow> None
                | Some (_, client, w, evs) \<Rightarrow> Some (0, client, w, evs))))"

text \<open>When the acknowledgement check clears the table the client is not CONNECTED, so no other thread
  can add a request at the moments the table's mutex is released.\<close>

definition async_handler_qos :: "'w platform \<Rightarrow> int \<Rightarrow> async_client \<Rightarrow> 'w \<Rightarrow> async_client \<times> 'w \<times> event list" where
  "async_handler_qos p ret client w =
     (case (if current_size (qos client) = 0 then (0, w) else p_time_now_in_sec p w) of (now, w) \<Rightarrow>
      case mqtt_qos_any_expired (qos client) now of (expired, q) \<Rightarrow>
      let client = client\<lparr>qos := q\<rparr> in
      if expired then
        (case async_break client ret ''MQTT Ack not recevied.'' of (client, evs) \<Rightarrow>
         case mqtt_qos_clear (\<lambda>_. []) (qos client) ERR_MQTT_QOS_FAILURE of (calls, q) \<Rightarrow>
           (client\<lparr>qos := q\<rparr>, w, evs @ map EvQos calls))
      else (client, w, []))"

text \<open>One step of \<open>_mqtt_async_handler\<close>; \<open>answer\<close> is what the should-reconnect callback answers, if
  it is asked.\<close>

definition async_handler_step ::
  "'w platform \<Rightarrow> bool \<Rightarrow> pc \<times> int \<Rightarrow> async_client \<Rightarrow> 'w \<Rightarrow> ((pc \<times> int) \<times> async_client \<times> 'w \<times> event list) option" where
  "async_handler_step p answer thr client w =
     (case thr of (pc, ret) \<Rightarrow>
      case pc of
        PLoop \<Rightarrow>
          if state client = STATE_DELETING \<or> state client = STATE_DISABLED then Some ((PStop, ret), client, w, [])
          else if state client = STATE_CONNECTED
          then map_option (\<lambda>(ret, r). ((PQos, ret), r)) (async_handler_recv p client w)
          else Some ((PQos, ret), client, w, [])
      | PQos \<Rightarrow> Some ((PKeepalive, ret), async_handler_qos p ret client w)
      | PKeepalive \<Rightarrow> map_option (Pair (PReconnect 0, ret)) (async_handler_keepalive p client w)
      | PReconnect tot \<Rightarrow>
          if state client = STATE_BROKEN
          then (case async_reconnect_once p client w of
                  None \<Rightarrow> None
                | Some (client, w, evs) \<Rightarrow>
                    Some ((if mqtt client \<noteq> None then PLoop else PWait tot 0, ret), client, w, evs))
          else Some ((PLoop, ret), client, w, [])
      | PWait tot counter \<Rightarrow>
          if state client = STATE_BROKEN \<and> \<not> answer
          then Some ((PWait (tot + timeout_in_ms client) (counter + timeout_in_ms client), ret), client, w, [])
          else Some ((PReconnect tot, ret), client, w, [])
      | PStop \<Rightarrow>
          (case mqtt_qos_clear (\<lambda>_. []) (qos client) ERR_MQTT_QOS_STOPPING of
             (calls, q) \<Rightarrow> Some ((PDone, ret), client\<lparr>qos := q\<rparr>, w, map EvQos calls))
      | PDone \<Rightarrow> None)"

subsection \<open>The calls of the application\<close>

text \<open>\<open>tid\<close> is the calling thread's id (\<open>None\<close> when \<open>_thread_id\<close> fails), \<open>now\<close> the time when
  \<open>mqtt_qos_add\<close> reads it.  The check against calls from inside the state-change callback, the
  check of the state, and the numbering of messages come first in all three requests.\<close>

definition async_request_check :: "async_client option \<Rightarrow> int option \<Rightarrow> int + async_client \<times> mqtt_client" where
  "async_request_check client tid =
     (case client of
        None \<Rightarrow> Inl ERR_TR50_ASYNC_CLIENT_NOT_CONNECTED
      | Some c \<Rightarrow>
          if check_thread_id c \<noteq> 0 \<and> tid = Some (thread_id c) then Inl ERR_TR50_ASYNC_CLIENT_SAME_THREAD
          else if state c \<noteq> STATE_CONNECTED then Inl ERR_TR50_ASYNC_CLIENT_NOT_CONNECTED
          else (case mqtt c of
                  None \<Rightarrow> Inl ERR_TR50_ASYNC_CLIENT_NOT_CONNECTED
                | Some mq \<Rightarrow> Inr (c, mq)))"

text \<open>The end of the three requests: note the connection's counters, and on an error of the send
  break the connection.\<close>

definition async_request_sent ::
  "async_client \<Rightarrow> int \<times> mqtt_client \<times> 'w \<Rightarrow> int \<times> async_client \<times> 'w \<times> event list" where
  "async_request_sent c r =
     (case r of (ret, mq, w) \<Rightarrow>
      let c = c\<lparr>mqtt := Some mq\<rparr> in
      if ret \<noteq> 0
      then (case async_state_change c STATE_CONNECTED STATE_BROKEN ret ''MQTT Publish failed.'' of
              (c, evs) \<Rightarrow> (ret, c, w, evs))
      else (ret, c, w, []))"

type_synonym 'w request_result = "(int \<times> async_client option \<times> 'w \<times> event list) option"

definition lift_client :: "int \<times> async_client \<times> 'w \<times> event list \<Rightarrow> int \<times> async_client option \<times> 'w \<times> event list" where
  "lift_client r = (case r of (ret, c, w, evs) \<Rightarrow> (ret, Some c, w, evs))"

definition async_publish_base ::
  "'w platform \<Rightarrow> async_client option \<Rightarrow> int option \<Rightarrow> bytes \<Rightarrow> bytes \<Rightarrow> int \<Rightarrow> int \<Rightarrow> int \<Rightarrow> nat option \<Rightarrow> nat \<Rightarrow> 'w \<Rightarrow>
   'w request_result" where
  "async_publish_base p client tid topic data len retain qs cb cust w =
     (case async_request_check client tid of
        Inl ret \<Rightarrow> Some (ret, client, w, [])
      | Inr (c, mq) \<Rightarrow>
          let mid = (word_of_int (msg_id_seq c) :: u16);
              c = c\<lparr>msg_id_seq := msg_id_seq c + 1\<rparr>;
              (now, w) = (if qs = 1 \<and> current_size (qos c) < int (max_size (qos c)) then p_time_now_in_sec p w else (0, w));
              (ret, q) = (if qs = 1 then mqtt_qos_add (qos c) now mid cb cust else (0, qos c));
              c = c\<lparr>qos := q\<rparr>
          in if ret \<noteq> 0 then Some (ret, Some c, w, [])
             else map_option (\<lambda>r. lift_client (async_request_sent c r)) (mqtt_publish p mq qs retain mid topic data len w))"

definition mqtt_async_publish ::
  "'w platform \<Rightarrow> async_client option \<Rightarrow> int option \<Rightarrow> bytes \<Rightarrow> bytes \<Rightarrow> int \<Rightarrow> int \<Rightarrow> 'w \<Rightarrow> 'w request_result" where
  "mqtt_async_publish p client tid topic data len retain w =
     async_publish_base p client tid topic data len retain MQTT_PAYLOAD_QOS_0 None 0 w"

definition mqtt_async_publish_qos1 ::
  "'w platform \<Rightarrow> async_client option \<Rightarrow> int option \<Rightarrow> bytes \<Rightarrow> bytes \<Rightarrow> int \<Rightarrow> int \<Rightarrow> nat option \<Rightarrow> nat \<Rightarrow> 'w \<Rightarrow>
   'w request_result" where
  "mqtt_async_publish_qos1 p client tid topic data len retain cb cust w =
     async_publish_base p client tid topic data len retain MQTT_PAYLOAD_QOS_1 cb cust w"

text \<open>Subscribe and unsubscribe differ in the packet they send.\<close>

definition async_register ::
  "'w platform \<Rightarrow> async_client option \<Rightarrow> int option \<Rightarrow> nat option \<Rightarrow> nat \<Rightarrow>
   (mqtt_client \<Rightarrow> u16 \<Rightarrow> 'w \<Rightarrow> (int \<times> mqtt_client \<times> 'w) option) \<Rightarrow> 'w \<Rightarrow> 'w request_result" where
  "async_register p client tid cb cust send w =
     (case async_request_check client tid of
        Inl ret \<Rightarrow> Some (ret, client, w, [])
      | Inr (c, mq) \<Rightarrow>
          let mid = (word_of_int (msg_id_seq c) :: u16);
              c = c\<lparr>msg_id_seq := msg_id_seq c + 1\<rparr>;
              (now, w) = (if current_size (qos c) < int (max_size (qos c)) then p_time_now_in_sec p w else (0, w));
              (ret, q) = mqtt_qos_add (qos c) now mid cb cust;
              c = c\<lparr>qos := q\<rparr>
          in if ret \<noteq> 0 then Some (ret, Some c, w, [])
             else map_option (\<lambda>r. lift_client (async_request_sent c r)) (send mq mid w))"

definition mqtt_async_subscribe ::
  "'w platform \<Rightarrow> async_client option \<Rightarrow> int option \<Rightarrow> bytes \<Rightarrow> int \<Rightarrow> nat option \<Rightarrow> nat \<Rightarrow> 'w \<Rightarrow> 'w request_result" where
  "mqtt_async_subscribe p client tid topic qs cb cust w =
     async_register p client tid cb cust (\<lambda>mq mid w. mqtt_subscribe p mq mid topic qs w) w"

definition mqtt_async_unsubscribe ::
  "'w platform \<Rightarrow> async_client option \<Rightarrow> int option \<Rightarrow> bytes \<Rightarrow> nat option \<Rightarrow> nat \<Rightarrow> 'w \<Rightarrow> 'w request_result" where
  "mqtt_async_unsubscribe p client tid topic cb cust w =
     async_register p client tid cb cust (\<lambda>mq mid w. mqtt_unsubscribe p mq mid topic w) w"

subsection \<open>Creation, deletion, statistics\<close>

definition sizeof_mqtt_async_client :: nat where "sizeof_mqtt_async_client = 136"

text \<open>\<open>mqtt_async_connect\<close>.  \<open>mux\<close> and \<open>thread\<close> are the results of creating the mutex and the handler
  thread; \<open>has_publish\<close>, \<open>has_should\<close> and \<open>has_state\<close> say which callbacks were given.  The results are
  the return code, \<open>*async_client\<close>, \<open>*connect_error\<close>, the world and the events.\<close>

definition async_client_new :: "mqtt_connect_params \<Rightarrow> bool \<Rightarrow> mqtt_qos \<Rightarrow> async_client" where
  "async_client_new params has_state q =
     \<lparr>connect_params = params, timeout_in_ms = 5000, msg_id_seq = 0, state_change_callback = has_state,
      state = STATE_CONNECTED, thread_id = 0, check_thread_id = 0, mqtt = None, qos = q, outstanding_ping = 0,
      stats_reconnect_count = 0, stats_reconnect_attempt_count = 0, stats_total_byte_sent = 0,
      stats_total_byte_recv = 0\<rparr>"

text \<open>The first connection attempt: the client in state CONNECTED or BROKEN, and the connect error.\<close>

definition async_first_connect ::
  "'w platform \<Rightarrow> async_client \<Rightarrow> 'w \<Rightarrow> (async_client \<times> int \<times> 'w \<times> event list) option" where
  "async_first_connect p client w =
     (case async_state_change client STATE_CREATED STATE_CONNECTING 0 ''MQTT Client created.'' of
        (client, evs) \<Rightarrow>
      case mqtt_connect p (connect_params client) w of
        None \<Rightarrow> None
      | Some (Inl ret, w) \<Rightarrow>
          (case async_state_change client STATE_CONNECTING STATE_BROKEN ret ''MQTT Client broken.'' of
             (client, evs') \<Rightarrow> Some (client, ret, w, evs @ evs'))
      | Some (Inr mq, w) \<Rightarrow>
          (case async_state_change (client\<lparr>mqtt := Some mq\<rparr>) STATE_CONNECTING STATE_CONNECTED 0
                  ''MQTT Client connected.'' of
             (client, evs') \<Rightarrow> Some (client, 0, w, evs @ evs')))"

text \<open>\<open>mqtt_async_disconnect\<close> around the join of the handler thread: before it, and after it, when the
  client is freed.\<close>

definition async_disconnect_begin :: "async_client \<Rightarrow> async_client \<times> event list" where
  "async_disconnect_begin client =
     async_state_change client (state client) STATE_DELETING 0 ''MQTT Client disconnecting...''"

definition async_disconnect_end :: "'w platform \<Rightarrow> async_client \<Rightarrow> 'w \<Rightarrow> 'w async_result" where
  "async_disconnect_end p client w =
     (case (case mqtt client of None \<Rightarrow> Some (0, w) | Some mq \<Rightarrow> mqtt_disconnect p mq w) of
        None \<Rightarrow> None
      | Some (_, w) \<Rightarrow>
          (case async_state_change client (state client) STATE_DELETED 0 ''MQTT Client disconnected.'' of
             (client, evs) \<Rightarrow> Some (client, w, evs)))"

text \<open>When the handler thread cannot be created the client is deleted again, but \<open>*async_client\<close> keeps
  its address; the model gives the deleted client as the output.\<close>

definition async_start ::
  "'w platform \<Rightarrow> int \<Rightarrow> async_client \<times> int \<times> 'w \<times> event list \<Rightarrow> (int \<times> async_client option \<times> int \<times> 'w \<times> event list) option" where
  "async_start p thread r =
     (case r of (client, err, w, evs) \<Rightarrow>
      if thread \<noteq> 0 then
        (case async_disconnect_begin client of (client, evs') \<Rightarrow>
         case async_disconnect_end p client w of
           None \<Rightarrow> None
         | Some (client, w, evs'') \<Rightarrow> Some (thread, Some client, err, w, evs @ evs' @ evs''))
      else Some (0, Some client, err, w, evs))"

definition mqtt_async_connect ::
  "'w platform \<Rightarrow> mqtt_connect_params \<Rightarrow> bool \<Rightarrow> bool \<Rightarrow> bool \<Rightarrow> int \<Rightarrow> int \<Rightarrow> 'w \<Rightarrow>
   (int \<times> async_client option \<times> int \<times> 'w \<times> event list) option" where
  "mqtt_async_connect p params has_publish has_state has_should mux thread w =
     (if \<not> has_publish \<or> \<not> has_should then Some (ERR_TR50_PARMS, None, 0, w, [])
      else case p_malloc p w of (m, w) \<Rightarrow>
      if m sizeof_mqtt_async_client = None then Some (ERR_TR50_MALLOC, None, 0, w, [])
      else if mux \<noteq> 0 then Some (mux, None, 0, w, [])
      else case p_malloc p w of (m1, w) \<Rightarrow>
      case (if m1 sizeof_mqtt_qos = None then (malloc_null, w) else p_malloc p w) of (m2, w) \<Rightarrow>
      case mqtt_qos_create m1 m2 MQTT_QOS_DEFAULT_SIZE MQTT_QOS_DEFAULT_TIMEOUT of
        Inl ret \<Rightarrow> Some (ret, None, 0, w, [])
      | Inr q \<Rightarrow>
          (case async_first_connect p (async_client_new params has_state q) w of
             None \<Rightarrow> None
           | Some r \<Rightarrow> async_start p thread r))"

definition mqtt_async_state :: "async_client \<Rightarrow> int" where
  "mqtt_async_state client = state client"

definition mqtt_async_base_handle :: "async_client \<Rightarrow> mqtt_client option" where
  "mqtt_async_base_handle client = mqtt client"

definition mqtt_async_reconnect_count :: "async_client \<Rightarrow> int" where
  "mqtt_async_reconnect_count client = stats_reconnect_count client"

definition mqtt_async_reconnect_attempt_count :: "async_client \<Rightarrow> int" where
  "mqtt_async_reconnect_attempt_count client = stats_reconnect_attempt_count client"

definition mqtt_async_stats_byte_sent :: "async_client \<Rightarrow> int" where
  "mqtt_async_stats_byte_sent client =
     (if mqtt client = None then stats_total_byte_sent client
      else stats_total_byte_sent client + mqtt_stats_byte_sent (mqtt client))"

definition mqtt_async_stats_byte_recv :: "async_client \<Rightarrow> int" where
  "mqtt_async_stats_byte_recv client =
     (if mqtt client = None then stats_total_byte_recv client
      else stats_total_byte_recv client + mqtt_stats_byte_recv (mqtt client))"

definition mqtt_async_stats_clear :: "async_client option \<Rightarrow> async_client option" where
  "mqtt_async_stats_clear client =
     map_option (\<lambda>c. c\<lparr>stats_total_byte_recv := 0, stats_total_byte_sent := 0,
                       mqtt := mqtt_stats_clear (mqtt c)\<rparr>) client"

end
