(* ===== verification/Mqtt_Async_Run.thy ===== *)
theory Mqtt_Async_Run
  imports Mqtt_Async
begin

section \<open>Runs of the asynchronous client\<close>

text \<open>
  The handler thread and the application's calls interleaved, as a step relation; the invariant of
  the client, the path its states take, and what becomes of the requests it accepts.
\<close>

datatype api =
  ApiPublish bytes bytes int int
| ApiPublishQos1 bytes bytes int int "nat option" nat
| ApiSubscribe bytes int "nat option" nat
| ApiUnsubscribe bytes "nat option" nat
| ApiStatsClear
| ApiDisconnect

fun api_step :: "'w platform \<Rightarrow> int option \<Rightarrow> api \<Rightarrow> async_client \<Rightarrow> 'w \<Rightarrow> 'w request_result" where
  "api_step p tid (ApiPublish topic data len retain) c w = mqtt_async_publish p (Some c) tid topic data len retain w"
| "api_step p tid (ApiPublishQos1 topic data len retain cb cust) c w =
     mqtt_async_publish_qos1 p (Some c) tid topic data len retain cb cust w"
| "api_step p tid (ApiSubscribe topic qs cb cust) c w = mqtt_async_subscribe p (Some c) tid topic qs cb cust w"
| "api_step p tid (ApiUnsubscribe topic cb cust) c w = mqtt_async_unsubscribe p (Some c) tid topic cb cust w"
| "api_step p tid ApiStatsClear c w = Some (0, mqtt_async_stats_clear (Some c), w, [])"
| "api_step p tid ApiDisconnect c w =
     (case async_disconnect_begin c of (c, evs) \<Rightarrow> Some (0, Some c, w, evs))"

fun api_client :: "api \<Rightarrow> (nat option \<times> nat) option" where
  "api_client (ApiPublishQos1 topic data len retain cb cust) = Some (cb, cust)"
| "api_client (ApiSubscribe topic qs cb cust) = Some (cb, cust)"
| "api_client (ApiUnsubscribe topic cb cust) = Some (cb, cust)"
| "api_client _ = None"

text \<open>The request a call puts into the acknowledgement table.\<close>

definition api_accepted :: "int option \<Rightarrow> api \<Rightarrow> async_client \<Rightarrow> qos_request list" where
  "api_accepted tid a c =
     (case (async_request_check (Some c) tid, api_client a) of
        (Inr _, Some (cb, cust)) \<Rightarrow>
          if current_size (qos c) < int (max_size (qos c)) then [(word_of_int (msg_id_seq c), cb, cust)] else []
      | _ \<Rightarrow> [])"

type_synonym 'w async_sys = "(pc \<times> int) \<times> async_client \<times> 'w"

inductive async_step ::
  "'w platform \<Rightarrow> 'w async_sys \<Rightarrow> qos_request list \<Rightarrow> event list \<Rightarrow> 'w async_sys \<Rightarrow> bool" for p where
  handler: "async_handler_step p answer thr c w = Some (thr', c', w', evs) \<Longrightarrow>
    async_step p (thr, c, w) [] evs (thr', c', w')"
| call: "api_step p tid a c w = Some (ret, Some c', w', evs) \<Longrightarrow>
    async_step p (thr, c, w) (api_accepted tid a c) evs (thr, c', w')"

inductive async_run ::
  "'w platform \<Rightarrow> 'w async_sys \<Rightarrow> qos_request list \<Rightarrow> event list \<Rightarrow> 'w async_sys \<Rightarrow> bool" for p where
  refl: "async_run p s [] [] s"
| step: "async_run p s acc evs s' \<Longrightarrow> async_step p s' acc' evs' s'' \<Longrightarrow>
    async_run p s (acc @ acc') (evs @ evs') s''"

inductive_cases async_stepE: "async_step p (thr, c, w) acc evs (thr', c', w')"

text \<open>A client as \<open>mqtt_async_connect\<close> hands it over, its handler thread begun.\<close>

definition async_started :: "'w platform \<Rightarrow> 'w async_sys \<Rightarrow> bool" where
  "async_started p s \<longleftrightarrow> (\<exists>params has_state q w c err w' evs m1 m2 tid.
     mqtt_qos_create m1 m2 MQTT_QOS_DEFAULT_SIZE MQTT_QOS_DEFAULT_TIMEOUT = Inr q \<and>
     async_first_connect p (async_client_new params has_state q) w = Some (c, err, w', evs) \<and>
     s = ((PLoop, 0), async_handler_begin tid c, w'))"

subsection \<open>The state machine\<close>

definition state_edge :: "int \<Rightarrow> int \<Rightarrow> bool" where
  "state_edge a b \<longleftrightarrow> (a, b) \<in> {(STATE_CONNECTED, STATE_BROKEN), (STATE_BROKEN, STATE_RECONNECTING),
     (STATE_RECONNECTING, STATE_CONNECTED), (STATE_RECONNECTING, STATE_BROKEN), (STATE_CONNECTED, STATE_DELETING),
     (STATE_BROKEN, STATE_DELETING), (STATE_DELETING, STATE_DELETING)}"

text \<open>The state-change events lead from one state to another along the edges.\<close>

fun state_path :: "int \<Rightarrow> event list \<Rightarrow> int \<Rightarrow> bool" where
  "state_path a [] b \<longleftrightarrow> a = b"
| "state_path a (EvState old new err why # evs) b \<longleftrightarrow> old = a \<and> state_edge old new \<and> state_path new evs b"
| "state_path a (e # evs) b \<longleftrightarrow> state_path a evs b"

fun event_calls :: "event list \<Rightarrow> qos_call list" where
  "event_calls [] = []"
| "event_calls (EvQos c # evs) = c # event_calls evs"
| "event_calls (e # evs) = event_calls evs"

lemma state_path_append: "state_path a evs b \<Longrightarrow> state_path b evs' c \<Longrightarrow> state_path a (evs @ evs') c"
  by (induction a evs b rule: state_path.induct) auto

lemma state_path_qos [simp]: "state_path a (map EvQos calls) b \<longleftrightarrow> a = b"
  by (induction calls) auto

lemma event_calls_append [simp]: "event_calls (evs @ evs') = event_calls evs @ event_calls evs'"
  by (induction evs rule: event_calls.induct) auto

lemma event_calls_map [simp]: "event_calls (map EvQos calls) = calls"
  by (induction calls) auto

definition async_inv :: "async_client \<Rightarrow> bool" where
  "async_inv c \<longleftrightarrow> qos_inv (qos c) \<and> (state c = STATE_CONNECTED \<longrightarrow> mqtt c \<noteq> None) \<and>
     state c \<in> {STATE_CONNECTED, STATE_BROKEN, STATE_DELETING} \<and> 0 \<le> outstanding_ping c \<and> outstanding_ping c \<le> 2"

text \<open>What every step does: it keeps the invariant, reports its state changes truly, stays in DELETING,
  and completes or keeps the requests.\<close>

definition requests_kept :: "async_client \<Rightarrow> qos_request list \<Rightarrow> event list \<Rightarrow> async_client \<Rightarrow> bool" where
  "requests_kept c acc evs c' \<longleftrightarrow>
     image_mset request_client (mset acc) + image_mset request_client (qos_outstanding (qos c)) =
     image_mset call_client (mset (event_calls evs)) + image_mset request_client (qos_outstanding (qos c'))"

definition step_ok :: "async_client \<Rightarrow> qos_request list \<Rightarrow> event list \<Rightarrow> async_client \<Rightarrow> bool" where
  "step_ok c acc evs c' \<longleftrightarrow> async_inv c' \<and> state_change_callback c' = state_change_callback c \<and>
     (state_change_callback c \<longrightarrow> state_path (state c) evs (state c')) \<and>
     (state c = STATE_DELETING \<longrightarrow> state c' = STATE_DELETING) \<and> requests_kept c acc evs c'"

lemma step_ok_refl: "async_inv c \<Longrightarrow> step_ok c [] [] c"
  by (simp add: step_ok_def requests_kept_def)

lemma step_ok_trans:
  assumes "step_ok c acc evs c1" "step_ok c1 acc' evs' c2"
  shows "step_ok c (acc @ acc') (evs @ evs') c2"
proof -
  have "requests_kept c (acc @ acc') (evs @ evs') c2"
    using assms multiset_chain unfolding step_ok_def requests_kept_def event_calls_append mset_append image_mset_union
    by blast
  with assms show ?thesis by (auto simp: step_ok_def intro: state_path_append)
qed

text \<open>Fields that matter to none of this.\<close>

lemma step_ok_fields:
  assumes "async_inv c" "state c' = state c" "qos c' = qos c" "state_change_callback c' = state_change_callback c"
    and "mqtt c \<noteq> None \<Longrightarrow> mqtt c' \<noteq> None" "0 \<le> outstanding_ping c'" "outstanding_ping c' \<le> 2"
  shows "step_ok c [] [] c'"
  using assms by (auto simp: step_ok_def async_inv_def requests_kept_def)

lemma break_ok:
  assumes "async_inv c" "async_break c err why = (c', evs)"
  shows "step_ok c [] evs c'" "mqtt c' = mqtt c" "state c' \<noteq> STATE_CONNECTED" "qos c' = qos c"
    "outstanding_ping c' = outstanding_ping c"
  using assms
  by (auto simp: async_break_def async_state_change_def step_ok_def async_inv_def requests_kept_def state_edge_def
      state_code split: if_splits)

lemma signal_ok:
  assumes inv: "async_inv c" and s: "async_signal c mid = (c', evs)"
  shows "step_ok c [] evs c'"
proof -
  obtain ret calls q where q: "mqtt_qos_signal (qos c) mid = (ret, calls, q)"
    by (cases "mqtt_qos_signal (qos c) mid")
  have c': "c' = c\<lparr>qos := q\<rparr>" "evs = map EvQos calls"
    using s q by (simp_all add: async_signal_def)
  have "qos_inv (qos c)" using inv by (simp add: async_inv_def)
  from signal_spec [OF this q] show ?thesis
    using inv by (cases) (auto simp: c' step_ok_def async_inv_def requests_kept_def call_client_def request_client_def)
qed

lemma clear_ok:
  assumes inv: "async_inv c" and s: "mqtt_qos_clear (\<lambda>_. []) (qos c) status = (calls, q)"
  shows "step_ok c [] (map EvQos calls) (c\<lparr>qos := q\<rparr>)" "qos_outstanding q = {#}"
proof -
  have i: "qos_inv (qos c)" using inv by (simp add: async_inv_def)
  note sp = clear_spec [OF i s]
  then show "qos_outstanding q = {#}" by blast
  show "step_ok c [] (map EvQos calls) (c\<lparr>qos := q\<rparr>)"
    using sp inv by (auto simp: step_ok_def async_inv_def requests_kept_def call_client_completions)
qed

lemma process_ok:
  assumes inv: "async_inv c" and s: "async_handler_process p c data w = Some (ret, c', w', evs)"
  shows "step_ok c [] evs c'"
proof -
  have fields: "step_ok c [] [] (c\<lparr>outstanding_ping := 0\<rparr>)"
    by (rule step_ok_fields [OF inv]) simp_all
  have pub: "step_ok c [] evs c'" if "async_publish_received p c msg w1 = Some (c', w', evs)" for msg w1
  proof -
    have "\<exists>mq. c' = c \<or> c' = c\<lparr>mqtt := Some mq\<rparr>" "event_calls evs = []" "state_path (state c) evs (state c)"
      using that by (auto simp: async_publish_received_def Let_def split: if_splits option.splits prod.splits)
    then show ?thesis
      using inv by (auto simp: step_ok_def async_inv_def requests_kept_def)
  qed
  show ?thesis
    using s signal_ok [OF inv] fields pub step_ok_refl [OF inv]
    by (auto simp: async_handler_process_def Let_def map_option_case
        split: if_splits option.splits sum.splits prod.splits)
qed

lemma recv_ok:
  assumes inv: "async_inv c" and s: "async_handler_recv p c w = Some (ret, c', w', evs)"
  shows "step_ok c [] evs c'"
proof -
  have m: "step_ok c [] [] (c\<lparr>mqtt := Some mq\<rparr>)" for mq
    by (rule step_ok_fields [OF inv]) (use inv in \<open>simp_all add: async_inv_def\<close>)
  have i: "async_inv (c\<lparr>mqtt := Some mq\<rparr>)" for mq
    using m by (simp add: step_ok_def)
  have b: "step_ok c [] evs c'" if "async_break (c\<lparr>mqtt := Some mq\<rparr>) err why = (c', evs)" for mq err why
    using step_ok_trans [OF m break_ok(1) [OF i that]] by simp
  have pr: "step_ok c [] evs c'" if "async_handler_process p (c\<lparr>mqtt := Some mq\<rparr>) data w1 = Some (r, c', w', evs)"
    for mq data w1 r
    using step_ok_trans [OF m process_ok [OF i that]] by simp
  show ?thesis
    using s m b pr
    by (auto simp: async_handler_recv_def Let_def split: if_splits option.splits sum.splits prod.splits)
qed

lemma handler_qos_ok:
  assumes inv: "async_inv c" and s: "async_handler_qos p ret c w = (c', w', evs)"
  shows "step_ok c [] evs c'"
proof -
  obtain now w1 where n: "(if current_size (qos c) = 0 then (0, w) else p_time_now_in_sec p w) = (now, w1)"
    by fastforce
  obtain b q where q: "mqtt_qos_any_expired (qos c) now = (b, q)" by fastforce
  have qi: "qos_inv (qos c)" using inv by (simp add: async_inv_def)
  let ?c = "c\<lparr>qos := q\<rparr>"
  have ok1: "step_ok c [] [] ?c"
    using any_expired_spec [OF qi q] inv by (auto simp: step_ok_def async_inv_def requests_kept_def)
  then have i1: "async_inv ?c" by (simp add: step_ok_def)
  show ?thesis
  proof (cases b)
    case False
    then show ?thesis using s n q ok1 by (simp add: async_handler_qos_def)
  next
    case True
    obtain c2 evs2 where b2: "async_break ?c ret ''MQTT Ack not recevied.'' = (c2, evs2)" by fastforce
    obtain calls q3 where q3: "mqtt_qos_clear (\<lambda>_. []) (qos c2) ERR_MQTT_QOS_FAILURE = (calls, q3)" by fastforce
    have ok2: "step_ok ?c [] evs2 c2" by (rule break_ok(1) [OF i1 b2])
    then have i2: "async_inv c2" by (simp add: step_ok_def)
    have "c' = c2\<lparr>qos := q3\<rparr>" "evs = evs2 @ map EvQos calls"
      using s n q True b2 q3 by (simp_all add: async_handler_qos_def Let_def)
    with step_ok_trans [OF step_ok_trans [OF ok1 ok2] clear_ok(1) [OF i2 q3]] show ?thesis by simp
  qed
qed

lemma keepalive_ok:
  assumes inv: "async_inv c" and s: "async_handler_keepalive p c w = Some (c', w', evs)"
  shows "step_ok c [] evs c'"
proof -
  have reset: "step_ok c [] evs (c1\<lparr>outstanding_ping := 0\<rparr>)" if "async_break c err why = (c1, evs)" for err why c1
  proof -
    have i: "async_inv c1" using break_ok(1) [OF inv that] by (simp add: step_ok_def)
    have "step_ok c1 [] [] (c1\<lparr>outstanding_ping := 0\<rparr>)"
      by (rule step_ok_fields [OF i]) simp_all
    from step_ok_trans [OF break_ok(1) [OF inv that] this] show ?thesis by simp
  qed
  have m: "step_ok c [] [] (c\<lparr>mqtt := Some mq\<rparr>)" for mq
    by (rule step_ok_fields [OF inv]) (use inv in \<open>simp_all add: async_inv_def\<close>)
  have i: "async_inv (c\<lparr>mqtt := Some mq\<rparr>)" for mq
    using m by (simp add: step_ok_def)
  have b: "step_ok c [] evs c'" if "async_break (c\<lparr>mqtt := Some mq\<rparr>) err why = (c', evs)" for mq err why
    using step_ok_trans [OF m break_ok(1) [OF i that]] by simp
  have ping: "step_ok c [] [] (c\<lparr>mqtt := Some mq, outstanding_ping := outstanding_ping c + 1\<rparr>)"
    if "\<not> outstanding_ping c > 1" for mq
    by (rule step_ok_fields [OF inv]) (use inv that in \<open>simp_all add: async_inv_def\<close>)
  show ?thesis
    using s reset b ping step_ok_refl [OF inv]
    by (auto simp: async_handler_keepalive_def Let_def split: if_splits option.splits prod.splits)
qed

lemma reconnect_ok:
  assumes inv: "async_inv c" and broken: "state c = STATE_BROKEN"
    and s: "async_reconnect_once p c w = Some (c', w', evs)"
  shows "step_ok c [] evs c'" "(state c' = STATE_CONNECTED \<and> mqtt c' \<noteq> None) \<or> (state c' = STATE_BROKEN \<and> mqtt c' = None)"
    "stats_reconnect_attempt_count c' = stats_reconnect_attempt_count c + 1"
proof -
  obtain c1 w1 where d: "async_drop_connection p c w = Some (c1, w1)"
    using s by (auto simp: async_reconnect_once_def split: option.splits)
  have c1: "qos c1 = qos c" "state c1 = state c" "state_change_callback c1 = state_change_callback c" "mqtt c1 = None"
    "outstanding_ping c1 = outstanding_ping c" "stats_reconnect_attempt_count c1 = stats_reconnect_attempt_count c"
    using d by (auto simp: async_drop_connection_def split: option.splits prod.splits)
  show "step_ok c [] evs c'" "(state c' = STATE_CONNECTED \<and> mqtt c' \<noteq> None) \<or> (state c' = STATE_BROKEN \<and> mqtt c' = None)"
    "stats_reconnect_attempt_count c' = stats_reconnect_attempt_count c + 1"
    using s d c1 inv broken
    by (auto simp: async_reconnect_once_def async_state_change_def Let_def step_ok_def async_inv_def requests_kept_def
        state_edge_def state_code split: option.splits prod.splits sum.splits if_splits)
qed

lemma handler_step_ok:
  assumes inv: "async_inv c" and s: "async_handler_step p answer thr c w = Some (thr', c', w', evs)"
  shows "step_ok c [] evs c'"
proof -
  obtain pc ret where thr: "thr = (pc, ret)" by fastforce
  show ?thesis
    using s recv_ok [OF inv] handler_qos_ok [OF inv] keepalive_ok [OF inv] reconnect_ok(1) [OF inv]
      clear_ok(1) [OF inv] step_ok_refl [OF inv]
    by (cases pc) (auto simp: thr async_handler_step_def split: if_splits option.splits prod.splits)
qed

lemma request_check_Inr:
  "async_request_check (Some c) tid = Inr (c1, mq) \<Longrightarrow> c1 = c \<and> mqtt c = Some mq \<and> state c = STATE_CONNECTED"
  by (auto simp: async_request_check_def split: if_splits option.splits)

lemma request_sent_ok:
  assumes inv: "async_inv c" and st: "state c = STATE_CONNECTED" and s: "async_request_sent c r = (ret, c', w', evs)"
  shows "step_ok c [] evs c'"
  using assms
  by (auto simp: async_request_sent_def async_state_change_def Let_def step_ok_def async_inv_def requests_kept_def
      state_edge_def state_code split: if_splits prod.splits)

lemma add_ok:
  assumes inv: "async_inv c" and s: "mqtt_qos_add (qos c) now mid cb cust = (ret, q)"
  shows "step_ok c (if current_size (qos c) < int (max_size (qos c)) then [(mid, cb, cust)] else []) []
      (c\<lparr>msg_id_seq := k, qos := q\<rparr>)" "ret = 0 \<longleftrightarrow> current_size (qos c) < int (max_size (qos c))"
proof -
  have i: "qos_inv (qos c)" using inv by (simp add: async_inv_def)
  note sp = add_spec [OF i s]
  show "ret = 0 \<longleftrightarrow> current_size (qos c) < int (max_size (qos c))"
    using sp(3) by (simp add: err_code)
  then show "step_ok c (if current_size (qos c) < int (max_size (qos c)) then [(mid, cb, cust)] else []) []
      (c\<lparr>msg_id_seq := k, qos := q\<rparr>)"
    using sp inv by (auto simp: step_ok_def async_inv_def requests_kept_def err_code split: if_splits)
qed

text \<open>The three requests: number, register, send.\<close>

lemma registered_ok:
  assumes inv: "async_inv c" and st: "state c = STATE_CONNECTED" and q: "mqtt_qos_add (qos c) now mid cb cust = (ret, q)"
    and s: "(if ret \<noteq> 0 then Some (ret, Some (c\<lparr>msg_id_seq := k, qos := q\<rparr>), w, [])
      else map_option (\<lambda>r. lift_client (async_request_sent (c\<lparr>msg_id_seq := k, qos := q\<rparr>) r)) snt) =
      Some (ret', Some c', w', evs)"
  shows "step_ok c (if current_size (qos c) < int (max_size (qos c)) then [(mid, cb, cust)] else []) evs c'"
proof -
  let ?c = "c\<lparr>msg_id_seq := k, qos := q\<rparr>"
  note ok = add_ok(1) [OF inv q, of k]
  then have i: "async_inv ?c" "state ?c = STATE_CONNECTED" using st by (simp_all add: step_ok_def)
  have snd: "step_ok ?c [] evs c'" if "lift_client (async_request_sent ?c r) = (ret', Some c', w', evs)" for r
    using that request_sent_ok [OF i, of r] by (auto simp: lift_client_def split: prod.splits)
  show ?thesis
    using s ok step_ok_trans [OF ok snd] by (auto split: if_splits simp: map_option_case split: option.splits)
qed

lemma api_accepted_none: "api_client a = None \<Longrightarrow> api_accepted tid a c = []"
  by (simp add: api_accepted_def split: sum.splits)

lemma api_accepted_some:
  "api_client a = Some (cb, cust) \<Longrightarrow> api_accepted tid a c = (case async_request_check (Some c) tid of
      Inr _ \<Rightarrow> if current_size (qos c) < int (max_size (qos c)) then [(word_of_int (msg_id_seq c), cb, cust)] else []
    | Inl _ \<Rightarrow> [])"
  by (simp add: api_accepted_def split: sum.splits)

lemma publish_qos1_register:
  "mqtt_async_publish_qos1 p client tid topic data len retain cb cust w =
     async_register p client tid cb cust (\<lambda>mq mid w. mqtt_publish p mq 1 retain mid topic data len w) w"
  by (cases "async_request_check client tid")
    (simp_all add: mqtt_async_publish_qos1_def async_publish_base_def async_register_def MQTT_PAYLOAD_QOS_1_def
      Let_def case_prod_beta)

lemma api_step_ok:
  assumes inv: "async_inv c" and s: "api_step p tid a c w = Some (ret, Some c', w', evs)"
  shows "step_ok c (api_accepted tid a c) evs c'"
proof -
  have plain: "step_ok c [] evs c'" if "mqtt_async_publish p (Some c) tid topic data len retain w = Some (ret, Some c', w', evs)"
    for topic data len retain
  proof (cases "async_request_check (Some c) tid")
    case (Inl e)
    then show ?thesis
      using that inv by (simp add: mqtt_async_publish_def async_publish_base_def step_ok_refl)
  next
    case (Inr x)
    note run = that
    obtain mq where x: "x = (c, mq)" "state c = STATE_CONNECTED"
      using Inr request_check_Inr by (cases x) blast
    let ?c = "c\<lparr>msg_id_seq := msg_id_seq c + 1\<rparr>"
    have m: "step_ok c [] [] ?c"
      by (rule step_ok_fields [OF inv]) (use inv in \<open>simp_all add: async_inv_def\<close>)
    then have i: "async_inv ?c" "state ?c = STATE_CONNECTED" using x by (simp_all add: step_ok_def)
    obtain r where r: "mqtt_publish p mq 0 retain (word_of_int (msg_id_seq c)) topic data len w = Some r"
      and l: "lift_client (async_request_sent ?c r) = (ret, Some c', w', evs)"
      using run Inr x(1)
      by (cases "mqtt_publish p mq 0 retain (word_of_int (msg_id_seq c)) topic data len w")
        (simp_all add: mqtt_async_publish_def async_publish_base_def MQTT_PAYLOAD_QOS_0_def Let_def)
    have "step_ok ?c [] evs c'"
      using l request_sent_ok [OF i, of r] by (auto simp: lift_client_def split: prod.splits)
    from step_ok_trans [OF m this] show ?thesis by simp
  qed
  have reg: "step_ok c (case async_request_check (Some c) tid of Inr _ \<Rightarrow>
        if current_size (qos c) < int (max_size (qos c)) then [(word_of_int (msg_id_seq c), cb, cust)] else []
      | Inl _ \<Rightarrow> []) evs c'"
    if "async_register p (Some c) tid cb cust snt w = Some (ret, Some c', w', evs)" for cb cust snt
  proof (cases "async_request_check (Some c) tid")
    case (Inl e)
    then show ?thesis using that inv by (simp add: async_register_def step_ok_refl)
  next
    case (Inr x)
    then obtain mq where x: "x = (c, mq)" "state c = STATE_CONNECTED"
      using request_check_Inr by (cases x) blast
    obtain now w1 where n: "(if current_size (qos c) < int (max_size (qos c)) then p_time_now_in_sec p w else (0, w)) = (now, w1)"
      by fastforce
    obtain r q where q: "mqtt_qos_add (qos c) now (word_of_int (msg_id_seq c)) cb cust = (r, q)" by fastforce
    have e: "(if r \<noteq> 0 then Some (r, Some (c\<lparr>msg_id_seq := msg_id_seq c + 1, qos := q\<rparr>), w1, [])
      else map_option (\<lambda>r. lift_client (async_request_sent (c\<lparr>msg_id_seq := msg_id_seq c + 1, qos := q\<rparr>) r))
        (snt mq (word_of_int (msg_id_seq c)) w1)) = Some (ret, Some c', w', evs)"
      using that Inr x(1) n q by (simp add: async_register_def Let_def)
    have "step_ok c (if current_size (qos c) < int (max_size (qos c))
        then [(word_of_int (msg_id_seq c), cb, cust)] else []) evs c'"
      by (rule registered_ok [OF inv x(2) q e])
    then show ?thesis by (simp only: Inr sum.case)
  qed
  have qos1: "step_ok c (case async_request_check (Some c) tid of Inr _ \<Rightarrow>
        if current_size (qos c) < int (max_size (qos c)) then [(word_of_int (msg_id_seq c), cb, cust)] else []
      | Inl _ \<Rightarrow> []) evs c'"
    if "mqtt_async_publish_qos1 p (Some c) tid topic data len retain cb cust w = Some (ret, Some c', w', evs)"
    for topic data len retain cb cust
    by (rule reg) (use that in \<open>simp only: publish_qos1_register\<close>)
  have clear: "step_ok c [] [] (the (mqtt_async_stats_clear (Some c)))"
    by (rule step_ok_fields [OF inv])
      (use inv in \<open>auto simp: mqtt_async_stats_clear_def mqtt_stats_clear_def async_inv_def\<close>)
  show ?thesis
  proof (cases a)
    case (ApiPublishQos1 topic data len retain cb cust)
    then have k: "api_client a = Some (cb, cust)" by simp
    from s ApiPublishQos1 show ?thesis
      unfolding api_accepted_some [OF k] by (intro qos1) simp
  next
    case (ApiSubscribe topic qs cb cust)
    then have k: "api_client a = Some (cb, cust)" by simp
    from s ApiSubscribe show ?thesis
      unfolding api_accepted_some [OF k] by (intro reg) (simp add: mqtt_async_subscribe_def)
  next
    case (ApiUnsubscribe topic cb cust)
    then have k: "api_client a = Some (cb, cust)" by simp
    from s ApiUnsubscribe show ?thesis
      unfolding api_accepted_some [OF k] by (intro reg) (simp add: mqtt_async_unsubscribe_def)
  next
    case ApiStatsClear
    with s clear show ?thesis by (auto simp: api_accepted_none)
  next
    case ApiDisconnect
    with s inv show ?thesis
      by (auto simp: api_accepted_none async_disconnect_begin_def async_state_change_def step_ok_def async_inv_def
          requests_kept_def state_edge_def state_code)
  qed (use s plain in \<open>simp add: api_accepted_none\<close>)
qed

lemma async_step_ok:
  "async_step p (thr, c, w) acc evs (thr', c', w') \<Longrightarrow> async_inv c \<Longrightarrow> step_ok c acc evs c'"
  by (erule async_stepE) (auto dest: handler_step_ok api_step_ok)

lemma first_connect_ok:
  assumes "qos_inv q" "async_first_connect p (async_client_new params has_state q) w = Some (c, err, w', evs)"
  shows "async_inv c" "qos c = q"
proof -
  let ?c = "fst (async_state_change (async_client_new params has_state q) STATE_CREATED STATE_CONNECTING 0 ''MQTT Client created.'')"
  obtain r w1 where "mqtt_connect p (connect_params ?c) w = Some (r, w1)"
    using assms(2) by (auto simp: async_first_connect_def async_state_change_def split: option.splits)
  then show "async_inv c" "qos c = q"
    using assms
    by (cases r; auto simp: async_first_connect_def async_state_change_def async_client_new_def async_inv_def state_code)+
qed

lemma begin_ok: "async_inv c \<Longrightarrow> async_inv (async_handler_begin tid c) \<and> qos (async_handler_begin tid c) = qos c"
  by (auto simp: async_handler_begin_def async_inv_def split: option.split)

lemma started_ok:
  assumes "async_started p (thr, c, w)"
  shows "async_inv c" "qos_outstanding (qos c) = {#}" "thr = (PLoop, 0)"
proof -
  obtain params has_state q w0 c0 err evs m1 m2 tid where
    q: "mqtt_qos_create m1 m2 MQTT_QOS_DEFAULT_SIZE MQTT_QOS_DEFAULT_TIMEOUT = Inr q"
    and c0: "async_first_connect p (async_client_new params has_state q) w0 = Some (c0, err, w, evs)"
    and c: "c = async_handler_begin tid c0" and "thr = (PLoop, 0)"
    using assms by (auto simp: async_started_def)
  then show "thr = (PLoop, 0)" by simp
  have "qos_inv q" "qos_outstanding q = {#}"
    using create_spec [OF q] by (simp_all add: MQTT_QOS_DEFAULT_TIMEOUT_def)
  with first_connect_ok [OF _ c0] begin_ok [of c0 tid] show "async_inv c" "qos_outstanding (qos c) = {#}"
    by (simp_all add: c)
qed

lemma run_ok:
  "async_run p s acc evs s' \<Longrightarrow> async_inv (fst (snd s)) \<Longrightarrow> step_ok (fst (snd s)) acc evs (fst (snd s'))"
proof (induction rule: async_run.induct)
  case (refl s)
  then show ?case by (simp add: step_ok_refl)
next
  case (step s acc evs s' acc' evs' s'')
  obtain thr c w thr' c' w' where s: "s' = (thr, c, w)" "s'' = (thr', c', w')"
    by (cases s'; cases s'') auto
  have ok: "step_ok (fst (snd s)) acc evs c" using step s by simp
  then have i: "async_inv c" by (simp add: step_ok_def)
  have "step_ok c acc' evs' c'"
    using step.hyps(2) unfolding s by (rule async_step_ok) (rule i)
  from step_ok_trans [OF ok this] show ?case by (simp add: s)
qed

subsection \<open>Schedules\<close>

text \<open>A schedule, run by evaluation: \<open>Inl answer\<close> lets the handler make a step, \<open>Inr (tid, a)\<close> is a
  call.\<close>

fun async_script ::
  "'w platform \<Rightarrow> (bool + int option \<times> api) list \<Rightarrow> 'w async_sys \<Rightarrow>
   (qos_request list \<times> event list \<times> 'w async_sys) option" where
  "async_script p [] s = Some ([], [], s)"
| "async_script p (Inl answer # xs) (thr, c, w) =
     (case async_handler_step p answer thr c w of
        None \<Rightarrow> None
      | Some (thr, c, w, evs) \<Rightarrow>
          map_option (\<lambda>(acc, evs', s). (acc, evs @ evs', s)) (async_script p xs (thr, c, w)))"
| "async_script p (Inr (tid, a) # xs) (thr, c, w) =
     (case api_step p tid a c w of
        Some (ret, Some c', w, evs) \<Rightarrow>
          map_option (\<lambda>(acc, evs', s). (api_accepted tid a c @ acc, evs @ evs', s)) (async_script p xs (thr, c', w))
      | _ \<Rightarrow> None)"

lemma async_run_cons:
  "async_step p s acc evs s1 \<Longrightarrow> async_run p s1 acc' evs' s2 \<Longrightarrow> async_run p s (acc @ acc') (evs @ evs') s2"
proof (rotate_tac, induction rule: async_run.induct)
  case (refl s1)
  from async_run.step [OF async_run.refl refl] show ?case by simp
next
  case (step s1 acc' evs' s2 acc'' evs'' s3)
  from async_run.step [OF step.IH [OF step.prems] step.hyps(2)] show ?case by simp
qed

lemma async_script_run: "async_script p xs s = Some (acc, evs, s') \<Longrightarrow> async_run p s acc evs s'"
proof (induction p xs s arbitrary: acc evs s' rule: async_script.induct)
  case (1 p s)
  then show ?case by (auto intro: async_run.refl)
next
  case (2 p answer xs thr c w)
  then obtain thr1 c1 w1 evs1 evs2 where "async_handler_step p answer thr c w = Some (thr1, c1, w1, evs1)"
    "async_script p xs (thr1, c1, w1) = Some (acc, evs2, s')" "evs = evs1 @ evs2"
    by (auto split: option.splits)
  with 2 show ?case
    using async_run_cons [OF async_step.handler, of p answer thr c w thr1 c1 w1 evs1 acc evs2 s'] by simp
next
  case (3 p tid a xs thr c w)
  then obtain ret c1 w1 evs1 acc2 evs2 where "api_step p tid a c w = Some (ret, Some c1, w1, evs1)"
    "async_script p xs (thr, c1, w1) = Some (acc2, evs2, s')" "acc = api_accepted tid a c @ acc2" "evs = evs1 @ evs2"
    by (auto split: option.splits)
  with 3 show ?case
    using async_run_cons [OF async_step.call, of p tid a c w ret c1 w1 evs1 thr acc2 evs2 s'] by simp
qed

text \<open>A peer that answers with the bytes of the world.\<close>

definition loop_platform :: "bytes platform" where
  "loop_platform =
     \<lparr>p_malloc = (\<lambda>w. (\<lambda>n. Some (replicate n 0), w)), p_time_now = (\<lambda>w. (0, w)), p_time_now_in_sec = (\<lambda>w. (0, w)),
      p_tcp_connect = (\<lambda>w h pt opts. Some ((0, 1), w)),
      p_tcp_connect_proxy = (\<lambda>w h pt opts t a u pw. Some ((0, 1), w)),
      p_tcp_disconnect = (\<lambda>w h. Some (0, w)), p_tcp_send = (\<lambda>w h bs t. Some (0, w)),
      p_tcp_recv = (\<lambda>w h n t. if w = [] then Some ((ERR_TR50_TCP_TIMEOUT, []), w)
                               else Some ((0, take (nat n) w), drop (nat n) w))\<rparr>"

definition demo_client :: async_client where
  "demo_client = (case mqtt_qos_create (\<lambda>n. Some (replicate n 0)) (\<lambda>n. Some (replicate n 0)) MQTT_QOS_DEFAULT_SIZE
      MQTT_QOS_DEFAULT_TIMEOUT of Inr q \<Rightarrow> async_client_new params_demo True q)"

definition demo_start :: "bytes async_sys" where
  "demo_start = (case async_first_connect loop_platform demo_client [0x20, 2, 0, 0, 0x40, 2, 0, 0] of
     Some (c, err, w, evs) \<Rightarrow> ((PLoop, 0), c, w))"

lemma demo_started: "async_started loop_platform demo_start"
proof -
  obtain q where q: "mqtt_qos_create (\<lambda>n. Some (replicate n 0)) (\<lambda>n. Some (replicate n 0)) MQTT_QOS_DEFAULT_SIZE
      MQTT_QOS_DEFAULT_TIMEOUT = Inr q"
    by (simp add: mqtt_qos_create_def)
  then have d: "demo_client = async_client_new params_demo True q" by (simp add: demo_client_def)
  have "async_first_connect loop_platform demo_client [0x20, 2, 0, 0, 0x40, 2, 0, 0] \<noteq> None"
    by code_simp
  then obtain c err w evs where c: "async_first_connect loop_platform demo_client [0x20, 2, 0, 0, 0x40, 2, 0, 0] =
      Some (c, err, w, evs)" by auto
  then have "demo_start = ((PLoop, 0), async_handler_begin None c, w)"
    by (simp add: demo_start_def async_handler_begin_def)
  with q c [unfolded d] show ?thesis
    unfolding async_started_def by blast
qed

text \<open>A client whose first connection failed.\<close>

definition demo_broken :: async_client where
  "demo_broken = (case async_first_connect loop_platform demo_client [] of Some (c, err, w, evs) \<Rightarrow> c)"

lemma demo_broken_inv: "async_inv demo_broken"
proof -
  obtain q where q: "mqtt_qos_create (\<lambda>n. Some (replicate n 0)) (\<lambda>n. Some (replicate n 0)) MQTT_QOS_DEFAULT_SIZE
      MQTT_QOS_DEFAULT_TIMEOUT = Inr q"
    by (simp add: mqtt_qos_create_def)
  then have d: "demo_client = async_client_new params_demo True q" by (simp add: demo_client_def)
  have "async_first_connect loop_platform demo_client [] \<noteq> None" by code_simp
  then obtain c err w evs where c: "async_first_connect loop_platform demo_client [] = Some (c, err, w, evs)" by auto
  have "qos_inv q" using create_spec [OF q] by (simp add: MQTT_QOS_DEFAULT_TIMEOUT_def)
  from first_connect_ok(1) [OF this c [unfolded d]] c show ?thesis by (simp add: demo_broken_def)
qed

text \<open>Two requests, of which the peer acknowledges the first; then a disconnect.\<close>

definition demo_script :: "(bool + int option \<times> api) list" where
  "demo_script = [Inr (None, ApiPublishQos1 [0x74] [1, 2] 2 0 (Some 5) 50), Inr (None, ApiSubscribe [0x74] 1 (Some 6) 60),
     Inl False, Inl False, Inl False, Inr (None, ApiDisconnect), Inl False, Inl False, Inl False]"

lemma demo_result:
  "\<exists>evs ret c w. async_script loop_platform demo_script demo_start =
     Some ([(0, Some 5, 50), (1, Some 6, 60)], evs, ((PDone, ret), c, w)) \<and> evs \<noteq> []"
proof -
  have "case async_script loop_platform demo_script demo_start of
      Some (acc, evs, ((pc, ret), c, w)) \<Rightarrow> acc = [(0, Some 5, 50), (1, Some 6, 60)] \<and> pc = PDone \<and> evs \<noteq> []
    | None \<Rightarrow> False"
    by code_simp
  then show ?thesis by (auto split: option.splits)
qed

lemma demo_middle:
  "\<exists>acc evs pc ret c w. async_script loop_platform (take 6 demo_script) demo_start = Some (acc, evs, ((pc, ret), c, w)) \<and>
     state c = STATE_DELETING \<and> qos_outstanding (qos c) \<noteq> {#}"
proof -
  have "case async_script loop_platform (take 6 demo_script) demo_start of
      Some (acc, evs, ((pc, ret), c, w)) \<Rightarrow> state c = STATE_DELETING \<and> (\<exists>r \<in> set (records (qos c)). is_used r)
    | None \<Rightarrow> False"
    by code_simp
  then show ?thesis by (auto simp: qos_outstanding_def qos_waiting_def filter_empty_conv split: option.splits)
qed

lemma demo_run:
  assumes "async_script loop_platform demo_script demo_start = Some (acc, evs, s')"
  shows "async_run loop_platform demo_start acc evs s'"
  using async_script_run [OF assms] .

subsection \<open>The handler's way out\<close>

text \<open>Behind its loop the handler finds the client DELETING, and when it has returned no request waits.\<close>

definition handler_inv :: "pc \<Rightarrow> async_client \<Rightarrow> bool" where
  "handler_inv pc c \<longleftrightarrow> (pc \<in> {PStop, PDone} \<longrightarrow> state c = STATE_DELETING) \<and>
     (pc = PDone \<longrightarrow> qos_outstanding (qos c) = {#})"

lemma request_check_deleting:
  "state c = STATE_DELETING \<Longrightarrow> \<exists>e. async_request_check (Some c) tid = Inl e"
  by (simp add: async_request_check_def state_code)

lemma api_deleting:
  assumes d: "state c = STATE_DELETING" and s: "api_step p tid a c w = Some (ret, Some c', w', evs)"
  shows "qos c' = qos c"
proof -
  obtain e where "async_request_check (Some c) tid = Inl e"
    using request_check_deleting [OF d] by blast
  with s show ?thesis
    by (cases a) (auto simp: mqtt_async_publish_def mqtt_async_publish_qos1_def async_publish_base_def
        mqtt_async_subscribe_def mqtt_async_unsubscribe_def async_register_def mqtt_async_stats_clear_def
        async_disconnect_begin_def async_state_change_def)
qed

lemma handler_pc_stop:
  assumes "async_handler_step p answer (pc, ret) c w = Some ((pc', ret'), c', w', evs)" "pc' \<in> {PStop, PDone}"
  shows "(pc' = PStop \<and> pc = PLoop \<and> c' = c \<and> (state c = STATE_DELETING \<or> state c = STATE_DISABLED)) \<or>
    (pc' = PDone \<and> pc = PStop \<and> (\<exists>calls. mqtt_qos_clear (\<lambda>_. []) (qos c) ERR_MQTT_QOS_STOPPING = (calls, qos c')))"
  using assms
  by (cases pc) (auto simp: async_handler_step_def split: if_splits option.splits prod.splits)

lemma handler_inv_step:
  assumes s: "async_step p ((pc, ret), c, w) acc evs ((pc', ret'), c', w')" and inv: "async_inv c" and h: "handler_inv pc c"
  shows "handler_inv pc' c'"
proof -
  from s consider (handler) answer where "async_handler_step p answer (pc, ret) c w = Some ((pc', ret'), c', w', evs)"
    | (call) tid a r where "pc' = pc" "api_step p tid a c w = Some (r, Some c', w', evs)"
    by (auto elim: async_stepE)
  then show ?thesis
  proof cases
    case handler
    have del: "state c = STATE_DELETING \<Longrightarrow> state c' = STATE_DELETING"
      using handler_step_ok [OF inv handler] by (simp add: step_ok_def)
    show ?thesis
    proof (cases "pc' \<in> {PStop, PDone}")
      case True
      from handler_pc_stop [OF handler True] show ?thesis
      proof (elim disjE conjE exE)
        assume "pc' = PStop" "pc = PLoop" "c' = c" "state c = STATE_DELETING"
        then show ?thesis by (simp add: handler_inv_def)
      next
        assume "state c = STATE_DISABLED"
        then show ?thesis using inv by (simp add: async_inv_def state_code)
      next
        fix calls assume d: "pc' = PDone" "pc = PStop" "mqtt_qos_clear (\<lambda>_. []) (qos c) ERR_MQTT_QOS_STOPPING = (calls, qos c')"
        have "state c = STATE_DELETING" using h d(2) by (simp add: handler_inv_def)
        with del clear_ok(2) [OF inv d(3)] show ?thesis by (simp add: handler_inv_def)
      qed
    qed (auto simp: handler_inv_def)
  next
    case call
    then have "state c = STATE_DELETING \<Longrightarrow> qos c' = qos c \<and> state c' = STATE_DELETING"
      using api_deleting [OF _ call(2)] api_step_ok [OF inv call(2)] by (simp add: step_ok_def)
    with h call(1) show ?thesis by (auto simp: handler_inv_def)
  qed
qed

lemma run_handler_inv:
  "async_run p s acc evs s' \<Longrightarrow> async_inv (fst (snd s)) \<Longrightarrow> handler_inv (fst (fst s)) (fst (snd s)) \<Longrightarrow>
   handler_inv (fst (fst s')) (fst (snd s'))"
proof (induction rule: async_run.induct)
  case (step s acc evs s' acc' evs' s'')
  obtain pc ret c w pc' ret' c' w' where s: "s' = ((pc, ret), c, w)" "s'' = ((pc', ret'), c', w')"
    by (metis prod.exhaust)
  have "async_inv c"
    using run_ok [OF step.hyps(1) step.prems(1)] by (simp add: s step_ok_def)
  moreover have "handler_inv pc c" using step.IH [OF step.prems] by (simp add: s)
  ultimately show ?case
    using handler_inv_step [OF step.hyps(2) [unfolded s]] by (simp add: s)
qed simp

text \<open>The handler left alone, with the answers it gets.\<close>

fun handler_alone ::
  "'w platform \<Rightarrow> bool list \<Rightarrow> pc \<times> int \<Rightarrow> async_client \<Rightarrow> 'w \<Rightarrow> ((pc \<times> int) \<times> async_client \<times> 'w \<times> event list) option" where
  "handler_alone p [] thr c w = Some (thr, c, w, [])"
| "handler_alone p (answer # as) thr c w =
     (if fst thr = PDone then Some (thr, c, w, [])
      else case async_handler_step p answer thr c w of
             None \<Rightarrow> None
           | Some (thr, c, w, evs) \<Rightarrow>
               map_option (\<lambda>(thr, c, w, evs'). (thr, c, w, evs @ evs')) (handler_alone p as thr c w))"

text \<open>How many steps the handler of a deleted client still makes.\<close>

fun steps_left :: "pc \<Rightarrow> nat" where
  "steps_left PDone = 0"
| "steps_left PStop = 1"
| "steps_left PLoop = 2"
| "steps_left (PReconnect tot) = 3"
| "steps_left PKeepalive = 4"
| "steps_left (PWait tot counter) = 4"
| "steps_left PQos = 5"

lemma handler_step_deleting:
  assumes inv: "async_inv c" and del: "state c = STATE_DELETING" and pc: "pc \<noteq> PDone"
  shows "\<exists>pc' ret' c' w' evs. async_handler_step p answer (pc, ret) c w = Some ((pc', ret'), c', w', evs) \<and>
    steps_left pc' < steps_left pc"
  using assms
  by (cases pc; cases "async_handler_qos p ret c w")
    (auto simp: async_handler_step_def async_handler_keepalive_def state_code Let_def split: prod.splits)

lemma handler_alone_stops:
  assumes "async_inv c" "state c = STATE_DELETING" "handler_inv pc c" "steps_left pc \<le> length as"
  shows "\<exists>ret' c' w' evs. handler_alone p as (pc, ret) c w = Some ((PDone, ret'), c', w', evs) \<and>
    handler_inv PDone c' \<and> step_ok c [] evs c'"
  using assms
proof (induction as arbitrary: pc ret c w)
  case Nil
  then show ?case by (cases pc) (auto intro: step_ok_refl)
next
  case (Cons answer as)
  show ?case
  proof (cases "pc = PDone")
    case True
    then show ?thesis using Cons.prems by (auto intro: step_ok_refl)
  next
    case False
    from handler_step_deleting [OF Cons.prems(1,2) False, of p answer ret w] obtain pc1 ret1 c1 w1 evs1 where
      s: "async_handler_step p answer (pc, ret) c w = Some ((pc1, ret1), c1, w1, evs1)"
      and le: "steps_left pc1 < steps_left pc" by blast
    have ok: "step_ok c [] evs1 c1" by (rule handler_step_ok [OF Cons.prems(1) s])
    have h: "handler_inv pc1 c1"
      by (rule handler_inv_step [OF async_step.handler [OF s] Cons.prems(1,3)])
    from ok have i: "async_inv c1" "state c1 = STATE_DELETING"
      using Cons.prems(2) by (simp_all add: step_ok_def)
    have "steps_left pc1 \<le> length as" using le Cons.prems(4) by simp
    from Cons.IH [OF i h this, of ret1 w1] obtain ret2 c2 w2 evs2 where
      r: "handler_alone p as (pc1, ret1) c1 w1 = Some ((PDone, ret2), c2, w2, evs2)" "handler_inv PDone c2"
        "step_ok c1 [] evs2 c2" by blast
    with False s step_ok_trans [OF ok r(3)] show ?thesis by simp
  qed
qed

subsection \<open>Properties\<close>

lemma started_run:
  assumes "async_started p s" "async_run p s acc evs ((pc, ret), c, w)"
  shows "step_ok (fst (snd s)) acc evs c" "handler_inv pc c" "qos_outstanding (qos (fst (snd s))) = {#}"
proof -
  obtain thr c0 w0 where s: "s = (thr, c0, w0)" by (cases s)
  note st = started_ok [OF assms(1) [unfolded s]]
  show "step_ok (fst (snd s)) acc evs c"
    using run_ok [OF assms(2)] st(1) by (simp add: s)
  show "handler_inv pc c"
    using run_handler_inv [OF assms(2)] st by (simp add: s handler_inv_def)
  show "qos_outstanding (qos (fst (snd s))) = {#}" using st(2) by (simp add: s)
qed

text \<open>C3: Whatever the interleaving of the handler thread and of the application's calls, every request the
  client accepts (a qos-1 publish, subscribe or unsubscribe) is either still waiting or has had its
  callback called exactly once; once the handler thread has returned, none is left waiting.\<close>

theorem async_exactly_once:
  assumes "async_started p s" "async_run p s acc evs ((pc, ret), c, w)"
  shows "image_mset request_client (mset acc) =
      image_mset call_client (mset (event_calls evs)) + image_mset request_client (qos_outstanding (qos c)) \<and>
    (pc = PDone \<longrightarrow> qos_outstanding (qos c) = {#})"
  using started_run [OF assms] by (simp add: step_ok_def requests_kept_def handler_inv_def)

theorem async_exactly_once_witness:
  "\<exists>evs. image_mset request_client {#(0, Some 5, 50), (1, Some 6, 60)#} = image_mset call_client (mset (event_calls evs))"
proof -
  obtain evs ret c w where s: "async_script loop_platform demo_script demo_start =
      Some ([(0, Some 5, 50), (1, Some 6, 60)], evs, ((PDone, ret), c, w))"
    using demo_result by blast
  from async_exactly_once [OF demo_started demo_run [OF s]] show ?thesis by auto
qed

text \<open>C11: The state changes an application is told of are the true ones, in order: they lead from the state
  of the client it was given to the present one along the edges CONNECTED to BROKEN, BROKEN to
  RECONNECTING, RECONNECTING to CONNECTED or BROKEN, and any to DELETING, which is final.\<close>

theorem async_state_path:
  assumes "async_started p (thr, c, w)" "async_run p (thr, c, w) acc evs ((pc, ret), c', w')" "state_change_callback c"
  shows "state_path (state c) evs (state c') \<and> (state c = STATE_DELETING \<longrightarrow> state c' = STATE_DELETING)"
  using started_run(1) [OF assms(1,2)] assms(3) by (simp add: step_ok_def)

theorem async_state_path_witness:
  "\<exists>evs (c' :: async_client). state_path STATE_CONNECTED evs (state c') \<and> evs \<noteq> []"
proof -
  obtain evs ret c' w' where s: "async_script loop_platform demo_script demo_start =
      Some ([(0, Some 5, 50), (1, Some 6, 60)], evs, ((PDone, ret), c', w'))" "evs \<noteq> []"
    using demo_result by blast
  obtain thr c w where d: "demo_start = (thr, c, w)" by (cases demo_start)
  have c: "state (fst (snd demo_start)) = STATE_CONNECTED \<and> state_change_callback (fst (snd demo_start))" by code_simp
  from async_state_path [OF demo_started [unfolded d] demo_run [OF s(1), unfolded d]] c
  have "state_path STATE_CONNECTED evs (state c')" by (auto simp: d)
  with s(2) show ?thesis by blast
qed

text \<open>C12: At every moment the client is CONNECTED, BROKEN or DELETING, has a connection when it is CONNECTED
  (the handler then never reads through a NULL connection), has at most two unanswered pings, and its
  table of requests is well formed.\<close>

theorem async_invariant:
  assumes "async_started p s" "async_run p s acc evs ((pc, ret), c, w)"
  shows "async_inv c"
  using started_run(1) [OF assms] by (simp add: step_ok_def)

theorem async_invariant_witness: "\<exists>c. async_inv c \<and> state c = STATE_DELETING"
proof -
  obtain evs ret c w where s: "async_script loop_platform demo_script demo_start =
      Some ([(0, Some 5, 50), (1, Some 6, 60)], evs, ((PDone, ret), c, w))"
    using demo_result by blast
  note r = demo_run [OF s]
  from async_invariant [OF demo_started r] started_run(2) [OF demo_started r] show ?thesis
    by (auto simp: handler_inv_def)
qed



text \<open>C21: One attempt of the handler to reconnect counts as one attempt, ends CONNECTED with a new connection
  or BROKEN without one, and loses no byte of the statistics: the bytes of the closed connection stay
  in the totals, to which a new connection adds its own.\<close>

theorem async_reconnect:
  assumes "async_handler_step p answer (PReconnect tot, ret) c w = Some ((pc', ret'), c', w', evs)" "async_inv c"
    "state c = STATE_BROKEN"
  shows "mqtt_async_reconnect_attempt_count c' = mqtt_async_reconnect_attempt_count c + 1 \<and>
    (if mqtt c' = None
     then pc' = PWait tot 0 \<and> mqtt_async_state c' = STATE_BROKEN \<and> mqtt_async_reconnect_count c' = mqtt_async_reconnect_count c \<and>
       mqtt_async_stats_byte_sent c' = mqtt_async_stats_byte_sent c \<and> mqtt_async_stats_byte_recv c' = mqtt_async_stats_byte_recv c
     else pc' = PLoop \<and> mqtt_async_state c' = STATE_CONNECTED \<and> mqtt_async_reconnect_count c' = mqtt_async_reconnect_count c + 1 \<and>
       mqtt_async_stats_byte_sent c' = mqtt_async_stats_byte_sent c + mqtt_stats_byte_sent (mqtt c') \<and>
       mqtt_async_stats_byte_recv c' = mqtt_async_stats_byte_recv c + mqtt_stats_byte_recv (mqtt c'))"
proof -
  have r: "async_reconnect_once p c w = Some (c', w', evs)" "pc' = (if mqtt c' \<noteq> None then PLoop else PWait tot 0)"
    using assms(1,3) by (auto simp: async_handler_step_def split: option.splits)
  note ok = reconnect_ok(2,3) [OF assms(2,3) r(1)]
  have "stats_reconnect_count c' = stats_reconnect_count c + (if mqtt c' = None then 0 else 1) \<and>
    stats_total_byte_sent c' = stats_total_byte_sent c + mqtt_stats_byte_sent (mqtt c) \<and>
    stats_total_byte_recv c' = stats_total_byte_recv c + mqtt_stats_byte_recv (mqtt c)"
    using r(1) by (auto simp: async_reconnect_once_def async_drop_connection_def async_state_change_def Let_def
        mqtt_stats_byte_sent_def mqtt_stats_byte_recv_def split: option.splits sum.splits prod.splits)
  then show ?thesis
    using ok r(2) by (auto simp: mqtt_async_reconnect_attempt_count_def mqtt_async_reconnect_count_def mqtt_async_state_def
        mqtt_async_stats_byte_sent_def mqtt_async_stats_byte_recv_def mqtt_stats_byte_sent_def mqtt_stats_byte_recv_def state_code)
qed

theorem async_reconnect_witness:
  "\<exists>(c' :: async_client) mq. mqtt c' = Some mq \<and> mqtt_async_reconnect_attempt_count c' = 1 \<and> mqtt_async_stats_byte_recv c' = byte_recv mq"
proof -
  have "case async_handler_step loop_platform True (PReconnect 0, 0) demo_broken [0x20, 2, 0, 0] of
      Some ((pc', ret'), c', w', evs) \<Rightarrow> mqtt c' \<noteq> None | None \<Rightarrow> False"
    by code_simp
  then obtain pc' ret' c' w' evs where s: "async_handler_step loop_platform True (PReconnect 0, 0) demo_broken [0x20, 2, 0, 0] =
      Some ((pc', ret'), c', w', evs)" "mqtt c' \<noteq> None"
    by (auto split: option.splits)
  have b: "state demo_broken = STATE_BROKEN \<and> mqtt_async_reconnect_attempt_count demo_broken = 0 \<and>
      mqtt_async_stats_byte_recv demo_broken = 0"
    by code_simp
  obtain mq where mq: "mqtt c' = Some mq" using s(2) by blast
  have "mqtt_async_reconnect_attempt_count c' = 1 \<and> mqtt_async_stats_byte_recv c' = byte_recv mq"
    using async_reconnect [OF s(1) demo_broken_inv] b mq by (simp add: mqtt_stats_byte_recv_def)
  with mq show ?thesis by blast
qed

end
