(* ===== verification/Tr50_Json.thy ===== *)
theory Tr50_Json
  imports Tr50_Platform
begin

section \<open>JSON (util/common/tr50.json.c)\<close>

text \<open>
  The tree the messages are made of, its parser and its printer.  A \<open>JSON\<close> struct is the node
  with its fields; the \<open>next\<close> and \<open>prev\<close> links are the order of \<open>jchild\<close>.  The text given to the
  parser is the list of the bytes from the pointer to the end of the memory block, its
  terminating zero included, so that reading behind the block is visible.  A \<open>double\<close> is of a type
  \<open>'d\<close> with the operations of the C compiler and library as a record; the conversions to integers
  are functions of the whole type, since the source does not look at the range.  Allocation succeeds.
\<close>

subsection \<open>Data\<close>

definition JSON_FALSE :: int where "JSON_FALSE = 0"
definition JSON_TRUE :: int where "JSON_TRUE = 1"
definition JSON_NULL :: int where "JSON_NULL = 2"
definition JSON_NUMBER :: int where "JSON_NUMBER = 3"
definition JSON_STRING :: int where "JSON_STRING = 4"
definition JSON_ARRAY :: int where "JSON_ARRAY = 5"
definition JSON_OBJECT :: int where "JSON_OBJECT = 6"

lemmas json_types = JSON_FALSE_def JSON_TRUE_def JSON_NULL_def JSON_NUMBER_def JSON_STRING_def JSON_ARRAY_def
  JSON_OBJECT_def

record 'd doubles =
  d_of_int :: "int \<Rightarrow> 'd"
  d_int :: "'d \<Rightarrow> int"
  d_uint :: "'d \<Rightarrow> int"
  d_longlong :: "'d \<Rightarrow> int"
  d_add :: "'d \<Rightarrow> 'd \<Rightarrow> 'd"
  d_mul :: "'d \<Rightarrow> 'd \<Rightarrow> 'd"
  d_pow10 :: "'d \<Rightarrow> 'd"
  d_near :: "'d \<Rightarrow> 'd \<Rightarrow> bool"
  d_whole :: "'d \<Rightarrow> bool"
  d_extreme :: "'d \<Rightarrow> bool"
  d_print_f0 :: "'d \<Rightarrow> bytes"
  d_print_e :: "'d \<Rightarrow> bytes"
  d_print_f :: "'d \<Rightarrow> bytes"

text \<open>\<open>d_near x y\<close> is \<open>fabs(x - y) <= DBL_EPSILON\<close>, \<open>d_whole x\<close> is \<open>fabs(floor(x) - x) <= DBL_EPSILON\<close>,
  \<open>d_extreme x\<close> is \<open>fabs(x) < 1.0e-6 || fabs(x) > 1.0e9\<close>, and the last three are the conversions
  \<open>%.0f\<close>, \<open>%e\<close> and \<open>%f\<close>.\<close>

datatype 'd json =
  Json (jtype: int) (jvaluestring: "bytes option") (jint: int) (juint: int) (jdouble: 'd)
    (jstring: "bytes option") (jlonglong: int) (jchild: "'d json list")

definition tr50_json_new_item :: "'d doubles \<Rightarrow> 'd json" where
  "tr50_json_new_item F = Json 0 None 0 0 (d_of_int F 0) None 0 []"

text \<open>Results: the fuel of the model is used up, the execution is undefined, NULL, a value.\<close>

datatype 'a run = OutOfFuel | Undefined | Null | Ret 'a

primrec run_bind :: "'a run \<Rightarrow> ('a \<Rightarrow> 'b run) \<Rightarrow> 'b run" where
  "run_bind OutOfFuel f = OutOfFuel"
| "run_bind Undefined f = Undefined"
| "run_bind Null f = Null"
| "run_bind (Ret x) f = f x"

subsection \<open>Access\<close>

definition c_char :: "byte \<Rightarrow> int" where
  "c_char b = sint b"

definition tolower :: "byte \<Rightarrow> byte" where
  "tolower b = (if 0x41 \<le> b \<and> b \<le> 0x5A then b + 0x20 else b)"

fun str_case_cmp_loop :: "bytes \<Rightarrow> bytes \<Rightarrow> int" where
  "str_case_cmp_loop [] [] = 0"
| "str_case_cmp_loop [] (b # bs) = - uint (tolower b)"
| "str_case_cmp_loop (a # as) [] = uint (tolower a)"
| "str_case_cmp_loop (a # as) (b # bs) =
     (if tolower a = tolower b then str_case_cmp_loop as bs else uint (tolower a) - uint (tolower b))"

fun tr50_json_str_case_cmp :: "bytes option \<Rightarrow> bytes option \<Rightarrow> int" where
  "tr50_json_str_case_cmp None s2 = (if s2 = None then 0 else 1)"
| "tr50_json_str_case_cmp (Some s1) None = 1"
| "tr50_json_str_case_cmp (Some s1) (Some s2) = str_case_cmp_loop s1 s2"

text \<open>The functions that take a \<open>JSON *\<close> and accept NULL take an option.\<close>

definition tr50_json_get_array_size :: "'d json option \<Rightarrow> int" where
  "tr50_json_get_array_size a = (case a of None \<Rightarrow> 0 | Some a \<Rightarrow> int (length (jchild a)))"

fun nth_item :: "'d json list \<Rightarrow> int \<Rightarrow> 'd json option" where
  "nth_item [] i = None"
| "nth_item (c # cs) i = (if i > 0 then nth_item cs (i - 1) else Some c)"

definition tr50_json_get_array_item :: "'d json option \<Rightarrow> int \<Rightarrow> 'd json option" where
  "tr50_json_get_array_item a i = (case a of None \<Rightarrow> None | Some a \<Rightarrow> nth_item (jchild a) i)"

fun find_item :: "'d json list \<Rightarrow> bytes option \<Rightarrow> 'd json option" where
  "find_item [] s = None"
| "find_item (c # cs) s = (if tr50_json_str_case_cmp (jstring c) s \<noteq> 0 then find_item cs s else Some c)"

definition tr50_json_get_object_item :: "'d json option \<Rightarrow> bytes option \<Rightarrow> 'd json option" where
  "tr50_json_get_object_item obj s = (case obj of None \<Rightarrow> None | Some obj \<Rightarrow> find_item (jchild obj) s)"

text \<open>The typed accessors: of an item, then of a member and of an element.  The boolean ones also store
  the value in \<open>valueint\<close>, which nothing else reads for those types.\<close>

definition item_string :: "'d json option \<Rightarrow> bytes option" where
  "item_string c = (case c of None \<Rightarrow> None | Some c \<Rightarrow> if jtype c = JSON_STRING then jvaluestring c else None)"

definition item_number :: "('d json \<Rightarrow> 'a) \<Rightarrow> 'd json option \<Rightarrow> 'a option" where
  "item_number f c = (case c of None \<Rightarrow> None | Some c \<Rightarrow> if jtype c = JSON_NUMBER then Some (f c) else None)"

definition item_bool :: "'d json option \<Rightarrow> int option" where
  "item_bool c = (case c of None \<Rightarrow> None
     | Some c \<Rightarrow> if jtype c = JSON_TRUE then Some 1 else if jtype c = JSON_FALSE then Some 0 else None)"

definition tr50_json_get_object_item_as_string :: "'d json option \<Rightarrow> bytes option \<Rightarrow> bytes option" where
  "tr50_json_get_object_item_as_string obj s = item_string (tr50_json_get_object_item obj s)"

definition tr50_json_get_object_item_as_int :: "'d json option \<Rightarrow> bytes option \<Rightarrow> int option" where
  "tr50_json_get_object_item_as_int obj s = item_number jint (tr50_json_get_object_item obj s)"

definition tr50_json_get_object_item_as_longlong :: "'d json option \<Rightarrow> bytes option \<Rightarrow> int option" where
  "tr50_json_get_object_item_as_longlong obj s = item_number jlonglong (tr50_json_get_object_item obj s)"

definition tr50_json_get_object_item_as_uint :: "'d json option \<Rightarrow> bytes option \<Rightarrow> int option" where
  "tr50_json_get_object_item_as_uint obj s = item_number juint (tr50_json_get_object_item obj s)"

definition tr50_json_get_object_item_as_double :: "'d json option \<Rightarrow> bytes option \<Rightarrow> 'd option" where
  "tr50_json_get_object_item_as_double obj s = item_number jdouble (tr50_json_get_object_item obj s)"

definition tr50_json_get_object_item_as_bool :: "'d json option \<Rightarrow> bytes option \<Rightarrow> int option" where
  "tr50_json_get_object_item_as_bool obj s = item_bool (tr50_json_get_object_item obj s)"

definition tr50_json_get_array_item_as_string :: "'d json option \<Rightarrow> int \<Rightarrow> bytes option" where
  "tr50_json_get_array_item_as_string a i = item_string (tr50_json_get_array_item a i)"

definition tr50_json_get_array_item_as_int :: "'d json option \<Rightarrow> int \<Rightarrow> int option" where
  "tr50_json_get_array_item_as_int a i = item_number jint (tr50_json_get_array_item a i)"

definition tr50_json_get_array_item_as_longlong :: "'d json option \<Rightarrow> int \<Rightarrow> int option" where
  "tr50_json_get_array_item_as_longlong a i = item_number jlonglong (tr50_json_get_array_item a i)"

definition tr50_json_get_array_item_as_uint :: "'d json option \<Rightarrow> int \<Rightarrow> int option" where
  "tr50_json_get_array_item_as_uint a i = item_number juint (tr50_json_get_array_item a i)"

definition tr50_json_get_array_item_as_double :: "'d json option \<Rightarrow> int \<Rightarrow> 'd option" where
  "tr50_json_get_array_item_as_double a i = item_number jdouble (tr50_json_get_array_item a i)"

definition tr50_json_get_array_item_as_bool :: "'d json option \<Rightarrow> int \<Rightarrow> int option" where
  "tr50_json_get_array_item_as_bool a i = item_bool (tr50_json_get_array_item a i)"

subsection \<open>Construction and update\<close>

definition with_string :: "bytes option \<Rightarrow> 'd json \<Rightarrow> 'd json" where
  "with_string s c = Json (jtype c) (jvaluestring c) (jint c) (juint c) (jdouble c) s (jlonglong c) (jchild c)"

definition with_child :: "'d json list \<Rightarrow> 'd json \<Rightarrow> 'd json" where
  "with_child cs c = Json (jtype c) (jvaluestring c) (jint c) (juint c) (jdouble c) (jstring c) (jlonglong c) cs"

definition tr50_json_add_item_to_array :: "'d json \<Rightarrow> 'd json \<Rightarrow> 'd json" where
  "tr50_json_add_item_to_array a item = with_child (jchild a @ [item]) a"

text \<open>\<open>tr50_json_strdup\<close> makes the empty string of NULL.\<close>

definition tr50_json_strdup :: "bytes option \<Rightarrow> bytes" where
  "tr50_json_strdup s = (case s of None \<Rightarrow> [] | Some s \<Rightarrow> s)"

definition tr50_json_add_item_to_object :: "'d json \<Rightarrow> bytes option \<Rightarrow> 'd json \<Rightarrow> 'd json" where
  "tr50_json_add_item_to_object obj s item =
     tr50_json_add_item_to_array obj (with_string (Some (tr50_json_strdup s)) item)"

text \<open>Detaching gives the item (NULL when there is none) and the rest.\<close>

fun detach_nth :: "'d json list \<Rightarrow> int \<Rightarrow> 'd json option \<times> 'd json list" where
  "detach_nth [] i = (None, [])"
| "detach_nth (c # cs) i =
     (if i > 0 then (case detach_nth cs (i - 1) of (d, cs) \<Rightarrow> (d, c # cs)) else (Some c, cs))"

definition tr50_json_detach_item_from_array :: "'d json \<Rightarrow> int \<Rightarrow> 'd json option \<times> 'd json" where
  "tr50_json_detach_item_from_array a i = (case detach_nth (jchild a) i of (d, cs) \<Rightarrow> (d, with_child cs a))"

fun find_index :: "'d json list \<Rightarrow> bytes option \<Rightarrow> int option" where
  "find_index [] s = None"
| "find_index (c # cs) s =
     (if tr50_json_str_case_cmp (jstring c) s \<noteq> 0 then map_option (\<lambda>i. i + 1) (find_index cs s) else Some 0)"

definition tr50_json_detach_item_from_object :: "'d json \<Rightarrow> bytes option \<Rightarrow> 'd json option \<times> 'd json" where
  "tr50_json_detach_item_from_object obj s =
     (case find_index (jchild obj) s of None \<Rightarrow> (None, obj) | Some i \<Rightarrow> tr50_json_detach_item_from_array obj i)"

definition tr50_json_delete_item_from_array :: "'d json \<Rightarrow> int \<Rightarrow> 'd json" where
  "tr50_json_delete_item_from_array a i = snd (tr50_json_detach_item_from_array a i)"

definition tr50_json_delete_item_from_object :: "'d json \<Rightarrow> bytes option \<Rightarrow> 'd json" where
  "tr50_json_delete_item_from_object obj s = snd (tr50_json_detach_item_from_object obj s)"

fun replace_nth :: "'d json list \<Rightarrow> int \<Rightarrow> 'd json \<Rightarrow> 'd json list" where
  "replace_nth [] i new = []"
| "replace_nth (c # cs) i new = (if i > 0 then c # replace_nth cs (i - 1) new else new # cs)"

definition tr50_json_replace_item_in_array :: "'d json \<Rightarrow> int \<Rightarrow> 'd json \<Rightarrow> 'd json" where
  "tr50_json_replace_item_in_array a i new = with_child (replace_nth (jchild a) i new) a"

definition tr50_json_replace_item_in_object :: "'d json \<Rightarrow> bytes option \<Rightarrow> 'd json \<Rightarrow> 'd json" where
  "tr50_json_replace_item_in_object obj s new =
     (case find_index (jchild obj) s of
        None \<Rightarrow> obj
      | Some i \<Rightarrow> tr50_json_replace_item_in_array obj i (with_string (Some (tr50_json_strdup s)) new))"

definition json_of_type :: "'d doubles \<Rightarrow> int \<Rightarrow> 'd json" where
  "json_of_type F t = Json t None 0 0 (d_of_int F 0) None 0 []"

definition tr50_json_create_null :: "'d doubles \<Rightarrow> 'd json" where
  "tr50_json_create_null F = json_of_type F JSON_NULL"

definition tr50_json_create_true :: "'d doubles \<Rightarrow> 'd json" where
  "tr50_json_create_true F = json_of_type F JSON_TRUE"

definition tr50_json_create_false :: "'d doubles \<Rightarrow> 'd json" where
  "tr50_json_create_false F = json_of_type F JSON_FALSE"

definition tr50_json_create_integer :: "'d doubles \<Rightarrow> int \<Rightarrow> 'd json" where
  "tr50_json_create_integer F num = Json JSON_NUMBER None (c_int num) (take_bit 32 num) (d_of_int F num) None num []"

definition tr50_json_create_number :: "'d doubles \<Rightarrow> 'd \<Rightarrow> 'd json" where
  "tr50_json_create_number F num = Json JSON_NUMBER None (d_int F num) (d_uint F num) num None (d_longlong F num) []"

definition tr50_json_create_string :: "'d doubles \<Rightarrow> bytes option \<Rightarrow> 'd json" where
  "tr50_json_create_string F s = Json JSON_STRING (Some (tr50_json_strdup s)) 0 0 (d_of_int F 0) None 0 []"

definition tr50_json_create_array :: "'d doubles \<Rightarrow> 'd json" where
  "tr50_json_create_array F = json_of_type F JSON_ARRAY"

definition tr50_json_create_object :: "'d doubles \<Rightarrow> 'd json" where
  "tr50_json_create_object F = json_of_type F JSON_OBJECT"

definition tr50_json_create_bool_array :: "'d doubles \<Rightarrow> bytes \<Rightarrow> 'd json" where
  "tr50_json_create_bool_array F bs =
     with_child (map (\<lambda>b. if b \<noteq> 0 then tr50_json_create_true F else tr50_json_create_false F) bs) (tr50_json_create_array F)"

definition tr50_json_create_int_array :: "'d doubles \<Rightarrow> int list \<Rightarrow> 'd json" where
  "tr50_json_create_int_array F ns =
     with_child (map (\<lambda>n. tr50_json_create_number F (d_of_int F n)) ns) (tr50_json_create_array F)"

definition tr50_json_create_longlong_array :: "'d doubles \<Rightarrow> int list \<Rightarrow> 'd json" where
  "tr50_json_create_longlong_array F ns = with_child (map (tr50_json_create_integer F) ns) (tr50_json_create_array F)"

definition tr50_json_create_double_array :: "'d doubles \<Rightarrow> 'd list \<Rightarrow> 'd json" where
  "tr50_json_create_double_array F ds = with_child (map (tr50_json_create_number F) ds) (tr50_json_create_array F)"

definition tr50_json_create_string_array :: "'d doubles \<Rightarrow> bytes option list \<Rightarrow> 'd json" where
  "tr50_json_create_string_array F ss = with_child (map (tr50_json_create_string F) ss) (tr50_json_create_array F)"

definition tr50_json_add_string_to_object :: "'d doubles \<Rightarrow> 'd json \<Rightarrow> bytes option \<Rightarrow> bytes option \<Rightarrow> 'd json" where
  "tr50_json_add_string_to_object F obj name s = tr50_json_add_item_to_object obj name (tr50_json_create_string F s)"

definition tr50_json_add_number_to_object :: "'d doubles \<Rightarrow> 'd json \<Rightarrow> bytes option \<Rightarrow> 'd \<Rightarrow> 'd json" where
  "tr50_json_add_number_to_object F obj name n = tr50_json_add_item_to_object obj name (tr50_json_create_number F n)"

definition tr50_json_add_false_to_object :: "'d doubles \<Rightarrow> 'd json \<Rightarrow> bytes option \<Rightarrow> 'd json" where
  "tr50_json_add_false_to_object F obj name = tr50_json_add_item_to_object obj name (tr50_json_create_false F)"

end
