(* ===== verification/C_Text.thy ===== *)
theory C_Text
  imports Tr50_Base
begin

section \<open>Text functions of the C library\<close>

text \<open>What the source uses of \<open>ctype.h\<close>, \<open>string.h\<close> and \<open>stdlib.h\<close> on byte strings, in the \<open>C\<close> locale.\<close>

subsection \<open>Characters\<close>

definition is_digit :: "byte \<Rightarrow> bool" where
  "is_digit b \<longleftrightarrow> 0x30 \<le> b \<and> b \<le> 0x39"

definition digit_val :: "byte \<Rightarrow> int" where
  "digit_val b = uint b - 48"

definition is_space :: "byte \<Rightarrow> bool" where
  "is_space b \<longleftrightarrow> b = 32 \<or> (9 \<le> b \<and> b \<le> 13)"

definition hex_val :: "byte \<Rightarrow> nat option" where
  "hex_val b =
     (if is_digit b then Some (unat b - 48)
      else if 0x61 \<le> b \<and> b \<le> 0x66 then Some (unat b - 87)
      else if 0x41 \<le> b \<and> b \<le> 0x46 then Some (unat b - 55) else None)"

subsection \<open>Strings\<close>

text \<open>\<open>strstr\<close>: what is before the first occurrence, and what is behind it.\<close>

fun find_sub :: "bytes \<Rightarrow> bytes \<Rightarrow> (bytes \<times> bytes) option" where
  "find_sub pat [] = (if pat = [] then Some ([], []) else None)"
| "find_sub pat (x # xs) =
     (if take (length pat) (x # xs) = pat then Some ([], drop (length pat) (x # xs))
      else map_option (\<lambda>(a, b). (x # a, b)) (find_sub pat xs))"

text \<open>\<open>strtok_r\<close> with the delimiter \<open>,\<close>.\<close>

function tokens :: "bytes \<Rightarrow> bytes list" where
  "tokens s =
     (let s = dropWhile (\<lambda>b. b = 0x2C) s in
      if s = [] then [] else takeWhile (\<lambda>b. b \<noteq> 0x2C) s # tokens (dropWhile (\<lambda>b. b \<noteq> 0x2C) s))"
  by pat_completeness auto
termination
proof (relation "measure length", goal_cases)
  case (2 s x)
  then have "hd x \<noteq> 0x2C" "x \<noteq> []" using hd_dropWhile [of "\<lambda>b. b = 0x2C" s] by auto
  then have "length (dropWhile (\<lambda>b. b \<noteq> 0x2C) x) < length x"
    by (cases x) (auto intro: le_imp_less_Suc length_dropWhile_le)
  then show ?case using 2(1) length_dropWhile_le [of "\<lambda>b. b = 0x2C" s] by auto
qed simp

declare tokens.simps [simp del]

subsection \<open>Numbers\<close>

definition digits_value :: "bytes \<Rightarrow> int" where
  "digits_value bs = foldl (\<lambda>n b. n * 10 + digit_val b) 0 (takeWhile is_digit bs)"

text \<open>\<open>strtol\<close> cuts off a value that does not fit in a \<open>long\<close>.\<close>

definition long_clamp :: "int \<Rightarrow> int" where
  "long_clamp v = max (- (2 ^ 63)) (min (2 ^ 63 - 1) v)"

definition strtol_10 :: "bytes \<Rightarrow> int" where
  "strtol_10 bs =
     (case dropWhile is_space bs of
        [] \<Rightarrow> 0
      | b # rest \<Rightarrow>
          if b = 0x2D then long_clamp (- digits_value rest)
          else if b = 0x2B then long_clamp (digits_value rest)
          else long_clamp (digits_value (b # rest)))"

text \<open>\<open>strtol\<close> in base 16: white space, a sign, the prefix \<open>0x\<close> when a digit follows it, digits; a value that does not
  fit in a \<open>long\<close> is cut off.  The second result is the text behind the digits.\<close>

definition hex_scan :: "bytes \<Rightarrow> int \<times> bytes" where
  "hex_scan bs =
     (foldl (\<lambda>n b. n * 16 + int (the (hex_val b))) 0 (takeWhile (\<lambda>b. hex_val b \<noteq> None) bs), dropWhile (\<lambda>b. hex_val b \<noteq> None) bs)"

definition hex_prefixed :: "bytes \<Rightarrow> int \<times> bytes" where
  "hex_prefixed bs =
     (case bs of
        z # x # d # ds \<Rightarrow> if z = 0x30 \<and> (x = 0x78 \<or> x = 0x58) \<and> hex_val d \<noteq> None then hex_scan (d # ds) else hex_scan bs
      | _ \<Rightarrow> hex_scan bs)"

definition strtol_16 :: "bytes \<Rightarrow> int \<times> bytes" where
  "strtol_16 bs =
     (let bs = dropWhile is_space bs;
          neg = (case bs of [] \<Rightarrow> False | b # _ \<Rightarrow> b = 0x2D);
          bs = (case bs of [] \<Rightarrow> [] | b # ds \<Rightarrow> if b = 0x2D \<or> b = 0x2B then ds else bs)
      in case hex_prefixed bs of (v, rest) \<Rightarrow>
           (long_clamp (if neg then - v else v), rest))"

fun hex_digits_of :: "nat \<Rightarrow> bytes" where
  "hex_digits_of n =
     (let d = of_nat (n mod 16) + (if n mod 16 < 10 then 0x30 else 0x57) in if n < 16 then [d] else hex_digits_of (n div 16) @ [d])"

declare hex_digits_of.simps [simp del]

end
