(* ===== verification/Tr50_Json_Text.thy ===== *)
theory Tr50_Json_Text
  imports Tr50_Json C_Text
begin

section \<open>The JSON parser and printer\<close>

text \<open>
  A text is the list of bytes from the pointer to the end of its block; to dereference the pointer
  at the empty list is undefined.  A parse function returns the node it filled and the text behind
  it, or \<open>Null\<close>.  The recursion of the parser carries fuel, one unit for each level of
  nesting and each round of a loop; \<open>tr50_json_parse\<close> starts with the length of the text and one, which
  always suffices (\<open>json_parse_terminates\<close>).
\<close>

fun skip :: "bytes \<Rightarrow> bytes run" where
  "skip [] = Undefined"
| "skip (b # bs) = (if b \<noteq> 0 \<and> b \<le> 32 then skip bs else Ret (b # bs))"

text \<open>\<open>*s == b\<close> for a pointer that is inside the text.\<close>

fun looks_at :: "byte \<Rightarrow> bytes \<Rightarrow> bool" where
  "looks_at b [] \<longleftrightarrow> False"
| "looks_at b (c # cs) \<longleftrightarrow> c = b"

text \<open>\<open>strncmp(value, word, strlen(word)) == 0\<close>.\<close>

fun has_prefix :: "bytes \<Rightarrow> bytes \<Rightarrow> bool run" where
  "has_prefix [] bs = Ret True"
| "has_prefix (p # ps) [] = Undefined"
| "has_prefix (p # ps) (b # bs) = (if b = p then has_prefix ps bs else Ret False)"

subsection \<open>Numbers\<close>

text \<open>The integer part, in a \<open>long long\<close> whose overflow is undefined; the fraction, whose first
  character is consumed whatever it is; the decimal exponent, an \<open>int\<close>.\<close>

fun parse_digits :: "int \<Rightarrow> int \<Rightarrow> bytes \<Rightarrow> (int \<times> bytes) run" where
  "parse_digits bound n [] = Undefined"
| "parse_digits bound n (b # bs) =
     (if is_digit b
      then if n * 10 + digit_val b \<ge> bound then Undefined else parse_digits bound (n * 10 + digit_val b) bs
      else Ret (n, b # bs))"

fun parse_fraction_digits :: "'d doubles \<Rightarrow> 'd \<Rightarrow> int \<Rightarrow> bytes \<Rightarrow> ('d \<times> int \<times> bytes) run" where
  "parse_fraction_digits F n scale [] = Undefined"
| "parse_fraction_digits F n scale (b # bs) =
     (if is_digit b
      then parse_fraction_digits F (d_add F (d_mul F n (d_of_int F 10)) (d_of_int F (c_char b - 48))) (scale - 1) bs
      else Ret (n, scale, b # bs))"

definition parse_fraction :: "'d doubles \<Rightarrow> 'd \<Rightarrow> bytes \<Rightarrow> ('d \<times> int \<times> bytes) run" where
  "parse_fraction F n bs =
     (case bs of
        [] \<Rightarrow> Undefined
      | b # bs \<Rightarrow>
          parse_fraction_digits F (d_add F (d_mul F n (d_of_int F 10)) (d_of_int F (c_char b - 48))) (- 1) bs)"

definition parse_exponent :: "bytes \<Rightarrow> (int \<times> bytes) run" where
  "parse_exponent bs =
     (case bs of
        [] \<Rightarrow> Undefined
      | b # rest \<Rightarrow>
          if b = 0x2B then parse_digits (2 ^ 31) 0 rest
          else if b = 0x2D then run_bind (parse_digits (2 ^ 31) 0 rest) (\<lambda>(n, bs). Ret (- n, bs))
          else parse_digits (2 ^ 31) 0 bs)"

text \<open>The sign and the integer part, with an optional leading zero.\<close>

definition parse_integer :: "bytes \<Rightarrow> (int \<times> int \<times> bytes) run" where
  "parse_integer num =
     (case num of
        [] \<Rightarrow> Undefined
      | b # rest \<Rightarrow>
          let (sign, num) = (if b = 0x2D then (- 1, rest) else (1, num)) in
          case num of
            [] \<Rightarrow> Undefined
          | b # rest \<Rightarrow>
              let num = (if b = 0x30 then rest else num) in
              case num of
                [] \<Rightarrow> Undefined
              | b # _ \<Rightarrow>
                  if is_digit b \<and> b \<noteq> 0x30
                  then run_bind (parse_digits (2 ^ 63) 0 num) (\<lambda>(n, bs). Ret (sign, n, bs))
                  else Ret (sign, 0, num))"

text \<open>What \<open>parse_number\<close> stores: \<open>ln = sign * ln\<close> goes through \<open>double\<close>.\<close>

definition number_item :: "'d doubles \<Rightarrow> bool \<Rightarrow> int \<Rightarrow> int \<Rightarrow> 'd \<Rightarrow> int \<Rightarrow> 'd json" where
  "number_item F flag sign ln n scale =
     (let ln = d_longlong F (d_mul F (d_of_int F sign) (d_of_int F ln));
          n = d_mul F (d_mul F (d_of_int F sign) n) (d_pow10 F (d_of_int F scale))
      in Json JSON_NUMBER None (if flag then d_int F n else c_int ln) (if flag then d_uint F n else take_bit 32 ln) n None
           (if flag then d_longlong F n else ln) [])"

definition parse_number :: "'d doubles \<Rightarrow> bytes \<Rightarrow> ('d json \<times> bytes) run" where
  "parse_number F num =
     run_bind (parse_integer num) (\<lambda>(sign, ln, num).
     run_bind (if looks_at 0x2E num then run_bind (parse_fraction F (d_of_int F ln) (tl num))
                 (\<lambda>(n, scale, num). Ret (True, n, scale, num))
               else if num = [] then Undefined else Ret (False, d_of_int F ln, 0, num)) (\<lambda>(flag, n, scale, num).
     run_bind (if num = [] then Undefined
               else if hd num = 0x65 \<or> hd num = 0x45
               then run_bind (parse_exponent (tl num)) (\<lambda>(subscale, num). Ret (True, subscale, num))
               else Ret (flag, 0, num)) (\<lambda>(flag, subscale, num).
     Ret (number_item F flag sign ln n (scale + subscale), num))))"

fun nat_digits :: "nat \<Rightarrow> bytes" where
  "nat_digits n = (if n < 10 then [of_nat (48 + n)] else nat_digits (n div 10) @ [of_nat (48 + n mod 10)])"

declare nat_digits.simps [simp del]

definition print_lld :: "int \<Rightarrow> bytes" where
  "print_lld n = (if n < 0 then 0x2D # nat_digits (nat (- n)) else nat_digits (nat n))"

text \<open>The blocks have 21 and 64 bytes.\<close>

definition print_number :: "'d doubles \<Rightarrow> 'd json \<Rightarrow> bytes run" where
  "print_number F item =
     (let d = jdouble item in
      if d_near F (d_of_int F (jlonglong item)) d
      then let out = print_lld (jlonglong item) in if length out + 1 > 21 then Undefined else Ret out
      else let out = (if d_whole F d then d_print_f0 F d else if d_extreme F d then d_print_e F d else d_print_f F d)
           in if length out + 1 > 64 then Undefined else Ret out)"

subsection \<open>Strings\<close>

text \<open>The length loop of \<open>parse_string\<close>.\<close>

function string_len :: "bytes \<Rightarrow> nat run" where
  "string_len bs =
     (case bs of
        [] \<Rightarrow> Undefined
      | b # rest \<Rightarrow>
          if b \<noteq> 0x22 \<and> b > 31
          then run_bind (string_len (if b = 0x5C then tl rest else rest)) (\<lambda>n. Ret (Suc n))
          else Ret 0)"
  by pat_completeness auto
termination by (relation "measure length") auto

declare string_len.simps [simp del]

text \<open>\<open>sscanf(text, "%4x", &uc)\<close>: white space, a sign, a prefix 0x, hexadecimal digits; sign, prefix and
  digits are at most four characters.\<close>

fun hex_digits :: "nat \<Rightarrow> nat option \<Rightarrow> bytes \<Rightarrow> nat option" where
  "hex_digits (Suc w) acc (b # bs) =
     (case hex_val b of
        None \<Rightarrow> acc
      | Some v \<Rightarrow> hex_digits w (Some ((case acc of None \<Rightarrow> 0 | Some a \<Rightarrow> a * 16) + v)) bs)"
| "hex_digits w acc bs = acc"

definition hex_unsigned :: "nat \<Rightarrow> bytes \<Rightarrow> nat option" where
  "hex_unsigned w bs =
     (if w \<ge> 2 \<and> length bs \<ge> 2 \<and> bs ! 0 = 0x30 \<and> (bs ! 1 = 0x78 \<or> bs ! 1 = 0x58)
      then hex_digits (w - 2) None (drop 2 bs) else hex_digits w None bs)"

definition scan_4x :: "bytes \<Rightarrow> 32 word option" where
  "scan_4x bs =
     (let bs = dropWhile is_space bs in
      if looks_at 0x2D bs then map_option (\<lambda>n. - of_nat n) (hex_unsigned 3 (tl bs))
      else if looks_at 0x2B bs then map_option of_nat (hex_unsigned 3 (tl bs))
      else map_option of_nat (hex_unsigned 4 bs))"

text \<open>The bytes the transcoding stores.\<close>

definition utf8_bytes :: "32 word \<Rightarrow> bytes" where
  "utf8_bytes uc =
     (if uc < 0x80 then [ucast uc]
      else if uc < 0x800 then [ucast (drop_bit 6 uc OR 0xC0), ucast ((uc OR 0x80) AND 0xBF)]
      else [ucast (drop_bit 12 uc OR 0xE0), ucast ((drop_bit 6 uc OR 0x80) AND 0xBF), ucast ((uc OR 0x80) AND 0xBF)])"

definition unescape :: "byte \<Rightarrow> byte" where
  "unescape b =
     (if b = 0x62 then 8 else if b = 0x66 then 12 else if b = 0x6E then 10 else if b = 0x72 then 13
      else if b = 0x74 then 9 else b)"

text \<open>The copying loop: the bytes stored and the text at the closing quote or control character.  When
  \<open>sscanf\<close> converts nothing the variable it should set is indeterminate.\<close>

function string_body :: "bytes \<Rightarrow> (bytes \<times> bytes) run" where
  "string_body bs =
     (case bs of
        [] \<Rightarrow> Undefined
      | b # rest \<Rightarrow>
          if b = 0x22 \<or> b \<le> 31 then Ret ([], bs)
          else if b \<noteq> 0x5C then run_bind (string_body rest) (\<lambda>(out, bs). Ret (b # out, bs))
          else (case rest of
                  [] \<Rightarrow> Undefined
                | e # rest \<Rightarrow>
                    if e = 0x75 then
                      (case scan_4x rest of
                         None \<Rightarrow> Undefined
                       | Some uc \<Rightarrow> run_bind (string_body (drop 4 rest)) (\<lambda>(out, bs). Ret (utf8_bytes uc @ out, bs)))
                    else run_bind (string_body rest) (\<lambda>(out, bs). Ret (unescape e # out, bs))))"
  by pat_completeness auto
termination by (relation "measure length") auto

declare string_body.simps [simp del]

text \<open>\<open>parse_string\<close> on a text: the string as C sees it, and the text behind it.\<close>

definition parse_c_string :: "bytes \<Rightarrow> (bytes \<times> bytes) run" where
  "parse_c_string str =
     (case str of
        [] \<Rightarrow> Undefined
      | b # rest \<Rightarrow>
          if b \<noteq> 0x22 then Null
          else run_bind (string_len rest) (\<lambda>len.
               run_bind (string_body rest) (\<lambda>(out, bs).
               if length out > len then Undefined
               else Ret (takeWhile (\<lambda>b. b \<noteq> 0) out, if looks_at 0x22 bs then tl bs else bs))))"

definition parse_string :: "'d doubles \<Rightarrow> bytes \<Rightarrow> ('d json \<times> bytes) run" where
  "parse_string F str =
     run_bind (parse_c_string str) (\<lambda>(s, bs). Ret (Json JSON_STRING (Some s) 0 0 (d_of_int F 0) None 0 [], bs))"

definition escape :: "byte \<Rightarrow> bytes" where
  "escape b =
     (if b > 31 \<and> b \<noteq> 0x22 \<and> b \<noteq> 0x5C then [b]
      else if b = 0x5C then [0x5C, 0x5C] else if b = 0x22 then [0x5C, 0x22] else if b = 8 then [0x5C, 0x62]
      else if b = 12 then [0x5C, 0x66] else if b = 10 then [0x5C, 0x6E] else if b = 13 then [0x5C, 0x72]
      else if b = 9 then [0x5C, 0x74] else [])"

definition print_string_ptr :: "bytes option \<Rightarrow> bytes" where
  "print_string_ptr str =
     (case str of None \<Rightarrow> tr50_json_strdup (Some []) | Some s \<Rightarrow> [0x22] @ concat (map escape s) @ [0x22])"

definition print_string :: "'d json \<Rightarrow> bytes" where
  "print_string item = print_string_ptr (jvaluestring item)"

subsection \<open>Values\<close>

definition lit_null :: bytes where "lit_null = [0x6E, 0x75, 0x6C, 0x6C]"
definition lit_false :: bytes where "lit_false = [0x66, 0x61, 0x6C, 0x73, 0x65]"
definition lit_true :: bytes where "lit_true = [0x74, 0x72, 0x75, 0x65]"

text \<open>The branches of \<open>parse_value\<close> without recursion, tried in the order of the code; \<open>Inr\<close> is the text of an
  array or object.\<close>

definition parse_scalar :: "'d doubles \<Rightarrow> bytes \<Rightarrow> ('d json \<times> bytes + bytes) run" where
  "parse_scalar F s =
     run_bind (has_prefix lit_null s) (\<lambda>is_null.
     if is_null then Ret (Inl (json_of_type F JSON_NULL, drop 4 s)) else
     run_bind (has_prefix lit_false s) (\<lambda>is_false.
     if is_false then Ret (Inl (json_of_type F JSON_FALSE, drop 5 s)) else
     run_bind (has_prefix lit_true s) (\<lambda>is_true.
     if is_true then Ret (Inl (Json JSON_TRUE None 1 0 (d_of_int F 0) None 0 [], drop 4 s)) else
     case s of
       [] \<Rightarrow> Undefined
     | b # _ \<Rightarrow>
         if b = 0x22 then run_bind (parse_string F s) (\<lambda>r. Ret (Inl r))
         else if b = 0x2D \<or> is_digit b then run_bind (parse_number F s) (\<lambda>r. Ret (Inl r))
         else if b = 0x5B \<or> b = 0x7B then Ret (Inr s) else Null)))"

text \<open>\<open>array_loop\<close> and \<open>object_loop\<close> are the while loops, entered behind the first element with the
  elements so far; \<open>parse_member\<close> is a name, its colon and its value.  \<open>pv\<close> is \<open>parse_value\<close>.\<close>

primrec array_loop ::
  "'d doubles \<Rightarrow> (bytes \<Rightarrow> ('d json \<times> bytes) run) \<Rightarrow> nat \<Rightarrow> 'd json list \<Rightarrow> bytes \<Rightarrow> ('d json \<times> bytes) run" where
  "array_loop F pv 0 cs s = OutOfFuel"
| "array_loop F pv (Suc n) cs s =
     (if looks_at 0x2C s
      then run_bind (skip (tl s)) (\<lambda>s. run_bind (pv s) (\<lambda>(c, s).
           run_bind (skip s) (\<lambda>s. array_loop F pv n (cs @ [c]) s)))
      else if looks_at 0x5D s then Ret (with_child cs (json_of_type F JSON_ARRAY), tl s)
      else Null)"

definition parse_array ::
  "'d doubles \<Rightarrow> (bytes \<Rightarrow> ('d json \<times> bytes) run) \<Rightarrow> nat \<Rightarrow> bytes \<Rightarrow> ('d json \<times> bytes) run" where
  "parse_array F pv n s =
     run_bind (skip (tl s)) (\<lambda>s.
     if looks_at 0x5D s then Ret (json_of_type F JSON_ARRAY, tl s)
     else run_bind (skip s) (\<lambda>s. run_bind (pv s) (\<lambda>(c, s).
          run_bind (skip s) (\<lambda>s. array_loop F pv n [c] s))))"

definition parse_member ::
  "(bytes \<Rightarrow> ('d json \<times> bytes) run) \<Rightarrow> bytes \<Rightarrow> ('d json \<times> bytes) run" where
  "parse_member pv s =
     run_bind (parse_c_string s) (\<lambda>(name, s). run_bind (skip s) (\<lambda>s.
     if \<not> looks_at 0x3A s then Null
     else run_bind (skip (tl s)) (\<lambda>s. run_bind (pv s) (\<lambda>(c, s).
          run_bind (skip s) (\<lambda>s. Ret (with_string (Some name) c, s))))))"

primrec object_loop ::
  "'d doubles \<Rightarrow> (bytes \<Rightarrow> ('d json \<times> bytes) run) \<Rightarrow> nat \<Rightarrow> 'd json list \<Rightarrow> bytes \<Rightarrow> ('d json \<times> bytes) run" where
  "object_loop F pv 0 cs s = OutOfFuel"
| "object_loop F pv (Suc n) cs s =
     (if looks_at 0x2C s
      then run_bind (skip (tl s)) (\<lambda>s. run_bind (parse_member pv s) (\<lambda>(c, s). object_loop F pv n (cs @ [c]) s))
      else if looks_at 0x7D s then Ret (with_child cs (json_of_type F JSON_OBJECT), tl s)
      else Null)"

definition parse_object ::
  "'d doubles \<Rightarrow> (bytes \<Rightarrow> ('d json \<times> bytes) run) \<Rightarrow> nat \<Rightarrow> bytes \<Rightarrow> ('d json \<times> bytes) run" where
  "parse_object F pv n s =
     run_bind (skip (tl s)) (\<lambda>s.
     if looks_at 0x7D s then Ret (json_of_type F JSON_OBJECT, tl s)
     else run_bind (skip s) (\<lambda>s. run_bind (parse_member pv s) (\<lambda>(c, s). object_loop F pv n [c] s)))"

primrec parse_value :: "'d doubles \<Rightarrow> nat \<Rightarrow> bytes \<Rightarrow> ('d json \<times> bytes) run" where
  "parse_value F 0 s = OutOfFuel"
| "parse_value F (Suc n) s =
     run_bind (parse_scalar F s) (\<lambda>r. case r of
        Inl r \<Rightarrow> Ret r
      | Inr s \<Rightarrow> if looks_at 0x5B s then parse_array F (parse_value F n) n s else parse_object F (parse_value F n) n s)"

text \<open>Only the tree is returned; what follows the value is ignored.\<close>

definition tr50_json_parse :: "'d doubles \<Rightarrow> bytes \<Rightarrow> 'd json run" where
  "tr50_json_parse F text =
     run_bind (skip text) (\<lambda>s. run_bind (parse_value F (length text + 1) s) (\<lambda>(c, s). Ret c))"

fun join :: "bytes list \<Rightarrow> bytes" where
  "join [] = []"
| "join [x] = x"
| "join (x # y # xs) = x @ [0x2C] @ join (y # xs)"

text \<open>The printer, without formatting, as \<open>tr50_json_print\<close> calls it; \<open>pv\<close> is \<open>print_value\<close>.  A node of an
  unknown type makes its container fail.\<close>

primrec run_list :: "'a run list \<Rightarrow> 'a list run" where
  "run_list [] = Ret []"
| "run_list (r # rs) = run_bind r (\<lambda>x. run_bind (run_list rs) (\<lambda>xs. Ret (x # xs)))"

definition print_array :: "('d json \<Rightarrow> bytes run) \<Rightarrow> 'd json list \<Rightarrow> bytes run" where
  "print_array pv cs = run_bind (run_list (map pv cs)) (\<lambda>es. Ret ([0x5B] @ join es @ [0x5D]))"

definition print_object :: "('d json \<Rightarrow> bytes run) \<Rightarrow> 'd json list \<Rightarrow> bytes run" where
  "print_object pv cs =
     run_bind (run_list (map (\<lambda>c. run_bind (pv c) (\<lambda>e. Ret (print_string_ptr (jstring c) @ [0x3A] @ e))) cs))
       (\<lambda>es. Ret ([0x7B] @ join es @ [0x7D]))"

lemma print_array_cong [fundef_cong]:
  assumes "cs = cs'" "\<And>c. c \<in> set cs' \<Longrightarrow> pv c = pv' c"
  shows "print_array pv cs = print_array pv' cs'"
proof -
  have "map pv cs = map pv' cs'" using assms by (intro map_cong) simp_all
  then show ?thesis by (simp add: print_array_def)
qed

lemma print_object_cong [fundef_cong]:
  assumes "cs = cs'" "\<And>c. c \<in> set cs' \<Longrightarrow> pv c = pv' c"
  shows "print_object pv cs = print_object pv' cs'"
proof -
  have "map (\<lambda>c. run_bind (pv c) (\<lambda>e. Ret (print_string_ptr (jstring c) @ [0x3A] @ e))) cs =
      map (\<lambda>c. run_bind (pv' c) (\<lambda>e. Ret (print_string_ptr (jstring c) @ [0x3A] @ e))) cs'"
    using assms by (intro map_cong) simp_all
  then show ?thesis by (simp add: print_object_def)
qed

fun print_value :: "'d doubles \<Rightarrow> 'd json \<Rightarrow> bytes run" where
  "print_value F (Json t vs i u d s l cs) =
     (if t AND 255 = JSON_NULL then Ret lit_null
      else if t AND 255 = JSON_FALSE then Ret lit_false
      else if t AND 255 = JSON_TRUE then Ret lit_true
      else if t AND 255 = JSON_NUMBER then print_number F (Json t vs i u d s l cs)
      else if t AND 255 = JSON_STRING then Ret (print_string (Json t vs i u d s l cs))
      else if t AND 255 = JSON_ARRAY then print_array (print_value F) cs
      else if t AND 255 = JSON_OBJECT then print_object (print_value F) cs
      else Null)"

definition tr50_json_print :: "'d doubles \<Rightarrow> 'd json \<Rightarrow> bytes run" where
  "tr50_json_print F item = print_value F item"

end
