(* ===== verification/Tr50_Message.thy ===== *)
theory Tr50_Message
  imports Tr50_Json_Text
begin

section \<open>Messages (tr50.message.c, tr50.payload.c)\<close>

text \<open>
  A message is the C record; its links in the pending list are addresses, 0 for NULL, and its
  callbacks are numbers.  A NULL message or string is \<open>None\<close>.  The functions that read a reply take
  the reply and the command's id.
\<close>

definition TR50_MESSAGE_TYPE_OBJ :: int where "TR50_MESSAGE_TYPE_OBJ = 1"
definition TR50_MESSAGE_TYPE_RAW :: int where "TR50_MESSAGE_TYPE_RAW = 2"

record 'd message =
  message_type :: int
  compress_ratio :: int
  seq_id :: int
  pending_sent_timestamp :: int
  pending_expiration_timestamp :: int
  pending_previous :: nat
  pending_next :: nat
  msg_json :: "'d json"
  is_reply :: bool
  callback_timeout :: int
  callback_custom :: nat
  raw_callback :: "nat option"
  reply_callback :: "nat option"

definition sizeof_tr50_message :: nat where "sizeof_tr50_message = 104"

definition message_new :: "'d doubles \<Rightarrow> 'd message" where
  "message_new F =
     \<lparr>message_type = 0, compress_ratio = 0, seq_id = 0, pending_sent_timestamp = 0, pending_expiration_timestamp = 0,
      pending_previous = 0, pending_next = 0, msg_json = tr50_json_create_object F, is_reply = False,
      callback_timeout = 0, callback_custom = 0, raw_callback = None, reply_callback = None\<rparr>"

definition tr50_message_create :: "'d doubles \<Rightarrow> malloc \<Rightarrow> int + 'd message" where
  "tr50_message_create F malloc =
     (case malloc sizeof_tr50_message of None \<Rightarrow> Inl ERR_TR50_MALLOC | Some _ \<Rightarrow> Inr (message_new F))"

definition json_command :: bytes where "json_command = cstr ''command''"
definition json_params :: bytes where "json_params = cstr ''params''"
definition json_success :: bytes where "json_success = cstr ''success''"
definition json_errorcodes :: bytes where "json_errorcodes = cstr ''errorcodes''"
definition json_errormessages :: bytes where "json_errormessages = cstr ''errormessages''"

definition tr50_message_add_command ::
  "'d doubles \<Rightarrow> 'd message option \<Rightarrow> bytes option \<Rightarrow> bytes option \<Rightarrow> 'd json option \<Rightarrow> int \<times> 'd message option" where
  "tr50_message_add_command F message cmd_id cmd params =
     (case message of
        None \<Rightarrow> (ERR_TR50_PARMS, message)
      | Some msg \<Rightarrow>
          if cmd_id = None \<or> cmd = None then (ERR_TR50_PARMS, message)
          else
            let json = tr50_json_create_object F;
                json = tr50_json_add_string_to_object F json (Some json_command) cmd;
                json = (case params of None \<Rightarrow> json | Some ps \<Rightarrow> tr50_json_add_item_to_object json (Some json_params) ps)
            in (0, Some (msg\<lparr>msg_json := tr50_json_add_item_to_object (msg_json msg) cmd_id json\<rparr>)))"

subsection \<open>Reading a reply\<close>

text \<open>The index 0 that the code passes where a name is expected is the NULL pointer: it finds the first
  element without a name.\<close>

definition first_code :: "'d json option \<Rightarrow> int" where
  "first_code error_codes =
     (case error_codes of
        None \<Rightarrow> ERR_TR50_CODE_MISSING
      | Some _ \<Rightarrow> (case tr50_json_get_object_item_as_int error_codes None of None \<Rightarrow> ERR_TR50_CODE_MISSING | Some ec \<Rightarrow> ec))"

definition tr50_reply_get_error_code :: "'d message option \<Rightarrow> bytes option \<Rightarrow> int" where
  "tr50_reply_get_error_code reply cmd_id =
     (case (reply, cmd_id) of
        (Some msg, Some _) \<Rightarrow>
          let root = Some (msg_json msg) in
          (case tr50_json_get_object_item_as_bool root (Some json_success) of
             Some success \<Rightarrow>
               if success \<noteq> 0 then ERR_TR50_REPLY_INVALID
               else first_code (tr50_json_get_object_item root (Some json_errorcodes))
           | None \<Rightarrow>
               (case tr50_json_get_object_item root cmd_id of
                  None \<Rightarrow> ERR_TR50_CMD_ID_NOT_FOUND
                | Some cmd \<Rightarrow>
                    (case tr50_json_get_object_item_as_bool (Some cmd) (Some json_success) of
                       None \<Rightarrow> 0
                     | Some success \<Rightarrow>
                         if success \<noteq> 0 then 0
                         else first_code (tr50_json_get_object_item (Some cmd) (Some json_errorcodes)))))
      | _ \<Rightarrow> ERR_TR50_PARMS)"

definition first_message :: "'d json option \<Rightarrow> bytes option" where
  "first_message error_messages =
     (case error_messages of None \<Rightarrow> None | Some _ \<Rightarrow> tr50_json_get_object_item_as_string error_messages None)"

definition tr50_reply_get_error_message :: "'d message option \<Rightarrow> bytes option \<Rightarrow> bytes option" where
  "tr50_reply_get_error_message reply cmd_id =
     (case (reply, cmd_id) of
        (Some msg, Some _) \<Rightarrow>
          let root = Some (msg_json msg) in
          (case tr50_json_get_object_item_as_bool root (Some json_success) of
             Some success \<Rightarrow>
               if success \<noteq> 0 then None else first_message (tr50_json_get_object_item root (Some json_errormessages))
           | None \<Rightarrow>
               (case tr50_json_get_object_item root cmd_id of
                  None \<Rightarrow> None
                | Some cmd \<Rightarrow>
                    (case tr50_json_get_object_item_as_bool (Some cmd) (Some json_success) of
                       None \<Rightarrow> None
                     | Some success \<Rightarrow>
                         if success \<noteq> 0 then None
                         else first_message (tr50_json_get_object_item (Some cmd) (Some json_errormessages)))))
      | _ \<Rightarrow> None)"

text \<open>\<open>tr50_reply_get_error\<close>: the code and what is stored through \<open>error_message\<close> (\<open>None\<close>: nothing),
  when \<open>want\<close> says that the pointer is given.  Cloning a message that is not a string is undefined.\<close>

definition error_of :: "'d json \<Rightarrow> bool \<Rightarrow> (int \<times> bytes option) option" where
  "error_of obj want =
     (let codes = tr50_json_get_object_item (Some obj) (Some json_errorcodes);
          ret = (case codes of
                   None \<Rightarrow> 0
                 | Some _ \<Rightarrow> (case tr50_json_get_object_item_as_int codes None of None \<Rightarrow> 0 | Some ec \<Rightarrow> ec));
          messages = tr50_json_get_object_item (Some obj) (Some json_errormessages)
      in if want \<and> messages \<noteq> None
         then map_option (\<lambda>em. (ret, Some em)) (tr50_json_get_object_item_as_string messages None)
         else Some (ret, None))"

definition tr50_reply_get_error ::
  "'d message option \<Rightarrow> bytes option \<Rightarrow> bool \<Rightarrow> (int \<times> bytes option) option" where
  "tr50_reply_get_error reply cmd_id want =
     (case (reply, cmd_id) of
        (Some msg, Some _) \<Rightarrow>
          let root = msg_json msg in
          (case tr50_json_get_object_item_as_bool (Some root) (Some json_success) of
             Some success \<Rightarrow> if success \<noteq> 0 then Some (0, None) else error_of root want
           | None \<Rightarrow>
               (case tr50_json_get_object_item (Some root) cmd_id of
                  None \<Rightarrow> Some (ERR_TR50_CMD_ID_NOT_FOUND, None)
                | Some cmd \<Rightarrow>
                    (case tr50_json_get_object_item_as_bool (Some cmd) (Some json_success) of
                       None \<Rightarrow> Some (0, None)
                     | Some success \<Rightarrow> if success \<noteq> 0 then Some (0, None) else error_of cmd want)))
      | _ \<Rightarrow> Some (ERR_TR50_PARMS, None))"

text \<open>\<open>tr50_reply_get_params\<close>: the parameters of the command, and the reply, which loses them when they are
  detached.\<close>

fun update_item :: "'d json list \<Rightarrow> bytes option \<Rightarrow> ('d json \<Rightarrow> 'd json) \<Rightarrow> 'd json list" where
  "update_item [] s f = []"
| "update_item (c # cs) s f =
     (if tr50_json_str_case_cmp (jstring c) s \<noteq> 0 then c # update_item cs s f else f c # cs)"

definition tr50_reply_get_params ::
  "'d message option \<Rightarrow> bytes option \<Rightarrow> bool \<Rightarrow> 'd json option \<times> 'd message option" where
  "tr50_reply_get_params reply cmd_id detach =
     (case (reply, cmd_id) of
        (Some msg, Some _) \<Rightarrow>
          (case tr50_json_get_object_item (Some (msg_json msg)) cmd_id of
             None \<Rightarrow> (None, reply)
           | Some cmd \<Rightarrow>
               if detach then
                 (fst (tr50_json_detach_item_from_object cmd (Some json_params)),
                  Some (msg\<lparr>msg_json := with_child (update_item (jchild (msg_json msg)) cmd_id
                    (\<lambda>c. snd (tr50_json_detach_item_from_object c (Some json_params)))) (msg_json msg)\<rparr>))
               else (tr50_json_get_object_item (Some cmd) (Some json_params), reply))
      | _ \<Rightarrow> (None, reply))"

subsection \<open>Payloads\<close>

definition tr50_message_to_string :: "'d doubles \<Rightarrow> 'd message \<Rightarrow> (int + bytes \<times> int) option" where
  "tr50_message_to_string F message =
     (case tr50_json_print F (msg_json message) of
        OutOfFuel \<Rightarrow> None
      | Undefined \<Rightarrow> None
      | Null \<Rightarrow> Some (Inl ERR_TR50_MALLOC)
      | Ret data \<Rightarrow> Some (Inr (data, int (length data))))"

text \<open>A message that cannot be allocated is used without a check.\<close>

definition tr50_message_from_string :: "'d doubles \<Rightarrow> malloc \<Rightarrow> bytes \<Rightarrow> (int + 'd message) option" where
  "tr50_message_from_string F malloc payload =
     (case tr50_json_parse F payload of
        OutOfFuel \<Rightarrow> None
      | Undefined \<Rightarrow> None
      | Null \<Rightarrow> Some (Inl ERR_TR50_JSON_INVALID)
      | Ret json \<Rightarrow>
          (case tr50_message_create F malloc of
             Inl _ \<Rightarrow> None
           | Inr message \<Rightarrow>
               let body = tr50_json_get_array_item (Some json) 0;
                   command = tr50_json_get_object_item_as_string body (Some json_command)
               in Some (Inr (message\<lparr>msg_json := json, is_reply := (command = None)\<rparr>))))"

end
