(* ===== verification/Tr50_Pending.thy ===== *)
theory Tr50_Pending
  imports Tr50_Message
begin

section \<open>The list of pending requests (tr50.pending.c)\<close>

text \<open>
  The requests that wait for a reply form a doubly linked list through the messages themselves.  The
  messages live in a store, a map from addresses; the list is reached from the record \<open>pending\<close>.
  \<open>None\<close> is an access to an address that holds no message, or a walk that never ends.  Every
  operation holds the list's mutex for its whole body.  \<open>now\<close> is what \<open>_time_now\<close> answers.
\<close>

subsection \<open>State\<close>

record pending =
  pd_head :: nat
  pd_tail :: nat
  pd_count :: int
  pd_deleting :: bool
  pd_expired :: int

type_synonym 'd store = "nat \<rightharpoonup> 'd message"

definition pending_new :: pending where
  "pending_new = \<lparr>pd_head = 0, pd_tail = 0, pd_count = 0, pd_deleting = False, pd_expired = 0\<rparr>"

definition TR50_PENDING_TIME_SHIFT_ALLOW :: int where "TR50_PENDING_TIME_SHIFT_ALLOW = 3600000"

text \<open>The callbacks of requests: of an object request (callback, status, request, reply, custom) and of a
  raw one (callback, status, reply text, custom).\<close>

datatype 'd reply_call =
  ReplyCall nat int nat "'d message option" nat
| RawCall nat int "bytes option" nat

subsection \<open>Operations\<close>

definition tr50_pending_add :: "int \<Rightarrow> nat \<Rightarrow> pending \<times> 'd store \<Rightarrow> (pending \<times> 'd store) option" where
  "tr50_pending_add now m s =
     (case s of (pd, h) \<Rightarrow>
      case h m of
        None \<Rightarrow> None
      | Some msg \<Rightarrow>
          let h = h(m \<mapsto> msg\<lparr>pending_sent_timestamp := now, pending_expiration_timestamp := now + callback_timeout msg\<rparr>)
          in if pd_tail pd = 0
             then Some (pd\<lparr>pd_head := m, pd_tail := m, pd_count := pd_count pd + 1\<rparr>, h)
             else (case h (pd_tail pd) of
                     None \<Rightarrow> None
                   | Some t \<Rightarrow>
                       let h = h(pd_tail pd \<mapsto> t\<lparr>pending_next := m\<rparr>);
                           h = h(m \<mapsto> (the (h m))\<lparr>pending_previous := pd_tail pd\<rparr>)
                       in Some (pd\<lparr>pd_tail := m, pd_count := pd_count pd + 1\<rparr>, h)))"

text \<open>Set a link of the neighbour at \<open>a\<close>; NULL has none.\<close>

definition link :: "('d message \<Rightarrow> 'd message) \<Rightarrow> nat \<Rightarrow> 'd store \<Rightarrow> 'd store option" where
  "link f a h = (if a = 0 then Some h else case h a of None \<Rightarrow> None | Some n \<Rightarrow> Some (h(a \<mapsto> f n)))"

definition pending_linklist_remove :: "nat \<Rightarrow> pending \<times> 'd store \<Rightarrow> (pending \<times> 'd store) option" where
  "pending_linklist_remove m s =
     (case s of (pd, h) \<Rightarrow>
      case h m of
        None \<Rightarrow> None
      | Some msg \<Rightarrow>
          let prv = pending_previous msg; nxt = pending_next msg in
          (case link (\<lambda>n. n\<lparr>pending_next := nxt\<rparr>) prv h of
             None \<Rightarrow> None
           | Some h \<Rightarrow>
               (case link (\<lambda>n. n\<lparr>pending_previous := prv\<rparr>) nxt h of
                  None \<Rightarrow> None
                | Some h \<Rightarrow>
                    Some (pd\<lparr>pd_head := (if prv = 0 then nxt else pd_head pd),
                             pd_tail := (if nxt = 0 then prv else pd_tail pd),
                             pd_count := pd_count pd - 1\<rparr>, h))))"

partial_function (option) pending_find :: "'d store \<Rightarrow> int \<Rightarrow> nat \<Rightarrow> nat option" where
  "pending_find h hash ptr =
     (if ptr = 0 then Some 0
      else case h ptr of
             None \<Rightarrow> None
           | Some msg \<Rightarrow> if seq_id msg = hash then Some ptr else pending_find h hash (pending_next msg))"

text \<open>The result is the address of the message, or 0.\<close>

definition tr50_pending_find_and_remove :: "int \<Rightarrow> pending \<times> 'd store \<Rightarrow> (nat \<times> pending \<times> 'd store) option" where
  "tr50_pending_find_and_remove hash s =
     (case pending_find (snd s) hash (pd_head (fst s)) of
        None \<Rightarrow> None
      | Some ptr \<Rightarrow>
          if ptr = 0 then Some (0, s)
          else (case pending_linklist_remove ptr s of None \<Rightarrow> None | Some s \<Rightarrow> Some (ptr, s)))"

text \<open>The callback an expired message gets.\<close>

definition timeout_call :: "nat \<Rightarrow> 'd message \<Rightarrow> 'd reply_call list" where
  "timeout_call m msg =
     (if message_type msg = TR50_MESSAGE_TYPE_OBJ \<and> reply_callback msg \<noteq> None
      then [ReplyCall (the (reply_callback msg)) ERR_TR50_REQ_TIMEOUT m None (callback_custom msg)]
      else if message_type msg = TR50_MESSAGE_TYPE_RAW \<and> raw_callback msg \<noteq> None
      then [RawCall (the (raw_callback msg)) ERR_TR50_REQ_TIMEOUT None (callback_custom msg)]
      else [])"

definition reschedule :: "int \<Rightarrow> 'd message \<Rightarrow> 'd message" where
  "reschedule now msg = msg\<lparr>pending_expiration_timestamp := now + callback_timeout msg\<rparr>"

text \<open>One message of the expiration handler's inner loop; a deleted message leaves the store.\<close>

definition expire_one :: "int \<Rightarrow> nat \<Rightarrow> 'd message \<Rightarrow> pending \<times> 'd store \<Rightarrow> ((pending \<times> 'd store) \<times> 'd reply_call list) option" where
  "expire_one now m msg s =
     (let expiration = pending_expiration_timestamp msg in
      if expiration \<le> now then
        if expiration - now > TR50_PENDING_TIME_SHIFT_ALLOW
        then Some ((fst s, (snd s)(m \<mapsto> reschedule now msg)), [])
        else (case pending_linklist_remove m ((fst s)\<lparr>pd_expired := pd_expired (fst s) + 1\<rparr>, snd s) of
                None \<Rightarrow> None
              | Some (pd, h) \<Rightarrow> Some ((pd, h(m := None)), timeout_call m msg))
      else if now - expiration > TR50_PENDING_TIME_SHIFT_ALLOW + callback_timeout msg
      then Some ((fst s, (snd s)(m \<mapsto> reschedule now msg)), [])
      else Some (s, []))"

partial_function (option) expire_loop ::
  "int \<Rightarrow> nat \<Rightarrow> pending \<times> 'd store \<Rightarrow> 'd reply_call list \<Rightarrow> ((pending \<times> 'd store) \<times> 'd reply_call list) option" where
  "expire_loop now ptr s calls =
     (if ptr = 0 then Some (s, calls)
      else case snd s ptr of
             None \<Rightarrow> None
           | Some msg \<Rightarrow>
               (case expire_one now ptr msg s of
                  None \<Rightarrow> None
                | Some (s, cs) \<Rightarrow> expire_loop now (pending_next msg) s (calls @ cs)))"

text \<open>One round of the expiration handler; it makes one every second until the list is being deleted.\<close>

definition pending_expiration_round ::
  "int \<Rightarrow> pending \<times> 'd store \<Rightarrow> ((pending \<times> 'd store) \<times> 'd reply_call list) option" where
  "pending_expiration_round now s = expire_loop now (pd_head (fst s)) s []"

declare pending_find.simps [code] expire_loop.simps [code]

definition tr50_pending_delete :: "pending \<Rightarrow> pending" where
  "tr50_pending_delete pd = pd\<lparr>pd_deleting := True\<rparr>"

definition tr50_pending_count :: "pending \<Rightarrow> int" where
  "tr50_pending_count pd = pd_count pd"

definition tr50_pending_expired_count :: "pending \<Rightarrow> int" where
  "tr50_pending_expired_count pd = pd_expired pd"

subsection \<open>The list it represents\<close>

fun dll :: "'d store \<Rightarrow> nat \<Rightarrow> nat list \<Rightarrow> nat \<Rightarrow> bool" where
  "dll h p [] q \<longleftrightarrow> True"
| "dll h p (x # xs) q \<longleftrightarrow> x \<noteq> 0 \<and>
     (\<exists>msg. h x = Some msg \<and> pending_previous msg = p \<and> pending_next msg = (case xs of [] \<Rightarrow> q | y # _ \<Rightarrow> y)) \<and> dll h x xs q"

definition first :: "nat list \<Rightarrow> nat \<Rightarrow> nat" where
  "first xs q = (case xs of [] \<Rightarrow> q | x # _ \<Rightarrow> x)"

definition final :: "nat \<Rightarrow> nat list \<Rightarrow> nat" where
  "final p xs = (if xs = [] then p else last xs)"

definition pending_list :: "pending \<times> 'd store \<Rightarrow> nat list \<Rightarrow> bool" where
  "pending_list s xs \<longleftrightarrow> distinct xs \<and> dll (snd s) 0 xs 0 \<and> pd_head (fst s) = first xs 0 \<and>
     pd_tail (fst s) = final 0 xs \<and> pd_count (fst s) = int (length xs)"

lemma first_simps [simp]: "first [] q = q" "first (x # xs) q = x"
  by (simp_all add: first_def)

lemma final_simps [simp]: "final p [] = p" "final p (x # xs) = final x xs"
  by (simp_all add: final_def)

lemma final_append [simp]: "final p (xs @ ys) = final (final p xs) ys"
  by (induction xs arbitrary: p) simp_all

lemma final_ne: "ys \<noteq> [] \<Longrightarrow> final p ys = final q ys"
  by (cases ys) simp_all

lemma dll_Cons: "dll h p (x # xs) q \<longleftrightarrow> x \<noteq> 0 \<and>
    (\<exists>msg. h x = Some msg \<and> pending_previous msg = p \<and> pending_next msg = first xs q) \<and> dll h x xs q"
  by (simp add: first_def)

lemma dll_append: "dll h p (xs @ ys) q \<longleftrightarrow> dll h p xs (first ys q) \<and> dll h (final p xs) ys q"
  by (induction xs arbitrary: p) (auto simp: first_def split: list.splits)

declare dll.simps(2) [simp del]
declare dll_Cons [simp]

lemma dll_other: "x \<notin> set xs \<Longrightarrow> dll (h(x := v)) p xs q = dll h p xs q"
  by (induction xs arbitrary: p) auto

lemma dll_member: "dll h p xs q \<Longrightarrow> x \<in> set xs \<Longrightarrow> x \<noteq> 0 \<and> h x \<noteq> None"
  by (induction xs arbitrary: p) auto

text \<open>Changing fields other than the links.\<close>

lemma dll_fields:
  "h x = Some msg \<Longrightarrow> pending_previous msg' = pending_previous msg \<Longrightarrow> pending_next msg' = pending_next msg \<Longrightarrow>
   dll (h(x \<mapsto> msg')) p xs q = dll h p xs q"
  by (induction xs arbitrary: p) auto

lemma final_in: "xs \<noteq> [] \<Longrightarrow> final p xs \<in> set xs"
  by (simp add: final_def)

text \<open>Redirecting the link out of a segment at its last element, and the link into it at its first.\<close>

lemma dll_set_next:
  assumes "dll h p xs q" "distinct xs" "xs \<noteq> []" "h (final p xs) = Some msg"
  shows "dll (h(final p xs \<mapsto> msg\<lparr>pending_next := q'\<rparr>)) p xs q'"
  using assms
proof (induction xs arbitrary: p)
  case (Cons x xs)
  show ?case
  proof (cases "xs = []")
    case False
    then have l: "final x xs \<in> set xs" "final x xs \<noteq> x" using final_in [of xs x] Cons.prems(2) by auto
    obtain y ys where xs: "xs = y # ys" using False by (cases xs) auto
    let ?h = "h(final x xs \<mapsto> msg\<lparr>pending_next := q'\<rparr>)"
    have 1: "dll ?h x xs q'"
      using Cons.prems False by (intro Cons.IH) auto
    obtain m where m: "h x = Some m" "pending_previous m = p" "pending_next m = first xs q" "x \<noteq> 0"
      using Cons.prems(1) by auto
    have 2: "?h x = Some m" "first xs q' = first xs q" using l(2) m(1) by (auto simp: xs)
    show ?thesis unfolding final_simps dll_Cons using 1 2 m by metis
  qed (use Cons.prems in auto)
qed simp

lemma dll_set_previous:
  "dll h p (y # ys) q \<Longrightarrow> distinct (y # ys) \<Longrightarrow> h y = Some msg \<Longrightarrow>
   dll (h(y \<mapsto> msg\<lparr>pending_previous := p'\<rparr>)) p' (y # ys) q"
  by (auto simp: dll_other)

end
