(* ===== verification/Tr50_Pending_List.thy ===== *)
theory Tr50_Pending_List
  imports Tr50_Pending
begin

section \<open>The pending list refines a list of requests\<close>

text \<open>
  \<open>pending_list s xs\<close> says that the store holds the doubly linked list of the addresses \<open>xs\<close>.  Each
  operation is the list operation it should be, keeps the messages apart from their links, and the
  last properties show what a message that is added twice does to the list.
\<close>

definition payload :: "'d message \<Rightarrow> 'd message" where
  "payload msg = msg\<lparr>pending_previous := 0, pending_next := 0\<rparr>"

definition same_messages :: "'d store \<Rightarrow> 'd store \<Rightarrow> bool" where
  "same_messages h h' \<longleftrightarrow> (\<forall>x. map_option payload (h' x) = map_option payload (h x))"

lemma payload_links [simp]:
  "payload (msg\<lparr>pending_previous := a\<rparr>) = payload msg" "payload (msg\<lparr>pending_next := a\<rparr>) = payload msg"
  by (simp_all add: payload_def)

lemma payload_eqD:
  assumes "payload m = payload m'"
  shows "seq_id m = seq_id m'" "message_type m = message_type m'" "reply_callback m = reply_callback m'"
    "raw_callback m = raw_callback m'" "callback_custom m = callback_custom m'" "callback_timeout m = callback_timeout m'"
    "pending_expiration_timestamp m = pending_expiration_timestamp m'" "msg_json m = msg_json m'"
  using assms by (auto simp: payload_def dest: arg_cong [where f = seq_id] arg_cong [where f = message_type]
      arg_cong [where f = reply_callback] arg_cong [where f = raw_callback] arg_cong [where f = callback_custom]
      arg_cong [where f = callback_timeout] arg_cong [where f = pending_expiration_timestamp] arg_cong [where f = msg_json])

lemma timeout_call_payload: "payload m = payload m' \<Longrightarrow> timeout_call x m = timeout_call x m'"
  using payload_eqD [of m m'] by (simp add: timeout_call_def)

lemma same_messages_refl [simp]: "same_messages h h"
  by (simp add: same_messages_def)

lemma same_messages_trans: "same_messages h h' \<Longrightarrow> same_messages h' h'' \<Longrightarrow> same_messages h h''"
  by (simp add: same_messages_def)

lemma same_messagesD: "same_messages h h' \<Longrightarrow> h x = Some m \<Longrightarrow> \<exists>m'. h' x = Some m' \<and> payload m' = payload m"
  unfolding same_messages_def by (metis map_option_eq_Some option.simps(9))

lemma same_messages_link: "link f a h = Some h' \<Longrightarrow> (\<And>m. payload (f m) = payload m) \<Longrightarrow> same_messages h h'"
  by (auto simp: link_def same_messages_def split: if_splits option.splits)

lemma pending_new_list: "pending_list (pending_new, h) []"
  by (simp add: pending_list_def pending_new_def)

subsection \<open>Adding\<close>

lemma add_list:
  assumes l: "pending_list (pd, h) xs" and m: "m \<noteq> 0" "m \<notin> set xs" "h m = Some msg"
    and links: "pending_next msg = 0" "pending_previous msg = 0"
  shows "\<exists>pd' h'. tr50_pending_add now m (pd, h) = Some (pd', h') \<and> pending_list (pd', h') (xs @ [m]) \<and>
    same_messages (h(m \<mapsto> msg\<lparr>pending_sent_timestamp := now, pending_expiration_timestamp := now + callback_timeout msg\<rparr>)) h' \<and>
    pd_expired pd' = pd_expired pd \<and> pd_deleting pd' = pd_deleting pd"
proof -
  define h1 where "h1 = h(m \<mapsto> msg\<lparr>pending_sent_timestamp := now, pending_expiration_timestamp := now + callback_timeout msg\<rparr>)"
  have d1: "dll h1 0 xs 0" using l m(2) by (simp add: h1_def dll_other pending_list_def)
  show ?thesis
  proof (cases "xs = []")
    case True
    then show ?thesis
      using l m links by (auto simp: tr50_pending_add_def pending_list_def Let_def same_messages_def)
  next
    case False
    let ?t = "final 0 xs"
    have t: "?t \<in> set xs" "?t \<noteq> m" using final_in [OF False] m(2) by auto
    have tl: "pd_tail pd = ?t" "?t \<noteq> 0" using l t(1) dll_member [of h 0 xs 0 ?t] by (auto simp: pending_list_def)
    obtain t0 where t0: "h1 ?t = Some t0" using dll_member [OF d1 t(1)] by auto
    let ?h2 = "h1(?t \<mapsto> t0\<lparr>pending_next := m\<rparr>)"
    let ?h3 = "?h2(m \<mapsto> (the (?h2 m))\<lparr>pending_previous := ?t\<rparr>)"
    have d2: "dll ?h2 0 xs m"
      using dll_set_next [OF d1 _ False t0] l by (simp add: pending_list_def)
    have d3: "dll ?h3 0 xs m" using d2 m(2) by (simp add: dll_other)
    have mm: "?h3 m = Some (msg\<lparr>pending_sent_timestamp := now, pending_expiration_timestamp := now + callback_timeout msg,
        pending_previous := ?t\<rparr>)"
      using t(2) by (simp add: h1_def)
    have d: "dll ?h3 0 (xs @ [m]) 0"
      unfolding dll_append using d3 mm m(1) links by simp
    have a: "tr50_pending_add now m (pd, h) = Some (pd\<lparr>pd_tail := m, pd_count := pd_count pd + 1\<rparr>, ?h3)"
      using m(3) tl t0 by (simp add: tr50_pending_add_def Let_def flip: h1_def)
    have s: "same_messages h1 ?h3"
      using t(2) t0 by (auto simp: same_messages_def h1_def)
    have f: "first (xs @ [m]) 0 = first xs 0" using False by (simp add: first_def split: list.split)
    have "pending_list (pd\<lparr>pd_tail := m, pd_count := pd_count pd + 1\<rparr>, ?h3) (xs @ [m])"
      unfolding pending_list_def fst_conv snd_conv f using d l m(2) by (auto simp: pending_list_def)
    with a s show ?thesis unfolding h1_def [symmetric] by auto
  qed
qed

subsection \<open>Removing\<close>

lemma dll_mid: "dll h 0 (xs @ m # ys) 0 \<Longrightarrow> h m = Some msg \<Longrightarrow>
    pending_previous msg = final 0 xs \<and> pending_next msg = first ys 0"
  by (auto simp: dll_append)

lemma link_next:
  assumes "dll h 0 xs q" "distinct xs"
  shows "\<exists>h'. link (\<lambda>n. n\<lparr>pending_next := q'\<rparr>) (final 0 xs) h = Some h' \<and> dll h' 0 xs q' \<and> (\<forall>x. x \<notin> set xs \<longrightarrow> h' x = h x)"
proof (cases "xs = []")
  case False
  have f: "final 0 xs \<in> set xs" by (rule final_in [OF False])
  obtain n where n: "h (final 0 xs) = Some n" using dll_member [OF assms(1) f] by auto
  show ?thesis
    using dll_set_next [OF assms False n, of q'] dll_member [OF assms(1) f] f n by (auto simp: link_def)
qed (use assms in \<open>simp add: link_def\<close>)

lemma link_previous:
  assumes "dll h p ys 0" "distinct ys"
  shows "\<exists>h'. link (\<lambda>n. n\<lparr>pending_previous := p'\<rparr>) (first ys 0) h = Some h' \<and> dll h' p' ys 0 \<and> (\<forall>x. x \<notin> set ys \<longrightarrow> h' x = h x)"
proof (cases ys)
  case (Cons y zs)
  obtain n where n: "h y = Some n" "y \<noteq> 0" using assms(1) Cons by auto
  show ?thesis
    using dll_set_previous [of h p y zs 0 n p'] assms n by (auto simp: Cons link_def)
qed (simp add: link_def)

lemma dll_agree: "\<forall>x \<in> set xs. h' x = h x \<Longrightarrow> dll h' p xs q = dll h p xs q"
  by (induction xs arbitrary: p) auto

lemma remove_list:
  assumes l: "pending_list (pd, h) (xs @ m # ys)"
  shows "\<exists>pd' h'. pending_linklist_remove m (pd, h) = Some (pd', h') \<and> pending_list (pd', h') (xs @ ys) \<and>
    same_messages h h' \<and> pd_expired pd' = pd_expired pd \<and> pd_deleting pd' = pd_deleting pd"
proof -
  have d: "dll h 0 (xs @ m # ys) 0" "distinct (xs @ m # ys)" using l by (simp_all add: pending_list_def)
  obtain msg where msg: "h m = Some msg" using dll_member [OF d(1), of m] by auto
  note lk = dll_mid [OF d(1) msg]
  have dx: "dll h 0 xs m" and dy: "dll h m ys 0" using d(1) by (simp_all add: dll_append)
  obtain h1 where h1: "link (\<lambda>n. n\<lparr>pending_next := first ys 0\<rparr>) (final 0 xs) h = Some h1" "dll h1 0 xs (first ys 0)"
    "\<forall>x. x \<notin> set xs \<longrightarrow> h1 x = h x"
    using link_next [OF dx, of "first ys 0"] d(2) by auto
  have "\<forall>x \<in> set ys. h1 x = h x" using h1(3) d(2) by auto
  from dll_agree [OF this] have dy1: "dll h1 m ys 0" using dy by simp
  obtain h2 where h2: "link (\<lambda>n. n\<lparr>pending_previous := final 0 xs\<rparr>) (first ys 0) h1 = Some h2" "dll h2 (final 0 xs) ys 0"
    "\<forall>x. x \<notin> set ys \<longrightarrow> h2 x = h1 x"
    using link_previous [OF dy1, of "final 0 xs"] d(2) by auto
  have "\<forall>x \<in> set xs. h2 x = h1 x" using h2(3) d(2) by auto
  from dll_agree [OF this] have "dll h2 0 xs (first ys 0)" using h1(2) by simp
  then have dd: "dll h2 0 (xs @ ys) 0" using h2(2) by (simp add: dll_append)
  have sm: "same_messages h h2"
    using same_messages_link [OF h1(1)] same_messages_link [OF h2(1)] same_messages_trans by (metis payload_links)
  let ?pd = "pd\<lparr>pd_head := (if final 0 xs = 0 then first ys 0 else pd_head pd),
                pd_tail := (if first ys 0 = 0 then final 0 xs else pd_tail pd), pd_count := pd_count pd - 1\<rparr>"
  have r: "pending_linklist_remove m (pd, h) = Some (?pd, h2)"
    using msg lk h1(1) h2(1) by (simp add: pending_linklist_remove_def Let_def)
  have z: "final 0 xs = 0 \<longleftrightarrow> xs = []" "first ys 0 = 0 \<longleftrightarrow> ys = []"
    using dll_member [OF d(1), of "final 0 xs"] dll_member [OF d(1), of "hd ys"] final_in [of xs 0]
    by (cases "xs = []"; auto simp: first_def split: list.splits)+
  have "first (xs @ zs) 0 = (if xs = [] then first zs 0 else first xs 0)" for zs
    by (simp add: first_def split: list.split)
  then have "pending_list (?pd, h2) (xs @ ys)"
    using l dd z final_ne [of ys m "final 0 xs"] by (auto simp: pending_list_def)
  with r sm show ?thesis by auto
qed

subsection \<open>Finding\<close>

definition has_seq :: "'d store \<Rightarrow> int \<Rightarrow> nat \<Rightarrow> bool" where
  "has_seq h hash x \<longleftrightarrow> (\<exists>msg. h x = Some msg \<and> seq_id msg = hash)"

lemma find_list:
  "dll h p xs 0 \<Longrightarrow> pending_find h hash (first xs 0) =
     Some (case find (has_seq h hash) xs of None \<Rightarrow> 0 | Some x \<Rightarrow> x)"
proof (induction xs arbitrary: p)
  case (Cons x xs)
  then obtain msg where "h x = Some msg" "pending_next msg = first xs 0" "x \<noteq> 0" "dll h x xs 0" by auto
  with Cons.IH [of x] show ?case
    by (auto simp: pending_find.simps [of h hash x] has_seq_def)
qed (simp add: pending_find.simps)

lemma find_split:
  "find P xs = Some x \<Longrightarrow> \<exists>ys zs. xs = ys @ x # zs \<and> P x \<and> (\<forall>y \<in> set ys. \<not> P y)"
  by (induction xs) (auto split: if_splits intro: exI [of _ "[]"] | metis append_Cons set_ConsD)+

lemma remove1_first: "\<forall>y \<in> set ys. \<not> P y \<Longrightarrow> P x \<Longrightarrow> remove1 x (ys @ x # zs) = ys @ zs"
  by (induction ys) auto

lemma find_and_remove_list:
  assumes l: "pending_list (pd, h) xs"
  shows "\<exists>pd' h'. tr50_pending_find_and_remove hash (pd, h) =
      Some (case find (has_seq h hash) xs of None \<Rightarrow> 0 | Some x \<Rightarrow> x, pd', h') \<and>
    pending_list (pd', h') (case find (has_seq h hash) xs of None \<Rightarrow> xs | Some x \<Rightarrow> remove1 x xs) \<and>
    same_messages h h' \<and> pd_expired pd' = pd_expired pd \<and> pd_deleting pd' = pd_deleting pd"
proof -
  have d: "dll h 0 xs 0" "pd_head pd = first xs 0" using l by (simp_all add: pending_list_def)
  note f = find_list [OF d(1), of hash]
  show ?thesis
  proof (cases "find (has_seq h hash) xs")
    case None
    then show ?thesis using f l d(2) by (auto simp: tr50_pending_find_and_remove_def)
  next
    case (Some x)
    then obtain ys zs where xs: "xs = ys @ x # zs" "has_seq h hash x" "\<forall>y \<in> set ys. \<not> has_seq h hash y"
      using find_split by metis
    have "x \<noteq> 0" using dll_member [OF d(1), of x] xs(1) by simp
    moreover obtain pd' h' where "pending_linklist_remove x (pd, h) = Some (pd', h')" "pending_list (pd', h') (ys @ zs)"
      "same_messages h h'" "pd_expired pd' = pd_expired pd" "pd_deleting pd' = pd_deleting pd"
      using remove_list [of pd h ys x zs] l xs(1) by auto
    moreover have "remove1 x xs = ys @ zs" using remove1_first [OF xs(3,2)] by (simp add: xs(1))
    ultimately show ?thesis using f Some d(2) by (auto simp: tr50_pending_find_and_remove_def)
  qed
qed

subsection \<open>Expiring\<close>

definition expired :: "int \<Rightarrow> 'd store \<Rightarrow> nat \<Rightarrow> bool" where
  "expired now h x \<longleftrightarrow> (\<exists>msg. h x = Some msg \<and> pending_expiration_timestamp msg \<le> now)"

definition patient :: "'d store \<Rightarrow> nat \<Rightarrow> bool" where
  "patient h x \<longleftrightarrow> (\<exists>msg. h x = Some msg \<and> 0 \<le> callback_timeout msg)"

definition timeout_calls :: "'d store \<Rightarrow> nat list \<Rightarrow> 'd reply_call list" where
  "timeout_calls h xs = concat (map (\<lambda>x. timeout_call x (the (h x))) xs)"

text \<open>Both tests for a shifted clock are dead when the timeouts are not negative.\<close>

lemma expire_one_eq:
  assumes "0 \<le> callback_timeout msg"
  shows "expire_one now m msg s =
    (if pending_expiration_timestamp msg \<le> now
     then (case pending_linklist_remove m ((fst s)\<lparr>pd_expired := pd_expired (fst s) + 1\<rparr>, snd s) of
             None \<Rightarrow> None | Some (pd, h) \<Rightarrow> Some ((pd, h(m := None)), timeout_call m msg))
     else Some (s, []))"
  using assms by (auto simp: expire_one_def Let_def TR50_PENDING_TIME_SHIFT_ALLOW_def)

lemma payload_times: "payload m = payload m' \<Longrightarrow> callback_timeout m = callback_timeout m' \<and>
    pending_expiration_timestamp m = pending_expiration_timestamp m'"
  using payload_eqD [of m m'] by simp

lemma same_on:
  assumes s: "same_messages h h'" and x: "x \<noteq> t"
  shows "expired now (h'(t := v)) x = expired now h x" "patient (h'(t := v)) x = patient h x"
    "h x \<noteq> None \<Longrightarrow> timeout_call x (the ((h'(t := v)) x)) = timeout_call x (the (h x))"
proof -
  show "expired now (h'(t := v)) x = expired now h x" "patient (h'(t := v)) x = patient h x"
    using s [unfolded same_messages_def, rule_format, of x] x
    by (auto simp: expired_def patient_def map_option_case dest!: payload_times split: option.splits)
  assume "h x \<noteq> None"
  then obtain m where m: "h x = Some m" by blast
  from same_messagesD [OF s m] obtain m' where "h' x = Some m'" "payload m' = payload m" by blast
  with m x show "timeout_call x (the ((h'(t := v)) x)) = timeout_call x (the (h x))"
    using timeout_call_payload [of m' m] by simp
qed

lemma expire_loop_list:
  "pending_list (pd, h) (ks @ ts) \<Longrightarrow> \<forall>x \<in> set ts. patient h x \<Longrightarrow>
   \<exists>pd' h'. expire_loop now (first ts 0) (pd, h) calls =
       Some ((pd', h'), calls @ timeout_calls h (filter (expired now h) ts)) \<and>
     pending_list (pd', h') (ks @ filter (\<lambda>x. \<not> expired now h x) ts) \<and>
     (\<forall>x. map_option payload (h' x) = (if x \<in> set ts \<and> expired now h x then None else map_option payload (h x))) \<and>
     pd_expired pd' = pd_expired pd + int (length (filter (expired now h) ts))"
proof (induction ts arbitrary: ks pd h calls)
  case Nil
  then show ?case by (simp add: expire_loop.simps timeout_calls_def)
next
  case (Cons t ts)
  have d: "dll h 0 (ks @ t # ts) 0" "distinct (ks @ t # ts)" using Cons.prems(1) by (simp_all add: pending_list_def)
  obtain msg where msg: "h t = Some msg" "0 \<le> callback_timeout msg" using Cons.prems(2) by (auto simp: patient_def)
  have t0: "t \<noteq> 0" using dll_member [OF d(1), of t] by simp
  have nx: "pending_next msg = first ts 0" using dll_mid [OF d(1) msg(1)] by simp
  have step: "expire_loop now t (pd, h) calls = (case expire_one now t msg (pd, h) of
      None \<Rightarrow> None | Some (s, cs) \<Rightarrow> expire_loop now (first ts 0) s (calls @ cs))"
    by (subst expire_loop.simps) (simp add: t0 msg(1) nx split: option.split)
  show ?case
  proof (cases "expired now h t")
    case False
    then have "\<not> pending_expiration_timestamp msg \<le> now" using msg(1) by (simp add: expired_def)
    then have e: "expire_loop now t (pd, h) calls = expire_loop now (first ts 0) (pd, h) calls"
      using step by (simp add: expire_one_eq [OF msg(2)])
    have "pending_list (pd, h) ((ks @ [t]) @ ts)" "\<forall>x \<in> set ts. patient h x" using Cons.prems by simp_all
    from Cons.IH [OF this, of calls] obtain pd2 h2 where
      i: "expire_loop now t (pd, h) calls = Some ((pd2, h2), calls @ timeout_calls h (filter (expired now h) ts))"
        "pending_list (pd2, h2) ((ks @ [t]) @ filter (\<lambda>x. \<not> expired now h x) ts)"
        "\<forall>x. map_option payload (h2 x) = (if x \<in> set ts \<and> expired now h x then None else map_option payload (h x))"
        "pd_expired pd2 = pd_expired pd + int (length (filter (expired now h) ts))"
      unfolding e by blast
    have "map_option payload (h2 x) = (if x \<in> set (t # ts) \<and> expired now h x then None else map_option payload (h x))" for x
      using i(3) [rule_format, of x] False by auto
    with i False show ?thesis by (simp del: map_option_is_None map_option_eq_Some)
  next
    case True
    then have ex: "pending_expiration_timestamp msg \<le> now" using msg(1) by (simp add: expired_def)
    let ?pd = "pd\<lparr>pd_expired := pd_expired pd + 1\<rparr>"
    have "pending_list (?pd, h) (ks @ t # ts)" using Cons.prems(1) by (simp add: pending_list_def)
    from remove_list [OF this] obtain pd1 h1 where r: "pending_linklist_remove t (?pd, h) = Some (pd1, h1)"
      "pending_list (pd1, h1) (ks @ ts)" "same_messages h h1" "pd_expired pd1 = pd_expired pd + 1" by auto
    let ?h = "h1(t := None)"
    have l: "pending_list (pd1, ?h) (ks @ ts)"
      using r(2) d(2) by (simp add: pending_list_def dll_other)
    have ts: "\<And>x. x \<in> set ts \<Longrightarrow> x \<noteq> t" using d(2) by auto
    have p: "\<forall>x \<in> set ts. patient ?h x" using Cons.prems(2) same_on(2) [OF r(3)] ts by simp
    have f: "filter (expired now ?h) ts = filter (expired now h) ts"
      "filter (\<lambda>x. \<not> expired now ?h x) ts = filter (\<lambda>x. \<not> expired now h x) ts"
      using same_on(1) [OF r(3)] ts by (auto intro!: filter_cong)
    have c: "timeout_calls ?h (filter (expired now h) ts) = timeout_calls h (filter (expired now h) ts)"
      unfolding timeout_calls_def
      by (intro arg_cong [where f = concat] map_cong) (use same_on(3) [OF r(3)] ts in \<open>auto simp: expired_def\<close>)
    have e: "expire_loop now t (pd, h) calls = expire_loop now (first ts 0) (pd1, ?h) (calls @ timeout_call t msg)"
      using step ex r(1) by (simp add: expire_one_eq [OF msg(2)])
    from Cons.IH [OF l p, of "calls @ timeout_call t msg"] obtain pd2 h2 where
      i: "expire_loop now t (pd, h) calls = Some ((pd2, h2), (calls @ timeout_call t msg) @ timeout_calls h (filter (expired now h) ts))"
        "pending_list (pd2, h2) (ks @ filter (\<lambda>x. \<not> expired now h x) ts)"
        "\<forall>x. map_option payload (h2 x) = (if x \<in> set ts \<and> expired now ?h x then None else map_option payload (?h x))"
        "pd_expired pd2 = pd_expired pd1 + int (length (filter (expired now h) ts))"
      unfolding e f c by blast
    have "map_option payload (h2 x) = (if x \<in> set (t # ts) \<and> expired now h x then None else map_option payload (h x))" for x
      using i(3) [rule_format, of x] True same_on(1) [OF r(3), of x t now None] r(3) ts
      by (cases "x = t") (auto simp: same_messages_def)
    with i True r(4) show ?thesis by (simp add: timeout_calls_def msg(1))
  qed
qed

lemma expiration_round_list:
  assumes l: "pending_list (pd, h) xs" and p: "\<forall>x \<in> set xs. patient h x"
  shows "\<exists>pd' h'. pending_expiration_round now (pd, h) =
      Some ((pd', h'), timeout_calls h (filter (expired now h) xs)) \<and>
    pending_list (pd', h') (filter (\<lambda>x. \<not> expired now h x) xs) \<and>
    (\<forall>x. map_option payload (h' x) = (if x \<in> set xs \<and> expired now h x then None else map_option payload (h x))) \<and>
    pd_expired pd' = pd_expired pd + int (length (filter (expired now h) xs))"
proof -
  have "pd_head pd = first xs 0" using l by (simp add: pending_list_def)
  with expire_loop_list [of pd h "[]" xs now "[]"] l p show ?thesis
    by (simp add: pending_expiration_round_def)
qed

subsection \<open>Properties\<close>

definition demo_message :: "int \<Rightarrow> int \<Rightarrow> unit message" where
  "demo_message sid timeout =
     \<lparr>message_type = TR50_MESSAGE_TYPE_OBJ, compress_ratio = 0, seq_id = sid, pending_sent_timestamp = 0,
      pending_expiration_timestamp = 0, pending_previous = 0, pending_next = 0,
      msg_json = Json 0 None 0 0 () None 0 [], is_reply = False, callback_timeout = timeout, callback_custom = 7,
      raw_callback = None, reply_callback = Some 1\<rparr>"

text \<open>Two requests, 11 and 12, added to the empty list.\<close>

definition demo_pending :: "pending \<times> unit store" where
  "demo_pending = the (Option.bind
     (tr50_pending_add 0 11 (pending_new, [11 \<mapsto> demo_message 1 100, 12 \<mapsto> demo_message 2 900])) (tr50_pending_add 5 12))"

lemma demo_pending_list: "pending_list demo_pending [11, 12]"
  by (simp add: demo_pending_def tr50_pending_add_def pending_new_def demo_message_def pending_list_def Let_def)

text \<open>Adding a request whose links are NULL appends it to the list of waiting requests, stamps it with the
  present time and the time at which it expires, and leaves every other message as it was.\<close>

theorem pending_add_appends:
  assumes "pending_list (pd, h) xs" "m \<noteq> 0" "m \<notin> set xs" "h m = Some msg" "pending_next msg = 0" "pending_previous msg = 0"
  shows "\<exists>pd' h'. tr50_pending_add now m (pd, h) = Some (pd', h') \<and> pending_list (pd', h') (xs @ [m]) \<and>
    same_messages (h(m \<mapsto> msg\<lparr>pending_sent_timestamp := now, pending_expiration_timestamp := now + callback_timeout msg\<rparr>)) h'"
  using add_list [OF assms] by blast

theorem pending_add_appends_witness:
  "\<exists>pd' h'. tr50_pending_add 9 13 (fst demo_pending, (snd demo_pending)(13 \<mapsto> demo_message 3 50)) = Some (pd', h') \<and>
    pending_list (pd', h') [11, 12, 13]"
proof -
  have "pending_list (fst demo_pending, (snd demo_pending)(13 \<mapsto> demo_message 3 50)) [11, 12]"
    using demo_pending_list by (simp add: pending_list_def dll_other)
  from pending_add_appends [OF this, of 13 "demo_message 3 50" 9] show ?thesis
    by (simp add: demo_message_def) blast
qed

text \<open>C15: Looking a reply's sequence number up finds the oldest waiting request with that number, takes exactly
  that one off the list, and answers NULL and changes nothing when there is none.\<close>

theorem pending_find_removes_first:
  assumes "pending_list (pd, h) xs"
  shows "\<exists>pd' h'. tr50_pending_find_and_remove hash (pd, h) =
      Some (case find (has_seq h hash) xs of None \<Rightarrow> 0 | Some x \<Rightarrow> x, pd', h') \<and>
    pending_list (pd', h') (case find (has_seq h hash) xs of None \<Rightarrow> xs | Some x \<Rightarrow> remove1 x xs) \<and> same_messages h h'"
  using find_and_remove_list [OF assms] by blast

theorem pending_find_removes_first_witness:
  "\<exists>pd' h'. tr50_pending_find_and_remove 2 demo_pending = Some (12, pd', h') \<and> pending_list (pd', h') [11]"
proof -
  have f: "find (has_seq (snd demo_pending) 2) [11, 12] = Some 12"
    by (simp add: has_seq_def demo_pending_def tr50_pending_add_def pending_new_def demo_message_def Let_def)
  have "pending_list (fst demo_pending, snd demo_pending) [11, 12]" using demo_pending_list by simp
  from pending_find_removes_first [OF this, of 2] f show ?thesis by auto
qed



text \<open>Adding does not reset the links, so a message that was refused and is sent again brings its old ones:
  when the message before it has been replied to and freed in the meantime, the reply to the resent
  message writes through the dangling link.\<close>

theorem pending_readd_dangles:
  assumes "a \<noteq> 0" "b \<noteq> 0" "a \<noteq> b" "h a = Some ma" "h b = Some mb" "seq_id ma \<noteq> seq_id mb"
    "pending_next ma = 0" "pending_previous ma = 0" "pending_next mb = 0" "pending_previous mb = 0"
  shows "\<exists>s1 s2 s3 s4 s5. tr50_pending_add t1 a (pending_new, h) = Some s1 \<and> tr50_pending_add t2 b s1 = Some s2 \<and>
    tr50_pending_find_and_remove (seq_id mb) s2 = Some (b, s3) \<and>
    tr50_pending_find_and_remove (seq_id ma) s3 = Some (a, s4) \<and>
    tr50_pending_add t3 b (fst s4, (snd s4)(a := None)) = Some s5 \<and>
    tr50_pending_find_and_remove (seq_id mb) s5 = None"
  using assms
  by (simp add: tr50_pending_add_def pending_new_def Let_def tr50_pending_find_and_remove_def pending_find.simps
      pending_linklist_remove_def link_def)

theorem pending_readd_dangles_witness:
  "\<exists>s5. tr50_pending_find_and_remove 2 (s5 :: pending \<times> unit store) = None"
  using pending_readd_dangles [of 11 12 "[11 \<mapsto> demo_message 1 100, 12 \<mapsto> demo_message 2 900]" "demo_message 1 100"
      "demo_message 2 900" 0 0 0]
  by (auto simp: demo_message_def)

end
