(* ===== verification/Tr50_Json_Ends.thy ===== *)
theory Tr50_Json_Ends
  imports Tr50_Json_Text
begin

section \<open>The JSON parser ends\<close>

text \<open>
  Every parse function leaves a shorter text, so the fuel \<open>tr50_json_parse\<close> starts with is enough.
  \<open>run_ok\<close> and its bind rule are the calculus the proof is made in.
\<close>

lemma run_bind_Ret [simp]: "run_bind r f = Ret y \<longleftrightarrow> (\<exists>x. r = Ret x \<and> f x = Ret y)"
  by (cases r) auto

lemma run_bind_OutOfFuel [simp]: "run_bind r f = OutOfFuel \<longleftrightarrow> r = OutOfFuel \<or> (\<exists>x. r = Ret x \<and> f x = OutOfFuel)"
  by (cases r) auto

lemma skip_fuel [simp]: "skip s \<noteq> OutOfFuel"
  by (induction s) auto

lemma has_prefix_fuel [simp]: "has_prefix ps s \<noteq> OutOfFuel"
  by (induction ps s rule: has_prefix.induct) auto

lemma parse_digits_fuel [simp]: "parse_digits bound n s \<noteq> OutOfFuel"
  by (induction s arbitrary: n) auto

lemma parse_fraction_digits_fuel [simp]: "parse_fraction_digits F n scale s \<noteq> OutOfFuel"
  by (induction s arbitrary: n scale) auto

lemma string_len_fuel [simp]: "string_len s \<noteq> OutOfFuel"
  by (induction s rule: string_len.induct) (subst string_len.simps, auto split: list.splits if_splits)

lemma string_body_fuel [simp]: "string_body s \<noteq> OutOfFuel"
  by (induction s rule: string_body.induct) (subst string_body.simps, auto split: list.splits if_splits option.splits)

lemma skip_length: "skip s = Ret s' \<Longrightarrow> length s' \<le> length s"
  by (induction s) (auto split: if_splits)

lemma parse_digits_length: "parse_digits bound n s = Ret (m, s') \<Longrightarrow> length s' \<le> length s"
  by (induction s arbitrary: n) (auto split: if_splits intro: le_SucI)

lemma parse_fraction_digits_length:
  "parse_fraction_digits F n scale s = Ret (m, sc, s') \<Longrightarrow> length s' \<le> length s"
  by (induction s arbitrary: n scale) (auto split: if_splits intro: le_SucI)

lemma string_body_length: "string_body s = Ret (out, s') \<Longrightarrow> length s' \<le> length s"
proof (induction s arbitrary: out s' rule: string_body.induct)
  case (1 s)
  show ?case
    using "1.prems" 1
    by (subst (asm) string_body.simps) (fastforce split: list.splits if_splits option.splits)
qed

lemma parse_c_string_progress:
  "parse_c_string s \<noteq> OutOfFuel \<and> (parse_c_string s = Ret (str, s') \<longrightarrow> length s' < length s)"
  by (auto simp: parse_c_string_def dest!: string_body_length split: list.splits if_splits)

lemma parse_integer_fuel [simp]: "parse_integer s \<noteq> OutOfFuel"
  by (auto simp: parse_integer_def Let_def split: list.splits)

lemma parse_integer_length:
  "parse_integer s = Ret (sg, n, s') \<Longrightarrow> length s' \<le> length s \<and> (is_digit (hd s) \<or> hd s = 0x2D \<longrightarrow> length s' < length s)"
  by (auto simp: parse_integer_def Let_def split: list.splits if_splits dest!: parse_digits_length)

lemma parse_exponent_fuel [simp]: "parse_exponent s \<noteq> OutOfFuel"
  by (auto simp: parse_exponent_def split: list.splits)

lemma parse_exponent_length: "parse_exponent s = Ret (n, s') \<Longrightarrow> length s' \<le> length s"
  by (auto simp: parse_exponent_def split: list.splits if_splits dest!: parse_digits_length)

lemma parse_fraction_fuel [simp]: "parse_fraction F n s \<noteq> OutOfFuel"
  by (auto simp: parse_fraction_def split: list.splits)

lemma parse_fraction_length: "parse_fraction F n s = Ret (m, sc, s') \<Longrightarrow> length s' \<le> length s"
  by (auto simp: parse_fraction_def split: list.splits dest!: parse_fraction_digits_length)

lemma parse_number_fuel [simp]: "parse_number F s \<noteq> OutOfFuel"
  by (auto simp: parse_number_def)

lemma length_tl_le: "length s' \<le> length (tl s) \<Longrightarrow> length s' \<le> length s"
  by simp

lemma parse_number_length:
  "parse_number F s = Ret (c, s') \<Longrightarrow> is_digit (hd s) \<or> hd s = 0x2D \<Longrightarrow> length s' < length s"
  by (auto simp: parse_number_def split: if_splits
      dest!: parse_integer_length parse_exponent_length parse_fraction_length)

lemma has_prefix_length: "has_prefix ps s = Ret True \<Longrightarrow> length ps \<le> length s"
  by (induction ps s rule: has_prefix.induct) (auto split: if_splits)

lemma parse_scalar_progress:
  "parse_scalar F s \<noteq> OutOfFuel \<and> (parse_scalar F s = Ret (Inl (c, s')) \<longrightarrow> length s' < length s) \<and>
   (parse_scalar F s = Ret (Inr s'') \<longrightarrow> s'' = s \<and> s \<noteq> [])"
  using parse_number_length [of F s] parse_c_string_progress [of s]
  by (auto simp: parse_scalar_def parse_string_def lit_null_def lit_false_def lit_true_def
      dest!: has_prefix_length split: list.splits if_splits)

text \<open>A run that does not exhaust its fuel and whose value, if it has one, satisfies \<open>P\<close>.\<close>

fun run_ok :: "('a \<Rightarrow> bool) \<Rightarrow> 'a run \<Rightarrow> bool" where
  "run_ok P OutOfFuel \<longleftrightarrow> False"
| "run_ok P Undefined \<longleftrightarrow> True"
| "run_ok P Null \<longleftrightarrow> True"
| "run_ok P (Ret x) \<longleftrightarrow> P x"

lemma run_ok_bind: "run_ok P r \<Longrightarrow> (\<And>x. P x \<Longrightarrow> run_ok Q (f x)) \<Longrightarrow> run_ok Q (run_bind r f)"
  by (cases r) auto

lemma run_ok_iff: "run_ok P r \<longleftrightarrow> r \<noteq> OutOfFuel \<and> (\<forall>x. r = Ret x \<longrightarrow> P x)"
  by (cases r) auto

text \<open>The parsers consume: their result is shorter than \<open>n\<close>.\<close>

abbreviation consumes :: "nat \<Rightarrow> ('a \<times> bytes) run \<Rightarrow> bool" where
  "consumes n \<equiv> run_ok (\<lambda>(c, s'). length s' < n)"

lemma consumes_mono: "consumes m r \<Longrightarrow> m \<le> n \<Longrightarrow> consumes n r"
  by (cases r) auto

lemma skip_ok: "run_ok (\<lambda>s'. length s' \<le> length s) (skip s)"
  by (auto simp: run_ok_iff dest: skip_length)

lemma skip_tl_ok: "looks_at b s \<or> s \<noteq> [] \<Longrightarrow> run_ok (\<lambda>s'. length s' < length s) (skip (tl s))"
  by (cases s) (auto simp: run_ok_iff dest: skip_length)

lemma parse_c_string_ok: "consumes (length s) (parse_c_string s)"
  using parse_c_string_progress [of s] by (fastforce simp: run_ok_iff)

definition progress :: "nat \<Rightarrow> (bytes \<Rightarrow> ('d json \<times> bytes) run) \<Rightarrow> bool" where
  "progress n pv \<longleftrightarrow> (\<forall>s. length s < n \<longrightarrow> consumes (length s) (pv s))"

lemma progressD: "progress n pv \<Longrightarrow> length s < n \<Longrightarrow> consumes (length s) (pv s)"
  by (simp add: progress_def)

text \<open>A value and the white space behind it, in a text that is shorter than the one started with.\<close>

lemma value_skip_ok:
  assumes "progress n pv" "length s < n" "\<And>c s'. length s' < length s \<Longrightarrow> run_ok Q (f c s')"
  shows "run_ok Q (run_bind (pv s) (\<lambda>(c, s). run_bind (skip s) (f c)))"
proof (rule run_ok_bind [OF progressD [OF assms(1,2)]])
  fix x :: "'a json \<times> bytes" assume x: "case x of (c, s') \<Rightarrow> length s' < length s"
  obtain c s1 where [simp]: "x = (c, s1)" by fastforce
  have "run_ok Q (run_bind (skip s1) (f c))"
    using x by (intro run_ok_bind [OF skip_ok] assms(3)) simp
  then show "run_ok Q (case x of (c, s) \<Rightarrow> run_bind (skip s) (f c))" by simp
qed

lemma array_loop_ok: "progress n pv \<Longrightarrow> length s < k \<Longrightarrow> length s \<le> n \<Longrightarrow> consumes (length s) (array_loop F pv k cs s)"
proof (induction k arbitrary: cs s)
  case (Suc k)
  show ?case
  proof (cases "looks_at 0x2C s")
    case True
    have "consumes (length s) (run_bind (skip (tl s)) (\<lambda>s. run_bind (pv s) (\<lambda>(c, s).
        run_bind (skip s) (array_loop F pv k (cs @ [c])))))"
    proof (rule run_ok_bind [OF skip_tl_ok])
      fix s1 :: bytes assume s1: "length s1 < length s"
      show "consumes (length s) (run_bind (pv s1) (\<lambda>(c, s). run_bind (skip s) (array_loop F pv k (cs @ [c]))))"
      proof (rule value_skip_ok [OF Suc.prems(1)])
        show "length s1 < n" using s1 Suc.prems by simp
        fix c and s' :: bytes assume "length s' < length s1"
        then have "length s' < length s" "length s' < k" "length s' \<le> n" using s1 Suc.prems by simp_all
        with Suc.IH [OF Suc.prems(1), of s' "cs @ [c]"] show "consumes (length s) (array_loop F pv k (cs @ [c]) s')"
          by (auto intro: consumes_mono)
      qed
    qed (use True in blast)
    then show ?thesis using True by simp
  qed (cases s; simp)
qed simp

lemma parse_member_ok:
  assumes pv: "progress n pv" and l: "length s \<le> n"
  shows "consumes (length s) (parse_member pv s)"
  unfolding parse_member_def
proof (rule run_ok_bind [OF parse_c_string_ok])
  fix x :: "bytes \<times> bytes" assume x: "case x of (c, s') \<Rightarrow> length s' < length s"
  obtain nm s1 where [simp]: "x = (nm, s1)" by fastforce
  have "consumes (length s) (run_bind (skip s1) (\<lambda>s. if \<not> looks_at 0x3A s then Null
      else run_bind (skip (tl s)) (\<lambda>s. run_bind (pv s) (\<lambda>(c, s). run_bind (skip s) (\<lambda>s. Ret (with_string (Some nm) c, s))))))"
  proof (rule run_ok_bind [OF skip_ok])
    fix s2 :: bytes assume s2: "length s2 \<le> length s1"
    have "consumes (length s) (run_bind (skip (tl s2)) (\<lambda>s. run_bind (pv s) (\<lambda>(c, s).
        run_bind (skip s) (\<lambda>s. Ret (with_string (Some nm) c, s)))))" if "looks_at 0x3A s2"
    proof (rule run_ok_bind [OF skip_tl_ok])
      show "looks_at 0x3A s2 \<or> s2 \<noteq> []" using that by simp
      fix s3 :: bytes assume "length s3 < length s2"
      then show "consumes (length s) (run_bind (pv s3) (\<lambda>(c, s). run_bind (skip s) (\<lambda>s. Ret (with_string (Some nm) c, s))))"
        using x s2 l by (intro value_skip_ok [OF pv]) simp_all
    qed
    then show "consumes (length s) (if \<not> looks_at 0x3A s2 then Null
      else run_bind (skip (tl s2)) (\<lambda>s. run_bind (pv s) (\<lambda>(c, s). run_bind (skip s) (\<lambda>s. Ret (with_string (Some nm) c, s)))))"
      by simp
  qed
  then show "consumes (length s) (case x of (name, s) \<Rightarrow> run_bind (skip s) (\<lambda>s. if \<not> looks_at 0x3A s then Null
      else run_bind (skip (tl s)) (\<lambda>s. run_bind (pv s) (\<lambda>(c, s). run_bind (skip s) (\<lambda>s. Ret (with_string (Some name) c, s))))))"
    by simp
qed

lemma member_loop_ok:
  assumes "progress n pv" "length s < k" "k \<le> n" "length s < m"
    and "\<And>c s'. length s' < length s \<Longrightarrow> consumes m (f c s')"
  shows "consumes m (run_bind (parse_member pv s) (\<lambda>(c, s). f c s))"
proof (rule run_ok_bind [OF parse_member_ok [OF assms(1)]])
  show "length s \<le> n" using assms(2,3) by simp
  fix x :: "'a json \<times> bytes" assume "case x of (c, s') \<Rightarrow> length s' < length s"
  then show "consumes m (case x of (c, s) \<Rightarrow> f c s)" using assms(5) by (cases x) simp
qed

lemma object_loop_ok: "progress n pv \<Longrightarrow> length s < k \<Longrightarrow> k \<le> n \<Longrightarrow> consumes (length s) (object_loop F pv k cs s)"
proof (induction k arbitrary: cs s)
  case (Suc k)
  show ?case
  proof (cases "looks_at 0x2C s")
    case True
    have "consumes (length s) (run_bind (skip (tl s)) (\<lambda>s. run_bind (parse_member pv s) (\<lambda>(c, s).
        object_loop F pv k (cs @ [c]) s)))"
    proof (rule run_ok_bind [OF skip_tl_ok])
      fix s1 :: bytes assume s1: "length s1 < length s"
      then show "consumes (length s) (run_bind (parse_member pv s1) (\<lambda>(c, s). object_loop F pv k (cs @ [c]) s))"
      proof (intro member_loop_ok [OF Suc.prems(1), of _ k])
        fix c and s' :: bytes assume "length s' < length s1"
        with s1 Suc.prems have "consumes (length s') (object_loop F pv k (cs @ [c]) s')" by (intro Suc.IH) simp_all
        then show "consumes (length s) (object_loop F pv k (cs @ [c]) s')"
          using \<open>length s' < length s1\<close> s1 by (auto intro: consumes_mono)
      qed (use s1 Suc.prems in simp_all)
    qed (use True in blast)
    then show ?thesis using True by simp
  qed (cases s; simp)
qed simp

lemma parse_array_ok:
  assumes pv: "progress n pv" and l: "length s \<le> n" "s \<noteq> []"
  shows "consumes (length s) (parse_array F pv n s)"
  unfolding parse_array_def
proof (rule run_ok_bind [OF skip_tl_ok])
  fix s1 :: bytes assume s1: "length s1 < length s"
  have "consumes (length s) (run_bind (skip s1) (\<lambda>s. run_bind (pv s) (\<lambda>(c, s). run_bind (skip s) (array_loop F pv n [c]))))"
  proof (rule run_ok_bind [OF skip_ok])
    fix s2 :: bytes assume s2: "length s2 \<le> length s1"
    show "consumes (length s) (run_bind (pv s2) (\<lambda>(c, s). run_bind (skip s) (array_loop F pv n [c])))"
    proof (rule value_skip_ok [OF pv])
      show "length s2 < n" using s1 s2 l by simp
      fix c and s' :: bytes assume "length s' < length s2"
      with s1 s2 l array_loop_ok [OF pv, of s' n F "[c]"] show "consumes (length s) (array_loop F pv n [c] s')"
        by (auto intro: consumes_mono)
    qed
  qed
  with s1 show "consumes (length s) (if looks_at 0x5D s1 then Ret (json_of_type F JSON_ARRAY, tl s1)
      else run_bind (skip s1) (\<lambda>s. run_bind (pv s) (\<lambda>(c, s). run_bind (skip s) (\<lambda>s. array_loop F pv n [c] s))))"
    by auto
qed (use l in blast)

lemma parse_object_ok:
  assumes pv: "progress n pv" and l: "length s \<le> n" "s \<noteq> []"
  shows "consumes (length s) (parse_object F pv n s)"
  unfolding parse_object_def
proof (rule run_ok_bind [OF skip_tl_ok])
  fix s1 :: bytes assume s1: "length s1 < length s"
  have "consumes (length s) (run_bind (skip s1) (\<lambda>s. run_bind (parse_member pv s) (\<lambda>(c, s). object_loop F pv n [c] s)))"
  proof (rule run_ok_bind [OF skip_ok])
    fix s2 :: bytes assume s2: "length s2 \<le> length s1"
    show "consumes (length s) (run_bind (parse_member pv s2) (\<lambda>(c, s). object_loop F pv n [c] s))"
    proof (intro member_loop_ok [OF pv, of _ n])
      fix c and s' :: bytes assume s': "length s' < length s2"
      with s1 s2 l object_loop_ok [OF pv, of s' n F "[c]"] show "consumes (length s) (object_loop F pv n [c] s')"
        by (auto intro: consumes_mono)
    qed (use s1 s2 l in simp_all)
  qed
  with s1 show "consumes (length s) (if looks_at 0x7D s1 then Ret (json_of_type F JSON_OBJECT, tl s1)
      else run_bind (skip s1) (\<lambda>s. run_bind (parse_member pv s) (\<lambda>(c, s). object_loop F pv n [c] s)))"
    by auto
qed (use l in blast)

lemma parse_value_progress: "progress n (parse_value F n)"
proof (induction n)
  case (Suc n)
  show ?case unfolding progress_def
  proof (intro allI impI)
    fix s :: bytes assume l: "length s < Suc n"
    then show "consumes (length s) (parse_value F (Suc n) s)"
      using parse_scalar_progress [of F s] parse_array_ok [OF Suc, of s F] parse_object_ok [OF Suc, of s F]
      by (cases "parse_scalar F s") (auto split: sum.splits)
  qed
qed (simp add: progress_def)

text \<open>C23: The parser ends on every text, well formed or not: it runs through at most as many nested values and
  loop rounds as the text has bytes.\<close>

theorem json_parse_terminates: "tr50_json_parse F text \<noteq> OutOfFuel"
proof -
  have "run_ok (\<lambda>c. True) (tr50_json_parse F text)"
    unfolding tr50_json_parse_def
  proof (rule run_ok_bind [OF skip_ok])
    fix s :: bytes assume "length s \<le> length text"
    then show "run_ok (\<lambda>c. True) (run_bind (parse_value F (length text + 1) s) (\<lambda>(c, s). Ret c))"
      using progressD [OF parse_value_progress [of "length text + 1" F], of s]
      by (intro run_ok_bind [where P = "\<lambda>(c, s'). length s' < length s"]) (auto simp del: parse_value.simps)
  qed
  then show ?thesis by auto
qed

end
