(* ===== verification/Tr50_Json_Round.thy ===== *)
theory Tr50_Json_Round
  imports Tr50_Json_Ends Complex_Main
begin

section \<open>What the JSON printer writes the parser reads\<close>

text \<open>
  A document (\<open>doc\<close>) is what a program builds with the library's constructors: \<open>doc_json\<close> is its tree,
  \<open>doc_text\<close> its text.  The lemmas go through the functions of the parser one by one; the properties
  are the round trip and the places where the parser and the printer leave their blocks.
\<close>

subsection \<open>Documents\<close>

datatype doc = DNull | DFalse | DTrue | DInt int | DStr bytes | DArr "doc list" | DObj "(bytes \<times> doc) list"

definition quoted :: "bytes \<Rightarrow> bytes" where
  "quoted s = [0x22] @ concat (map escape s) @ [0x22]"

fun doc_text :: "doc \<Rightarrow> bytes" where
  "doc_text DNull = lit_null"
| "doc_text DFalse = lit_false"
| "doc_text DTrue = lit_true"
| "doc_text (DInt n) = print_lld n"
| "doc_text (DStr s) = quoted s"
| "doc_text (DArr ds) = [0x5B] @ join (map doc_text ds) @ [0x5D]"
| "doc_text (DObj ms) = [0x7B] @ join (map (\<lambda>(k, d). quoted k @ [0x3A] @ doc_text d) ms) @ [0x7D]"

fun doc_json :: "'d doubles \<Rightarrow> doc \<Rightarrow> 'd json" where
  "doc_json F DNull = tr50_json_create_null F"
| "doc_json F DFalse = tr50_json_create_false F"
| "doc_json F DTrue = Json JSON_TRUE None 1 0 (d_of_int F 0) None 0 []"
| "doc_json F (DInt n) = tr50_json_create_integer F n"
| "doc_json F (DStr s) = tr50_json_create_string F (Some s)"
| "doc_json F (DArr ds) = with_child (map (doc_json F) ds) (tr50_json_create_array F)"
| "doc_json F (DObj ms) = with_child (map (\<lambda>(k, d). with_string (Some k) (doc_json F d)) ms) (tr50_json_create_object F)"

text \<open>The characters that the printer keeps, and the integers that survive \<open>double\<close>.\<close>

definition char_ok :: "byte \<Rightarrow> bool" where
  "char_ok b \<longleftrightarrow> b > 31 \<or> b \<in> {8, 9, 10, 12, 13}"

fun doc_ok :: "doc \<Rightarrow> bool" where
  "doc_ok (DInt n) \<longleftrightarrow> \<bar>n\<bar> \<le> 2 ^ 53"
| "doc_ok (DStr s) \<longleftrightarrow> list_all char_ok s"
| "doc_ok (DArr ds) \<longleftrightarrow> list_all doc_ok ds"
| "doc_ok (DObj ms) \<longleftrightarrow> list_all (\<lambda>(k, d). list_all char_ok k \<and> doc_ok d) ms"
| "doc_ok _ \<longleftrightarrow> True"

definition exact_doubles :: "'d doubles \<Rightarrow> bool" where
  "exact_doubles F \<longleftrightarrow> (\<forall>x. d_near F x x) \<and> (\<forall>s n. 0 \<le> n \<and> n \<le> 2 ^ 53 \<and> (s = 1 \<or> s = - 1 \<and> 0 < n) \<longrightarrow>
     d_longlong F (d_mul F (d_of_int F s) (d_of_int F n)) = s * n \<and>
     d_mul F (d_mul F (d_of_int F s) (d_of_int F n)) (d_pow10 F (d_of_int F 0)) = d_of_int F (s * n))"

subsection \<open>Strings\<close>

lemma char_ok_escape:
  assumes "char_ok b"
  shows "(b > 31 \<and> b \<noteq> 0x22 \<and> b \<noteq> 0x5C \<and> escape b = [b]) \<or> (\<exists>e. escape b = [0x5C, e] \<and> e \<noteq> 0x75 \<and> unescape e = b)"
  using assms by (auto simp: char_ok_def escape_def unescape_def)

lemma string_len_escape:
  "list_all char_ok s \<Longrightarrow> string_len (concat (map escape s) @ 0x22 # rest) = Ret (length s)"
proof (induction s)
  case (Cons b s)
  then have b: "char_ok b" and IH: "string_len (concat (map escape s) @ 0x22 # rest) = Ret (length s)" by auto
  from char_ok_escape [OF b] show ?case
    by (elim disjE exE conjE; subst string_len.simps) (auto simp: IH)
qed (subst string_len.simps, simp)

lemma string_body_escape:
  "list_all char_ok s \<Longrightarrow> string_body (concat (map escape s) @ 0x22 # rest) = Ret (s, 0x22 # rest)"
proof (induction s)
  case (Cons b s)
  then have b: "char_ok b" and IH: "string_body (concat (map escape s) @ 0x22 # rest) = Ret (s, 0x22 # rest)" by auto
  from char_ok_escape [OF b] show ?case
    by (elim disjE exE conjE; subst string_body.simps) (auto simp: IH)
qed (subst string_body.simps, simp)

lemma char_ok_nonzero: "list_all char_ok s \<Longrightarrow> takeWhile (\<lambda>b. b \<noteq> 0) s = s"
  by (induction s) (auto simp: char_ok_def)

lemma parse_c_string_quoted:
  "list_all char_ok s \<Longrightarrow> parse_c_string (quoted s @ rest) = Ret (s, rest)"
  by (simp add: parse_c_string_def quoted_def string_len_escape string_body_escape char_ok_nonzero)

subsection \<open>Numbers\<close>

lemma digit_of_nat: "k < 10 \<Longrightarrow> is_digit (of_nat (48 + k)) \<and> digit_val (of_nat (48 + k)) = int k"
proof -
  assume "k < 10"
  then have "k \<in> {0, 1, 2, 3, 4, 5, 6, 7, 8, 9}" by auto
  then show ?thesis by (auto simp: is_digit_def digit_val_def)
qed

lemma parse_nat_digits:
  "int k < bound \<Longrightarrow> parse_digits bound 0 (nat_digits k @ rest) = parse_digits bound (int k) rest"
proof (induction k arbitrary: rest rule: nat_digits.induct)
  case (1 k)
  show ?case
  proof (cases "k < 10")
    case True
    then show ?thesis using "1.prems" digit_of_nat [of k] by (simp add: nat_digits.simps [of k] del: of_nat_add)
  next
    case False
    have d: "is_digit (of_nat (48 + k mod 10))" "digit_val (of_nat (48 + k mod 10)) = int (k mod 10)"
      using digit_of_nat [of "k mod 10"] by simp_all
    have b: "int (k div 10) < bound" using "1.prems" by (simp add: zdiv_int)
    have e: "int (k div 10) * 10 + int (k mod 10) = int k"
      by (metis div_mult_mod_eq of_nat_add of_nat_mult of_nat_numeral)
    have "parse_digits bound 0 (nat_digits k @ rest) =
        parse_digits bound (int (k div 10)) (of_nat (48 + k mod 10) # rest)"
      using "1.IH" [OF False b, of "of_nat (48 + k mod 10) # rest"] False
      by (simp add: nat_digits.simps [of k] del: of_nat_add)
    also have "\<dots> = parse_digits bound (int k) rest"
      using "1.prems" by (simp add: d e del: of_nat_add)
    finally show ?thesis .
  qed
qed

lemma nat_digits_hd:
  "is_digit (hd (nat_digits k)) \<and> nat_digits k \<noteq> [] \<and> (0 < k \<longrightarrow> hd (nat_digits k) \<noteq> 0x30)"
proof (induction k rule: nat_digits.induct)
  case (1 k)
  show ?case
  proof (cases "k < 10")
    case True
    then have "k \<in> {0, 1, 2, 3, 4, 5, 6, 7, 8, 9}" by auto
    then show ?thesis by (auto simp: nat_digits.simps [of k] is_digit_def)
  next
    case False
    then show ?thesis using "1.IH" [OF False] by (simp add: nat_digits.simps [of k])
  qed
qed

definition delimited :: "bytes \<Rightarrow> bool" where
  "delimited rest \<longleftrightarrow> rest \<noteq> [] \<and> \<not> is_digit (hd rest) \<and> hd rest \<notin> {0x2E, 0x65, 0x45}"

lemma parse_digits_stop: "rest \<noteq> [] \<Longrightarrow> \<not> is_digit (hd rest) \<Longrightarrow> parse_digits bound n rest = Ret (n, rest)"
  by (cases rest) auto

lemma parse_integer_nat:
  assumes "int k < 2 ^ 63" "delimited rest"
  shows "parse_integer (nat_digits k @ rest) = Ret (1, int k, rest)"
    "parse_integer (0x2D # nat_digits k @ rest) = Ret (- 1, int k, rest)"
proof -
  have r: "rest \<noteq> []" "\<not> is_digit (hd rest)" using assms(2) by (simp_all add: delimited_def)
  obtain b bs where d: "nat_digits k = b # bs" using nat_digits_hd [of k] by (cases "nat_digits k") auto
  have b: "is_digit b" "0 < k \<Longrightarrow> b \<noteq> 0x30" using nat_digits_hd [of k] d by auto
  have b2: "b \<noteq> 0x2D" using b(1) by (auto simp: is_digit_def)
  have z: "k = 0 \<Longrightarrow> b = 0x30 \<and> bs = []" using d by (auto simp: nat_digits.simps [of 0])
  have p: "parse_digits (2 ^ 63) 0 (b # bs @ rest) = Ret (int k, rest)"
    using parse_nat_digits [OF assms(1), of rest] parse_digits_stop [OF r] d by simp
  have 1: "parse_integer (b # bs @ rest) = Ret (1, int k, rest)"
    using b b2 z p r by (cases "k = 0"; cases rest) (auto simp: parse_integer_def)
  have 2: "parse_integer (0x2D # b # bs @ rest) = Ret (- 1, int k, rest)"
    using b b2 z p r by (cases "k = 0"; cases rest) (auto simp: parse_integer_def)
  from 1 2 show "parse_integer (nat_digits k @ rest) = Ret (1, int k, rest)"
    "parse_integer (0x2D # nat_digits k @ rest) = Ret (- 1, int k, rest)"
    by (simp_all add: d)
qed

lemma parse_print_lld:
  assumes F: "exact_doubles F" and n: "\<bar>n\<bar> \<le> 2 ^ 53" and r: "delimited rest"
  shows "parse_number F (print_lld n @ rest) = Ret (tr50_json_create_integer F n, rest)"
proof -
  define k where "k = nat \<bar>n\<bar>"
  define sg where "sg = (if n < 0 then - 1 else 1 :: int)"
  have k: "int k < 2 ^ 63" "0 \<le> int k" "int k \<le> 2 ^ 53" "sg * int k = n" "sg = 1 \<or> sg = - 1 \<and> 0 < int k"
    using n by (auto simp: k_def sg_def)
  have p: "parse_integer (print_lld n @ rest) = Ret (sg, int k, rest)"
    using parse_integer_nat [OF k(1) r] by (auto simp: print_lld_def k_def sg_def)
  have e: "d_longlong F (d_mul F (d_of_int F sg) (d_of_int F (int k))) = n"
    "d_mul F (d_mul F (d_of_int F sg) (d_of_int F (int k))) (d_pow10 F (d_of_int F 0)) = d_of_int F n"
    using F k(2,3,4,5) unfolding exact_doubles_def by blast+
  have a: "\<not> looks_at 0x2E rest" "rest \<noteq> []" "hd rest \<noteq> 0x65 \<and> hd rest \<noteq> 0x45"
    using r by (cases rest; auto simp: delimited_def)+
  show ?thesis
    using a by (simp add: parse_number_def p number_item_def Let_def e tr50_json_create_integer_def)
qed

subsection \<open>Values\<close>

lemma join_tail: "join (x # xs) = x @ concat (map ((#) 0x2C) xs)"
  by (induction xs arbitrary: x) auto

lemma print_lld_hd: "print_lld n \<noteq> [] \<and> (hd (print_lld n) = 0x2D \<or> is_digit (hd (print_lld n)))"
  using nat_digits_hd by (auto simp: print_lld_def)

lemma is_digit_cases: "is_digit b \<Longrightarrow> b \<notin> {0x6E, 0x66, 0x74, 0x22, 0x2D, 0x5B, 0x7B, 0x5D, 0x7D, 0x2C} \<and> b > 32 \<and> b \<noteq> 0"
  by (auto simp: is_digit_def word_le_nat_alt word_less_nat_alt)

text \<open>How a document begins.\<close>

lemma doc_text_hd:
  "\<exists>b bs. doc_text d = b # bs \<and> b > 32 \<and> b \<noteq> 0x5D \<and> b \<noteq> 0x7D"
proof (cases d)
  case (DInt n)
  then show ?thesis using print_lld_hd [of n] is_digit_cases by (cases "print_lld n") auto
qed (auto simp: lit_null_def lit_false_def lit_true_def quoted_def)

lemma skip_doc: "skip (doc_text d @ rest) = Ret (doc_text d @ rest)"
  using doc_text_hd [of d] by auto

lemma skip_id: "b > 32 \<Longrightarrow> skip (b # rest) = Ret (b # rest)"
  by auto

lemma parse_scalar_other:
  assumes "b \<notin> {0x6E, 0x66, 0x74}"
  shows "parse_scalar F (b # s) =
    (if b = 0x22 then run_bind (parse_string F (b # s)) (\<lambda>r. Ret (Inl r))
     else if b = 0x2D \<or> is_digit b then run_bind (parse_number F (b # s)) (\<lambda>r. Ret (Inl r))
     else if b = 0x5B \<or> b = 0x7B then Ret (Inr (b # s)) else Null)"
  using assms by (simp add: parse_scalar_def lit_null_def lit_false_def lit_true_def)

lemma array_loop_docs:
  assumes "\<And>d rest. d \<in> set ds \<Longrightarrow> delimited rest \<Longrightarrow> pv (doc_text d @ rest) = Ret (doc_json F d, rest)"
  shows "length ds < k \<Longrightarrow> array_loop F pv k cs (concat (map (\<lambda>x. 0x2C # doc_text x) ds) @ 0x5D # rest) =
    Ret (with_child (cs @ map (doc_json F) ds) (json_of_type F JSON_ARRAY), rest)"
  using assms
proof (induction ds arbitrary: k cs)
  case Nil
  from Nil.prems(1) show ?case by (cases k) auto
next
  case (Cons d ds)
  then obtain k' where k: "k = Suc k'" "length ds < k'" by (cases k) auto
  define tail where "tail = concat (map (\<lambda>x. 0x2C # doc_text x) ds) @ 0x5D # rest"
  have t: "delimited tail" "skip tail = Ret tail"
    by (cases ds; simp add: tail_def delimited_def is_digit_def)+
  have pv: "pv (doc_text d @ tail) = Ret (doc_json F d, tail)" using Cons.prems(2) t(1) by simp
  have "array_loop F pv k' (cs @ [doc_json F d]) tail =
      Ret (with_child (cs @ doc_json F d # map (doc_json F) ds) (json_of_type F JSON_ARRAY), rest)"
    using Cons.IH [OF k(2), of "cs @ [doc_json F d]"] Cons.prems(2) by (simp add: tail_def)
  then show ?case using pv t(2) by (simp add: k(1) skip_doc flip: tail_def)
qed

definition member_text :: "bytes \<times> doc \<Rightarrow> bytes" where
  "member_text m = quoted (fst m) @ [0x3A] @ doc_text (snd m)"

definition member_json :: "'d doubles \<Rightarrow> bytes \<times> doc \<Rightarrow> 'd json" where
  "member_json F m = with_string (Some (fst m)) (doc_json F (snd m))"

lemma parse_member_doc:
  assumes "list_all char_ok k" "delimited rest" "hd rest > 32" "pv (doc_text d @ rest) = Ret (doc_json F d, rest)"
  shows "parse_member pv (member_text (k, d) @ rest) = Ret (member_json F (k, d), rest)"
proof -
  have "skip rest = Ret rest" using assms(2,3) by (cases rest) (auto simp: delimited_def)
  then show ?thesis
    using assms(1,4) by (simp add: parse_member_def member_text_def member_json_def parse_c_string_quoted skip_doc)
qed

lemma object_loop_docs:
  assumes "\<And>m rest. m \<in> set ms \<Longrightarrow> delimited rest \<Longrightarrow> hd rest > 32 \<Longrightarrow> list_all char_ok (fst m) \<and>
    pv (doc_text (snd m) @ rest) = Ret (doc_json F (snd m), rest)"
  shows "length ms < k \<Longrightarrow> object_loop F pv k cs (concat (map (\<lambda>x. 0x2C # member_text x) ms) @ 0x7D # rest) =
    Ret (with_child (cs @ map (member_json F) ms) (json_of_type F JSON_OBJECT), rest)"
  using assms
proof (induction ms arbitrary: k cs)
  case Nil
  from Nil.prems(1) show ?case by (cases k) auto
next
  case (Cons m ms)
  then obtain k' where k: "k = Suc k'" "length ms < k'" by (cases k) auto
  define tail where "tail = concat (map (\<lambda>x. 0x2C # member_text x) ms) @ 0x7D # rest"
  have t: "delimited tail" "hd tail > 32"
    by (cases ms; simp add: tail_def delimited_def is_digit_def)+
  have pm: "parse_member pv (member_text m @ tail) = Ret (member_json F m, tail)"
    using Cons.prems(2) [of m tail] t parse_member_doc [of "fst m" tail pv "snd m" F] by simp
  have s: "skip (member_text m @ tail) = Ret (member_text m @ tail)"
    by (simp add: member_text_def quoted_def)
  have "object_loop F pv k' (cs @ [member_json F m]) tail =
      Ret (with_child (cs @ member_json F m # map (member_json F) ms) (json_of_type F JSON_OBJECT), rest)"
    using Cons.IH [OF k(2), of "cs @ [member_json F m]"] Cons.prems(2) by (simp add: tail_def)
  then show ?case using pm s by (simp add: k(1) flip: tail_def)
qed

lemma length_concat_ge: "length ds \<le> length (concat (map (\<lambda>x. b # f x) ds))"
  by (induction ds) auto

lemma member_split: "(\<lambda>(k, d). quoted k @ 0x3A # doc_text d) = member_text"
  "(\<lambda>(k, d). with_string (Some k) (doc_json F d)) = member_json F"
  by (auto simp: fun_eq_iff member_text_def member_json_def)

lemma doc_text_obj: "doc_text (DObj ms) = 0x7B # join (map member_text ms) @ [0x7D]"
  by (simp add: member_split)

lemma doc_json_obj: "doc_json F (DObj ms) = with_child (map (member_json F) ms) (tr50_json_create_object F)"
  by (simp add: member_split)

lemma parse_value_doc:
  "exact_doubles F \<Longrightarrow> doc_ok d \<Longrightarrow> delimited rest \<Longrightarrow> length (doc_text d) \<le> n \<Longrightarrow>
   parse_value F (Suc n) (doc_text d @ rest) = Ret (doc_json F d, rest)"
proof (induction d arbitrary: rest n)
  case DNull
  then show ?case by (simp add: parse_scalar_def lit_null_def tr50_json_create_null_def)
next
  case DFalse
  then show ?case by (simp add: parse_scalar_def lit_null_def lit_false_def tr50_json_create_false_def)
next
  case DTrue
  then show ?case by (simp add: parse_scalar_def lit_null_def lit_false_def lit_true_def)
next
  case (DInt i)
  obtain b bs where p: "print_lld i = b # bs" "b = 0x2D \<or> is_digit b" using print_lld_hd [of i] by (cases "print_lld i") auto
  have "parse_number F (b # bs @ rest) = Ret (tr50_json_create_integer F i, rest)"
    using parse_print_lld [of F i rest] DInt p by simp
  then show ?case
    using p is_digit_cases [of b] by (auto simp: parse_scalar_other)
next
  case (DStr s)
  have "parse_c_string (quoted s @ rest) = Ret (s, rest)" using DStr by (simp add: parse_c_string_quoted)
  then show ?case
    by (simp add: quoted_def parse_scalar_other parse_string_def tr50_json_create_string_def tr50_json_strdup_def)
next
  case (DArr ds)
  show ?case
  proof (cases ds)
    case Nil
    then show ?thesis using DArr.prems by (cases n) (auto simp: parse_scalar_other parse_array_def is_digit_def
        tr50_json_create_array_def with_child_def json_of_type_def)
  next
    case (Cons e es)
    define tail where "tail = concat (map (\<lambda>x. 0x2C # doc_text x) es) @ 0x5D # rest"
    have tx: "doc_text (DArr ds) @ rest = 0x5B # doc_text e @ tail"
      using join_tail [of "doc_text e" "map doc_text es"] by (simp add: Cons tail_def comp_def)
    have t: "delimited tail" "skip tail = Ret tail" by (cases es; simp add: tail_def delimited_def is_digit_def)+
    have "length (doc_text (DArr ds)) = length (doc_text e) + length (concat (map (\<lambda>x. 0x2C # doc_text x) es)) + 2"
      using join_tail [of "doc_text e" "map doc_text es"] by (simp add: Cons comp_def)
    with DArr.prems(4) have n: "length (doc_text e) + length (concat (map (\<lambda>x. 0x2C # doc_text x) es)) + 2 \<le> n" by simp
    then obtain n' where n': "n = Suc n'" by (cases n) auto
    have el: "parse_value F n (doc_text d @ r) = Ret (doc_json F d, r)" if "d \<in> set ds" "delimited r" for d r
    proof -
      have "length (doc_text d) \<le> length (doc_text e) + length (concat (map (\<lambda>x. 0x2C # doc_text x) es))"
        using that(1) Cons by (auto simp: length_concat sum_list_map_remove1 dest!: split_list)
      with n n' have "length (doc_text d) \<le> n'" by simp
      moreover have "doc_ok d" using DArr.prems(2) that(1) by (simp add: list_all_iff)
      ultimately show ?thesis using DArr.IH [OF that(1) DArr.prems(1) _ that(2), of n'] by (simp add: n')
    qed
    have loop: "array_loop F (parse_value F n) n [doc_json F e] tail =
        Ret (with_child ([doc_json F e] @ map (doc_json F) es) (json_of_type F JSON_ARRAY), rest)"
      unfolding tail_def
    proof (rule array_loop_docs)
      show "length es < n" using n length_concat_ge [of es "0x2C" doc_text] by simp
    qed (use el Cons in simp)
    obtain b bs where b: "doc_text e = b # bs" "b > 32" "b \<noteq> 0x5D" using doc_text_hd [of e] by auto
    have pe: "parse_value F n (doc_text e @ tail) = Ret (doc_json F e, tail)" using el [of e tail] t(1) Cons by simp
    have "parse_array F (parse_value F n) n (0x5B # doc_text e @ tail) = Ret (doc_json F (DArr ds), rest)"
      using loop t(2) pe b by (simp add: parse_array_def Cons tr50_json_create_array_def skip_id del: skip.simps)
    then show ?thesis
      unfolding tx by (simp add: parse_scalar_other is_digit_def)
  qed
next
  case (DObj ms)
  show ?case
  proof (cases ms)
    case Nil
    then show ?thesis using DObj.prems by (cases n) (auto simp: parse_scalar_other parse_object_def is_digit_def
        tr50_json_create_object_def with_child_def json_of_type_def)
  next
    case (Cons e es)
    define tail where "tail = concat (map (\<lambda>x. 0x2C # member_text x) es) @ 0x7D # rest"
    have tx: "doc_text (DObj ms) @ rest = 0x7B # member_text e @ tail"
      using join_tail [of "member_text e" "map member_text es"] unfolding doc_text_obj by (simp add: Cons tail_def comp_def)
    have t: "delimited tail" "hd tail > 32" by (cases es; simp add: tail_def delimited_def is_digit_def)+
    have "length (doc_text (DObj ms)) = length (member_text e) + length (concat (map (\<lambda>x. 0x2C # member_text x) es)) + 2"
      using join_tail [of "member_text e" "map member_text es"] unfolding doc_text_obj by (simp add: Cons comp_def)
    with DObj.prems(4) have n: "length (member_text e) + length (concat (map (\<lambda>x. 0x2C # member_text x) es)) + 2 \<le> n" by simp
    then obtain n' where n': "n = Suc n'" by (cases n) auto
    have el: "list_all char_ok (fst m) \<and> parse_value F n (doc_text (snd m) @ r) = Ret (doc_json F (snd m), r)"
      if "m \<in> set ms" "delimited r" for m r
    proof -
      have "length (member_text m) \<le> length (member_text e) + length (concat (map (\<lambda>x. 0x2C # member_text x) es))"
        using that(1) Cons by (auto simp: length_concat dest!: split_list)
      then have "length (doc_text (snd m)) \<le> length (member_text e) + length (concat (map (\<lambda>x. 0x2C # member_text x) es))"
        by (simp add: member_text_def)
      with n n' have "length (doc_text (snd m)) \<le> n'" by simp
      moreover have "list_all char_ok (fst m)" "doc_ok (snd m)" using DObj.prems(2) that(1) by (auto simp: list_all_iff)
      ultimately show ?thesis using DObj.IH [OF that(1) _ DObj.prems(1) _ that(2), of "snd m" n'] by (simp add: n' snds.simps)
    qed
    have loop: "object_loop F (parse_value F n) n [member_json F e] tail =
        Ret (with_child ([member_json F e] @ map (member_json F) es) (json_of_type F JSON_OBJECT), rest)"
      unfolding tail_def
    proof (rule object_loop_docs)
      show "length es < n" using n length_concat_ge [of es "0x2C" member_text] by simp
    qed (use el Cons in simp)
    have pe: "parse_member (parse_value F n) (member_text e @ tail) = Ret (member_json F e, tail)"
      using el [of e tail] t Cons parse_member_doc [of "fst e" tail "parse_value F n" "snd e" F] by simp
    have "parse_object F (parse_value F n) n (0x7B # member_text e @ tail) = Ret (doc_json F (DObj ms), rest)"
      using loop pe by (simp add: parse_object_def Cons tr50_json_create_object_def member_text_def quoted_def member_split)
    then show ?thesis
      unfolding tx by (simp add: parse_scalar_other is_digit_def)
  qed
qed


subsection \<open>Printing\<close>

lemma print_nat_length: "k < 10 ^ j \<Longrightarrow> 0 < j \<Longrightarrow> length (nat_digits k) \<le> j"
proof (induction j arbitrary: k)
  case (Suc j)
  show ?case
  proof (cases "k < 10")
    case False
    then have "k div 10 < 10 ^ j" "0 < j" using Suc.prems(1) by (auto simp: less_mult_imp_div_less intro: Suc_lessD gr0I)
    with Suc.IH [of "k div 10"] False show ?thesis by (simp add: nat_digits.simps [of k])
  qed (simp add: nat_digits.simps [of k])
qed simp

lemma print_lld_length: "\<bar>n\<bar> \<le> 2 ^ 53 \<Longrightarrow> length (print_lld n) \<le> 17"
proof -
  assume "\<bar>n\<bar> \<le> 2 ^ 53"
  then have "nat \<bar>n\<bar> < 10 ^ 16" by (simp add: nat_less_iff)
  from print_nat_length [OF this] have "length (nat_digits (nat \<bar>n\<bar>)) \<le> 16" by simp
  then show ?thesis by (auto simp: print_lld_def)
qed

lemma run_list_map: "(\<And>x. x \<in> set xs \<Longrightarrow> f x = Ret (g x)) \<Longrightarrow> run_list (map f xs) = Ret (map g xs)"
  by (induction xs) auto

lemma print_array_docs:
  assumes "\<And>d. d \<in> set ds \<Longrightarrow> pv (doc_json F d) = Ret (doc_text d)"
  shows "print_array pv (map (doc_json F) ds) = Ret ([0x5B] @ join (map doc_text ds) @ [0x5D])"
  using run_list_map [of ds "pv \<circ> doc_json F" doc_text] assms by (simp add: print_array_def)

lemma print_object_docs:
  assumes "\<And>m. m \<in> set ms \<Longrightarrow> pv (member_json F m) = Ret (doc_text (snd m))"
  shows "print_object pv (map (member_json F) ms) = Ret ([0x7B] @ join (map member_text ms) @ [0x7D])"
proof -
  have "run_list (map (\<lambda>m. run_bind (pv (member_json F m)) (\<lambda>e. Ret (print_string_ptr (jstring (member_json F m)) @ [0x3A] @ e))) ms) =
      Ret (map member_text ms)"
    using assms by (intro run_list_map) (simp add: member_json_def member_text_def with_string_def print_string_ptr_def quoted_def)
  then show ?thesis by (simp add: print_object_def comp_def)
qed

lemma json_type_and [simp]:
  "JSON_FALSE AND 255 = 0" "JSON_TRUE AND 255 = 1" "JSON_NULL AND 255 = 2" "JSON_NUMBER AND 255 = 3"
  "JSON_STRING AND 255 = 4" "JSON_ARRAY AND 255 = 5" "JSON_OBJECT AND 255 = 6"
  by (simp_all add: json_types)

lemma print_with_string: "print_value F (with_string s c) = print_value F c"
  by (cases c) (simp add: with_string_def print_number_def print_string_def)

lemma print_value_doc: "exact_doubles F \<Longrightarrow> doc_ok d \<Longrightarrow> print_value F (doc_json F d) = Ret (doc_text d)"
proof (induction d)
  case (DInt n)
  have "length (print_lld n) + 1 \<le> 21" using print_lld_length [of n] DInt by simp
  moreover have "d_near F x x" for x using DInt by (simp add: exact_doubles_def)
  ultimately show ?case
    by (simp add: tr50_json_create_integer_def json_types print_number_def Let_def)
next
  case (DArr ds)
  have "print_value F (doc_json F d) = Ret (doc_text d)" if "d \<in> set ds" for d
    using DArr that by (simp add: list_all_iff)
  from print_array_docs [OF this] show ?case
    by (simp add: tr50_json_create_array_def json_of_type_def with_child_def json_types)
next
  case (DObj ms)
  have "print_value F (member_json F m) = Ret (doc_text (snd m))" if "m \<in> set ms" for m
    using DObj.IH [OF that, of "snd m"] DObj.prems that
    by (auto simp: list_all_iff member_json_def print_with_string snds.simps)
  from print_object_docs [OF this] show ?case
    unfolding doc_text_obj doc_json_obj by (simp add: tr50_json_create_object_def json_of_type_def with_child_def json_types)
qed (simp_all add: tr50_json_create_null_def tr50_json_create_false_def json_of_type_def json_types
    tr50_json_create_string_def print_string_def print_string_ptr_def quoted_def tr50_json_strdup_def)

subsection \<open>Properties\<close>

lemma json_roundtrip_lemma:
  assumes "exact_doubles F" "doc_ok d"
  shows "tr50_json_print F (doc_json F d) = Ret (doc_text d)" "tr50_json_parse F (doc_text d @ [0]) = Ret (doc_json F d)"
proof -
  have "parse_value F (Suc (length (doc_text d @ [0]))) (doc_text d @ [0]) = Ret (doc_json F d, [0])"
    by (rule parse_value_doc [OF assms]) (simp_all add: delimited_def is_digit_def)
  then show "tr50_json_parse F (doc_text d @ [0]) = Ret (doc_json F d)"
    by (simp add: tr50_json_parse_def skip_doc del: parse_value.simps)
  show "tr50_json_print F (doc_json F d) = Ret (doc_text d)"
    by (simp add: tr50_json_print_def print_value_doc [OF assms])
qed


text \<open>Exact rational arithmetic in the place of \<open>double\<close>.\<close>

definition rat_trunc :: "rat \<Rightarrow> int" where
  "rat_trunc x = (if x \<ge> 0 then \<lfloor>x\<rfloor> else \<lceil>x\<rceil>)"

definition rat_doubles :: "rat doubles" where
  "rat_doubles = \<lparr>d_of_int = of_int, d_int = rat_trunc, d_uint = rat_trunc, d_longlong = rat_trunc, d_add = (+), d_mul = (*),
     d_pow10 = (\<lambda>x. if x \<ge> 0 then 10 ^ nat \<lfloor>x\<rfloor> else 1 / 10 ^ nat \<lfloor>- x\<rfloor>), d_near = (=), d_whole = (\<lambda>x. of_int \<lfloor>x\<rfloor> = x),
     d_extreme = (\<lambda>x. \<bar>x\<bar> > 10 ^ 9), d_print_f0 = (\<lambda>x. print_lld \<lfloor>x\<rfloor>), d_print_e = (\<lambda>x. []), d_print_f = (\<lambda>x. [])\<rparr>"

lemma rat_doubles_exact: "exact_doubles rat_doubles"
  by (auto simp: exact_doubles_def rat_doubles_def rat_trunc_def ceiling_def)


text \<open>Some texts make the parser read behind the terminating zero of its input: a string that ends in a
  backslash, and a number that ends in a decimal point.\<close>

theorem json_parse_overreads:
  "tr50_json_parse F [0x22, 0x5C, 0] = Undefined \<and> tr50_json_parse F [0x31, 0x2E, 0] = Undefined"
proof -
  have "parse_c_string [0x22, 0x5C, 0] = Undefined"
    by (simp add: parse_c_string_def string_len.simps [of "[0x5C, 0]"] string_len.simps [of "[]"])
  moreover have "parse_number F [0x31, 0x2E, 0] = Undefined"
    by (simp add: parse_number_def parse_integer_def parse_fraction_def is_digit_def digit_val_def)
  ultimately show ?thesis
    by (simp add: tr50_json_parse_def parse_scalar_other parse_string_def is_digit_def)
qed

text \<open>A number whose decimal rendering is longer than 63 characters, such as 1e300, is printed over the end of
  its block; a shorter one never is.\<close>

theorem print_number_overflow_iff:
  assumes "\<not> d_near F (d_of_int F (jlonglong item)) (jdouble item)"
  shows "print_number F item = Undefined \<longleftrightarrow>
    63 < length (if d_whole F (jdouble item) then d_print_f0 F (jdouble item)
      else if d_extreme F (jdouble item) then d_print_e F (jdouble item) else d_print_f F (jdouble item))"
  using assms by (simp add: print_number_def Let_def)

theorem print_number_overflow_iff_witness:
  "print_number (rat_doubles\<lparr>d_print_e := \<lambda>x. replicate 64 0x31\<rparr>) (Json JSON_NUMBER None 0 0 (10 ^ 20 + 1 / 2) None 0 []) = Undefined"
proof -
  let ?F = "rat_doubles\<lparr>d_print_e := \<lambda>x. replicate 64 0x31\<rparr>" and ?item = "Json JSON_NUMBER None 0 0 (10 ^ 20 + 1 / 2 :: rat) None 0 []"
  have n: "\<not> d_near ?F (d_of_int ?F (jlonglong ?item)) (jdouble ?item)" by (simp add: rat_doubles_def)
  have "\<not> d_whole ?F (jdouble ?item)" "d_extreme ?F (jdouble ?item)"
    by (code_simp)+
  with print_number_overflow_iff [OF n] show ?thesis by simp
qed

end
