(* ===== verification/Tr50_Message_Props.thy ===== *)
theory Tr50_Message_Props
  imports Tr50_Message Tr50_Json_Round
begin

section \<open>Requests and replies as text\<close>

text \<open>
  The message functions over the JSON component: a request written and read back, the two functions
  that report the error of a reply.
\<close>

lemma str_case_cmp_same [simp]: "str_case_cmp_loop s s = 0"
  by (induction s) auto

lemma cmp_same [simp]: "tr50_json_str_case_cmp s s = 0"
  by (cases s) auto

lemma with_sel [simp]:
  "jtype (with_string s c) = jtype c" "jvaluestring (with_string s c) = jvaluestring c" "jchild (with_string s c) = jchild c"
  "jstring (with_string s c) = s" "jint (with_string s c) = jint c"
  "jtype (with_child cs c) = jtype c" "jchild (with_child cs c) = cs" "jstring (with_child cs c) = jstring c"
  by (simp_all add: with_string_def with_child_def)

lemma with_child_child [simp]: "with_child cs (with_child cs' c) = with_child cs c"
  by (simp add: with_child_def)

lemma json_command_ok: "list_all char_ok json_command" "list_all char_ok json_params"
  by (simp_all add: json_command_def json_params_def cstr_def char_ok_def)

text \<open>The tree of a request with one command.\<close>

definition request_doc :: "bytes \<Rightarrow> bytes \<Rightarrow> doc \<Rightarrow> doc" where
  "request_doc cmd_id cmd d = DObj [(cmd_id, DObj [(json_command, DStr cmd), (json_params, d)])]"

lemma add_command_doc:
  "tr50_message_add_command F (Some (message_new F)) (Some cmd_id) (Some cmd) (Some (doc_json F d)) =
     (0, Some ((message_new F)\<lparr>msg_json := doc_json F (request_doc cmd_id cmd d)\<rparr>))"
  by (simp add: tr50_message_add_command_def Let_def message_new_def request_doc_def tr50_json_add_item_to_object_def
      tr50_json_add_item_to_array_def tr50_json_add_string_to_object_def tr50_json_strdup_def
      tr50_json_create_object_def json_of_type_def with_child_def)

lemma find_params: "tr50_json_str_case_cmp (Some json_command) (Some json_params) \<noteq> 0"
  by code_simp



text \<open>\<open>tr50_reply_get_error\<close> reports the code that \<open>tr50_reply_get_error_code\<close> reports, except that a reply
  that failed without saying how, and one that claims success at its root, count as successes there.\<close>

theorem reply_error_agrees:
  "\<exists>e. tr50_reply_get_error reply cmd_id False = Some (e, None) \<and>
    (tr50_reply_get_error_code reply cmd_id = e \<or>
     e = 0 \<and> tr50_reply_get_error_code reply cmd_id \<in> {ERR_TR50_CODE_MISSING, ERR_TR50_REPLY_INVALID})"
  by (auto simp: tr50_reply_get_error_def tr50_reply_get_error_code_def error_of_def first_code_def Let_def
      split: option.split)

text \<open>A reply that failed without a code.\<close>

definition failed_reply :: "unit message" where
  "failed_reply = (message_new \<lparr>d_of_int = \<lambda>n. (), d_int = \<lambda>x. 0, d_uint = \<lambda>x. 0, d_longlong = \<lambda>x. 0, d_add = \<lambda>x y. (),
      d_mul = \<lambda>x y. (), d_pow10 = \<lambda>x. (), d_near = \<lambda>x y. True, d_whole = \<lambda>x. True, d_extreme = \<lambda>x. False,
      d_print_f0 = \<lambda>x. [], d_print_e = \<lambda>x. [], d_print_f = \<lambda>x. []\<rparr>)
    \<lparr>msg_json := Json JSON_OBJECT None 0 0 () None 0 [Json JSON_OBJECT None 0 0 () (Some [0x31]) 0
      [Json JSON_FALSE None 0 0 () (Some json_success) 0 []]]\<rparr>"

text \<open>A command that failed without an error code is a success for \<open>tr50_reply_get_error\<close>, while
  \<open>tr50_reply_get_error_code\<close> reports that the code is missing.\<close>

theorem reply_error_hides_failure:
  assumes "tr50_json_get_object_item_as_bool (Some (msg_json msg)) (Some json_success) = None"
    "tr50_json_get_object_item (Some (msg_json msg)) (Some cmd_id) = Some cmd"
    "tr50_json_get_object_item_as_bool (Some cmd) (Some json_success) = Some 0"
    "tr50_json_get_object_item (Some cmd) (Some json_errorcodes) = None"
  shows "tr50_reply_get_error (Some msg) (Some cmd_id) False = Some (0, None) \<and>
    tr50_reply_get_error_code (Some msg) (Some cmd_id) = ERR_TR50_CODE_MISSING"
  using assms by (simp add: tr50_reply_get_error_def tr50_reply_get_error_code_def error_of_def first_code_def Let_def)

theorem reply_error_hides_failure_witness:
  "tr50_reply_get_error (Some failed_reply) (Some [0x31]) False = Some (0, None) \<and>
   tr50_reply_get_error_code (Some failed_reply) (Some [0x31]) = ERR_TR50_CODE_MISSING"
proof (rule reply_error_hides_failure)
  show "tr50_json_get_object_item_as_bool (Some (msg_json failed_reply)) (Some json_success) = None" by code_simp
  show "tr50_json_get_object_item (Some (msg_json failed_reply)) (Some [0x31]) =
      Some (Json JSON_OBJECT None 0 0 () (Some [0x31]) 0 [Json JSON_FALSE None 0 0 () (Some json_success) 0 []])" by code_simp
  show "tr50_json_get_object_item_as_bool (Some (Json JSON_OBJECT None 0 0 () (Some [0x31]) 0
      [Json JSON_FALSE None 0 0 () (Some json_success) 0 []])) (Some json_success) = Some 0" by code_simp
  show "tr50_json_get_object_item (Some (Json JSON_OBJECT None 0 0 () (Some [0x31]) 0
      [Json JSON_FALSE None 0 0 () (Some json_success) 0 []])) (Some json_errorcodes) = None" by code_simp
qed

end
