(* ===== verification/Tr50_Stats.thy ===== *)
theory Tr50_Stats
  imports Mqtt_Async
begin

section \<open>Statistics (tr50.stats.c)\<close>

text \<open>
  The counters of a client.  Every operation holds the mutex of the statistics.  The compression
  history is a ring of the lengths of the last 100 compressed messages; its ratio is computed in
  \<open>int\<close>, and an overflow or a division by zero there has no defined result (\<open>None\<close>).  The other
  counters are integers without a bound: nothing in the program depends on them.
\<close>

subsection \<open>State\<close>

definition TR50_COMPRESSION_HISTORY_MAX :: nat where "TR50_COMPRESSION_HISTORY_MAX = 100"
definition TR50_STATS_LAST_ERROR_MESSAGE_LEN :: nat where "TR50_STATS_LAST_ERROR_MESSAGE_LEN = 128"

record stats =
  st_pub_sent :: int
  st_pub_recv :: int
  st_pub_byte_sent :: int
  st_pub_byte_recv :: int
  st_total_sent :: int
  st_total_recv :: int
  st_connected_timestamp :: int
  st_connected_count :: int
  st_notify_count :: int
  st_mailbox_check_count :: int
  st_last_error :: int
  st_last_error_timestamp :: int
  st_last_error_message :: bytes
  st_compressed_len :: "int list"
  st_original_len :: "int list"
  st_ratio_count :: nat
  st_in_api_call_async :: int
  st_in_api_raw_async :: int

text \<open>The statistics of a new client are all zero.\<close>

definition stats_new :: stats where
  "stats_new =
     \<lparr>st_pub_sent = 0, st_pub_recv = 0, st_pub_byte_sent = 0, st_pub_byte_recv = 0, st_total_sent = 0,
      st_total_recv = 0, st_connected_timestamp = 0, st_connected_count = 0, st_notify_count = 0,
      st_mailbox_check_count = 0, st_last_error = 0, st_last_error_timestamp = 0,
      st_last_error_message = replicate (TR50_STATS_LAST_ERROR_MESSAGE_LEN + 1) 0,
      st_compressed_len = replicate TR50_COMPRESSION_HISTORY_MAX 0,
      st_original_len = replicate TR50_COMPRESSION_HISTORY_MAX 0,
      st_ratio_count = 0, st_in_api_call_async = 0, st_in_api_raw_async = 0\<rparr>"

subsection \<open>Counting\<close>

definition stats_pub_recv_up :: "stats \<Rightarrow> int \<Rightarrow> stats" where
  "stats_pub_recv_up st n =
     st\<lparr>st_pub_byte_recv := st_pub_byte_recv st + n, st_pub_recv := st_pub_recv st + 1\<rparr>"

definition stats_pub_sent_up :: "stats \<Rightarrow> int \<Rightarrow> stats" where
  "stats_pub_sent_up st n =
     st\<lparr>st_pub_byte_sent := st_pub_byte_sent st + n, st_pub_sent := st_pub_sent st + 1\<rparr>"

definition stats_notify_up :: "stats \<Rightarrow> stats" where
  "stats_notify_up st = st\<lparr>st_notify_count := st_notify_count st + 1\<rparr>"

definition stats_mailbox_check_up :: "stats \<Rightarrow> stats" where
  "stats_mailbox_check_up st = st\<lparr>st_mailbox_check_count := st_mailbox_check_count st + 1\<rparr>"

definition stats_set_connected :: "int \<Rightarrow> stats \<Rightarrow> stats" where
  "stats_set_connected now st =
     st\<lparr>st_connected_timestamp := now, st_connected_count := st_connected_count st + 1\<rparr>"

definition stats_set_compress_ratio :: "stats \<Rightarrow> int \<Rightarrow> int \<Rightarrow> stats" where
  "stats_set_compress_ratio st data_len compressed_len =
     (let i = st_ratio_count st mod TR50_COMPRESSION_HISTORY_MAX in
      st\<lparr>st_compressed_len := (st_compressed_len st)[i := compressed_len],
         st_original_len := (st_original_len st)[i := data_len],
         st_ratio_count := st_ratio_count st + 1\<rparr>)"

text \<open>\<open>strncpy(dest, src, n)\<close>: at most \<open>n\<close> bytes of the string, the rest of the \<open>n\<close> filled with zeros.\<close>

definition c_strncpy :: "bytes \<Rightarrow> bytes \<Rightarrow> nat \<Rightarrow> bytes" where
  "c_strncpy dest src n = take n (src @ replicate n 0) @ drop n dest"

definition stats_set_last_error :: "int \<Rightarrow> stats \<Rightarrow> int \<Rightarrow> bytes \<Rightarrow> stats" where
  "stats_set_last_error now st error error_message =
     (if error = 0 then st
      else st\<lparr>st_last_error := error,
              st_last_error_message :=
                c_strncpy (st_last_error_message st) error_message TR50_STATS_LAST_ERROR_MESSAGE_LEN,
              st_last_error_timestamp := now\<rparr>)"

subsection \<open>Reading\<close>

definition tr50_stats_pub_recv :: "stats \<Rightarrow> int" where "tr50_stats_pub_recv st = st_pub_recv st"
definition tr50_stats_pub_sent :: "stats \<Rightarrow> int" where "tr50_stats_pub_sent st = st_pub_sent st"

text \<open>The functions that answer an \<open>int\<close> cut their \<open>long long\<close> sum.\<close>

definition tr50_stats_byte_recv :: "stats \<Rightarrow> async_client option \<Rightarrow> int" where
  "tr50_stats_byte_recv st client =
     (case client of
        Some c \<Rightarrow> c_int (st_total_recv st + mqtt_async_stats_byte_recv c)
      | None \<Rightarrow> c_int (st_total_recv st))"

definition tr50_stats_byte_sent :: "stats \<Rightarrow> async_client option \<Rightarrow> int" where
  "tr50_stats_byte_sent st client =
     (case client of
        Some c \<Rightarrow> c_int (st_total_sent st + mqtt_async_stats_byte_sent c)
      | None \<Rightarrow> c_int (st_total_sent st))"

text \<open>\<open>int\<close> arithmetic that must not overflow.\<close>

definition int_ok :: "int \<Rightarrow> int option" where
  "int_ok n = (if - (2 ^ 31) \<le> n \<and> n < 2 ^ 31 then Some n else None)"

text \<open>The loop of \<open>tr50_stats_compress_ratio\<close> over the first entries of both arrays.\<close>

fun ratio_loop :: "(int \<times> int) list \<Rightarrow> int \<Rightarrow> int \<Rightarrow> (int \<times> int) option" where
  "ratio_loop [] compressed_sum uncompressed_sum = Some (compressed_sum, uncompressed_sum)"
| "ratio_loop ((c, u) # entries) compressed_sum uncompressed_sum = do {
     compressed_sum \<leftarrow> int_ok (compressed_sum + c);
     uncompressed_sum \<leftarrow> int_ok (uncompressed_sum + u);
     ratio_loop entries compressed_sum uncompressed_sum }"

definition tr50_stats_compress_ratio :: "stats \<Rightarrow> int option" where
  "tr50_stats_compress_ratio st =
     (let count = st_ratio_count st in
      if count = 0 then Some 0
      else do {
        (compressed_sum, uncompressed_sum) \<leftarrow>
          ratio_loop (take (if count > 100 then 100 else count) (zip (st_compressed_len st) (st_original_len st))) 0 0;
        scaled \<leftarrow> int_ok (100 * compressed_sum);
        if uncompressed_sum = 0 then None
        else do {
          quotient \<leftarrow> int_ok (scaled sdiv uncompressed_sum);
          int_ok (100 - quotient) } })"

definition tr50_stats_last_connected :: "stats \<Rightarrow> int" where
  "tr50_stats_last_connected st = st_connected_timestamp st"

definition tr50_stats_reconnect_attempt_count :: "async_client option \<Rightarrow> int" where
  "tr50_stats_reconnect_attempt_count client =
     (case client of Some c \<Rightarrow> mqtt_async_reconnect_attempt_count c | None \<Rightarrow> 0)"

definition tr50_stats_reconnect_count :: "async_client option \<Rightarrow> int" where
  "tr50_stats_reconnect_count client = (case client of Some c \<Rightarrow> mqtt_async_reconnect_count c | None \<Rightarrow> 0)"

definition tr50_stats_last_error :: "stats \<Rightarrow> int" where "tr50_stats_last_error st = st_last_error st"
definition tr50_stats_notify :: "stats \<Rightarrow> int" where "tr50_stats_notify st = st_notify_count st"
definition tr50_stats_mailbox_check :: "stats \<Rightarrow> int" where "tr50_stats_mailbox_check st = st_mailbox_check_count st"
definition tr50_stats_in_api_call_async :: "stats \<Rightarrow> int" where
  "tr50_stats_in_api_call_async st = st_in_api_call_async st"
definition tr50_stats_in_api_raw_async :: "stats \<Rightarrow> int" where
  "tr50_stats_in_api_raw_async st = st_in_api_raw_async st"

subsection \<open>Clearing\<close>

text \<open>The \<open>memset\<close> covers 100 bytes, the first 25 of the 100 entries.\<close>

definition tr50_stats_clear_compression_ratio :: "stats \<Rightarrow> stats" where
  "tr50_stats_clear_compression_ratio st =
     st\<lparr>st_ratio_count := 0,
        st_compressed_len := replicate (TR50_COMPRESSION_HISTORY_MAX div 4) 0 @
          drop (TR50_COMPRESSION_HISTORY_MAX div 4) (st_compressed_len st)\<rparr>"

definition tr50_stats_clear_send_recv :: "stats \<Rightarrow> async_client option \<Rightarrow> stats \<times> async_client option" where
  "tr50_stats_clear_send_recv st client =
     (st\<lparr>st_pub_byte_sent := 0, st_pub_sent := 0, st_total_sent := 0,
         st_pub_byte_recv := 0, st_pub_recv := 0, st_total_recv := 0\<rparr>,
      mqtt_async_stats_clear client)"

definition tr50_stats_clear_last_error :: "stats \<Rightarrow> stats" where
  "tr50_stats_clear_last_error st =
     st\<lparr>st_last_error := 0, st_last_error_message := replicate (TR50_STATS_LAST_ERROR_MESSAGE_LEN + 1) 0,
        st_last_error_timestamp := 0\<rparr>"

end
