(* ===== verification/Tr50_Stats_Ratio.thy ===== *)
theory Tr50_Stats_Ratio
  imports Tr50_Stats
begin

section \<open>The compression ratio is that of the last hundred messages\<close>

text \<open>
  The ring of the compression history, read in the order of its slots, holds the last hundred
  reports in a rotated order; the ratio, being one of sums, does not see the rotation.
\<close>

text \<open>The slots of the ring after the reports \<open>rs\<close> (original and compressed length).\<close>

definition report :: "(int \<times> int) list \<Rightarrow> stats \<Rightarrow> stats" where
  "report rs st = foldl (\<lambda>st r. stats_set_compress_ratio st (fst r) (snd r)) st rs"

definition history :: "(int \<times> int) list \<Rightarrow> (int \<times> int) list" where
  "history rs = drop (length rs - TR50_COMPRESSION_HISTORY_MAX) rs"

definition ring_ok :: "(int \<times> int) list \<Rightarrow> stats \<Rightarrow> bool" where
  "ring_ok rs st \<longleftrightarrow> st_ratio_count st = length rs \<and>
     length (st_compressed_len st) = TR50_COMPRESSION_HISTORY_MAX \<and>
     length (st_original_len st) = TR50_COMPRESSION_HISTORY_MAX \<and>
     (\<forall>i < length rs. length rs \<le> i + TR50_COMPRESSION_HISTORY_MAX \<longrightarrow>
        st_original_len st ! (i mod TR50_COMPRESSION_HISTORY_MAX) = fst (rs ! i) \<and>
        st_compressed_len st ! (i mod TR50_COMPRESSION_HISTORY_MAX) = snd (rs ! i))"

lemma mod_ring_inject:
  fixes i j m :: nat
  assumes "i mod m = j mod m" "i \<le> j" "j < i + m"
  shows "i = j"
proof -
  have "m dvd j - i" using assms by (metis mod_eq_dvd_iff_nat)
  then show ?thesis using assms by (auto dest: dvd_imp_le)
qed

lemma ring_step:
  assumes "ring_ok rs st"
  shows "ring_ok (rs @ [r]) (stats_set_compress_ratio st (fst r) (snd r))"
proof -
  let ?M = TR50_COMPRESSION_HISTORY_MAX
  let ?n = "length rs"
  have M: "0 < ?M" by (simp add: TR50_COMPRESSION_HISTORY_MAX_def)
  have old: "i mod ?M \<noteq> ?n mod ?M" if "i < ?n" "Suc ?n \<le> i + ?M" for i
    using mod_ring_inject [of i ?M ?n] that by auto
  show ?thesis
    using assms M old [THEN not_sym]
    by (auto simp: ring_ok_def stats_set_compress_ratio_def Let_def less_Suc_eq nth_append)
qed

lemma ring_report: "ring_ok rs st \<Longrightarrow> ring_ok (rs @ ss) (report ss st)"
proof (induction ss arbitrary: rs st)
  case (Cons r ss)
  from Cons.IH [OF ring_step [OF Cons.prems, of r]] show ?case
    by (simp add: report_def)
qed (simp add: report_def)

lemma ring_clear: "length (st_compressed_len st) = 100 \<Longrightarrow> length (st_original_len st) = 100 \<Longrightarrow>
    ring_ok [] (tr50_stats_clear_compression_ratio st)"
  by (simp add: ring_ok_def tr50_stats_clear_compression_ratio_def TR50_COMPRESSION_HISTORY_MAX_def)

text \<open>The slots the loop reads are a permutation of the history.\<close>

definition read_slots :: "stats \<Rightarrow> (int \<times> int) list" where
  "read_slots st = take (if st_ratio_count st > 100 then 100 else st_ratio_count st)
     (zip (st_compressed_len st) (st_original_len st))"

lemma mset_ring:
  assumes "0 < m"
  shows "image_mset (\<lambda>i. i mod m) (mset [n - m..<n]) = mset [0..<min m n]"
proof (cases "m \<le> n")
  case False
  then have "n - m = 0" "min m n = n" by simp_all
  moreover have "image_mset (\<lambda>i. i mod m) (mset [0..<n]) = image_mset id (mset [0..<n])"
    using False by (intro image_mset_cong) auto
  ultimately show ?thesis by simp
next
  case True
  have inj: "inj_on (\<lambda>i. i mod m) {n - m..<n}"
  proof (rule inj_onI)
    fix i j assume *: "i \<in> {n - m..<n}" "j \<in> {n - m..<n}" "i mod m = j mod m"
    then have "i < j + m" "j < i + m" using True by auto
    then show "i = j"
      using mod_ring_inject [OF *(3)] mod_ring_inject [OF *(3) [symmetric]] by (cases "i \<le> j") auto
  qed
  have img: "(\<lambda>i. i mod m) ` {n - m..<n} = {0..<m}"
    by (rule card_subset_eq) (use inj True assms in \<open>auto simp: card_image\<close>)
  have "mset (map (\<lambda>i. i mod m) [n - m..<n]) = mset [0..<m]"
    by (subst set_eq_iff_mset_eq_distinct [symmetric])
       (use inj img in \<open>simp_all add: distinct_map\<close>)
  then show ?thesis using True by (simp add: min_def)
qed

lemma mset_read_slots:
  assumes "ring_ok rs st"
  shows "mset (read_slots st) = mset (map prod.swap (history rs))"
proof -
  let ?n = "length rs" let ?M = TR50_COMPRESSION_HISTORY_MAX
  have M: "?M = 100" by (simp add: TR50_COMPRESSION_HISTORY_MAX_def)
  let ?slot = "\<lambda>j. (st_compressed_len st ! j, st_original_len st ! j)"
  have 1: "read_slots st = map ?slot [0..<min ?M ?n]"
    using assms by (intro nth_equalityI) (simp_all add: read_slots_def ring_ok_def M min_def split: if_splits)
  have 2: "map prod.swap (history rs) = map (\<lambda>i. ?slot (i mod ?M)) [?n - ?M..<?n]"
    using assms by (intro nth_equalityI) (auto simp: history_def ring_ok_def M prod.swap_def)
  show ?thesis
    using arg_cong [OF mset_ring [of ?M ?n], of "image_mset ?slot"]
    by (simp add: 1 2 M multiset.map_comp comp_def)
qed

text \<open>On lengths that are not negative the loop overflows exactly when a sum does.\<close>

lemma ratio_loop_sums:
  assumes "\<forall>r \<in> set es. 0 \<le> fst r \<and> 0 \<le> snd r" "0 \<le> c" "0 \<le> u" "c < 2 ^ 31" "u < 2 ^ 31"
  shows "ratio_loop es c u =
     (if c + sum_list (map fst es) < 2 ^ 31 \<and> u + sum_list (map snd es) < 2 ^ 31
      then Some (c + sum_list (map fst es), u + sum_list (map snd es)) else None)"
  using assms
proof (induction es arbitrary: c u)
  case (Cons e es)
  obtain a b where e: "e = (a, b)" by fastforce
  have "0 \<le> sum_list (map fst es)" "0 \<le> sum_list (map snd es)"
    using Cons.prems by (auto intro!: sum_list_nonneg)
  then show ?case
    using Cons.prems Cons.IH [of "c + a" "u + b"] by (auto simp: e int_ok_def)
qed auto

text \<open>The specification: one minus the quotient of the sums, in percent, rounded as C does.\<close>

definition ratio_spec :: "(int \<times> int) list \<Rightarrow> int option" where
  "ratio_spec rs =
     (let original = sum_list (map fst (history rs)); compressed = sum_list (map snd (history rs)) in
      if rs = [] then Some 0
      else if original = 0 \<or> 2 ^ 31 \<le> original \<or> 2 ^ 31 \<le> 100 * compressed then None
      else Some (100 - 100 * compressed div original))"



end
