(* ===== verification/Linux_Wire.thy ===== *)
theory Linux_Wire
  imports Linux_Tcp
begin

section \<open>What a send delivers\<close>

text \<open>A platform whose sends on a plain connection deliver: \<open>sent w h\<close> is what the peer of the handle has been sent.\<close>

locale wire =
  fixes p :: "'w platform" and sent :: "'w \<Rightarrow> handle \<Rightarrow> bytes" and plain_socket :: "'w \<Rightarrow> handle \<Rightarrow> bool"
  assumes connect_law: "p_tcp_connect p w addr pt 0 = Some ((0, h), w') \<Longrightarrow> plain_socket w' h"
    and send_law: "plain_socket w h \<Longrightarrow> p_tcp_send p w h bs t = Some (ret, w') \<Longrightarrow>
      plain_socket w' h \<and> (\<exists>ds rest. bs = ds @ rest \<and> sent w' h = sent w h @ ds \<and> (ret = 0 \<longrightarrow> rest = []))"

subsection \<open>On linux\<close>

definition sock_view :: "handle \<Rightarrow> os \<Rightarrow> (int \<times> int) option" where
  "sock_view h os = map_option (\<lambda>s. (at0 s, at8 s)) (os_sock os h)"

lemma sock_view_frame:
  "sys c u os = (x, os') \<Longrightarrow> sock_view h os' = sock_view h os"
  "kernel_send n os = (x, os') \<Longrightarrow> sock_view h os' = sock_view h os"
  "sock_view h (sock_set_err h' e os) = sock_view h os"
  "sock_view h (sock_errno h' os) = sock_view h os"
  "sock_view h (os\<lparr>os_tx := tx\<rparr>) = sock_view h os"
  by (auto simp: sys_def kernel_send_def sock_set_err_def sock_errno_def errno_def upd_sock_def sock_view_def map_option_case
      split: list.splits prod.splits option.splits if_splits)

lemma tcp_send_loop_view:
  assumes r: "tcp_send_loop h fd buffer timeout k os = Some r"
  shows "sock_view h' (snd r) = sock_view h' os"
proof (rule tcp_send_loop.raw_induct [where P = "\<lambda>_ _ _ _ _ os r. sock_view h' (snd r) = sock_view h' os",
      OF _ r], goal_cases)
  case (1 f h fd buffer timeout k os r)
  then show ?case
    by (auto simp: Let_def sock_view_frame(3-5) split: prod.splits if_splits dest!: sock_view_frame(1,2) [where h = h'])
qed

definition os_sent :: "os \<Rightarrow> handle \<Rightarrow> bytes" where
  "os_sent os h = concat (map snd (filter (\<lambda>(fd, _). fd = at0 (the (os_sock os h))) (os_tx os)))"

lemma clear_view: "clear h os \<longleftrightarrow> (\<exists>fd. sock_view h os = Some (fd, 0))"
  by (auto simp: clear_def sock_view_def)

lemma filter_own: "filter (\<lambda>(fd, _). fd = k) (map (Pair k) ds) = map (Pair k) ds"
  by (induction ds) auto

lemma linux_send_wire:
  assumes c: "clear h os" and s: "tcp_send os h bs t = Some (ret, os')"
  shows "clear h os' \<and> (\<exists>ds rest. bs = ds @ rest \<and> os_sent os' h = os_sent os h @ ds \<and> (ret = 0 \<longrightarrow> rest = []))"
proof (cases "h = 0")
  case True
  then show ?thesis using c s by (auto simp: tcp_send_def ERR_TR50_BADHANDLE_def intro: exI [of _ "[]"])
next
  case False
  obtain sock where sock: "os_sock os h = Some sock" "at8 sock = 0" using c by (auto simp: clear_def)
  have v: "sock_view h os' = sock_view h os"
    using s sock False by (auto simp: tcp_send_def sock_view_frame(3-5) dest: tcp_send_loop_view split: if_splits)
  then have k: "at0 (the (os_sock os' h)) = at0 (the (os_sock os h))" using sock by (auto simp: sock_view_def)
  obtain ds rest where d: "os_tx os' = os_tx os @ map (Pair (at0 (the (os_sock os h)))) ds" "bs = concat ds @ rest" "ret = 0 \<longrightarrow> rest = []"
    by (rule clear_tcp_send [OF c False s])
  have "os_sent os' h = os_sent os h @ concat ds" by (simp add: os_sent_def k d(1) filter_own o_def)
  then show ?thesis using d(2,3) v c by (auto simp: clear_view)
qed

interpretation linux_wire: wire linux_platform os_sent "\<lambda>os h. clear h os"
proof
  show "clear h os'" if "p_tcp_connect linux_platform os addr pt 0 = Some ((0, h), os')" for os addr pt h os'
  proof -
    obtain m os1 where "linux_malloc os = (m, os1)" by fastforce
    from clear_connect [OF this, of addr pt 0] that show ?thesis by (auto simp: linux_platform_def clear_result_def)
  qed
  show "clear h os' \<and> (\<exists>ds rest. bs = ds @ rest \<and> os_sent os' h = os_sent os h @ ds \<and> (ret = 0 \<longrightarrow> rest = []))"
    if "clear h os" "p_tcp_send linux_platform os h bs t = Some (ret, os')" for os h bs t ret os'
    using linux_send_wire [of h os bs t ret os'] that by (simp add: linux_platform_def)
qed

subsection \<open>Both directions\<close>

text \<open>A receive takes bytes off its own stream only.\<close>

locale duplex = rx: transport p pending + tx: wire p sent plain_socket
  for p :: "'w platform" and pending :: "'w \<Rightarrow> handle \<Rightarrow> bytes" and sent :: "'w \<Rightarrow> handle \<Rightarrow> bytes"
    and plain_socket :: "'w \<Rightarrow> handle \<Rightarrow> bool" +
  assumes recv_frame: "plain_socket w h \<Longrightarrow> p_tcp_recv p w h n t = Some (r, w') \<Longrightarrow> plain_socket w' h \<and> sent w' h = sent w h"

lemma clear_recv_frame:
  assumes "clear h os" "tcp_recv os h n t = Some (r, os')"
  shows "os_tx os' = os_tx os \<and> sock_view h os' = sock_view h os"
  using assms
  by (auto simp: tcp_recv_def clear_def set_rx_def Let_def sock_view_def sock_set_err_def sock_errno_def errno_def upd_sock_def sys_def
      split: if_splits option.splits prod.splits list.splits)

interpretation linux_duplex: duplex linux_platform "\<lambda>os h. rx_bytes (os_rx os h)" os_sent "\<lambda>os h. clear h os"
proof unfold_locales
  show "clear h os' \<and> os_sent os' h = os_sent os h"
    if "clear h os" "p_tcp_recv linux_platform os h n t = Some (r, os')" for os h n t r os'
  proof -
    have "os_tx os' = os_tx os" "sock_view h os' = sock_view h os"
      using clear_recv_frame [of h os n t r os'] that by (auto simp: linux_platform_def)
    then show ?thesis
      using that(1) by (auto simp: clear_view os_sent_def sock_view_def)
  qed
qed

end
