(* ===== verification/Tr50_Config.thy ===== *)
theory Tr50_Config
  imports Tr50_Platform
begin

section \<open>The configuration (tr50.config.c)\<close>

text \<open>
  A string of the configuration is NULL, a string of its own, or a pointer to a block that has been
  freed; freeing or reading the latter is undefined (\<open>None\<close>).  Callbacks and their custom pointers are
  numbers.  The clones are taken from the \<open>malloc\<close> argument; a clone that fails is NULL, which no setter
  checks.
\<close>

datatype cptr = CNull | CStr bytes | CFreed

record config =
  cf_client_id :: cptr
  cf_host :: cptr
  cf_port :: int
  cf_ssl :: int
  cf_https_proxy :: int
  cf_keepalive_in_ms :: int
  cf_timeout_in_ms :: int
  cf_compress :: int
  cf_username :: cptr
  cf_password :: cptr
  cf_proxy_type :: int
  cf_proxy_addr :: cptr
  cf_proxy_username :: cptr
  cf_proxy_password :: cptr
  cf_should_reconnect_callback :: "nat option"
  cf_should_reconnect_custom :: nat
  cf_non_api_handler :: "nat option"
  cf_non_api_handler_custom :: nat
  cf_state_change_handler :: "nat option"
  cf_state_change_handler_custom :: nat
  cf_api_watcher_handler :: "nat option"

definition config_new :: config where
  "config_new =
     \<lparr>cf_client_id = CNull, cf_host = CNull, cf_port = 0, cf_ssl = 0, cf_https_proxy = 0, cf_keepalive_in_ms = 0,
      cf_timeout_in_ms = 0, cf_compress = 0, cf_username = CNull, cf_password = CNull, cf_proxy_type = 0,
      cf_proxy_addr = CNull, cf_proxy_username = CNull, cf_proxy_password = CNull,
      cf_should_reconnect_callback = None, cf_should_reconnect_custom = 0, cf_non_api_handler = None,
      cf_non_api_handler_custom = 0, cf_state_change_handler = None, cf_state_change_handler_custom = 0,
      cf_api_watcher_handler = None\<rparr>"

subsection \<open>Strings\<close>

text \<open>\<open>if (p) _memory_free(p)\<close>: the pointer keeps its value.\<close>

fun free_if :: "cptr \<Rightarrow> cptr option" where
  "free_if CNull = Some CNull"
| "free_if (CStr s) = Some CFreed"
| "free_if CFreed = None"

definition cptr_clone :: "malloc \<Rightarrow> bytes \<Rightarrow> cptr" where
  "cptr_clone malloc s = (case malloc (length s + 1) of None \<Rightarrow> CNull | Some _ \<Rightarrow> CStr s)"

text \<open>\<open>if (s) p = _memory_clone(s, strlen(s))\<close>.\<close>

definition clone_into :: "malloc \<Rightarrow> cptr \<Rightarrow> bytes option \<Rightarrow> cptr" where
  "clone_into malloc ptr s = (case s of None \<Rightarrow> ptr | Some s \<Rightarrow> cptr_clone malloc s)"

text \<open>Free all strings and clear the structure.\<close>

definition config_delete :: "config \<Rightarrow> config option" where
  "config_delete cf = do {
     free_if (cf_client_id cf); free_if (cf_host cf); free_if (cf_username cf); free_if (cf_password cf);
     free_if (cf_proxy_addr cf); free_if (cf_proxy_username cf); free_if (cf_proxy_password cf);
     Some config_new }"

subsection \<open>Setters\<close>

text \<open>Each answers 0, except \<open>tr50_config_set_compress\<close>.  A host or client id that is NULL is read by
  \<open>strlen\<close>.\<close>

definition tr50_config_set_host :: "malloc \<Rightarrow> config \<Rightarrow> bytes option \<Rightarrow> config option" where
  "tr50_config_set_host malloc cf host = do {
     free_if (cf_host cf);
     host \<leftarrow> host;
     Some (cf\<lparr>cf_host := cptr_clone malloc host\<rparr>) }"

definition tr50_config_set_port :: "config \<Rightarrow> int \<Rightarrow> config" where
  "tr50_config_set_port cf port = cf\<lparr>cf_port := port\<rparr>"

definition tr50_config_set_keeplive :: "config \<Rightarrow> int \<Rightarrow> config" where
  "tr50_config_set_keeplive cf keepalive_in_ms = cf\<lparr>cf_keepalive_in_ms := keepalive_in_ms\<rparr>"

definition tr50_config_set_client_id :: "malloc \<Rightarrow> config \<Rightarrow> bytes option \<Rightarrow> config option" where
  "tr50_config_set_client_id malloc cf client_id = do {
     free_if (cf_client_id cf);
     client_id \<leftarrow> client_id;
     Some (cf\<lparr>cf_client_id := cptr_clone malloc client_id\<rparr>) }"

definition tr50_config_set_timeout :: "config \<Rightarrow> int \<Rightarrow> config" where
  "tr50_config_set_timeout cf timeout_in_ms = cf\<lparr>cf_timeout_in_ms := timeout_in_ms\<rparr>"

text \<open>These two free the old string also when there is no new one.\<close>

definition tr50_config_set_username :: "malloc \<Rightarrow> config \<Rightarrow> bytes option \<Rightarrow> config option" where
  "tr50_config_set_username malloc cf username = do {
     old \<leftarrow> free_if (cf_username cf);
     Some (cf\<lparr>cf_username := clone_into malloc old username\<rparr>) }"

definition tr50_config_set_password :: "malloc \<Rightarrow> config \<Rightarrow> bytes option \<Rightarrow> config option" where
  "tr50_config_set_password malloc cf password = do {
     old \<leftarrow> free_if (cf_password cf);
     Some (cf\<lparr>cf_password := clone_into malloc old password\<rparr>) }"

text \<open>Three clones, from three allocations.\<close>

definition tr50_config_set_proxy ::
  "malloc \<Rightarrow> malloc \<Rightarrow> malloc \<Rightarrow> config \<Rightarrow> int \<Rightarrow> bytes option \<Rightarrow> bytes option \<Rightarrow> bytes option \<Rightarrow> config option" where
  "tr50_config_set_proxy m1 m2 m3 cf type addr username password = do {
     free_if (cf_proxy_addr cf); free_if (cf_proxy_username cf); free_if (cf_proxy_password cf);
     Some (cf\<lparr>cf_proxy_type := type, cf_proxy_addr := clone_into m1 CNull addr,
              cf_proxy_username := clone_into m2 CNull username,
              cf_proxy_password := clone_into m3 CNull password\<rparr>) }"

definition tr50_config_set_non_api_handler :: "config \<Rightarrow> nat option \<Rightarrow> nat \<Rightarrow> config" where
  "tr50_config_set_non_api_handler cf cb cust = cf\<lparr>cf_non_api_handler := cb, cf_non_api_handler_custom := cust\<rparr>"

definition tr50_config_set_state_change_handler :: "config \<Rightarrow> nat option \<Rightarrow> nat \<Rightarrow> config" where
  "tr50_config_set_state_change_handler cf cb cust =
     cf\<lparr>cf_state_change_handler := cb, cf_state_change_handler_custom := cust\<rparr>"

definition tr50_config_set_api_watcher_handler :: "config \<Rightarrow> nat option \<Rightarrow> config" where
  "tr50_config_set_api_watcher_handler cf cb = cf\<lparr>cf_api_watcher_handler := cb\<rparr>"

definition tr50_config_set_ssl :: "config \<Rightarrow> int \<Rightarrow> config" where
  "tr50_config_set_ssl cf enabled = cf\<lparr>cf_ssl := enabled\<rparr>"

definition tr50_config_set_https_proxy :: "config \<Rightarrow> int \<Rightarrow> config" where
  "tr50_config_set_https_proxy cf enabled = cf\<lparr>cf_https_proxy := enabled\<rparr>"

definition tr50_config_set_compress :: "bool \<Rightarrow> config \<Rightarrow> int \<Rightarrow> int \<times> config" where
  "tr50_config_set_compress supported cf enabled =
     (if \<not> supported then (ERR_TR50_COMPRESS_NOT_SUPPORTED, cf) else (0, cf\<lparr>cf_compress := enabled\<rparr>))"

definition tr50_config_set_should_reconnect_handler :: "config \<Rightarrow> nat option \<Rightarrow> nat \<Rightarrow> config" where
  "tr50_config_set_should_reconnect_handler cf cb cust =
     cf\<lparr>cf_should_reconnect_callback := cb, cf_should_reconnect_custom := cust\<rparr>"

subsection \<open>Getters\<close>

definition tr50_config_get_host :: "config \<Rightarrow> cptr" where "tr50_config_get_host cf = cf_host cf"
definition tr50_config_get_port :: "config \<Rightarrow> int" where "tr50_config_get_port cf = cf_port cf"
definition tr50_config_get_keeplive :: "config \<Rightarrow> int" where "tr50_config_get_keeplive cf = cf_keepalive_in_ms cf"
definition tr50_config_get_client_id :: "config \<Rightarrow> cptr" where "tr50_config_get_client_id cf = cf_client_id cf"
definition tr50_config_get_timeout :: "config \<Rightarrow> int" where "tr50_config_get_timeout cf = cf_timeout_in_ms cf"
definition tr50_config_get_username :: "config \<Rightarrow> cptr" where "tr50_config_get_username cf = cf_username cf"
definition tr50_config_get_password :: "config \<Rightarrow> cptr" where "tr50_config_get_password cf = cf_password cf"

text \<open>What reading a string of the configuration gives.\<close>

fun cptr_read :: "cptr \<Rightarrow> bytes option option" where
  "cptr_read CNull = Some None"
| "cptr_read (CStr s) = Some (Some s)"
| "cptr_read CFreed = None"

subsection \<open>Ownership of the strings\<close>

text \<open>No string of the configuration is dangling.\<close>

definition config_strings :: "config \<Rightarrow> cptr list" where
  "config_strings cf = [cf_client_id cf, cf_host cf, cf_username cf, cf_password cf, cf_proxy_addr cf,
     cf_proxy_username cf, cf_proxy_password cf]"

definition config_ok :: "config \<Rightarrow> bool" where
  "config_ok cf \<longleftrightarrow> CFreed \<notin> set (config_strings cf)"

lemma config_ok_new: "config_ok config_new"
  by (simp add: config_ok_def config_strings_def config_new_def)

lemma free_if_iff: "free_if ptr \<noteq> None \<longleftrightarrow> ptr \<noteq> CFreed"
  by (cases ptr) simp_all

text \<open>A setter given a string keeps the configuration in order; the user name and the password given as
  NULL leave a dangling pointer where a string was, and the next use is undefined.\<close>

lemma set_username_ok:
  assumes "config_ok cf"
  shows "\<exists>cf'. tr50_config_set_username malloc cf username = Some cf' \<and>
    (config_ok cf' \<longleftrightarrow> username \<noteq> None \<or> cf_username cf = CNull)"
  using assms
  by (cases "cf_username cf"; cases username)
     (auto simp: tr50_config_set_username_def config_ok_def config_strings_def clone_into_def cptr_clone_def
       split: option.splits)

lemma set_username_null_dangles:
  assumes "cf_username cf = CStr s" "tr50_config_set_username malloc cf None = Some cf'"
  shows "tr50_config_set_username m cf' u = None" "config_delete cf' = None" "cptr_read (tr50_config_get_username cf') = None"
  using assms
  by (cases "free_if (cf_client_id cf)"; cases "free_if (cf_host cf)";
      auto simp: tr50_config_set_username_def clone_into_def config_delete_def tr50_config_get_username_def)+

end
