(* ===== verification/Tr50_Client.thy ===== *)
theory Tr50_Client
  imports Tr50_Stats Tr50_Config Tr50_Pending
begin

section \<open>The client's state and its API calls (tr50.c, tr50.api.async.c)\<close>

text \<open>
  A client of the library: an asynchronous MQTT client, the list of the requests that wait for a reply,
  the configuration and the statistics.  Its record has the fields of \<open>_TR50_CLIENT\<close> and, around them,
  the memory of the messages (\<open>cl_store\<close>; a block is never placed where another one was, \<open>cl_next\<close> is the
  next free address), the world of the platform, and the trace of what can be observed: callbacks,
  watchers, numbers given to requests, and replies that the code logs as invalid.  What is done under
  the client's mutex is one step.  \<open>None\<close> is undefined, or never returns.
\<close>

subsection \<open>State\<close>

definition TR50_STATE_STOPPED :: int where "TR50_STATE_STOPPED = 0"
definition TR50_STATE_STARTED :: int where "TR50_STATE_STARTED = 1"
definition TR50_MAX_ID :: int where "TR50_MAX_ID = 65536"
definition TR50_MIN_COMPRESSION_LEN :: int where "TR50_MIN_COMPRESSION_LEN = 128"
definition TR50_TOPIC_API :: bytes where "TR50_TOPIC_API = cstr ''api''"
definition TR50_TOPIC_COMPRESS_API :: bytes where "TR50_TOPIC_COMPRESS_API = cstr ''apiz''"
definition TR50_COMMAND_NAME_LEN :: nat where "TR50_COMMAND_NAME_LEN = 64"
definition TR50_METHOD_NAME_LEN :: nat where "TR50_METHOD_NAME_LEN = 64"

text \<open>A registered command or method: its name block, which need not be terminated, and its callback.\<close>

record registration =
  reg_name :: bytes
  reg_callback :: nat

text \<open>\<open>CeIssued\<close>: a request got a number.  \<open>CeReply\<close>: the callback of the request at an address is called.
  \<open>CeDropped\<close>: a reply that cannot be read took the request at an address off the list.  \<open>CeWatch\<close>: the API
  watcher is called, with \<open>True\<close> for a reply.  \<open>CeNonApi\<close>, \<open>CeState\<close>, \<open>CeQos\<close>, \<open>CeCommand\<close>, \<open>CeMethod\<close>: the
  other callbacks.\<close>

datatype 'd client_event =
  CeIssued int
| CeReply nat "'d reply_call"
| CeDropped nat
| CeWatch bytes bool
| CeNonApi bytes bytes int
| CeState int int string
| CeQos qos_call
| CeCommand nat bytes bytes bytes "bytes option" "'d json option"
| CeMethod nat bytes bytes bytes "bytes option" "'d json option"

record ('w, 'd) tr50 =
  cl_connect_params :: "mqtt_connect_params option"
  cl_mqtt :: "async_client option"
  cl_state :: int
  cl_seq_id :: int
  cl_compress :: int
  cl_is_stopping :: bool
  cl_should_reconnect_callback :: "nat option"
  cl_should_reconnect_custom :: nat
  cl_non_api_callback :: "nat option"
  cl_non_api_callback_custom :: nat
  cl_commands :: "registration list"
  cl_pending :: pending
  cl_config :: config
  cl_stats :: stats
  cl_methods :: "registration list"
  cl_mailbox_suspend :: bool
  cl_mailbox_send_in_progress :: bool
  cl_mailbox_another_request :: bool
  cl_method_inuse :: bool
  cl_store :: "'d store"
  cl_next :: nat
  cl_world :: 'w
  cl_events :: "'d client_event list"

text \<open>What the client runs on: the platform, the doubles, the codec of \<open>tr50/util/compress.h\<close> (an error code or
  the bytes), the id of the running thread, and the answers of the application's command callbacks.\<close>

record ('w, 'd) env =
  en_platform :: "'w platform"
  en_doubles :: "'d doubles"
  en_supported :: bool
  en_deflate :: "bytes \<Rightarrow> int + bytes"
  en_inflate :: "bytes \<Rightarrow> int + bytes"
  en_tid :: "int option"
  en_answer :: "nat \<Rightarrow> int"

text \<open>The codec of the Linux back end (linux.compress.c).\<close>

definition compress_is_supported :: bool where "compress_is_supported = False"
definition compress_deflate :: "bytes \<Rightarrow> int + bytes" where "compress_deflate bs = Inl ERR_TR50_NOPORT"
definition compress_inflate :: "bytes \<Rightarrow> int + bytes" where "compress_inflate bs = Inl ERR_TR50_NOPORT"

definition emit :: "'d client_event \<Rightarrow> ('w, 'd) tr50 \<Rightarrow> ('w, 'd) tr50" where
  "emit e c = c\<lparr>cl_events := cl_events c @ [e]\<rparr>"

definition stats_up :: "(stats \<Rightarrow> stats) \<Rightarrow> ('w, 'd) tr50 \<Rightarrow> ('w, 'd) tr50" where
  "stats_up f c = c\<lparr>cl_stats := f (cl_stats c)\<rparr>"

definition time_now :: "('w, 'd) env \<Rightarrow> ('w, 'd) tr50 \<Rightarrow> int \<times> ('w, 'd) tr50" where
  "time_now E c = (case p_time_now (en_platform E) (cl_world c) of (now, w) \<Rightarrow> (now, c\<lparr>cl_world := w\<rparr>))"

definition watch :: "bytes \<Rightarrow> bool \<Rightarrow> ('w, 'd) tr50 \<Rightarrow> ('w, 'd) tr50" where
  "watch data is_rep c = (if cf_api_watcher_handler (cl_config c) \<noteq> None then emit (CeWatch data is_rep) c else c)"

subsection \<open>Messages in memory\<close>

definition client_message_create :: "('w, 'd) env \<Rightarrow> ('w, 'd) tr50 \<Rightarrow> (int + nat) \<times> ('w, 'd) tr50" where
  "client_message_create E c =
     (case p_malloc (en_platform E) (cl_world c) of (m, w) \<Rightarrow>
      case tr50_message_create (en_doubles E) m of
        Inl ret \<Rightarrow> (Inl ret, c\<lparr>cl_world := w\<rparr>)
      | Inr msg \<Rightarrow> (Inr (cl_next c), c\<lparr>cl_world := w, cl_store := (cl_store c)(cl_next c \<mapsto> msg), cl_next := cl_next c + 1\<rparr>))"

definition tr50_message_delete :: "nat \<Rightarrow> ('w, 'd) tr50 \<Rightarrow> (int \<times> ('w, 'd) tr50) option" where
  "tr50_message_delete m c =
     (if m = 0 then Some (ERR_TR50_PARMS, c)
      else if cl_store c m = None then None
      else Some (0, c\<lparr>cl_store := (cl_store c)(m := None)\<rparr>))"

definition update_message :: "nat \<Rightarrow> ('d message \<Rightarrow> 'd message) \<Rightarrow> ('w, 'd) tr50 \<Rightarrow> ('w, 'd) tr50 option" where
  "update_message m f c =
     (case cl_store c m of None \<Rightarrow> None | Some msg \<Rightarrow> Some (c\<lparr>cl_store := (cl_store c)(m \<mapsto> f msg)\<rparr>))"

text \<open>The pending list of the client.\<close>

definition client_pending_add :: "('w, 'd) env \<Rightarrow> nat \<Rightarrow> ('w, 'd) tr50 \<Rightarrow> ('w, 'd) tr50 option" where
  "client_pending_add E m c =
     (case time_now E c of (now, c) \<Rightarrow>
      case tr50_pending_add now m (cl_pending c, cl_store c) of
        None \<Rightarrow> None
      | Some (pd, h) \<Rightarrow> Some (c\<lparr>cl_pending := pd, cl_store := h\<rparr>))"

definition client_find_and_remove :: "int \<Rightarrow> ('w, 'd) tr50 \<Rightarrow> (nat \<times> ('w, 'd) tr50) option" where
  "client_find_and_remove hash c =
     (case tr50_pending_find_and_remove hash (cl_pending c, cl_store c) of
        None \<Rightarrow> None
      | Some (m, pd, h) \<Rightarrow> Some (m, c\<lparr>cl_pending := pd, cl_store := h\<rparr>))"

subsection \<open>State changes of the connection\<close>

definition state_change_handler :: "('w, 'd) env \<Rightarrow> int \<Rightarrow> int \<Rightarrow> int \<Rightarrow> string \<Rightarrow> ('w, 'd) tr50 \<Rightarrow> ('w, 'd) tr50" where
  "state_change_handler E prev cur err why c =
     (let (now, c) = (if err = 0 then (0, c) else time_now E c);
          c = stats_up (\<lambda>st. stats_set_last_error now st err (cstr why)) c;
          (now, c) = (if cur = STATE_CONNECTED then time_now E c else (0, c));
          c = (if cur = STATE_CONNECTED then stats_up (stats_set_connected now) c else c)
      in if cf_state_change_handler (cl_config c) \<noteq> None then emit (CeState prev cur why) c else c)"

text \<open>The calls into the MQTT client report nothing but state changes to this handler.\<close>

fun handle_states :: "('w, 'd) env \<Rightarrow> event list \<Rightarrow> ('w, 'd) tr50 \<Rightarrow> ('w, 'd) tr50" where
  "handle_states E [] c = c"
| "handle_states E (EvState prev cur err why # evs) c = handle_states E evs (state_change_handler E prev cur err why c)"
| "handle_states E (_ # evs) c = handle_states E evs c"

definition lift_request ::
  "('w, 'd) env \<Rightarrow> (async_client option \<Rightarrow> int option \<Rightarrow> 'w \<Rightarrow> 'w request_result) \<Rightarrow> ('w, 'd) tr50 \<Rightarrow>
   (int \<times> ('w, 'd) tr50) option" where
  "lift_request E f c =
     (case f (cl_mqtt c) (en_tid E) (cl_world c) of
        None \<Rightarrow> None
      | Some (ret, mq, w, evs) \<Rightarrow> Some (ret, handle_states E evs (c\<lparr>cl_mqtt := mq, cl_world := w\<rparr>)))"

definition client_publish :: "('w, 'd) env \<Rightarrow> bytes \<Rightarrow> bytes \<Rightarrow> ('w, 'd) tr50 \<Rightarrow> (int \<times> ('w, 'd) tr50) option" where
  "client_publish E topic data c =
     lift_request E (\<lambda>mq tid w. mqtt_async_publish (en_platform E) mq tid topic data (int (length data)) 0 w) c"

subsection \<open>API calls\<close>

definition next_seq_id :: "('w, 'd) tr50 \<Rightarrow> ('w, 'd) tr50" where
  "next_seq_id c = (let s = (if cl_seq_id c = TR50_MAX_ID then 0 else cl_seq_id c) in c\<lparr>cl_seq_id := s + 1\<rparr>)"

definition tr50_api_msg_id_next :: "('w, 'd) tr50 \<Rightarrow> int \<times> ('w, 'd) tr50" where
  "tr50_api_msg_id_next c = (let c = next_seq_id c in (cl_seq_id c, c))"

text \<open>The checks all calls begin with.\<close>

definition api_check :: "('w, 'd) tr50 \<Rightarrow> int" where
  "api_check c =
     (if cl_state c = TR50_STATE_STOPPED then ERR_TR50_NOT_CONNECTED
      else if cl_is_stopping c then ERR_TR50_STOPPING else 0)"

text \<open>\<open>snprintf(topic_with_seq, 63, "%s/%d", topic, seq_id)\<close>; it fits.\<close>

definition topic_with_seq :: "bytes \<Rightarrow> int \<Rightarrow> bytes" where
  "topic_with_seq topic sid = topic @ [0x2F] @ print_lld sid"

text \<open>The topic and the data of a request.  A compression that fails is reported, although the fallback
  to the uncompressed data has been prepared.\<close>

definition build_payload ::
  "('w, 'd) env \<Rightarrow> 'd message \<Rightarrow> ('w, 'd) tr50 \<Rightarrow> ((int + bytes \<times> bytes) \<times> ('w, 'd) tr50) option" where
  "build_payload E msg c =
     (case tr50_message_to_string (en_doubles E) msg of
        None \<Rightarrow> None
      | Some (Inl ret) \<Rightarrow> Some (Inl ret, c)
      | Some (Inr (raw, raw_len)) \<Rightarrow>
          let c = watch raw False c in
          if cl_compress c \<noteq> 0 \<and> raw_len > TR50_MIN_COMPRESSION_LEN then
            (case en_deflate E raw of
               Inl ret \<Rightarrow> Some (Inl ret, c)
             | Inr data \<Rightarrow>
                 Some (Inr (TR50_TOPIC_COMPRESS_API, data),
                   stats_up (\<lambda>st. stats_set_compress_ratio st raw_len (int (length data))) c))
          else Some (Inr (TR50_TOPIC_API, raw), c))"

definition in_api_call :: "int \<Rightarrow> ('w, 'd) tr50 \<Rightarrow> ('w, 'd) tr50" where
  "in_api_call n = stats_up (\<lambda>st. st\<lparr>st_in_api_call_async := n\<rparr>)"

definition in_api_raw :: "int \<Rightarrow> ('w, 'd) tr50 \<Rightarrow> ('w, 'd) tr50" where
  "in_api_raw n = stats_up (\<lambda>st. st\<lparr>st_in_api_raw_async := n\<rparr>)"

text \<open>The end of \<open>tr50_api_call_async\<close>: register the request, publish it, and take it back when that fails.\<close>

definition api_call_send ::
  "('w, 'd) env \<Rightarrow> nat \<Rightarrow> int \<Rightarrow> bytes \<Rightarrow> bytes \<Rightarrow> ('w, 'd) tr50 \<Rightarrow> (int \<times> ('w, 'd) tr50) option" where
  "api_call_send E m local_seq_id topic data c = do {
     c \<leftarrow> client_pending_add E m c;
     let c = in_api_call 2 c;
     (ret, c) \<leftarrow> client_publish E (topic_with_seq topic local_seq_id) data c;
     if ret \<noteq> 0 then do {
       (msg, c) \<leftarrow> client_find_and_remove local_seq_id c;
       Some (if msg \<noteq> 0 then ret else 0, in_api_call 0 c) }
     else Some (0, stats_up (\<lambda>st. stats_pub_sent_up st (int (length data))) (in_api_call 0 c)) }"

definition tr50_api_call_async ::
  "('w, 'd) env \<Rightarrow> nat \<Rightarrow> nat option \<Rightarrow> nat \<Rightarrow> int \<Rightarrow> ('w, 'd) tr50 \<Rightarrow> (int \<times> ('w, 'd) tr50) option" where
  "tr50_api_call_async E m cb cust timeout c =
     (let c = in_api_call 1 c in
      if api_check c \<noteq> 0 then Some (api_check c, in_api_call 0 c)
      else
        let c = next_seq_id c; local_seq_id = cl_seq_id c; c = emit (CeIssued local_seq_id) c in do {
          c \<leftarrow> update_message m (\<lambda>msg. msg\<lparr>seq_id := local_seq_id, message_type := TR50_MESSAGE_TYPE_OBJ,
                 reply_callback := cb, callback_custom := cust, callback_timeout := timeout\<rparr>) c;
          msg \<leftarrow> cl_store c m;
          (r, c) \<leftarrow> build_payload E msg c;
          (case r of
             Inl ret \<Rightarrow> Some (ret, in_api_call 0 c)
           | Inr (topic, data) \<Rightarrow> api_call_send E m local_seq_id topic data c) })"

definition tr50_api_call :: "('w, 'd) env \<Rightarrow> nat \<Rightarrow> ('w, 'd) tr50 \<Rightarrow> (int \<times> ('w, 'd) tr50) option" where
  "tr50_api_call E m c = tr50_api_call_async E m None 0 30000 c"

text \<open>The end of \<open>tr50_api_raw_async\<close>: when the publish fails the request is taken back and deleted; the same
  code deletes the request when the compression fails, but there it is still in the list.\<close>

definition api_raw_fail :: "nat \<Rightarrow> int \<Rightarrow> ('w, 'd) tr50 \<Rightarrow> (int \<times> ('w, 'd) tr50) option" where
  "api_raw_fail m ret c = do { (_, c) \<leftarrow> tr50_message_delete m (in_api_raw 0 c); Some (ret, c) }"

definition api_raw_send ::
  "('w, 'd) env \<Rightarrow> int \<Rightarrow> bytes \<Rightarrow> bytes \<Rightarrow> bytes \<Rightarrow> ('w, 'd) tr50 \<Rightarrow> (int \<times> ('w, 'd) tr50) option" where
  "api_raw_send E local_seq_id topic data request_json c = do {
     (ret, c) \<leftarrow> client_publish E (topic_with_seq topic local_seq_id) data c;
     (msg, c) \<leftarrow> (if ret \<noteq> 0 then client_find_and_remove local_seq_id c else Some (0, c));
     if msg \<noteq> 0 then api_raw_fail msg ret c
     else Some (0, in_api_raw 0 (stats_up (\<lambda>st. stats_pub_sent_up st (int (length request_json))) c)) }"

definition tr50_api_raw_async ::
  "('w, 'd) env \<Rightarrow> bytes \<Rightarrow> nat option \<Rightarrow> nat \<Rightarrow> int \<Rightarrow> ('w, 'd) tr50 \<Rightarrow> (int \<times> ('w, 'd) tr50) option" where
  "tr50_api_raw_async E request_json cb cust timeout c =
     (let c = in_api_raw 1 c in
      if api_check c \<noteq> 0 then Some (api_check c, in_api_raw 0 c)
      else
        let c = next_seq_id c; local_seq_id = cl_seq_id c; c = emit (CeIssued local_seq_id) c;
            request_len = int (length request_json)
        in case client_message_create E c of
             (Inl _, c) \<Rightarrow> None
           | (Inr m, c) \<Rightarrow> do {
               c \<leftarrow> update_message m (\<lambda>msg. msg\<lparr>seq_id := local_seq_id, message_type := TR50_MESSAGE_TYPE_RAW,
                      raw_callback := cb, callback_custom := cust, callback_timeout := timeout\<rparr>) c;
               c \<leftarrow> client_pending_add E m c;
               let c = in_api_raw 2 (watch request_json False c);
               if cl_compress c \<noteq> 0 \<and> request_len \<ge> TR50_MIN_COMPRESSION_LEN then
                 (case en_deflate E request_json of
                    Inl ret \<Rightarrow> api_raw_fail m ret c
                  | Inr out \<Rightarrow>
                      api_raw_send E local_seq_id TR50_TOPIC_COMPRESS_API out request_json
                        (stats_up (\<lambda>st. stats_set_compress_ratio st request_len (int (length out))) c))
               else api_raw_send E local_seq_id TR50_TOPIC_API request_json request_json c })"

subsection \<open>Synchronous calls\<close>

text \<open>A synchronous call is an asynchronous one whose callback (\<open>sync_callback\<close>) stores the status and the reply
  in an object of the calling thread, which waits for the callback and then makes its result of the
  object.  The wait has no timeout of its own.\<close>

record 'r sync_obj =
  sync_status :: int
  sync_reply :: "'r option"

definition sync_new :: "'r sync_obj" where
  "sync_new = \<lparr>sync_status = - 1, sync_reply = None\<rparr>"

definition api_call_sync_callback :: "int \<Rightarrow> 'r option \<Rightarrow> 'r sync_obj \<Rightarrow> 'r sync_obj" where
  "api_call_sync_callback status message sync =
     (if status = 0 then sync\<lparr>sync_reply := message, sync_status := status\<rparr> else sync\<lparr>sync_status := status\<rparr>)"

definition error_reply :: "'d doubles \<Rightarrow> int \<Rightarrow> 'd message \<Rightarrow> 'd message" where
  "error_reply F status msg =
     (let json = tr50_json_add_false_to_object F (msg_json msg) (Some json_success);
          json = tr50_json_add_item_to_object json (Some json_errorcodes) (tr50_json_create_int_array F [status]);
          json = tr50_json_add_item_to_object json (Some json_errormessages)
                   (tr50_json_create_string_array F [Some (cstr ''TR50: Operation Timeout.'')])
      in msg\<lparr>is_reply := True, msg_json := json\<rparr>)"

text \<open>The result is 0 in both cases; the creation of the error reply is not checked.\<close>

definition api_call_sync_result :: "'d doubles \<Rightarrow> malloc \<Rightarrow> 'd message sync_obj \<Rightarrow> 'd message option option" where
  "api_call_sync_result F malloc sync =
     (if sync_status sync = 0 then Some (sync_reply sync)
      else (case tr50_message_create F malloc of
              Inl _ \<Rightarrow> None
            | Inr msg \<Rightarrow> Some (Some (error_reply F (sync_status sync) msg))))"

definition api_raw_sync_result :: "bytes sync_obj \<Rightarrow> int \<times> bytes option" where
  "api_raw_sync_result sync = (sync_status sync, if sync_status sync = 0 then sync_reply sync else None)"

end
