(* ===== verification/Tr50_Mailbox.thy ===== *)
theory Tr50_Mailbox
  imports Tr50_Client
begin

section \<open>Commands, methods and the mailbox (tr50.command.c, tr50.method.c, tr50.mailbox.c)\<close>

text \<open>
  The application registers callbacks for commands and methods; the mailbox asks the service for the
  commands it holds for this client, one request at a time, and runs the callbacks on the answer.  A
  callback is an event; its return code is \<open>en_answer\<close>.  Logging and the measuring of the callbacks'
  time for the log are left out.
\<close>

subsection \<open>Registrations\<close>

definition tr50_command_register :: "bytes \<Rightarrow> nat \<Rightarrow> ('w, 'd) env \<Rightarrow> ('w, 'd) tr50 \<Rightarrow> (int \<times> ('w, 'd) tr50) option" where
  "tr50_command_register cmd func E c =
     (case p_malloc (en_platform E) (cl_world c) of (m, w) \<Rightarrow>
      case m 88 of
        None \<Rightarrow> None
      | Some _ \<Rightarrow>
          Some (0, c\<lparr>cl_world := w,
             cl_commands := \<lparr>reg_name = c_strncpy (replicate TR50_COMMAND_NAME_LEN 0) cmd TR50_COMMAND_NAME_LEN,
                             reg_callback = func\<rparr> # cl_commands c\<rparr>))"

definition tr50_method_register :: "bytes \<Rightarrow> nat \<Rightarrow> ('w, 'd) env \<Rightarrow> ('w, 'd) tr50 \<Rightarrow> (int \<times> ('w, 'd) tr50) option" where
  "tr50_method_register method_name func E c =
     (case p_malloc (en_platform E) (cl_world c) of (m, w) \<Rightarrow>
      case m 88 of
        None \<Rightarrow> None
      | Some _ \<Rightarrow>
          Some (0, c\<lparr>cl_world := w, cl_method_inuse := True,
             cl_methods := \<lparr>reg_name = c_strncpy (replicate TR50_METHOD_NAME_LEN 0) method_name TR50_METHOD_NAME_LEN,
                            reg_callback = func\<rparr> # cl_methods c\<rparr>))"

definition tr50_is_method_registered :: "('w, 'd) tr50 \<Rightarrow> bool" where
  "tr50_is_method_registered c = cl_method_inuse c"

text \<open>\<open>strcmp(name, s) == 0\<close> on a name block; a block without a terminator is read past its end.\<close>

fun name_eq :: "bytes \<Rightarrow> bytes \<Rightarrow> bool option" where
  "name_eq [] s = None"
| "name_eq (b # bs) [] = Some (b = 0)"
| "name_eq (b # bs) (x # xs) = (if b = x then name_eq bs xs else Some False)"

text \<open>The first registration with the name: \<open>None\<close> undefined, \<open>Some None\<close> not found.\<close>

fun find_registration :: "registration list \<Rightarrow> bytes \<Rightarrow> registration option option" where
  "find_registration [] s = Some None"
| "find_registration (r # rs) s =
     (case name_eq (reg_name r) s of
        None \<Rightarrow> None
      | Some True \<Rightarrow> Some (Some r)
      | Some False \<Rightarrow> find_registration rs s)"

subsection \<open>Acknowledgements\<close>

text \<open>A message with one command, sent without a callback and deleted when that fails.  Its creation is not
  checked.\<close>

definition send_command ::
  "('w, 'd) env \<Rightarrow> bytes \<Rightarrow> 'd json \<Rightarrow> ('w, 'd) tr50 \<Rightarrow> (int \<times> ('w, 'd) tr50) option" where
  "send_command E cmd params c =
     (case client_message_create E c of
        (Inl _, c) \<Rightarrow> None
      | (Inr m, c) \<Rightarrow> do {
          msg \<leftarrow> cl_store c m;
          msg \<leftarrow> snd (tr50_message_add_command (en_doubles E) (Some msg) (Some (cstr ''1'')) (Some cmd) (Some params));
          c \<leftarrow> update_message m (\<lambda>_. msg) c;
          (ret, c) \<leftarrow> tr50_api_call E m c;
          if ret \<noteq> 0 then do { (_, c) \<leftarrow> tr50_message_delete m c; Some (ret, c) }
          else Some (0, c) })"

definition update_params :: "'d doubles \<Rightarrow> bytes \<Rightarrow> bytes option \<Rightarrow> 'd json" where
  "update_params F ident msg =
     (let params = tr50_json_add_string_to_object F (tr50_json_create_object F) (Some (cstr ''id'')) (Some ident)
      in if msg \<noteq> None then tr50_json_add_string_to_object F params (Some (cstr ''msg'')) msg else params)"

definition tr50_command_update ::
  "('w, 'd) env \<Rightarrow> bytes \<Rightarrow> bytes option \<Rightarrow> ('w, 'd) tr50 \<Rightarrow> (int \<times> ('w, 'd) tr50) option" where
  "tr50_command_update E ident msg c = do {
     (_, c) \<leftarrow> send_command E (cstr ''mailbox.update'') (update_params (en_doubles E) ident msg) c;
     Some (0, c) }"

definition ack_params :: "'d doubles \<Rightarrow> bytes \<Rightarrow> int \<Rightarrow> bytes option \<Rightarrow> 'd json option \<Rightarrow> 'd json" where
  "ack_params F ident status err_message ack =
     (let params = tr50_json_add_string_to_object F (tr50_json_create_object F) (Some (cstr ''id'')) (Some ident);
          params =
            (if status \<noteq> 0 then
               let params = tr50_json_add_number_to_object F params (Some (cstr ''errorCode'')) (d_of_int F status)
               in if err_message \<noteq> None
                  then tr50_json_add_string_to_object F params (Some (cstr ''errorMessage'')) err_message else params
             else params)
      in case ack of None \<Rightarrow> params | Some a \<Rightarrow> tr50_json_add_item_to_object params (Some json_params) a)"

definition tr50_command_ack ::
  "('w, 'd) env \<Rightarrow> bytes \<Rightarrow> int \<Rightarrow> bytes option \<Rightarrow> 'd json option \<Rightarrow> ('w, 'd) tr50 \<Rightarrow> (int \<times> ('w, 'd) tr50) option" where
  "tr50_command_ack E ident status err_message ack c =
     send_command E (cstr ''mailbox.ack'') (ack_params (en_doubles E) ident status err_message ack) c"

text \<open>The functions of tr50.method.c send the same messages.\<close>

definition tr50_method_update ::
  "('w, 'd) env \<Rightarrow> bytes \<Rightarrow> bytes option \<Rightarrow> ('w, 'd) tr50 \<Rightarrow> (int \<times> ('w, 'd) tr50) option" where
  "tr50_method_update E ident msg c = do {
     (_, c) \<leftarrow> send_command E (cstr ''mailbox.update'') (update_params (en_doubles E) ident msg) c;
     Some (0, c) }"

definition tr50_method_ack ::
  "('w, 'd) env \<Rightarrow> bytes \<Rightarrow> int \<Rightarrow> bytes option \<Rightarrow> 'd json option \<Rightarrow> ('w, 'd) tr50 \<Rightarrow> (int \<times> ('w, 'd) tr50) option" where
  "tr50_method_ack E ident status err_message ack c =
     send_command E (cstr ''mailbox.ack'') (ack_params (en_doubles E) ident status err_message ack) c"

subsection \<open>Running a command\<close>

definition method_exec :: bytes where "method_exec = cstr ''method.exec''"

definition tr50_command_process ::
  "('w, 'd) env \<Rightarrow> bytes \<Rightarrow> bytes \<Rightarrow> bytes option \<Rightarrow> bytes option \<Rightarrow> 'd json option \<Rightarrow> ('w, 'd) tr50 \<Rightarrow>
   (int \<times> ('w, 'd) tr50) option" where
  "tr50_command_process E ident key command from params c =
     (case command of
        None \<Rightarrow> Some (ERR_TR50_CMD_UNKNOWN, c)
      | Some command \<Rightarrow>
          if command = method_exec \<and> tr50_is_method_registered c then Some (0, c)
          else (case find_registration (cl_commands c) command of
                  None \<Rightarrow> None
                | Some (Some r) \<Rightarrow>
                    Some (en_answer E (reg_callback r), emit (CeCommand (reg_callback r) ident key command from params) c)
                | Some None \<Rightarrow> do {
                    (_, c) \<leftarrow> tr50_command_ack E ident ERR_TR50_CMD_UNKNOWN (Some (cstr ''Unknown command'')) None c;
                    Some (ERR_TR50_CMD_UNKNOWN, c) }))"

definition tr50_method_process ::
  "('w, 'd) env \<Rightarrow> bytes \<Rightarrow> bytes \<Rightarrow> bytes option \<Rightarrow> bytes option \<Rightarrow> 'd json option \<Rightarrow> ('w, 'd) tr50 \<Rightarrow>
   (int \<times> ('w, 'd) tr50) option" where
  "tr50_method_process E ident key method_name from params c =
     (if \<not> cl_method_inuse c then Some (0, c)
      else case method_name of
        None \<Rightarrow> Some (ERR_TR50_METHOD_UNKNOWN, c)
      | Some method_name \<Rightarrow>
          (case find_registration (cl_methods c) method_name of
             None \<Rightarrow> None
           | Some (Some r) \<Rightarrow>
               Some (en_answer E (reg_callback r), emit (CeMethod (reg_callback r) ident key method_name from params) c)
           | Some None \<Rightarrow> do {
               (_, c) \<leftarrow> tr50_method_ack E ident ERR_TR50_METHOD_UNKNOWN (Some (cstr ''Unknown method'')) None c;
               Some (ERR_TR50_METHOD_UNKNOWN, c) }))"

subsection \<open>The mailbox\<close>

text \<open>The address of \<open>_tr50_mailbox_check_callback\<close> among the callbacks; the application's are others.\<close>

definition MAILBOX_CALLBACK :: nat where "MAILBOX_CALLBACK = 1"

definition mailbox_check_failed :: "int \<Rightarrow> ('w, 'd) tr50 \<Rightarrow> int \<times> ('w, 'd) tr50" where
  "mailbox_check_failed ret c = (ret, c\<lparr>cl_mailbox_send_in_progress := False, cl_mailbox_another_request := False\<rparr>)"

definition tr50_mailbox_check :: "('w, 'd) env \<Rightarrow> ('w, 'd) tr50 \<Rightarrow> (int \<times> ('w, 'd) tr50) option" where
  "tr50_mailbox_check E c =
     (if cl_mailbox_suspend c then Some (ERR_TR50_MAILBOX_SUSPENDED, c)
      else if cl_mailbox_send_in_progress c
      then Some (ERR_TR50_MAILBOX_CHECK_IN_PROGRESS, c\<lparr>cl_mailbox_another_request := True\<rparr>)
      else
        let c = stats_up stats_mailbox_check_up (c\<lparr>cl_mailbox_send_in_progress := True\<rparr>)
        in case client_message_create E c of
             (Inl ret, c) \<Rightarrow> Some (mailbox_check_failed ret c)
           | (Inr m, c) \<Rightarrow> do {
               msg \<leftarrow> cl_store c m;
               msg \<leftarrow> snd (tr50_message_add_command (en_doubles E) (Some msg) (Some (cstr ''1''))
                        (Some (cstr ''mailbox.check'')) None);
               c \<leftarrow> update_message m (\<lambda>_. msg) c;
               (ret, c) \<leftarrow> tr50_api_call_async E m (Some MAILBOX_CALLBACK) 0 30000 c;
               if ret \<noteq> 0 then do { (_, c) \<leftarrow> tr50_message_delete m c; Some (mailbox_check_failed ret c) }
               else Some (0, c) })"

definition tr50_mailbox_suspend :: "('w, 'd) tr50 \<Rightarrow> int \<times> ('w, 'd) tr50" where
  "tr50_mailbox_suspend c = (0, c\<lparr>cl_mailbox_suspend := True\<rparr>)"

definition tr50_mailbox_resume :: "('w, 'd) env \<Rightarrow> bool \<Rightarrow> ('w, 'd) tr50 \<Rightarrow> (int \<times> ('w, 'd) tr50) option" where
  "tr50_mailbox_resume E check_immediately c =
     (let c = c\<lparr>cl_mailbox_suspend := False\<rparr> in
      if check_immediately then do { (_, c) \<leftarrow> tr50_mailbox_check E c; Some (0, c) } else Some (0, c))"

text \<open>One message of the mailbox.  Without an id, a thing key or a command it is skipped.  A \<open>method.exec\<close>
  is given to the methods first.\<close>

definition mailbox_item :: "('w, 'd) env \<Rightarrow> 'd json \<Rightarrow> ('w, 'd) tr50 \<Rightarrow> ('w, 'd) tr50 option" where
  "mailbox_item E item c =
     (let str = (\<lambda>name. tr50_json_get_object_item_as_string (Some item) (Some (cstr name)));
          params = tr50_json_get_object_item (Some item) (Some json_params)
      in case (str ''id'', str ''thingKey'', str ''command'') of
           (Some ident, Some thing_key, Some command) \<Rightarrow> do {
             c \<leftarrow> (if command = method_exec
                   then map_option snd
                     (tr50_method_process E ident thing_key
                       (tr50_json_get_object_item_as_string params (Some (cstr ''method''))) (str ''from'')
                       (tr50_json_get_object_item params (Some json_params)) c)
                   else Some c);
             map_option snd (tr50_command_process E ident thing_key (Some command) (str ''from'') params c) }
         | _ \<Rightarrow> Some c)"

fun mailbox_items :: "('w, 'd) env \<Rightarrow> 'd json list \<Rightarrow> ('w, 'd) tr50 \<Rightarrow> ('w, 'd) tr50 option" where
  "mailbox_items E [] c = Some c"
| "mailbox_items E (item # items) c = do { c \<leftarrow> mailbox_item E item c; mailbox_items E items c }"

text \<open>The label \<open>check_for_another_mail_item\<close>.\<close>

definition mailbox_check_again :: "('w, 'd) env \<Rightarrow> int \<Rightarrow> ('w, 'd) tr50 \<Rightarrow> ('w, 'd) tr50 option" where
  "mailbox_check_again E n c =
     (let c = c\<lparr>cl_mailbox_send_in_progress := False\<rparr> in
      if n > 0 \<or> cl_mailbox_another_request c
      then map_option snd (tr50_mailbox_check E (c\<lparr>cl_mailbox_another_request := False\<rparr>))
      else Some c)"

text \<open>The reply belongs to the callback; deleting it has no effect on the rest.  A NULL reply has no
  parameters.\<close>

definition mailbox_check_callback ::
  "('w, 'd) env \<Rightarrow> int \<Rightarrow> 'd message option \<Rightarrow> ('w, 'd) tr50 \<Rightarrow> ('w, 'd) tr50 option" where
  "mailbox_check_callback E status reply c =
     (if status \<noteq> 0 then mailbox_check_again E 0 c
      else
        let params = fst (tr50_reply_get_params reply (Some (cstr ''1'')) False)
        in case tr50_json_get_object_item params (Some (cstr ''messages'')) of
             None \<Rightarrow> mailbox_check_again E 0 c
           | Some methods \<Rightarrow> do {
               c \<leftarrow> mailbox_items E (jchild methods) c;
               mailbox_check_again E (tr50_json_get_array_size (Some methods)) c })"

text \<open>Calling the callback of the request at \<open>m\<close>.\<close>

definition run_call :: "('w, 'd) env \<Rightarrow> nat \<Rightarrow> 'd reply_call \<Rightarrow> ('w, 'd) tr50 \<Rightarrow> ('w, 'd) tr50 option" where
  "run_call E m call c =
     (let c = emit (CeReply m call) c in
      case call of
        ReplyCall cb status request reply cust \<Rightarrow>
          if cb = MAILBOX_CALLBACK then mailbox_check_callback E status reply c else Some c
      | RawCall cb status data cust \<Rightarrow> Some c)"

end
