(* ===== verification/Tr50_Dispatch.thy ===== *)
theory Tr50_Dispatch
  imports Tr50_Mailbox
begin

section \<open>Life cycle and dispatch (tr50.c)\<close>

text \<open>
  Creating, starting and stopping a client, the requests it passes on to the MQTT client, and what it
  does when the MQTT client reports something: replies go to the requests that wait for them, a
  notification starts a check of the mailbox.  The handler thread of the MQTT client and the expiration
  handler of the pending list are steps of the client here, callbacks included.
\<close>

subsection \<open>Creating and deleting\<close>

definition sizeof_tr50_client :: nat where "sizeof_tr50_client = 1512"

definition client_new :: "'w \<Rightarrow> ('w, 'd) tr50" where
  "client_new w =
     \<lparr>cl_connect_params = None, cl_mqtt = None, cl_state = TR50_STATE_STOPPED, cl_seq_id = 0, cl_compress = 0,
      cl_is_stopping = False, cl_should_reconnect_callback = None, cl_should_reconnect_custom = 0,
      cl_non_api_callback = None, cl_non_api_callback_custom = 0, cl_commands = [], cl_pending = pending_new,
      cl_config = config_new, cl_stats = stats_new, cl_methods = [], cl_mailbox_suspend = False,
      cl_mailbox_send_in_progress = False, cl_mailbox_another_request = False, cl_method_inuse = False,
      cl_store = (\<lambda>_. None), cl_next = 1, cl_world = w, cl_events = []\<rparr>"

definition tr50_create ::
  "('w, 'd) env \<Rightarrow> bytes option \<Rightarrow> bytes option \<Rightarrow> int \<Rightarrow> 'w \<Rightarrow> (int + ('w, 'd) tr50) option" where
  "tr50_create E cid hst prt w =
     (case p_malloc (en_platform E) w of (m, w) \<Rightarrow>
      case m sizeof_tr50_client of
        None \<Rightarrow> Some (Inl ERR_TR50_MALLOC)
      | Some _ \<Rightarrow>
          (case p_malloc (en_platform E) w of (m1, w) \<Rightarrow>
           case p_malloc (en_platform E) w of (m2, w) \<Rightarrow> do {
             cf \<leftarrow> tr50_config_set_client_id m1 config_new cid;
             cf \<leftarrow> tr50_config_set_host m2 cf hst;
             let cf = tr50_config_set_keeplive (tr50_config_set_timeout (tr50_config_set_port cf prt) 5000) 60000;
             Some (Inr ((client_new w)\<lparr>cl_config := cf\<rparr>)) }))"

definition tr50_delete :: "('w, 'd) tr50 \<Rightarrow> ('w, 'd) tr50 option" where
  "tr50_delete c = do {
     cf \<leftarrow> config_delete (cl_config c);
     Some (c\<lparr>cl_pending := tr50_pending_delete (cl_pending c), cl_config := cf\<rparr>) }"

text \<open>\<open>answer\<close> is what the application's callback answers, if it has one.\<close>

definition should_reconnect_callback :: "('w, 'd) tr50 \<Rightarrow> bool \<Rightarrow> int \<Rightarrow> bool" where
  "should_reconnect_callback c answer last_reconnect_in_ms =
     (if cl_should_reconnect_callback c \<noteq> None then answer else last_reconnect_in_ms \<ge> 60000)"

subsection \<open>Starting and stopping\<close>

text \<open>The parameters of the connection, from the configuration.  Without memory for them, or with a NULL
  client id or host, the code dereferences NULL.\<close>

definition config_params ::
  "('w, 'd) env \<Rightarrow> config \<Rightarrow> 'w \<Rightarrow> (mqtt_connect_params \<times> 'w) option" where
  "config_params E cf w = do {
     cid \<leftarrow> Option.bind (cptr_read (cf_client_id cf)) (\<lambda>s. s);
     hst \<leftarrow> Option.bind (cptr_read (cf_host cf)) (\<lambda>s. s);
     (case mqtt_connect_params_create (en_platform E) cid hst (cf_port cf) (word_of_int (cf_keepalive_in_ms cf sdiv 1000)) w of
        (Inl _, w) \<Rightarrow> None
      | (Inr params, w) \<Rightarrow> do {
          (params, w) \<leftarrow>
            (if cf_proxy_type cf > 0 then do {
               addr \<leftarrow> cptr_read (cf_proxy_addr cf);
               user \<leftarrow> cptr_read (cf_proxy_username cf);
               pass \<leftarrow> cptr_read (cf_proxy_password cf);
               (case mqtt_connect_params_use_proxy (en_platform E) params (cf_proxy_type cf) addr user pass w of
                  ((_, params), w) \<Rightarrow> Some (params, w)) }
             else Some (params, w));
          let params = (if cf_ssl cf \<noteq> 0 then snd (mqtt_connect_params_use_ssl params) else params);
          let params = (if cf_https_proxy cf \<noteq> 0 then snd (mqtt_connect_params_use_https_proxy params) else params);
          if cf_username cf \<noteq> CNull \<and> cf_password cf \<noteq> CNull then do {
            user \<leftarrow> Option.bind (cptr_read (cf_username cf)) (\<lambda>s. s);
            pass \<leftarrow> Option.bind (cptr_read (cf_password cf)) (\<lambda>s. s);
            (case mqtt_connect_params_set_username (en_platform E) params user pass w of
               ((_, params), w) \<Rightarrow> Some (params, w)) }
          else Some (params, w) }) }"

text \<open>\<open>mux\<close> and \<open>thread\<close> are the results of creating the MQTT client's mutex and thread.  The results are the
  return code, \<open>*connect_error\<close> and the client.  A failed start keeps what \<open>mqtt_async_connect\<close> stored in
  \<open>client->mqtt\<close>, NULL or a deleted client, which no operation looks at before the next start.\<close>

definition start_client :: "config \<Rightarrow> mqtt_connect_params \<Rightarrow> ('w, 'd) tr50 \<Rightarrow> ('w, 'd) tr50" where
  "start_client cf params c =
     c\<lparr>cl_connect_params := Some params, cl_compress := cf_compress cf,
       cl_stats := tr50_stats_clear_compression_ratio (cl_stats c),
       cl_should_reconnect_callback := cf_should_reconnect_callback cf,
       cl_should_reconnect_custom := cf_should_reconnect_custom cf,
       cl_non_api_callback := cf_non_api_handler cf, cl_non_api_callback_custom := cf_non_api_handler_custom cf,
       cl_state := TR50_STATE_STARTED\<rparr>"

definition tr50_start2 ::
  "('w, 'd) env \<Rightarrow> int \<Rightarrow> int \<Rightarrow> ('w, 'd) tr50 \<Rightarrow> (int \<times> int \<times> ('w, 'd) tr50) option" where
  "tr50_start2 E mux thread c =
     (if cl_state c = TR50_STATE_STARTED then Some (ERR_TR50_ALREADY_STARTED, 0, c)
      else do {
        (params, w) \<leftarrow> config_params E (cl_config c) (cl_world c);
        let c = start_client (cl_config c) params c;
        (ret, mq, err, w, evs) \<leftarrow> mqtt_async_connect (en_platform E) params True True True mux thread w;
        let c = handle_states E evs (c\<lparr>cl_mqtt := mq, cl_world := w\<rparr>);
        Some (ret, err, if ret \<noteq> 0 then c\<lparr>cl_state := TR50_STATE_STOPPED\<rparr> else c) })"

definition tr50_start :: "('w, 'd) env \<Rightarrow> int \<Rightarrow> int \<Rightarrow> ('w, 'd) tr50 \<Rightarrow> (int \<times> ('w, 'd) tr50) option" where
  "tr50_start E mux thread c = map_option (\<lambda>(ret, _, c). (ret, c)) (tr50_start2 E mux thread c)"

text \<open>\<open>tr50_stop\<close> around the join of the handler thread in \<open>mqtt_async_disconnect\<close>: before it, with the return
  code, \<open>last_sent\<close> and \<open>last_recv\<close>, and after it.\<close>

definition tr50_stop_begin :: "('w, 'd) env \<Rightarrow> ('w, 'd) tr50 \<Rightarrow> (int \<times> (int \<times> int) \<times> ('w, 'd) tr50) option" where
  "tr50_stop_begin E c =
     (if cl_state c = TR50_STATE_STOPPED then Some (ERR_TR50_ALREADY_STOPPED, (0, 0), c)
      else if cl_is_stopping c then Some (ERR_TR50_STOPPING, (0, 0), c)
      else case cl_mqtt c of
             None \<Rightarrow> None
           | Some mq \<Rightarrow>
               let last_sent = c_int (mqtt_async_stats_byte_sent mq);
                   last_recv = c_int (mqtt_async_stats_byte_recv mq)
               in (case async_disconnect_begin mq of
                     (mq, evs) \<Rightarrow>
                       Some (0, (last_sent, last_recv), handle_states E evs (c\<lparr>cl_is_stopping := True, cl_mqtt := Some mq\<rparr>))))"

definition tr50_stop_end :: "('w, 'd) env \<Rightarrow> int \<times> int \<Rightarrow> ('w, 'd) tr50 \<Rightarrow> ('w, 'd) tr50 option" where
  "tr50_stop_end E totals c = do {
     mq \<leftarrow> cl_mqtt c;
     (mq, w, evs) \<leftarrow> async_disconnect_end (en_platform E) mq (cl_world c);
     let c = handle_states E evs (c\<lparr>cl_world := w\<rparr>);
     Some (stats_up (\<lambda>st. st\<lparr>st_total_sent := st_total_sent st + fst totals, st_total_recv := st_total_recv st + snd totals\<rparr>)
       (c\<lparr>cl_connect_params := None, cl_mqtt := None, cl_state := TR50_STATE_STOPPED, cl_is_stopping := False\<rparr>)) }"

subsection \<open>State and status\<close>

definition TR50_STATUS_STOPPING :: int where "TR50_STATUS_STOPPING = 6"
definition TR50_STATUS_STOPPED :: int where "TR50_STATUS_STOPPED = 7"

definition tr50_current_state :: "('w, 'd) tr50 \<Rightarrow> int" where
  "tr50_current_state c = cl_state c"

definition tr50_current_status :: "('w, 'd) tr50 \<Rightarrow> int option" where
  "tr50_current_status c =
     (if cl_is_stopping c then Some TR50_STATUS_STOPPING
      else if cl_state c = TR50_STATE_STOPPED then Some TR50_STATUS_STOPPED
      else map_option mqtt_async_state (cl_mqtt c))"

definition tr50_current_state_string :: "('w, 'd) tr50 \<Rightarrow> string" where
  "tr50_current_state_string c =
     (if cl_state c = TR50_STATE_STARTED then ''Started''
      else if cl_state c = TR50_STATE_STOPPED then ''Stopped'' else ''Unknown'')"

definition tr50_status_to_string :: "int \<Rightarrow> string" where
  "tr50_status_to_string status =
     (if status = 0 then ''Stopped'' else if status = 1 then ''Connecting'' else if status = 2 then ''Connected''
      else if status = 3 then ''Broken'' else if status = 4 then ''Reconnecting'' else if status = 5 then ''Disabled''
      else if status = TR50_STATUS_STOPPING then ''Stopping'' else if status = TR50_STATUS_STOPPED then ''Stopped''
      else ''Unknown'')"

definition mqtt_state_string :: "int \<Rightarrow> string" where
  "mqtt_state_string st =
     (if st = STATE_CONNECTING then ''Connecting'' else if st = STATE_CONNECTED then ''Connected''
      else if st = STATE_BROKEN then ''Broken'' else if st = STATE_RECONNECTING then ''Reconnecting''
      else if st = STATE_DISABLED then ''Disabled'' else if st = STATE_DELETING then ''Disconnecting''
      else if st = STATE_DELETED then ''Stopped'' else ''Unknown'')"

definition tr50_current_status_string :: "('w, 'd) tr50 \<Rightarrow> string option" where
  "tr50_current_status_string c =
     (if cl_is_stopping c then Some ''Disconnecting''
      else if cl_state c = TR50_STATE_STOPPED then Some ''Stopped''
      else map_option (\<lambda>mq. mqtt_state_string (mqtt_async_state mq)) (cl_mqtt c))"

subsection \<open>MQTT requests of the application\<close>

definition checked :: "('w, 'd) tr50 \<Rightarrow> (int \<times> ('w, 'd) tr50) option \<Rightarrow> (int \<times> ('w, 'd) tr50) option" where
  "checked c r = (if api_check c \<noteq> 0 then Some (api_check c, c) else r)"

definition tr50_mqtt_subscribe ::
  "('w, 'd) env \<Rightarrow> bytes \<Rightarrow> int \<Rightarrow> nat option \<Rightarrow> nat \<Rightarrow> ('w, 'd) tr50 \<Rightarrow> (int \<times> ('w, 'd) tr50) option" where
  "tr50_mqtt_subscribe E topic_filter qs cb cust c =
     checked c (lift_request E (\<lambda>mq tid w. mqtt_async_subscribe (en_platform E) mq tid topic_filter qs cb cust w) c)"

definition tr50_mqtt_unsubscribe ::
  "('w, 'd) env \<Rightarrow> bytes \<Rightarrow> nat option \<Rightarrow> nat \<Rightarrow> ('w, 'd) tr50 \<Rightarrow> (int \<times> ('w, 'd) tr50) option" where
  "tr50_mqtt_unsubscribe E topic_filter cb cust c =
     checked c (lift_request E (\<lambda>mq tid w. mqtt_async_unsubscribe (en_platform E) mq tid topic_filter cb cust w) c)"

definition tr50_mqtt_publish_base ::
  "('w, 'd) env \<Rightarrow> bytes \<Rightarrow> bytes \<Rightarrow> int \<Rightarrow> int \<Rightarrow> int \<Rightarrow> nat option \<Rightarrow> nat \<Rightarrow> ('w, 'd) tr50 \<Rightarrow>
   (int \<times> ('w, 'd) tr50) option" where
  "tr50_mqtt_publish_base E topic data len retain qs cb cust c =
     checked c (lift_request E
       (\<lambda>mq tid w. if qs = 0 then mqtt_async_publish (en_platform E) mq tid topic data len retain w
                    else mqtt_async_publish_qos1 (en_platform E) mq tid topic data len retain cb cust w) c)"

definition tr50_mqtt_publish ::
  "('w, 'd) env \<Rightarrow> bytes \<Rightarrow> bytes \<Rightarrow> int \<Rightarrow> int \<Rightarrow> ('w, 'd) tr50 \<Rightarrow> (int \<times> ('w, 'd) tr50) option" where
  "tr50_mqtt_publish E topic data len retain c = tr50_mqtt_publish_base E topic data len retain 0 None 0 c"

definition tr50_mqtt_publish_qos1 ::
  "('w, 'd) env \<Rightarrow> bytes \<Rightarrow> bytes \<Rightarrow> int \<Rightarrow> int \<Rightarrow> nat option \<Rightarrow> nat \<Rightarrow> ('w, 'd) tr50 \<Rightarrow> (int \<times> ('w, 'd) tr50) option" where
  "tr50_mqtt_publish_qos1 E topic data len retain cb cust c = tr50_mqtt_publish_base E topic data len retain 1 cb cust c"

subsection \<open>Replies\<close>

text \<open>\<open>atoi\<close>: white space, a sign, digits; a number that does not fit is undefined.\<close>

definition c_atoi :: "bytes \<Rightarrow> int option" where
  "c_atoi bs =
     (let bs = dropWhile is_space bs in
      case bs of
        [] \<Rightarrow> Some 0
      | b # rest \<Rightarrow>
          if b = 0x2D then int_ok (- digits_value rest)
          else if b = 0x2B then int_ok (digits_value rest)
          else int_ok (digits_value bs))"

text \<open>What follows a reply that was given to its request.\<close>

definition reply_done :: "nat \<Rightarrow> bytes \<Rightarrow> int \<Rightarrow> ('w, 'd) tr50 \<Rightarrow> ('w, 'd) tr50 option" where
  "reply_done m data data_len c =
     map_option snd (tr50_message_delete m (watch data True (stats_up (\<lambda>st. stats_pub_recv_up st data_len) c)))"

text \<open>The text of a reply is what comes before its first NUL byte; a reply that is not JSON, or that is a request,
  leaves the request it answers neither called nor in the list.\<close>

definition publish_handle_publish ::
  "('w, 'd) env \<Rightarrow> bytes \<Rightarrow> int \<Rightarrow> int \<Rightarrow> ('w, 'd) tr50 \<Rightarrow> ('w, 'd) tr50 option" where
  "publish_handle_publish E data data_len sid c = do {
     (m, c) \<leftarrow> client_find_and_remove sid c;
     if m = 0 then Some c
     else do {
       request \<leftarrow> cl_store c m;
       if message_type request = TR50_MESSAGE_TYPE_RAW then do {
         c \<leftarrow> (case raw_callback request of
                  None \<Rightarrow> Some c
                | Some cb \<Rightarrow> run_call E m (RawCall cb 0 (Some data) (callback_custom request)) c);
         reply_done m data data_len c }
       else if message_type request = TR50_MESSAGE_TYPE_OBJ then
         (case p_malloc (en_platform E) (cl_world c) of (ml, w) \<Rightarrow> do {
            r \<leftarrow> tr50_message_from_string (en_doubles E) ml data;
            (case r of
               Inl _ \<Rightarrow> Some (watch data True (emit (CeDropped m) c))
             | Inr reply \<Rightarrow>
                 if \<not> is_reply reply then Some (emit (CeDropped m) (c\<lparr>cl_world := w\<rparr>))
                 else do {
                   let c = c\<lparr>cl_world := w\<rparr>;
                   let reply = reply\<lparr>seq_id := sid\<rparr>;
                   c \<leftarrow> (case reply_callback request of
                            None \<Rightarrow> Some c
                          | Some cb \<Rightarrow> do {
                              let (_, c) = time_now E c;
                              c \<leftarrow> run_call E m (ReplyCall cb 0 m (Some reply) (callback_custom request)) c;
                              let (_, c) = time_now E c;
                              Some c });
                   reply_done m data data_len c }) })
       else reply_done m data data_len c } }"

definition topic_reply :: bytes where "topic_reply = cstr ''reply/''"
definition topic_compress_reply :: bytes where "topic_compress_reply = cstr ''replyz/''"

text \<open>A published message: topic and payload up to their first NUL byte, the payload's length.  NULL (a
  failed allocation below) is passed to \<open>strncmp\<close>.\<close>

definition publish_handler ::
  "('w, 'd) env \<Rightarrow> bytes option \<Rightarrow> bytes option \<Rightarrow> int \<Rightarrow> ('w, 'd) tr50 \<Rightarrow> ('w, 'd) tr50 option" where
  "publish_handler E topic data data_len c = do {
     topic \<leftarrow> map_option (takeWhile (\<lambda>b. b \<noteq> 0)) topic;
     data \<leftarrow> data;
     let c = (if cl_non_api_callback c \<noteq> None then emit (CeNonApi topic data data_len) c else c);
     if take 7 topic = topic_compress_reply then
       (case en_inflate E data of
          Inl ret \<Rightarrow> Some c
        | Inr out \<Rightarrow> do {
            let c = stats_up (\<lambda>st. stats_set_compress_ratio st (int (length out)) data_len) c;
            sid \<leftarrow> c_atoi (drop 7 topic);
            publish_handle_publish E (takeWhile (\<lambda>b. b \<noteq> 0) out) (int (length out)) sid c })
     else if take 6 topic = topic_reply then do {
       sid \<leftarrow> c_atoi (drop 6 topic);
       publish_handle_publish E (takeWhile (\<lambda>b. b \<noteq> 0) data) data_len sid c }
     else if topic = cstr ''notify/mailbox_activity'' then
       map_option snd (tr50_mailbox_check E (stats_up stats_notify_up c))
     else Some c }"

subsection \<open>The two threads of the library\<close>

text \<open>What the MQTT client reports, in its order; a step of its handler reports at most one message, at its end.\<close>

fun handle_events :: "('w, 'd) env \<Rightarrow> event list \<Rightarrow> ('w, 'd) tr50 \<Rightarrow> ('w, 'd) tr50 option" where
  "handle_events E [] c = Some c"
| "handle_events E (EvState prev cur err why # evs) c = handle_events E evs (state_change_handler E prev cur err why c)"
| "handle_events E (EvPublish topic data len # evs) c = do {
     c \<leftarrow> publish_handler E topic data len c; handle_events E evs c }"
| "handle_events E (EvQos call # evs) c = handle_events E evs (emit (CeQos call) c)"

definition client_handler_step ::
  "('w, 'd) env \<Rightarrow> bool \<Rightarrow> pc \<times> int \<Rightarrow> ('w, 'd) tr50 \<Rightarrow> ((pc \<times> int) \<times> ('w, 'd) tr50) option" where
  "client_handler_step E answer thr c =
     (case cl_mqtt c of
        None \<Rightarrow> None
      | Some mq \<Rightarrow>
          let ans = (case fst thr of PWait tot counter \<Rightarrow> should_reconnect_callback c answer counter | _ \<Rightarrow> answer) in
          do {
            (thr, mq, w, evs) \<leftarrow> async_handler_step (en_platform E) ans thr mq (cl_world c);
            c \<leftarrow> handle_events E evs (c\<lparr>cl_mqtt := Some mq, cl_world := w\<rparr>);
            Some (thr, c) })"

text \<open>A round of the expiration handler: the loop of \<open>Tr50_Pending\<close> with the callbacks run where the code runs
  them.  The address of the next message is read before.\<close>

fun run_calls :: "('w, 'd) env \<Rightarrow> nat \<Rightarrow> 'd reply_call list \<Rightarrow> ('w, 'd) tr50 \<Rightarrow> ('w, 'd) tr50 option" where
  "run_calls E m [] c = Some c"
| "run_calls E m (call # calls) c = do { c \<leftarrow> run_call E m call c; run_calls E m calls c }"

partial_function (option) client_expire_loop ::
  "('w, 'd) env \<Rightarrow> int \<Rightarrow> nat \<Rightarrow> ('w, 'd) tr50 \<Rightarrow> ('w, 'd) tr50 option" where
  "client_expire_loop E now ptr c =
     (if ptr = 0 then Some c
      else case cl_store c ptr of
             None \<Rightarrow> None
           | Some msg \<Rightarrow>
               (case expire_one now ptr msg (cl_pending c, cl_store c) of
                  None \<Rightarrow> None
                | Some ((pd, h), calls) \<Rightarrow>
                    (case run_calls E ptr calls (c\<lparr>cl_pending := pd, cl_store := h\<rparr>) of
                       None \<Rightarrow> None
                     | Some c \<Rightarrow> client_expire_loop E now (pending_next msg) c)))"

declare client_expire_loop.simps [code]

definition client_expiration_round :: "('w, 'd) env \<Rightarrow> ('w, 'd) tr50 \<Rightarrow> ('w, 'd) tr50 option" where
  "client_expiration_round E c =
     (case time_now E c of (now, c) \<Rightarrow> client_expire_loop E now (pd_head (cl_pending c)) c)"

end
