(* ===== verification/Tr50_Worker.thy ===== *)
theory Tr50_Worker
  imports Tr50_Dispatch
begin

section \<open>The thing API (tr50.worker.c, tr50.worker.extended.c)\<close>

text \<open>
  Each function of the thing API builds the parameters of one command, sends it as the only command of a
  message, and, when it is a synchronous one, waits for the reply.  A JSON tree is a value here, so the
  code's deletion of trees is not visible, with one exception: a string that a function hands out of a reply
  which it has deleted is \<open>CFreed\<close>.  A NULL string or tree is \<open>None\<close>, and so is an execution that is
  undefined or that never returns.  The transfer of files is in \<open>Tr50_Worker_File\<close>.
\<close>

subsection \<open>Waiting for a reply\<close>

text \<open>\<open>_tr50_api_call_sync_callback\<close> among the callbacks.\<close>

definition SYNC_CALLBACK :: nat where "SYNC_CALLBACK = 2"

text \<open>The calling thread: what creating its event answers, the address of its \<open>_TR50_SYNC_OBJ\<close>, and the wait:
  given the request and the client, what the object holds when the event is signalled, and the client then.  The
  threads of the library run meanwhile.\<close>

record ('w, 'd) caller =
  ca_event :: int
  ca_sync :: nat
  ca_wait :: "nat \<Rightarrow> ('w, 'd) tr50 \<Rightarrow> ('d message sync_obj \<times> ('w, 'd) tr50) option"

text \<open>A call that returned 0: wait, and make the reply of what the callback stored.\<close>

definition await_reply ::
  "('w, 'd) env \<Rightarrow> ('w, 'd) caller \<Rightarrow> nat \<Rightarrow> ('w, 'd) tr50 \<Rightarrow> ('d message option \<times> ('w, 'd) tr50) option" where
  "await_reply E K m c = do {
     (sync, c) \<leftarrow> ca_wait K m c;
     (case (if sync_status sync = 0 then (\<lambda>_. None, cl_world c) else p_malloc (en_platform E) (cl_world c)) of
        (ml, w) \<Rightarrow> do {
          reply \<leftarrow> api_call_sync_result (en_doubles E) ml sync;
          Some (reply, c\<lparr>cl_world := w\<rparr>) }) }"

definition tr50_api_call_sync ::
  "('w, 'd) env \<Rightarrow> ('w, 'd) caller \<Rightarrow> nat \<Rightarrow> int \<Rightarrow> ('w, 'd) tr50 \<Rightarrow> (int \<times> 'd message option \<times> ('w, 'd) tr50) option" where
  "tr50_api_call_sync E K m timeout c =
     (if ca_event K \<noteq> 0 then Some (ca_event K, None, c)
      else do {
        (ret, c) \<leftarrow> tr50_api_call_async E m (Some SYNC_CALLBACK) (ca_sync K) timeout c;
        if ret \<noteq> 0 then Some (ret, None, c)
        else do { (reply, c) \<leftarrow> await_reply E K m c; Some (0, reply, c) } })"

subsection \<open>Sending a command\<close>

definition TR50_DEFAULT_TIMEOUT :: int where "TR50_DEFAULT_TIMEOUT = 5000"
definition json_timeout :: bytes where "json_timeout = cstr ''timeout''"
definition json_value :: bytes where "json_value = cstr ''value''"

text \<open>The message of one command.  The code keeps its pointer to \<open>params\<close>, which is now the message's, and takes
  the timeout from it afterwards; the functions below take it before.\<close>

definition command_message ::
  "('w, 'd) env \<Rightarrow> bytes \<Rightarrow> 'd json \<Rightarrow> ('w, 'd) tr50 \<Rightarrow> ((int + nat) \<times> ('w, 'd) tr50) option" where
  "command_message E cmd params c =
     (case client_message_create E c of
        (Inl ret, c) \<Rightarrow> Some (Inl ret, c)
      | (Inr m, c) \<Rightarrow> do {
          msg \<leftarrow> cl_store c m;
          (case tr50_message_add_command (en_doubles E) (Some msg) (Some (cstr ''1'')) (Some cmd) (Some params) of
             (ret, msg) \<Rightarrow>
               if ret \<noteq> 0 then do { (_, c) \<leftarrow> tr50_message_delete m c; Some (Inl ret, c) }
               else do { msg \<leftarrow> msg; c \<leftarrow> update_message m (\<lambda>_. msg) c; Some (Inr m, c) }) })"

definition take_timeout :: "'d json \<Rightarrow> int \<times> 'd json" where
  "take_timeout params =
     (case tr50_json_get_object_item_as_int (Some params) (Some json_timeout) of
        None \<Rightarrow> (TR50_DEFAULT_TIMEOUT, params)
      | Some timeout \<Rightarrow> (timeout, tr50_json_delete_item_from_object params (Some json_timeout)))"

text \<open>The end of the three: call, and delete the message when that fails.\<close>

definition call_command ::
  "('w, 'd) env \<Rightarrow> bytes \<Rightarrow> 'd json \<Rightarrow> nat option \<Rightarrow> nat \<Rightarrow> int \<Rightarrow> ('w, 'd) tr50 \<Rightarrow> (int \<times> ('w, 'd) tr50) option" where
  "call_command E cmd params cb cust timeout c = do {
     (r, c) \<leftarrow> command_message E cmd params c;
     (case r of
        Inl ret \<Rightarrow> Some (ret, c)
      | Inr m \<Rightarrow> do {
          (ret, c) \<leftarrow> tr50_api_call_async E m cb cust timeout c;
          if ret \<noteq> 0 then do { (_, c) \<leftarrow> tr50_message_delete m c; Some (ret, c) } else Some (0, c) }) }"

definition send_json :: "('w, 'd) env \<Rightarrow> bytes \<Rightarrow> 'd json \<Rightarrow> ('w, 'd) tr50 \<Rightarrow> (int \<times> ('w, 'd) tr50) option" where
  "send_json E cmd params c =
     (case take_timeout params of (timeout, params) \<Rightarrow> call_command E cmd params None 0 timeout c)"

definition send_json_async ::
  "('w, 'd) env \<Rightarrow> bytes \<Rightarrow> 'd json \<Rightarrow> nat option \<Rightarrow> nat \<Rightarrow> int \<Rightarrow> ('w, 'd) tr50 \<Rightarrow> (int \<times> ('w, 'd) tr50) option" where
  "send_json_async E cmd params cb cust timeout c = call_command E cmd params cb cust timeout c"

text \<open>What a synchronous call makes of the reply: the error code of its command and, when the caller asked for it, a
  copy of the message; or the parameters, which are taken out of the reply.\<close>

definition read_reply :: "bool \<Rightarrow> 'd message option \<Rightarrow> int \<times> 'd json option \<times> bytes option" where
  "read_reply want_err reply =
     (let ret = tr50_reply_get_error_code reply (Some (cstr ''1'')) in
      if ret \<noteq> 0
      then (ret, None, if want_err then tr50_reply_get_error_message reply (Some (cstr ''1'')) else None)
      else (0, fst (tr50_reply_get_params reply (Some (cstr ''1'')) True), None))"

definition send_json_sync ::
  "('w, 'd) env \<Rightarrow> ('w, 'd) caller \<Rightarrow> bytes \<Rightarrow> 'd json \<Rightarrow> bool \<Rightarrow> ('w, 'd) tr50 \<Rightarrow>
   ((int \<times> 'd json option \<times> bytes option) \<times> ('w, 'd) tr50) option" where
  "send_json_sync E K cmd params want_err c =
     (case take_timeout params of (timeout, params) \<Rightarrow> do {
        (r, c) \<leftarrow> command_message E cmd params c;
        (case r of
           Inl ret \<Rightarrow> Some ((ret, None, None), c)
         | Inr m \<Rightarrow> do {
             (ret, reply, c) \<leftarrow> tr50_api_call_sync E K m timeout c;
             if ret \<noteq> 0 then do { (_, c) \<leftarrow> tr50_message_delete m c; Some ((ret, None, None), c) }
             else Some (read_reply want_err reply, c) }) })"

subsection \<open>The shape of the functions\<close>

text \<open>What a function leaves: its result, what it stored through \<open>optional_reply\<close> (\<open>None\<close>: nothing), and what
  through \<open>error_msg\<close>.\<close>

record 'd outcome =
  oc_ret :: int
  oc_reply :: "'d json option option"
  oc_error :: "bytes option"

definition only_ret :: "int \<Rightarrow> 'd outcome" where
  "only_ret ret = \<lparr>oc_ret = ret, oc_reply = None, oc_error = None\<rparr>"

definition give_reply :: "bool \<Rightarrow> 'd json option \<Rightarrow> 'd json option option" where
  "give_reply want_reply reply = (if want_reply then Some reply else None)"

definition params_or_new :: "'d doubles \<Rightarrow> 'd json option \<Rightarrow> 'd json" where
  "params_or_new F optional_params = (case optional_params of Some p \<Rightarrow> p | None \<Rightarrow> tr50_json_create_object F)"

abbreviation add_string :: "'d doubles \<Rightarrow> string \<Rightarrow> bytes \<Rightarrow> 'd json \<Rightarrow> 'd json" where
  "add_string F name s params \<equiv> tr50_json_add_string_to_object F params (Some (cstr name)) (Some s)"

abbreviation add_number :: "'d doubles \<Rightarrow> string \<Rightarrow> 'd \<Rightarrow> 'd json \<Rightarrow> 'd json" where
  "add_number F name n params \<equiv> tr50_json_add_number_to_object F params (Some (cstr name)) n"

text \<open>The end that most functions share.  On success it gives nothing: the reply's parameters stay behind.\<close>

definition send_and_leave ::
  "('w, 'd) env \<Rightarrow> ('w, 'd) caller \<Rightarrow> bytes \<Rightarrow> 'd json \<Rightarrow> bool \<Rightarrow> bool \<Rightarrow> ('w, 'd) tr50 \<Rightarrow>
   ('d outcome \<times> ('w, 'd) tr50) option" where
  "send_and_leave E K cmd params want_reply want_err c = do {
     ((ret, reply, err), c) \<leftarrow> send_json_sync E K cmd params want_err c;
     Some (if ret \<noteq> 0 then \<lparr>oc_ret = ret, oc_reply = give_reply want_reply reply, oc_error = err\<rparr> else only_ret 0, c) }"

text \<open>The end of the two that give the reply.\<close>

definition send_and_give ::
  "('w, 'd) env \<Rightarrow> ('w, 'd) caller \<Rightarrow> bytes \<Rightarrow> 'd json \<Rightarrow> bool \<Rightarrow> bool \<Rightarrow> ('w, 'd) tr50 \<Rightarrow>
   ('d outcome \<times> ('w, 'd) tr50) option" where
  "send_and_give E K cmd params want_reply want_err c = do {
     ((ret, reply, err), c) \<leftarrow> send_json_sync E K cmd params want_err c;
     Some (\<lparr>oc_ret = ret, oc_reply = give_reply want_reply reply, oc_error = err\<rparr>, c) }"

subsection \<open>Methods\<close>

text \<open>\<open>req_params\<close> is given to \<open>tr50_json_add_item_to_object\<close>, which follows the pointer, NULL or not.\<close>

definition exec_params :: "'d doubles \<Rightarrow> string \<Rightarrow> bytes \<Rightarrow> 'd json option \<Rightarrow> 'd json option \<Rightarrow> 'd json option" where
  "exec_params F name method req_params optional_params =
     map_option (tr50_json_add_item_to_object (add_string F name method (params_or_new F optional_params)) (Some json_params))
       req_params"

definition tr50_method_exec_ex_async ::
  "('w, 'd) env \<Rightarrow> bytes option \<Rightarrow> 'd json option \<Rightarrow> 'd json option \<Rightarrow> nat option \<Rightarrow> nat \<Rightarrow> int \<Rightarrow> ('w, 'd) tr50 \<Rightarrow>
   (int \<times> ('w, 'd) tr50) option" where
  "tr50_method_exec_ex_async E method req_params optional_params cb cust timeout c =
     (case method of
        None \<Rightarrow> Some (ERR_TR50_PARMS, c)
      | Some method \<Rightarrow> do {
          params \<leftarrow> exec_params (en_doubles E) ''method'' method req_params optional_params;
          send_json_async E (cstr ''method.exec'') params cb cust timeout c })"

text \<open>It sends with \<open>send_json\<close>, which does not wait; \<open>reply\<close> stays NULL.\<close>

definition tr50_method_exec_ex_sync ::
  "('w, 'd) env \<Rightarrow> bytes option \<Rightarrow> 'd json option \<Rightarrow> 'd json option \<Rightarrow> bool \<Rightarrow> ('w, 'd) tr50 \<Rightarrow>
   ('d outcome \<times> ('w, 'd) tr50) option" where
  "tr50_method_exec_ex_sync E method req_params optional_params want_reply c =
     (case method of
        None \<Rightarrow> Some (only_ret ERR_TR50_PARMS, c)
      | Some method \<Rightarrow> do {
          params \<leftarrow> exec_params (en_doubles E) ''method'' method req_params optional_params;
          (ret, c) \<leftarrow> send_json E (cstr ''method.exec'') params c;
          Some (if ret \<noteq> 0 then \<lparr>oc_ret = ret, oc_reply = give_reply want_reply None, oc_error = None\<rparr> else only_ret 0, c) })"

subsection \<open>Publishing\<close>

definition tr50_alarm_publish_ex ::
  "('w, 'd) env \<Rightarrow> ('w, 'd) caller \<Rightarrow> bytes option \<Rightarrow> int \<Rightarrow> 'd json option \<Rightarrow> bool \<Rightarrow> bool \<Rightarrow> ('w, 'd) tr50 \<Rightarrow>
   ('d outcome \<times> ('w, 'd) tr50) option" where
  "tr50_alarm_publish_ex E K alarm_key st optional_params want_reply want_err c =
     (case alarm_key of
        None \<Rightarrow> Some (only_ret ERR_TR50_PARMS, c)
      | Some key \<Rightarrow>
          let F = en_doubles E;
              params = add_number F ''state'' (d_of_int F st) (add_string F ''key'' key (params_or_new F optional_params))
          in send_and_leave E K (cstr ''alarm.publish'') params want_reply want_err c)"

definition tr50_location_publish_ex ::
  "('w, 'd) env \<Rightarrow> ('w, 'd) caller \<Rightarrow> 'd \<Rightarrow> 'd \<Rightarrow> 'd json option \<Rightarrow> bool \<Rightarrow> bool \<Rightarrow> ('w, 'd) tr50 \<Rightarrow>
   ('d outcome \<times> ('w, 'd) tr50) option" where
  "tr50_location_publish_ex E K lat_value long_value optional_params want_reply want_err c =
     (let F = en_doubles E;
          params = add_number F ''lng'' long_value (add_number F ''lat'' lat_value (params_or_new F optional_params))
      in send_and_leave E K (cstr ''location.publish'') params want_reply want_err c)"

definition tr50_log_publish_ex ::
  "('w, 'd) env \<Rightarrow> ('w, 'd) caller \<Rightarrow> bytes option \<Rightarrow> 'd json option \<Rightarrow> bool \<Rightarrow> bool \<Rightarrow> ('w, 'd) tr50 \<Rightarrow>
   ('d outcome \<times> ('w, 'd) tr50) option" where
  "tr50_log_publish_ex E K msg optional_params want_reply want_err c =
     (case msg of
        None \<Rightarrow> Some (only_ret ERR_TR50_PARMS, c)
      | Some msg \<Rightarrow>
          let F = en_doubles E; params = add_string F ''msg'' msg (params_or_new F optional_params)
          in send_and_leave E K (cstr ''log.publish'') params want_reply want_err c)"

definition tr50_mailbox_send_ex ::
  "('w, 'd) env \<Rightarrow> ('w, 'd) caller \<Rightarrow> bytes option \<Rightarrow> 'd json option \<Rightarrow> 'd json option \<Rightarrow> bool \<Rightarrow> bool \<Rightarrow> ('w, 'd) tr50 \<Rightarrow>
   ('d outcome \<times> ('w, 'd) tr50) option" where
  "tr50_mailbox_send_ex E K mailbox_cmd req_params optional_params want_reply want_err c =
     (case mailbox_cmd of
        None \<Rightarrow> Some (only_ret ERR_TR50_PARMS, c)
      | Some cmd \<Rightarrow> do {
          params \<leftarrow> exec_params (en_doubles E) ''command'' cmd req_params optional_params;
          send_and_leave E K (cstr ''mailbox.send'') params want_reply want_err c })"

subsection \<open>Properties\<close>

definition tr50_property_publish_ex ::
  "('w, 'd) env \<Rightarrow> ('w, 'd) caller \<Rightarrow> bytes option \<Rightarrow> 'd \<Rightarrow> 'd json option \<Rightarrow> bool \<Rightarrow> bool \<Rightarrow> ('w, 'd) tr50 \<Rightarrow>
   ('d outcome \<times> ('w, 'd) tr50) option" where
  "tr50_property_publish_ex E K prop_key v optional_params want_reply want_err c =
     (case prop_key of
        None \<Rightarrow> Some (only_ret ERR_TR50_PARMS, c)
      | Some key \<Rightarrow>
          let F = en_doubles E; params = add_number F ''value'' v (add_string F ''key'' key (params_or_new F optional_params))
          in send_and_leave E K (cstr ''property.publish'') params want_reply want_err c)"

text \<open>The value is read through the pointer that the lookup answers, NULL or not.  The third result is what is stored
  through \<open>value\<close>.\<close>

definition tr50_property_current_ex ::
  "('w, 'd) env \<Rightarrow> ('w, 'd) caller \<Rightarrow> bytes option \<Rightarrow> 'd json option \<Rightarrow> bool \<Rightarrow> bool \<Rightarrow> ('w, 'd) tr50 \<Rightarrow>
   (('d outcome \<times> 'd option) \<times> ('w, 'd) tr50) option" where
  "tr50_property_current_ex E K prop_key optional_params want_reply want_err c =
     (case prop_key of
        None \<Rightarrow> Some ((only_ret ERR_TR50_PARMS, None), c)
      | Some key \<Rightarrow> do {
          let params = add_string (en_doubles E) ''key'' key (params_or_new (en_doubles E) optional_params);
          ((ret, reply, err), c) \<leftarrow> send_json_sync E K (cstr ''property.current'') params want_err c;
          let out = \<lparr>oc_ret = ret, oc_reply = give_reply want_reply reply, oc_error = err\<rparr>;
          if ret \<noteq> 0 then Some ((out, None), c)
          else do {
            v \<leftarrow> tr50_json_get_object_item_as_double reply (Some json_value);
            Some ((out, Some v), c) } })"

subsection \<open>Attributes\<close>

definition tr50_thing_attr_set_ex ::
  "('w, 'd) env \<Rightarrow> ('w, 'd) caller \<Rightarrow> bytes option \<Rightarrow> bytes option \<Rightarrow> 'd json option \<Rightarrow> bool \<Rightarrow> bool \<Rightarrow> ('w, 'd) tr50 \<Rightarrow>
   ('d outcome \<times> ('w, 'd) tr50) option" where
  "tr50_thing_attr_set_ex E K key v optional_params want_reply want_err c =
     (case (key, v) of
        (Some key, Some v) \<Rightarrow>
          let F = en_doubles E; params = add_string F ''value'' v (add_string F ''key'' key (params_or_new F optional_params))
          in send_and_leave E K (cstr ''thing.attr.set'') params want_reply want_err c
      | _ \<Rightarrow> Some (only_ret ERR_TR50_PARMS, c))"

text \<open>The value is a pointer into the reply, which is deleted unless the caller asked for it.\<close>

definition tr50_thing_attr_get_ex ::
  "('w, 'd) env \<Rightarrow> ('w, 'd) caller \<Rightarrow> bytes option \<Rightarrow> 'd json option \<Rightarrow> bool \<Rightarrow> bool \<Rightarrow> ('w, 'd) tr50 \<Rightarrow>
   (('d outcome \<times> cptr option) \<times> ('w, 'd) tr50) option" where
  "tr50_thing_attr_get_ex E K key optional_params want_reply want_err c =
     (case key of
        None \<Rightarrow> Some ((only_ret ERR_TR50_PARMS, None), c)
      | Some key \<Rightarrow> do {
          let params = add_string (en_doubles E) ''key'' key (params_or_new (en_doubles E) optional_params);
          ((ret, reply, err), c) \<leftarrow> send_json_sync E K (cstr ''thing.attr.get'') params want_err c;
          let out = \<lparr>oc_ret = ret, oc_reply = give_reply want_reply reply, oc_error = err\<rparr>;
          if ret \<noteq> 0 then Some ((out, None), c)
          else
            let v = (case tr50_json_get_object_item_as_string reply (Some json_value) of
                       None \<Rightarrow> CNull
                     | Some s \<Rightarrow> if want_reply then CStr s else CFreed)
            in Some ((out, Some v), c) })"

definition tr50_thing_attr_unset_ex ::
  "('w, 'd) env \<Rightarrow> ('w, 'd) caller \<Rightarrow> bytes option \<Rightarrow> 'd json option \<Rightarrow> bool \<Rightarrow> bool \<Rightarrow> ('w, 'd) tr50 \<Rightarrow>
   ('d outcome \<times> ('w, 'd) tr50) option" where
  "tr50_thing_attr_unset_ex E K key optional_params want_reply want_err c =
     (case key of
        None \<Rightarrow> Some (only_ret ERR_TR50_PARMS, c)
      | Some key \<Rightarrow>
          let F = en_doubles E; params = add_string F ''key'' key (params_or_new F optional_params)
          in send_and_leave E K (cstr ''thing.attr.unset'') params want_reply want_err c)"

subsection \<open>Things, tags, files\<close>

definition tr50_thing_bind_ex ::
  "('w, 'd) env \<Rightarrow> ('w, 'd) caller \<Rightarrow> bytes option \<Rightarrow> 'd json option \<Rightarrow> bool \<Rightarrow> bool \<Rightarrow> ('w, 'd) tr50 \<Rightarrow>
   ('d outcome \<times> ('w, 'd) tr50) option" where
  "tr50_thing_bind_ex E K thing_key optional_params want_reply want_err c =
     (case thing_key of
        None \<Rightarrow> Some (only_ret ERR_TR50_PARMS, c)
      | Some key \<Rightarrow>
          let F = en_doubles E; params = add_string F ''key'' key (params_or_new F optional_params)
          in send_and_leave E K (cstr ''thing.bind'') params want_reply want_err c)"

definition tr50_thing_unbind_ex ::
  "('w, 'd) env \<Rightarrow> ('w, 'd) caller \<Rightarrow> bytes option \<Rightarrow> 'd json option \<Rightarrow> bool \<Rightarrow> bool \<Rightarrow> ('w, 'd) tr50 \<Rightarrow>
   ('d outcome \<times> ('w, 'd) tr50) option" where
  "tr50_thing_unbind_ex E K thing_key optional_params want_reply want_err c =
     (case thing_key of
        None \<Rightarrow> Some (only_ret ERR_TR50_PARMS, c)
      | Some key \<Rightarrow>
          let F = en_doubles E; params = add_string F ''key'' key (params_or_new F optional_params)
          in send_and_leave E K (cstr ''thing.unbind'') params want_reply want_err c)"

text \<open>The tags are an array of \<open>count\<close> strings.\<close>

definition tag_params :: "'d doubles \<Rightarrow> bytes option list \<Rightarrow> 'd json option \<Rightarrow> 'd json" where
  "tag_params F tags optional_params =
     tr50_json_add_item_to_object (params_or_new F optional_params) (Some (cstr ''tags'')) (tr50_json_create_string_array F tags)"

definition tr50_thing_tag_add_ex ::
  "('w, 'd) env \<Rightarrow> ('w, 'd) caller \<Rightarrow> bytes option list option \<Rightarrow> 'd json option \<Rightarrow> bool \<Rightarrow> bool \<Rightarrow> ('w, 'd) tr50 \<Rightarrow>
   ('d outcome \<times> ('w, 'd) tr50) option" where
  "tr50_thing_tag_add_ex E K tags optional_params want_reply want_err c =
     (case tags of
        None \<Rightarrow> Some (only_ret ERR_TR50_PARMS, c)
      | Some tags \<Rightarrow>
          send_and_leave E K (cstr ''thing.tag.add'') (tag_params (en_doubles E) tags optional_params) want_reply want_err c)"

definition tr50_thing_tag_delete_ex ::
  "('w, 'd) env \<Rightarrow> ('w, 'd) caller \<Rightarrow> bytes option list option \<Rightarrow> 'd json option \<Rightarrow> bool \<Rightarrow> bool \<Rightarrow> ('w, 'd) tr50 \<Rightarrow>
   ('d outcome \<times> ('w, 'd) tr50) option" where
  "tr50_thing_tag_delete_ex E K tags optional_params want_reply want_err c =
     (case tags of
        None \<Rightarrow> Some (only_ret ERR_TR50_PARMS, c)
      | Some tags \<Rightarrow>
          send_and_leave E K (cstr ''thing.tag.delete'') (tag_params (en_doubles E) tags optional_params) want_reply want_err c)"

definition tr50_file_get_ex ::
  "('w, 'd) env \<Rightarrow> ('w, 'd) caller \<Rightarrow> bytes option \<Rightarrow> 'd json option \<Rightarrow> bool \<Rightarrow> bool \<Rightarrow> ('w, 'd) tr50 \<Rightarrow>
   ('d outcome \<times> ('w, 'd) tr50) option" where
  "tr50_file_get_ex E K filename optional_params want_reply want_err c =
     (case filename of
        None \<Rightarrow> Some (only_ret ERR_TR50_PARMS, c)
      | Some name \<Rightarrow>
          let F = en_doubles E; params = add_string F ''fileName'' name (params_or_new F optional_params)
          in send_and_give E K (cstr ''file.get'') params want_reply want_err c)"

definition tr50_file_put_ex ::
  "('w, 'd) env \<Rightarrow> ('w, 'd) caller \<Rightarrow> bytes option \<Rightarrow> 'd json option \<Rightarrow> bool \<Rightarrow> bool \<Rightarrow> ('w, 'd) tr50 \<Rightarrow>
   ('d outcome \<times> ('w, 'd) tr50) option" where
  "tr50_file_put_ex E K filename optional_params want_reply want_err c =
     (case filename of
        None \<Rightarrow> Some (only_ret ERR_TR50_PARMS, c)
      | Some name \<Rightarrow> do {
          let params = add_string (en_doubles E) ''fileName'' name (params_or_new (en_doubles E) optional_params);
          ((ret, reply, err), c) \<leftarrow> send_json_sync E K (cstr ''file.put'') params want_err c;
          Some (\<lparr>oc_ret = ret, oc_reply = give_reply want_reply (if ret \<noteq> 0 then None else reply), oc_error = err\<rparr>, c) })"

subsection \<open>The short functions (tr50.worker.c)\<close>

definition ret_of :: "('d outcome \<times> ('w, 'd) tr50) option \<Rightarrow> (int \<times> ('w, 'd) tr50) option" where
  "ret_of r = map_option (\<lambda>(out, c). (oc_ret out, c)) r"

definition tr50_alarm_publish :: "('w, 'd) env \<Rightarrow> ('w, 'd) caller \<Rightarrow> bytes option \<Rightarrow> int \<Rightarrow> ('w, 'd) tr50 \<Rightarrow> (int \<times> ('w, 'd) tr50) option" where
  "tr50_alarm_publish E K alarm_key st c = ret_of (tr50_alarm_publish_ex E K alarm_key st None False False c)"

definition tr50_location_publish :: "('w, 'd) env \<Rightarrow> ('w, 'd) caller \<Rightarrow> 'd \<Rightarrow> 'd \<Rightarrow> ('w, 'd) tr50 \<Rightarrow> (int \<times> ('w, 'd) tr50) option" where
  "tr50_location_publish E K lat_value long_value c = ret_of (tr50_location_publish_ex E K lat_value long_value None False False c)"

definition tr50_log_publish :: "('w, 'd) env \<Rightarrow> ('w, 'd) caller \<Rightarrow> bytes option \<Rightarrow> ('w, 'd) tr50 \<Rightarrow> (int \<times> ('w, 'd) tr50) option" where
  "tr50_log_publish E K msg c = ret_of (tr50_log_publish_ex E K msg None False False c)"

definition tr50_mailbox_send ::
  "('w, 'd) env \<Rightarrow> ('w, 'd) caller \<Rightarrow> bytes option \<Rightarrow> 'd json option \<Rightarrow> ('w, 'd) tr50 \<Rightarrow> (int \<times> ('w, 'd) tr50) option" where
  "tr50_mailbox_send E K mailbox_cmd req_params c = ret_of (tr50_mailbox_send_ex E K mailbox_cmd req_params None False False c)"

text \<open>Its result is always 0.\<close>

definition tr50_method_exec ::
  "('w, 'd) env \<Rightarrow> bytes option \<Rightarrow> 'd json option \<Rightarrow> ('w, 'd) tr50 \<Rightarrow> (int \<times> ('w, 'd) tr50) option" where
  "tr50_method_exec E method req_params c = do {
     (_, c) \<leftarrow> tr50_method_exec_ex_sync E method req_params None False c;
     Some (0, c) }"

definition tr50_property_publish :: "('w, 'd) env \<Rightarrow> ('w, 'd) caller \<Rightarrow> bytes option \<Rightarrow> 'd \<Rightarrow> ('w, 'd) tr50 \<Rightarrow> (int \<times> ('w, 'd) tr50) option" where
  "tr50_property_publish E K prop_key v c = ret_of (tr50_property_publish_ex E K prop_key v None False False c)"

definition tr50_property_current ::
  "('w, 'd) env \<Rightarrow> ('w, 'd) caller \<Rightarrow> bytes option \<Rightarrow> ('w, 'd) tr50 \<Rightarrow> ((int \<times> 'd option) \<times> ('w, 'd) tr50) option" where
  "tr50_property_current E K prop_key c =
     map_option (\<lambda>((out, v), c). ((oc_ret out, v), c)) (tr50_property_current_ex E K prop_key None False False c)"

definition tr50_thing_attr_set ::
  "('w, 'd) env \<Rightarrow> ('w, 'd) caller \<Rightarrow> bytes option \<Rightarrow> bytes option \<Rightarrow> ('w, 'd) tr50 \<Rightarrow> (int \<times> ('w, 'd) tr50) option" where
  "tr50_thing_attr_set E K key v c = ret_of (tr50_thing_attr_set_ex E K key v None False False c)"

definition tr50_thing_attr_get ::
  "('w, 'd) env \<Rightarrow> ('w, 'd) caller \<Rightarrow> bytes option \<Rightarrow> ('w, 'd) tr50 \<Rightarrow> ((int \<times> cptr option) \<times> ('w, 'd) tr50) option" where
  "tr50_thing_attr_get E K key c =
     map_option (\<lambda>((out, v), c). ((oc_ret out, v), c)) (tr50_thing_attr_get_ex E K key None False False c)"

definition tr50_thing_attr_unset :: "('w, 'd) env \<Rightarrow> ('w, 'd) caller \<Rightarrow> bytes option \<Rightarrow> ('w, 'd) tr50 \<Rightarrow> (int \<times> ('w, 'd) tr50) option" where
  "tr50_thing_attr_unset E K key c = ret_of (tr50_thing_attr_unset_ex E K key None False False c)"

definition tr50_thing_bind :: "('w, 'd) env \<Rightarrow> ('w, 'd) caller \<Rightarrow> bytes option \<Rightarrow> ('w, 'd) tr50 \<Rightarrow> (int \<times> ('w, 'd) tr50) option" where
  "tr50_thing_bind E K thing_key c = ret_of (tr50_thing_bind_ex E K thing_key None False False c)"

definition tr50_thing_unbind :: "('w, 'd) env \<Rightarrow> ('w, 'd) caller \<Rightarrow> bytes option \<Rightarrow> ('w, 'd) tr50 \<Rightarrow> (int \<times> ('w, 'd) tr50) option" where
  "tr50_thing_unbind E K thing_key c = ret_of (tr50_thing_unbind_ex E K thing_key None False False c)"

definition tr50_thing_tag_add ::
  "('w, 'd) env \<Rightarrow> ('w, 'd) caller \<Rightarrow> bytes option list option \<Rightarrow> ('w, 'd) tr50 \<Rightarrow> (int \<times> ('w, 'd) tr50) option" where
  "tr50_thing_tag_add E K tags c = ret_of (tr50_thing_tag_add_ex E K tags None False False c)"

definition tr50_thing_tag_delete ::
  "('w, 'd) env \<Rightarrow> ('w, 'd) caller \<Rightarrow> bytes option list option \<Rightarrow> ('w, 'd) tr50 \<Rightarrow> (int \<times> ('w, 'd) tr50) option" where
  "tr50_thing_tag_delete E K tags c = ret_of (tr50_thing_tag_delete_ex E K tags None False False c)"

end
