(* ===== verification/Tr50_Worker_File.thy ===== *)
theory Tr50_Worker_File
  imports Tr50_Worker
begin

section \<open>Files over HTTP (tr50.worker.extended.c)\<close>

text \<open>
  The transfer of files: a command asks the service for the id of a file, and the bytes go over an HTTP
  connection of their own, which the code speaks itself.  \<open>files\<close> is what the functions use of the C library's
  files.  The header of an answer is collected in a blob (util/common/tr50.blob.c), which keeps a zero byte behind
  its content; its allocation succeeds.
\<close>

subsection \<open>Local files\<close>

text \<open>What \<open>fopen\<close> finds under a name, whether it can create one, and whether \<open>fwrite\<close> takes a block behind what has
  been written.\<close>

record files =
  fs_read :: "bytes \<Rightarrow> bytes option"
  fs_create :: "bytes \<Rightarrow> bool"
  fs_write :: "bytes \<Rightarrow> bytes \<Rightarrow> bool"

text \<open>A file that is being written: whether it is open, and its content.\<close>

record sink =
  sk_open :: bool
  sk_data :: bytes

subsection \<open>Text\<close>

definition READ_SIZE :: nat where "READ_SIZE = 1024"

subsection \<open>The header of an answer\<close>

text \<open>Byte by byte up to four line ends in a row, or until a receive fails.\<close>

partial_function (option) header_loop ::
  "'w platform \<Rightarrow> handle \<Rightarrow> nat \<Rightarrow> bytes \<Rightarrow> 'w \<Rightarrow> ((int \<times> bytes) \<times> 'w) option" where
  "header_loop p h termchr blob w =
     (case p_tcp_recv p w h 1 5000 of
        None \<Rightarrow> None
      | Some ((ret, bs), w) \<Rightarrow>
          if ret \<noteq> 0 then Some ((ret, blob), w)
          else
            let b = (case bs of [] \<Rightarrow> 0 | b # _ \<Rightarrow> b); blob = blob @ [b] in
            if b \<noteq> 0x0D \<and> b \<noteq> 0x0A then header_loop p h 0 blob w
            else if termchr + 1 = 4 then Some ((0, blob), w)
            else header_loop p h (termchr + 1) blob w)"

declare header_loop.simps [code]

definition line_end :: "byte \<Rightarrow> bool" where
  "line_end b \<longleftrightarrow> b = 0x0D \<or> b = 0x0A"

text \<open>The content length, and the text that is left: \<open>strtok\<close> ends it behind the number.\<close>

definition content_length :: "bytes \<Rightarrow> int \<times> bytes" where
  "content_length text =
     (case find_sub (cstr ''Content-Length: '') text of
        None \<Rightarrow> (- 1, text)
      | Some (before, rest) \<Rightarrow>
          let skipped = takeWhile line_end rest; rest = dropWhile line_end rest; tok = takeWhile (\<lambda>b. \<not> line_end b) rest
          in if rest = [] then (- 1, text)
             else (fst (strtol_16 tok), before @ cstr ''Content-Length: '' @ skipped @ tok))"

definition is_chunked_text :: "bytes \<Rightarrow> bool" where
  "is_chunked_text text \<longleftrightarrow> find_sub (cstr ''Transfer-Encoding: chunked'' @ [0x0D, 0x0A]) text \<noteq> None"

text \<open>The result and, for a caller that asked and an answer with status 200, whether the body comes in chunks, and its
  size.  Another status is not an error: the result is that of the last receive.\<close>

definition http_header_msg_decoder ::
  "'w platform \<Rightarrow> handle \<Rightarrow> bool \<Rightarrow> 'w \<Rightarrow> ((int \<times> (bool \<times> int) option) \<times> 'w) option" where
  "http_header_msg_decoder p h want w =
     (case header_loop p h 0 [] w of
        None \<Rightarrow> None
      | Some ((ret, blob), w) \<Rightarrow>
          let text = takeWhile (\<lambda>b. b \<noteq> 0) blob in
          if take 12 text \<noteq> cstr ''HTTP/1.1 200'' then Some ((ret, None), w)
          else if \<not> want then Some ((0, None), w)
          else case content_length text of (sz, text) \<Rightarrow> Some ((0, Some (is_chunked_text text, sz)), w))"

subsection \<open>Bodies\<close>

text \<open>The loop of both readers: \<open>ret\<close> is the result of the last receive, \<open>closes\<close> whether a failed write closes the
  file.\<close>

partial_function (option) body_loop ::
  "'w platform \<Rightarrow> files \<Rightarrow> handle \<Rightarrow> bool \<Rightarrow> int \<Rightarrow> int \<Rightarrow> sink \<Rightarrow> 'w \<Rightarrow> ((int \<times> sink) \<times> 'w) option" where
  "body_loop p fs h closes ret n fp w =
     (if n > 0 then
        case p_tcp_recv p w h (if n > 1024 then 1024 else n) 5000 of
          None \<Rightarrow> None
        | Some ((ret, bs), w) \<Rightarrow>
            if ret \<noteq> 0 then Some ((ret, fp), w)
            else if bs = [] \<or> \<not> fs_write fs (sk_data fp) bs
            then Some ((ERR_TR50_FILE_WRITE_FAILED, if closes then fp\<lparr>sk_open := False\<rparr> else fp), w)
            else body_loop p fs h closes ret (n - int (length bs)) (fp\<lparr>sk_data := sk_data fp @ bs\<rparr>) w
      else Some ((ret, fp), w))"

declare body_loop.simps [code]

definition helper_reader ::
  "'w platform \<Rightarrow> files \<Rightarrow> handle \<Rightarrow> int \<Rightarrow> sink \<Rightarrow> 'w \<Rightarrow> ((int \<times> sink) \<times> 'w) option" where
  "helper_reader p fs h filesize fp w =
     (if filesize = 0 then Some ((- 1, fp), w) else body_loop p fs h True 0 filesize fp w)"

text \<open>The size line of a chunk, up to two line ends in a row, goes into a block of \<open>READ_SIZE\<close> zero bytes; a longer one
  is written behind it.\<close>

partial_function (option) chunk_line_loop ::
  "'w platform \<Rightarrow> handle \<Rightarrow> nat \<Rightarrow> bytes \<Rightarrow> 'w \<Rightarrow> ((int \<times> bytes) \<times> 'w) option" where
  "chunk_line_loop p h termchr line w =
     (case p_tcp_recv p w h 1 5000 of
        None \<Rightarrow> None
      | Some ((ret, bs), w) \<Rightarrow>
          if ret \<noteq> 0 then Some ((ret, line), w)
          else if length line = READ_SIZE then None
          else
            let b = (case bs of [] \<Rightarrow> 0 | b # _ \<Rightarrow> b); line = line @ [b] in
            if b \<noteq> 0x0D \<and> b \<noteq> 0x0A then chunk_line_loop p h 0 line w
            else if termchr + 1 = 2 then Some ((0, line), w)
            else chunk_line_loop p h (termchr + 1) line w)"

declare chunk_line_loop.simps [code]

text \<open>The size in the block; the scan runs behind the block when nothing in it stops it.\<close>

definition chunk_size :: "bytes \<Rightarrow> int option" where
  "chunk_size line =
     (let block = line @ replicate (READ_SIZE - length line) 0 in
      case strtol_16 (takeWhile (\<lambda>b. b \<noteq> 0) block) of
        (v, rest) \<Rightarrow> if 0 \<notin> set block \<and> rest = [] then None else Some (c_int v))"

definition helper_chunked_reader ::
  "'w platform \<Rightarrow> files \<Rightarrow> handle \<Rightarrow> sink \<Rightarrow> 'w \<Rightarrow> ((int \<times> sink) \<times> 'w) option" where
  "helper_chunked_reader p fs h fp w =
     (case chunk_line_loop p h 0 [] w of
        None \<Rightarrow> None
      | Some ((ret, line), w) \<Rightarrow>
          (case chunk_size line of
             None \<Rightarrow> None
           | Some n \<Rightarrow> if n = 0 then Some ((- 1, fp), w) else body_loop p fs h False ret n fp w))"

text \<open>\<open>do ... while (ret == 0)\<close>\<close>

partial_function (option) chunks_loop ::
  "'w platform \<Rightarrow> files \<Rightarrow> handle \<Rightarrow> sink \<Rightarrow> 'w \<Rightarrow> ((int \<times> sink) \<times> 'w) option" where
  "chunks_loop p fs h fp w =
     (case helper_chunked_reader p fs h fp w of
        None \<Rightarrow> None
      | Some ((ret, fp), w) \<Rightarrow> if ret = 0 then chunks_loop p fs h fp w else Some ((ret, fp), w))"

declare chunks_loop.simps [code]

subsection \<open>Upload\<close>

definition crlf :: bytes where "crlf = [0x0D, 0x0A]"

definition post_command :: "bytes \<Rightarrow> bytes \<Rightarrow> bytes" where
  "post_command file_id hst =
     cstr ''POST /file/'' @ file_id @ cstr '' HTTP/1.1'' @ crlf @ cstr ''Host:'' @ hst @ cstr '':80'' @ crlf @
     cstr ''Connection: close'' @ crlf @ cstr ''Transfer-Encoding: chunked'' @ crlf @
     cstr ''Content-Type: application/octet-stream'' @ crlf @ crlf"

definition get_command :: "bytes \<Rightarrow> bytes \<Rightarrow> bytes" where
  "get_command file_id hst =
     cstr ''GET /file/'' @ file_id @ cstr '' HTTP/1.1'' @ crlf @ cstr ''Host:'' @ hst @ cstr '':80'' @ crlf @
     cstr ''Connection: close'' @ crlf @ crlf"

text \<open>What \<open>fread\<close> gives, block by block.\<close>

function blocks :: "bytes \<Rightarrow> bytes list" where
  "blocks bs = (if bs = [] then [] else take READ_SIZE bs # blocks (drop READ_SIZE bs))"
  by pat_completeness auto
termination by (relation "measure length") (auto simp: READ_SIZE_def)

declare blocks.simps [simp del]

text \<open>Buffers sent one after the other, until one is refused.\<close>

fun send_all :: "'w platform \<Rightarrow> handle \<Rightarrow> bytes list \<Rightarrow> 'w \<Rightarrow> (int \<times> 'w) option" where
  "send_all p h [] w = Some (0, w)"
| "send_all p h (bs # rest) w =
     (case p_tcp_send p w h bs 5000 of
        None \<Rightarrow> None
      | Some (ret, w) \<Rightarrow> if ret \<noteq> 0 then Some (ret, w) else send_all p h rest w)"

definition chunk_sends :: "bytes \<Rightarrow> bytes list" where
  "chunk_sends b = [hex_digits_of (length b) @ crlf, b, crlf]"

definition upload_sends :: "bytes \<Rightarrow> bytes \<Rightarrow> bytes \<Rightarrow> bytes list" where
  "upload_sends file_id hst content =
     take 1023 (post_command file_id hst) # concat (map chunk_sends (blocks content)) @ [cstr ''0'' @ crlf @ crlf]"

text \<open>A socket is closed when there is one.\<close>

definition end_socket :: "'w platform \<Rightarrow> handle \<Rightarrow> 'w \<Rightarrow> 'w option" where
  "end_socket p h w = (if h \<noteq> 0 then map_option snd (p_tcp_disconnect p w h) else Some w)"

definition upload_transfer ::
  "'w platform \<Rightarrow> bytes \<Rightarrow> bytes \<Rightarrow> bytes \<Rightarrow> 'w \<Rightarrow> (int \<times> 'w) option" where
  "upload_transfer p file_id hst content w = do {
     ((ret, h), w) \<leftarrow> p_tcp_connect p w (take 127 (hst @ cstr '':80'')) 80 0;
     (ret, w) \<leftarrow> (if ret \<noteq> 0 then Some (ret, w)
                  else do {
                    (ret, w) \<leftarrow> send_all p h (upload_sends file_id hst content) w;
                    if ret \<noteq> 0 then Some (ret, w)
                    else map_option (\<lambda>((ret, _), w). (ret, w)) (http_header_msg_decoder p h False w) });
     w \<leftarrow> end_socket p h w;
     Some (if ret = - 1 then ERR_TR50_FILE_PUT_HTTP else ret, w) }"

definition add_bool :: "'d doubles \<Rightarrow> string \<Rightarrow> bool \<Rightarrow> 'd json \<Rightarrow> 'd json" where
  "add_bool F name v params =
     tr50_json_add_item_to_object params (Some (cstr name)) (if v then tr50_json_create_true F else tr50_json_create_false F)"

definition upload_params :: "'d doubles \<Rightarrow> bytes option \<Rightarrow> bytes option \<Rightarrow> bool option \<Rightarrow> bool \<Rightarrow> bool \<Rightarrow> 'd json" where
  "upload_params F thing_key tags is_public is_global log_completion =
     (let params = add_bool F ''logComplete'' log_completion (add_bool F ''global'' is_global (tr50_json_create_object F));
          params = (case thing_key of Some k \<Rightarrow> if \<not> is_global then add_string F ''thingKey'' k params else params | None \<Rightarrow> params);
          params = (case tags of
                      None \<Rightarrow> params
                    | Some t \<Rightarrow> tr50_json_add_item_to_object params (Some (cstr ''tags''))
                        (foldl (\<lambda>a s. tr50_json_add_item_to_array a (tr50_json_create_string F (Some s))) (tr50_json_create_array F) (tokens t)))
      in case is_public of None \<Rightarrow> params | Some b \<Rightarrow> add_bool F ''public'' b params)"

text \<open>The id of the file in the reply; both functions answer \<open>ERR_TR50_PARMS\<close> without one.\<close>

definition file_id_of :: "'d json option option \<Rightarrow> bytes option" where
  "file_id_of r =
     (case r of Some (Some reply) \<Rightarrow> tr50_json_get_object_item_as_string (Some reply) (Some (cstr ''fileId'')) | _ \<Rightarrow> None)"

definition host_of :: "('w, 'd) tr50 \<Rightarrow> bytes option" where
  "host_of c = (case tr50_config_get_host (cl_config c) of CStr h \<Rightarrow> Some h | _ \<Rightarrow> None)"

definition tr50_helper_file_upload ::
  "('w, 'd) env \<Rightarrow> ('w, 'd) caller \<Rightarrow> files \<Rightarrow> bytes option \<Rightarrow> bytes \<Rightarrow> bytes option \<Rightarrow> bytes option \<Rightarrow> bool option \<Rightarrow> bool \<Rightarrow> bool \<Rightarrow>
   bool \<Rightarrow> ('w, 'd) tr50 \<Rightarrow> ((int \<times> bytes option) \<times> ('w, 'd) tr50) option" where
  "tr50_helper_file_upload E K fs thing_key src dest tags is_public want_err is_global log_completion c =
     (case fs_read fs src of
        None \<Rightarrow> Some ((ERR_TR50_LOCAL_FILE_NOTFOUND, None), c)
      | Some content \<Rightarrow> do {
          let params = upload_params (en_doubles E) thing_key tags is_public is_global log_completion;
          (out, c) \<leftarrow> tr50_file_put_ex E K dest (Some params) True want_err c;
          if oc_ret out \<noteq> 0
          then Some ((if oc_ret out = - 1 then ERR_TR50_FILE_PUT_HTTP else oc_ret out, oc_error out), c)
          else (case file_id_of (oc_reply out) of
                  None \<Rightarrow> Some ((ERR_TR50_PARMS, oc_error out), c)
                | Some file_id \<Rightarrow> do {
                    hst \<leftarrow> host_of c;
                    (ret, w) \<leftarrow> upload_transfer (en_platform E) file_id hst content (cl_world c);
                    Some ((ret, oc_error out), c\<lparr>cl_world := w\<rparr>) }) })"

subsection \<open>Download\<close>

text \<open>The end of the download: closing a file that a failed write has closed already is undefined; -1, the end of the
  body, counts as success.\<close>

definition download_end :: "'w platform \<Rightarrow> handle \<Rightarrow> int \<Rightarrow> sink \<Rightarrow> 'w \<Rightarrow> ((int \<times> bytes) \<times> 'w) option" where
  "download_end p h ret fp w =
     (if \<not> sk_open fp then None
      else do {
        w \<leftarrow> end_socket p h w;
        Some ((if ret = - 1 \<or> ret = 0 then 0 else ERR_TR50_FILE_PUT_HTTP, sk_data fp), w) })"

definition download_body :: "'w platform \<Rightarrow> files \<Rightarrow> handle \<Rightarrow> sink \<Rightarrow> 'w \<Rightarrow> ((int \<times> sink) \<times> 'w) option" where
  "download_body p fs h fp w = do {
     ((_, info), w) \<leftarrow> http_header_msg_decoder p h True w;
     (case info of
        None \<Rightarrow> helper_reader p fs h 0 fp w
      | Some (chunked, sz) \<Rightarrow> if chunked then chunks_loop p fs h fp w else helper_reader p fs h (c_int sz) fp w) }"

definition download_transfer ::
  "'w platform \<Rightarrow> files \<Rightarrow> bytes \<Rightarrow> bytes \<Rightarrow> 'w \<Rightarrow> ((int \<times> bytes) \<times> 'w) option" where
  "download_transfer p fs file_id hst w = do {
     let fp = \<lparr>sk_open = True, sk_data = []\<rparr>;
     ((ret, h), w) \<leftarrow> p_tcp_connect p w (take 127 hst) 80 0;
     if ret \<noteq> 0 then download_end p h ret fp w
     else do {
       (ret, w) \<leftarrow> p_tcp_send p w h (take 1023 (get_command file_id hst)) 5000;
       if ret \<noteq> 0 then download_end p h ret fp w
       else do {
         ((ret, fp), w) \<leftarrow> download_body p fs h fp w;
         download_end p h ret fp w } } }"

text \<open>The results: the code, what was stored through \<open>error_msg\<close>, and the file when one was created.\<close>

definition tr50_file_download ::
  "('w, 'd) env \<Rightarrow> ('w, 'd) caller \<Rightarrow> files \<Rightarrow> bytes option \<Rightarrow> bytes option \<Rightarrow> bytes \<Rightarrow> bool \<Rightarrow> bool \<Rightarrow> ('w, 'd) tr50 \<Rightarrow>
   ((int \<times> bytes option \<times> bytes option) \<times> ('w, 'd) tr50) option" where
  "tr50_file_download E K fs thing_key src dest want_err is_global c = do {
     let F = en_doubles E;
     let params = add_bool F ''global'' is_global
       (tr50_json_add_string_to_object F (tr50_json_create_object F) (Some (cstr ''fileName'')) src);
     let params = (case thing_key of Some k \<Rightarrow> if \<not> is_global then add_string F ''thingKey'' k params else params | None \<Rightarrow> params);
     (out, c) \<leftarrow> tr50_file_get_ex E K src (Some params) True want_err c;
     if oc_ret out \<noteq> 0
     then Some ((if oc_ret out = - 1 then 0 else ERR_TR50_FILE_PUT_HTTP, oc_error out, None), c)
     else (case file_id_of (oc_reply out) of
             None \<Rightarrow> Some ((ERR_TR50_PARMS, oc_error out, None), c)
           | Some file_id \<Rightarrow>
               if \<not> fs_create fs dest then Some ((ERR_TR50_LOCAL_FILE_NOTFOUND, oc_error out, None), c)
               else do {
                 hst \<leftarrow> host_of c;
                 ((ret, data), w) \<leftarrow> download_transfer (en_platform E) fs file_id hst (cl_world c);
                 Some ((ret, oc_error out, Some data), c\<lparr>cl_world := w\<rparr>) }) }"

end
