(* ===== verification/Tr50_Client_Inv.thy ===== *)
theory Tr50_Client_Inv
  imports Tr50_Dispatch Tr50_Pending_List
begin

section \<open>The requests of a client and their fates\<close>

text \<open>
  The requests that wait are the messages on the pending list.  \<open>ok b c c'\<close> says what every operation
  does to them on its way from \<open>c\<close> to \<open>c'\<close>: as long as no number is given twice, the client keeps its
  invariant, a request either waits on as it was or leaves the list for exactly one reason that can be
  observed, and nothing returns that has gone.  With \<open>b\<close> it also says that a mailbox that waits for a
  check which nobody will answer goes on waiting, or that no request leaves the list.
\<close>

subsection \<open>Waiting requests\<close>

fun walk :: "nat \<Rightarrow> 'd store \<Rightarrow> nat \<Rightarrow> nat list" where
  "walk 0 h ptr = []"
| "walk (Suc n) h ptr = (if ptr = 0 then [] else ptr # walk n h (case h ptr of None \<Rightarrow> 0 | Some msg \<Rightarrow> pending_next msg))"

definition waiting :: "('w, 'd) tr50 \<Rightarrow> nat list" where
  "waiting c = walk (nat (pd_count (cl_pending c))) (cl_store c) (pd_head (cl_pending c))"

lemma walk_dll: "dll h p xs 0 \<Longrightarrow> walk (length xs) h (first xs 0) = xs"
  by (induction xs arbitrary: p) auto

lemma waiting_eq: "pending_list (cl_pending c, cl_store c) xs \<Longrightarrow> waiting c = xs"
  using walk_dll [of "cl_store c" 0 xs] by (simp add: pending_list_def waiting_def)

text \<open>What identifies a request, apart from its links and times.\<close>

definition meta :: "'d message \<Rightarrow> int \<times> int \<times> nat option \<times> nat option \<times> nat" where
  "meta msg = (seq_id msg, message_type msg, reply_callback msg, raw_callback msg, callback_custom msg)"

definition meta_of :: "('w, 'd) tr50 \<Rightarrow> nat \<Rightarrow> (int \<times> int \<times> nat option \<times> nat option \<times> nat) option" where
  "meta_of c m = map_option meta (cl_store c m)"

fun meta_callback :: "int \<times> int \<times> nat option \<times> nat option \<times> nat \<Rightarrow> nat option" where
  "meta_callback (sid, t, rc, raw, cust) =
     (if t = TR50_MESSAGE_TYPE_OBJ then rc else if t = TR50_MESSAGE_TYPE_RAW then raw else None)"

definition has_callback :: "('w, 'd) tr50 \<Rightarrow> nat \<Rightarrow> bool" where
  "has_callback c m \<longleftrightarrow> (case meta_of c m of None \<Rightarrow> False | Some k \<Rightarrow> meta_callback k \<noteq> None)"

definition number_of :: "('w, 'd) tr50 \<Rightarrow> nat \<Rightarrow> int" where
  "number_of c m = (case meta_of c m of None \<Rightarrow> 0 | Some k \<Rightarrow> fst k)"

definition numbers :: "('w, 'd) tr50 \<Rightarrow> int list" where
  "numbers c = map (number_of c) (waiting c)"

fun mailbox_meta :: "int \<times> int \<times> nat option \<times> nat option \<times> nat \<Rightarrow> bool" where
  "mailbox_meta (sid, t, rc, raw, cust) \<longleftrightarrow> t = TR50_MESSAGE_TYPE_OBJ \<and> rc = Some MAILBOX_CALLBACK"

definition mailbox_request :: "('w, 'd) tr50 \<Rightarrow> nat \<Rightarrow> bool" where
  "mailbox_request c m \<longleftrightarrow> (case meta_of c m of None \<Rightarrow> False | Some k \<Rightarrow> mailbox_meta k)"

text \<open>A mailbox check is under way, but no waiting request will end it.\<close>

definition mailbox_stuck :: "('w, 'd) tr50 \<Rightarrow> bool" where
  "mailbox_stuck c \<longleftrightarrow> cl_mailbox_send_in_progress c \<and> (\<forall>m \<in> set (waiting c). \<not> mailbox_request c m)"

definition client_inv :: "('w, 'd) tr50 \<Rightarrow> bool" where
  "client_inv c \<longleftrightarrow> pending_list (cl_pending c, cl_store c) (waiting c) \<and> distinct (numbers c) \<and>
     (\<forall>m \<in> set (waiting c). m < cl_next c) \<and> (\<forall>m \<ge> cl_next c. cl_store c m = None) \<and> 0 < cl_next c"

subsection \<open>Traces\<close>

fun issued :: "'d client_event list \<Rightarrow> int list" where
  "issued [] = []"
| "issued (CeIssued sid # evs) = sid # issued evs"
| "issued (_ # evs) = issued evs"

text \<open>How often the request at \<open>m\<close> was called back or dropped.\<close>

fun fate :: "nat \<Rightarrow> 'd client_event list \<Rightarrow> nat" where
  "fate m [] = 0"
| "fate m (CeReply m' call # evs) = (if m' = m then 1 else 0) + fate m evs"
| "fate m (CeDropped m' # evs) = (if m' = m then 1 else 0) + fate m evs"
| "fate m (_ # evs) = fate m evs"

lemma issued_append [simp]: "issued (evs @ evs') = issued evs @ issued evs'"
  by (induction evs rule: issued.induct) auto

lemma fate_append [simp]: "fate m (evs @ evs') = fate m evs + fate m evs'"
  by (induction m evs rule: fate.induct) auto

fun neutral :: "'d client_event \<Rightarrow> bool" where
  "neutral (CeIssued sid) = False"
| "neutral (CeReply m call) = False"
| "neutral (CeDropped m) = False"
| "neutral _ = True"

lemma neutral_trace: "list_all neutral evs \<Longrightarrow> issued evs = [] \<and> fate m evs = 0"
proof (induction evs)
  case (Cons e evs)
  then show ?case by (cases e) auto
qed simp

subsection \<open>What an operation does to the requests\<close>

text \<open>\<open>A\<close>: messages that exist already and that the operation is about to send.  \<open>b\<close>: whether a stuck mailbox
  stays stuck, and whether no request leaves the list.\<close>

datatype promise = Promise (keeps_stuck: bool) (keeps_waiting: bool)

definition settled :: "nat set \<Rightarrow> ('w, 'd) tr50 \<Rightarrow> 'd client_event list \<Rightarrow> ('w, 'd) tr50 \<Rightarrow> bool" where
  "settled A c evs c' \<longleftrightarrow>
     (\<forall>m \<in> set (waiting c). if m \<in> set (waiting c') then fate m evs = 0 \<and> meta_of c' m = meta_of c m
        else fate m evs \<le> 1 \<and> (has_callback c m \<longrightarrow> fate m evs = 1)) \<and>
     (\<forall>m < cl_next c. m \<notin> set (waiting c) \<longrightarrow> m \<notin> A \<longrightarrow> m \<notin> set (waiting c') \<and> fate m evs = 0) \<and>
     mset (numbers c') \<subseteq># mset (numbers c) + mset (issued evs)"

definition good :: "nat set \<Rightarrow> promise \<Rightarrow> ('w, 'd) tr50 \<Rightarrow> 'd client_event list \<Rightarrow> ('w, 'd) tr50 \<Rightarrow> bool" where
  "good A b c evs c' \<longleftrightarrow> settled A c evs c' \<and> (keeps_stuck b \<longrightarrow> mailbox_stuck c \<longrightarrow> mailbox_stuck c') \<and>
     (keeps_waiting b \<longrightarrow> set (waiting c) \<subseteq> set (waiting c'))"

text \<open>\<open>later\<close>: the trace and the memory grow.  \<open>tri\<close>: with the precondition \<open>Q\<close> and the postcondition \<open>P\<close>.\<close>

definition later :: "('w, 'd) tr50 \<Rightarrow> ('w, 'd) tr50 \<Rightarrow> bool" where
  "later c c' \<longleftrightarrow> (\<exists>evs. cl_events c' = cl_events c @ evs) \<and> cl_next c \<le> cl_next c'"

definition trace :: "('w, 'd) tr50 \<Rightarrow> ('w, 'd) tr50 \<Rightarrow> 'd client_event list" where
  "trace c c' = drop (length (cl_events c)) (cl_events c')"

definition tri :: "nat set \<Rightarrow> promise \<Rightarrow> bool \<Rightarrow> ('w, 'd) tr50 \<Rightarrow> bool \<Rightarrow> ('w, 'd) tr50 \<Rightarrow> bool" where
  "tri A b Q c P c' \<longleftrightarrow> later c c' \<and>
     (Q \<longrightarrow> client_inv c \<longrightarrow> distinct (numbers c @ issued (trace c c')) \<longrightarrow> P \<and> client_inv c' \<and> good A b c (trace c c') c')"

abbreviation ok :: "promise \<Rightarrow> ('w, 'd) tr50 \<Rightarrow> ('w, 'd) tr50 \<Rightarrow> bool" where
  "ok b c c' \<equiv> tri {} b True c True c'"

lemma later_refl [simp]: "later c c"
  by (simp add: later_def)

lemma later_trans [trans]: "later c c1 \<Longrightarrow> later c1 c2 \<Longrightarrow> later c c2"
  by (auto simp: later_def)

lemma trace_append: "later c c1 \<Longrightarrow> later c1 c2 \<Longrightarrow> trace c c2 = trace c c1 @ trace c1 c2"
  by (auto simp: later_def trace_def)

lemma trace_eq: "cl_events c' = cl_events c @ evs \<Longrightarrow> trace c c' = evs"
  by (simp add: trace_def)

lemma tri_later: "tri A b Q c P c' \<Longrightarrow> later c c'"
  by (simp add: tri_def)

lemma tri_conseq: "tri A b Q c P c' \<Longrightarrow> (Q' \<Longrightarrow> Q) \<Longrightarrow> (P \<Longrightarrow> P') \<Longrightarrow> tri A b Q' c P' c'"
  unfolding tri_def by blast

text \<open>The messages in \<open>A\<close> do not matter to one who has never seen them.\<close>

lemma settled_weaken:
  assumes "settled A c evs c'" "\<And>m. m < cl_next c \<Longrightarrow> m \<in> A \<Longrightarrow> m \<in> B"
  shows "settled B c evs c'"
  using assms unfolding settled_def by (intro conjI) blast+

lemma tri_weaken: "tri A b Q c P c' \<Longrightarrow> (\<And>m. m < cl_next c \<Longrightarrow> m \<in> A \<Longrightarrow> m \<in> B) \<Longrightarrow> tri B b Q c P c'"
  unfolding tri_def good_def using settled_weaken [of A c _ c' B] by blast

lemma tri_fresh: "tri A b Q c P c' \<Longrightarrow> \<forall>a \<in> A. cl_next c \<le> a \<Longrightarrow> tri {} b Q c P c'"
  by (erule tri_weaken) fastforce

lemma tri_mono: "tri {} b Q c P c' \<Longrightarrow> tri A b Q c P c'"
  by (erule tri_weaken) simp

lemma ok_weaken: "tri A b Q c P c' \<Longrightarrow> tri A (Promise False (keeps_waiting b)) Q c P c'"
  unfolding tri_def good_def by auto

text \<open>Where the mailbox is not stuck at the beginning there is nothing to keep.\<close>

lemma ok_unstuck: "tri A (Promise False (keeps_waiting b)) Q c P c' \<Longrightarrow> (client_inv c \<Longrightarrow> Q \<Longrightarrow> \<not> mailbox_stuck c) \<Longrightarrow> tri A b Q c P c'"
  unfolding tri_def good_def by auto

lemma settled_stays: "settled A c evs c' \<Longrightarrow> m \<in> set (waiting c) \<Longrightarrow> m \<in> set (waiting c') \<Longrightarrow>
    fate m evs = 0 \<and> meta_of c' m = meta_of c m"
  unfolding settled_def by (elim conjE) (drule (1) bspec, simp)

lemma settled_leaves: "settled A c evs c' \<Longrightarrow> m \<in> set (waiting c) \<Longrightarrow> m \<notin> set (waiting c') \<Longrightarrow>
    fate m evs \<le> 1 \<and> (has_callback c m \<longrightarrow> fate m evs = 1)"
  unfolding settled_def by (elim conjE) (drule (1) bspec, simp)

lemma settled_gone: "settled A c evs c' \<Longrightarrow> m < cl_next c \<Longrightarrow> m \<notin> set (waiting c) \<Longrightarrow> m \<notin> A \<Longrightarrow>
    m \<notin> set (waiting c') \<and> fate m evs = 0"
  by (simp add: settled_def)

lemma settled_numbers: "settled A c evs c' \<Longrightarrow> mset (numbers c') \<subseteq># mset (numbers c) + mset (issued evs)"
  by (simp add: settled_def)

lemma settled_trans:
  assumes i: "client_inv c" and n: "cl_next c \<le> cl_next c1" and a: "A \<inter> set (waiting c) = {}"
    and g: "settled A c evs c1" "settled A c1 evs' c2"
  shows "settled A c (evs @ evs') c2"
proof -
  have w: "\<forall>m \<in> set (waiting c). m < cl_next c" using i by (simp add: client_inv_def)
  have h: "has_callback c1 m = has_callback c m" if "meta_of c1 m = meta_of c m" for m
    using that by (simp add: has_callback_def)
  have 1: "if m \<in> set (waiting c2) then fate m (evs @ evs') = 0 \<and> meta_of c2 m = meta_of c m
      else fate m (evs @ evs') \<le> 1 \<and> (has_callback c m \<longrightarrow> fate m (evs @ evs') = 1)" if m: "m \<in> set (waiting c)" for m
  proof (cases "m \<in> set (waiting c1)")
    case True
    note s1 = settled_stays [OF g(1) m True]
    show ?thesis
    proof (cases "m \<in> set (waiting c2)")
      case True
      then show ?thesis using s1 settled_stays [OF g(2) \<open>m \<in> set (waiting c1)\<close> True] by simp
    next
      case False
      then show ?thesis using s1 settled_leaves [OF g(2) \<open>m \<in> set (waiting c1)\<close> False] h [of m] by simp
    qed
  next
    case False
    have "m < cl_next c1" "m \<notin> A" using w m n a by fastforce+
    from settled_gone [OF g(2) this(1) False this(2)] settled_leaves [OF g(1) m False] show ?thesis by simp
  qed
  have 2: "m \<notin> set (waiting c2) \<and> fate m (evs @ evs') = 0" if m: "m < cl_next c" "m \<notin> set (waiting c)" "m \<notin> A" for m
    using settled_gone [OF g(1) m] settled_gone [OF g(2), of m] m n by simp
  have 3: "mset (numbers c2) \<subseteq># mset (numbers c) + mset (issued (evs @ evs'))"
  proof -
    have "mset (numbers c2) \<subseteq># mset (numbers c1) + mset (issued evs')" by (rule settled_numbers [OF g(2)])
    also have "mset (numbers c1) + mset (issued evs') \<subseteq># (mset (numbers c) + mset (issued evs)) + mset (issued evs')"
      using settled_numbers [OF g(1)] by (rule subset_mset.add_right_mono)
    finally show ?thesis by (simp add: add.assoc)
  qed
  show ?thesis unfolding settled_def using 1 2 3 by blast
qed

lemma mset_distinct:
  assumes "mset xs \<subseteq># mset ys" "distinct ys"
  shows "distinct xs"
proof -
  obtain M where M: "mset ys = mset xs + M" using assms(1) by (auto simp: subset_mset.le_iff_add)
  obtain zs where "mset zs = M" using ex_mset by blast
  then have "distinct (xs @ zs)" using M assms(2) mset_eq_imp_distinct_iff [of ys "xs @ zs"] by simp
  then show ?thesis by simp
qed

lemma distinct_numbers_step:
  assumes "settled A c evs c1" "distinct (numbers c @ issued (evs @ evs'))"
  shows "distinct (numbers c1 @ issued evs')"
proof (rule mset_distinct [OF _ assms(2)])
  have "mset (numbers c1) \<subseteq># mset (numbers c) + mset (issued evs)" by (rule settled_numbers [OF assms(1)])
  then show "mset (numbers c1 @ issued evs') \<subseteq># mset (numbers c @ issued (evs @ evs'))"
    by (simp add: subset_mset.add_right_mono flip: add.assoc)
qed

lemma tri_trans:
  assumes 1: "tri A b Q c P c1" and 2: "tri A b P c1 R c2" and a: "client_inv c \<Longrightarrow> Q \<Longrightarrow> A \<inter> set (waiting c) = {}"
  shows "tri A b Q c R c2"
proof -
  let ?e1 = "trace c c1" let ?e2 = "trace c1 c2"
  have l: "later c c1" "later c1 c2" using 1 2 by (simp_all add: tri_def)
  have e: "trace c c2 = ?e1 @ ?e2" using l by (rule trace_append)
  have "R \<and> client_inv c2 \<and> good A b c (?e1 @ ?e2) c2"
    if q: Q and i: "client_inv c" and d: "distinct (numbers c @ issued (?e1 @ ?e2))"
  proof -
    have "distinct (numbers c @ issued ?e1)" using d by auto
    then have g: "P" "client_inv c1" "good A b c ?e1 c1" using 1 q i by (simp_all add: tri_def)
    then have "distinct (numbers c1 @ issued ?e2)" using distinct_numbers_step [of A c ?e1 c1 ?e2] d by (simp add: good_def)
    then have g2: "R" "client_inv c2" "good A b c1 ?e2 c2" using 2 g(1,2) by (simp_all add: tri_def)
    have "settled A c ?e1 c1" "settled A c1 ?e2 c2" "cl_next c \<le> cl_next c1"
      using l(1) g(3) g2(3) by (simp_all add: good_def later_def)
    then have "settled A c (?e1 @ ?e2) c2" using settled_trans [OF i _ a [OF i q]] by blast
    then show ?thesis using g g2 by (auto simp: good_def)
  qed
  then show ?thesis using later_trans [OF l] by (simp add: tri_def e)
qed

lemma ok_trans [trans]: "ok b c c1 \<Longrightarrow> ok b c1 c2 \<Longrightarrow> ok b c c2"
  by (erule (1) tri_trans) simp

text \<open>A new message, then its sending.\<close>

lemma tri_create:
  assumes "tri {} b Q c P c1" "tri {m} b P c1 R c2" "cl_next c \<le> m"
  shows "tri {} b Q c R c2"
proof (rule tri_fresh)
  show "tri {m} b Q c R c2"
    by (rule tri_trans [OF tri_mono [OF assms(1)] assms(2)]) (use assms(3) in \<open>auto simp: client_inv_def\<close>)
qed (use assms(3) in simp)

subsection \<open>Operations that do not touch the requests\<close>

definition frame :: "('w, 'd) tr50 \<Rightarrow> ('w, 'd) tr50 \<Rightarrow> bool" where
  "frame c c' \<longleftrightarrow> cl_pending c' = cl_pending c \<and> cl_store c' = cl_store c \<and> cl_next c' = cl_next c \<and>
     cl_mailbox_send_in_progress c' = cl_mailbox_send_in_progress c \<and>
     (\<exists>evs. cl_events c' = cl_events c @ evs \<and> list_all neutral evs)"

lemma frame_refl [simp]: "frame c c"
  by (simp add: frame_def exI [of _ "[]"])

lemma frame_trans [trans]: "frame c c1 \<Longrightarrow> frame c1 c2 \<Longrightarrow> frame c c2"
  unfolding frame_def by (metis append.assoc list_all_append)

definition same_fields :: "('w, 'd) tr50 \<Rightarrow> ('w, 'd) tr50 \<Rightarrow> bool" where
  "same_fields c c' \<longleftrightarrow> cl_pending c' = cl_pending c \<and> cl_store c' = cl_store c \<and> cl_next c' = cl_next c \<and>
     cl_mailbox_send_in_progress c' = cl_mailbox_send_in_progress c"

lemma same_views:
  assumes "same_fields c c'"
  shows "waiting c' = waiting c" "meta_of c' = meta_of c" "has_callback c' = has_callback c" "numbers c' = numbers c"
    "mailbox_request c' = mailbox_request c" "mailbox_stuck c' = mailbox_stuck c" "client_inv c' = client_inv c"
    "cl_next c' = cl_next c" "cl_store c' = cl_store c" "cl_pending c' = cl_pending c" "number_of c' = number_of c"
    "cl_mailbox_send_in_progress c' = cl_mailbox_send_in_progress c"
proof -
  have f: "cl_pending c' = cl_pending c" "cl_store c' = cl_store c" "cl_next c' = cl_next c"
    "cl_mailbox_send_in_progress c' = cl_mailbox_send_in_progress c"
    using assms by (simp_all add: same_fields_def)
  show w: "waiting c' = waiting c" by (simp add: waiting_def f)
  show m: "meta_of c' = meta_of c" by (rule ext) (simp add: meta_of_def f)
  show "has_callback c' = has_callback c" by (rule ext) (simp add: has_callback_def m)
  show n: "number_of c' = number_of c" by (rule ext) (simp add: number_of_def m)
  show nn: "numbers c' = numbers c" by (simp add: numbers_def w n)
  show r: "mailbox_request c' = mailbox_request c" by (rule ext) (simp add: mailbox_request_def m)
  show "mailbox_stuck c' = mailbox_stuck c" by (simp add: mailbox_stuck_def w r f)
  show "client_inv c' = client_inv c" by (simp add: client_inv_def w nn f)
qed (use assms in \<open>simp_all add: same_fields_def\<close>)

lemma frame_same_fields: "frame c c' \<Longrightarrow> same_fields c c'"
  by (simp add: frame_def same_fields_def)

lemmas frame_views = same_views [OF frame_same_fields]

lemma frame_later: "frame c c' \<Longrightarrow> later c c'"
  by (auto simp: frame_def later_def)

lemma frame_trace:
  assumes "frame c c'"
  shows "issued (trace c c') = []" "fate m (trace c c') = 0"
proof -
  obtain evs where e: "cl_events c' = cl_events c @ evs" "list_all neutral evs" using assms by (auto simp: frame_def)
  then show "issued (trace c c') = []" "fate m (trace c c') = 0"
    using neutral_trace [OF e(2)] trace_eq [OF e(1)] by auto
qed

lemma frame_tri:
  assumes f: "frame c c'" and "Q \<Longrightarrow> P"
  shows "tri A b Q c P c'"
  using assms frame_later [OF f] frame_trace [OF f] frame_views [OF f]
  by (simp add: tri_def good_def settled_def)

lemma frame_ok: "frame c c' \<Longrightarrow> ok b c c'"
  by (rule frame_tri)

lemma ok_refl: "ok b c c"
  by (rule frame_ok) simp

lemma stats_up_frame [simp]: "frame c (stats_up f c)"
  by (simp add: frame_def stats_up_def exI [of _ "[]"])

lemma in_api_frame [simp]: "frame c (in_api_call n c)" "frame c (in_api_raw n c)"
  by (simp_all add: in_api_call_def in_api_raw_def)

lemma emit_frame [simp]: "neutral e \<Longrightarrow> frame c (emit e c)"
  by (simp add: frame_def emit_def)

lemma emit_ok: "neutral e \<Longrightarrow> ok b c (emit e c)"
  by (intro frame_ok) simp

lemma watch_frame [simp]: "frame c (watch data r c)"
  by (simp add: watch_def)

lemma time_now_frame: "time_now E c = (now, c') \<Longrightarrow> frame c c'"
  by (auto simp: time_now_def frame_def split: prod.splits intro: exI [of _ "[]"])

lemma fields_frame [simp]:
  "frame c (c\<lparr>cl_world := w\<rparr>)" "frame c (c\<lparr>cl_mqtt := mq\<rparr>)" "frame c (c\<lparr>cl_mqtt := mq, cl_world := w\<rparr>)"
  "frame c (c\<lparr>cl_seq_id := k\<rparr>)" "frame c (c\<lparr>cl_mailbox_another_request := x\<rparr>)" "frame c (c\<lparr>cl_mailbox_suspend := x\<rparr>)"
  "frame c (c\<lparr>cl_state := k\<rparr>)"
  by (simp_all add: frame_def exI [of _ "[]"])

lemma state_change_frame: "frame c (state_change_handler E prev cur err why c)"
proof -
  obtain n1 c1 where 1: "(if err = 0 then (0, c) else time_now E c) = (n1, c1)" by fastforce
  let ?c2 = "stats_up (\<lambda>st. stats_set_last_error n1 st err (cstr why)) c1"
  obtain n3 c3 where 3: "(if cur = STATE_CONNECTED then time_now E ?c2 else (0, ?c2)) = (n3, c3)" by fastforce
  have "frame c c1" using 1 time_now_frame by (auto split: if_splits)
  also have "frame c1 ?c2" by simp
  also have "frame ?c2 c3" using 3 time_now_frame by (auto split: if_splits)
  finally have f: "frame c c3" .
  have e: "frame x (emit (CeState prev cur why) y)" if "frame x y" for x y :: "('a, 'b) tr50"
    by (rule frame_trans [OF that]) simp
  have s: "frame c (stats_up (stats_set_connected n3) c3)" by (rule frame_trans [OF f]) simp
  show ?thesis using 1 3 f s e by (simp add: state_change_handler_def Let_def)
qed

lemma handle_states_frame: "frame c (handle_states E evs c)"
proof (induction E evs c rule: handle_states.induct)
  case (2 E prev cur err why evs c)
  then show ?case using frame_trans [OF state_change_frame] by auto
qed simp_all

lemma lift_request_frame: "lift_request E f c = Some (ret, c') \<Longrightarrow> frame c c'"
  unfolding lift_request_def
  by (auto split: option.splits prod.splits intro: frame_trans [OF fields_frame(3) handle_states_frame])

lemma client_publish_frame: "client_publish E topic data c = Some (ret, c') \<Longrightarrow> frame c c'"
  unfolding client_publish_def by (rule lift_request_frame)

lemma build_payload_frame: "build_payload E msg c = Some (r, c') \<Longrightarrow> frame c c'"
  by (auto simp: build_payload_def Let_def split: option.splits sum.splits prod.splits if_splits
      intro: frame_trans [OF watch_frame stats_up_frame])

end
