(* ===== verification/Tr50_Client_Calls.thy ===== *)
theory Tr50_Client_Calls
  imports Tr50_Client_Inv
begin

section \<open>Calls keep the requests in order\<close>

text \<open>
  The operations that create, change and delete messages off the list; the calls that put one on the
  list, and take it off again when it cannot be published; the messages the library sends itself; and
  the mailbox.
\<close>

subsection \<open>Messages off the list\<close>

definition fresh :: "nat \<Rightarrow> ('w, 'd) tr50 \<Rightarrow> bool" where
  "fresh m c \<longleftrightarrow> m \<noteq> 0 \<and> m < cl_next c \<and> m \<notin> set (waiting c) \<and>
     (\<exists>msg. cl_store c m = Some msg \<and> pending_next msg = 0 \<and> pending_previous msg = 0)"

lemma client_invD:
  assumes "client_inv c"
  shows "pending_list (cl_pending c, cl_store c) (waiting c)" "distinct (numbers c)"
    "\<And>m. m \<in> set (waiting c) \<Longrightarrow> m < cl_next c" "\<And>m. cl_next c \<le> m \<Longrightarrow> cl_store c m = None" "0 < cl_next c"
  using assms by (auto simp: client_inv_def)

lemma client_invI:
  assumes l: "pending_list (cl_pending c, cl_store c) xs" and "distinct (map (number_of c) xs)"
    and "\<And>m. m \<in> set xs \<Longrightarrow> m < cl_next c" "\<And>m. cl_next c \<le> m \<Longrightarrow> cl_store c m = None" "0 < cl_next c"
  shows "client_inv c"
  using assms waiting_eq [OF l] by (simp add: client_inv_def numbers_def)

lemma pending_list_other:
  "pending_list (pd, h) xs \<Longrightarrow> \<forall>x \<in> set xs. h' x = h x \<Longrightarrow> pending_list (pd, h') xs"
  using dll_agree [of xs h' h 0 0] by (simp add: pending_list_def)

text \<open>A change of the memory off the list.\<close>

definition off_list :: "('w, 'd) tr50 \<Rightarrow> ('w, 'd) tr50 \<Rightarrow> bool" where
  "off_list c c' \<longleftrightarrow> cl_pending c' = cl_pending c \<and> cl_next c \<le> cl_next c' \<and> cl_events c' = cl_events c \<and>
     cl_mailbox_send_in_progress c' = cl_mailbox_send_in_progress c \<and>
     (\<forall>x \<in> set (waiting c). cl_store c' x = cl_store c x) \<and>
     ((\<forall>x \<ge> cl_next c. cl_store c x = None) \<longrightarrow> (\<forall>x \<ge> cl_next c'. cl_store c' x = None))"

lemma off_list_views:
  assumes i: "client_inv c" and o: "off_list c c'"
  shows "waiting c' = waiting c" "numbers c' = numbers c" "client_inv c'" "mailbox_stuck c' = mailbox_stuck c"
    "\<And>x. x \<in> set (waiting c) \<Longrightarrow> meta_of c' x = meta_of c x"
proof -
  note d = client_invD [OF i]
  have l: "pending_list (cl_pending c', cl_store c') (waiting c)"
    using pending_list_other [OF d(1)] o by (simp add: off_list_def)
  show w: "waiting c' = waiting c" by (rule waiting_eq [OF l])
  show m: "\<And>x. x \<in> set (waiting c) \<Longrightarrow> meta_of c' x = meta_of c x" using o by (simp add: meta_of_def off_list_def)
  have n: "map (number_of c') (waiting c) = map (number_of c) (waiting c)"
    by (rule map_cong) (simp_all add: number_of_def m)
  then show "numbers c' = numbers c" by (simp add: numbers_def w)
  show "mailbox_stuck c' = mailbox_stuck c"
    using o by (simp add: mailbox_stuck_def w mailbox_request_def m off_list_def cong: ball_cong)
  show "client_inv c'"
  proof (rule client_invI [OF l])
    show "distinct (map (number_of c') (waiting c))" unfolding n using d(2) by (simp add: numbers_def)
    show "\<And>m. m \<in> set (waiting c) \<Longrightarrow> m < cl_next c'" using d(3) o unfolding off_list_def by fastforce
    show "\<And>m. cl_next c' \<le> m \<Longrightarrow> cl_store c' m = None" using d(4) o by (simp add: off_list_def)
    show "0 < cl_next c'" using d(5) o by (simp add: off_list_def)
  qed
qed

lemma off_list_tri:
  assumes "client_inv c \<Longrightarrow> Q \<Longrightarrow> off_list c c'" "later c c'" "cl_events c' = cl_events c"
    and "client_inv c \<Longrightarrow> Q \<Longrightarrow> waiting c' = waiting c \<Longrightarrow> P"
  shows "tri A b Q c P c'"
proof -
  have t: "trace c c' = []" using assms(3) by (simp add: trace_def)
  have "P \<and> client_inv c' \<and> good A b c [] c'" if q: Q and i: "client_inv c"
    using off_list_views [OF i assms(1) [OF i q]] assms(4) [OF i q] by (simp add: good_def settled_def)
  then show ?thesis using assms(2) t by (simp add: tri_def)
qed

lemma create_fields:
  assumes "client_message_create E c = (r, c')"
  shows "cl_events c' = cl_events c" "cl_pending c' = cl_pending c" "cl_next c \<le> cl_next c'"
    "cl_mailbox_send_in_progress c' = cl_mailbox_send_in_progress c"
    "\<And>x. x \<noteq> cl_next c \<Longrightarrow> cl_store c' x = cl_store c x"
  using assms by (auto simp: client_message_create_def split: prod.splits sum.splits)

lemma create_off_list:
  assumes e: "client_message_create E c = (r, c')" and i: "client_inv c"
  shows "off_list c c'"
  using e client_invD [OF i] create_fields [OF e]
  by (force simp: off_list_def client_message_create_def split: prod.splits sum.splits)

lemma create_ok: "client_message_create E c = (r, c') \<Longrightarrow> ok b c c'"
  using create_fields [of E c r c'] create_off_list [of E c r c'] by (intro off_list_tri) (auto simp: later_def)

lemma create_new:
  assumes e: "client_message_create E c = (Inr m, c')"
  shows "m = cl_next c" "cl_store c' m = Some (message_new (en_doubles E))" "client_inv c \<Longrightarrow> fresh m c'"
proof -
  show m: "m = cl_next c" and s: "cl_store c' m = Some (message_new (en_doubles E))"
    using e by (auto simp: client_message_create_def tr50_message_create_def split: prod.splits sum.splits option.splits)
  have n: "cl_next c' = cl_next c + 1"
    using e by (auto simp: client_message_create_def split: prod.splits sum.splits)
  assume i: "client_inv c"
  have "waiting c' = waiting c" using off_list_views [OF i create_off_list [OF e i]] by simp
  then show "fresh m c'" using client_invD [OF i] m n s by (auto simp: fresh_def message_new_def)
qed

lemma create_fresh:
  assumes e: "client_message_create E c = (Inr m, c')"
  shows "tri A b True c (fresh m c') c'"
  using create_fields [OF e] create_off_list [OF e] create_new [OF e] by (intro off_list_tri) (auto simp: later_def)

lemma update_tri:
  assumes e: "update_message m f c = Some c'"
    and k: "\<And>msg. cl_store c m = Some msg \<Longrightarrow> pending_next (f msg) = pending_next msg"
      "\<And>msg. cl_store c m = Some msg \<Longrightarrow> pending_previous (f msg) = pending_previous msg"
  shows "tri A b (fresh m c) c (fresh m c') c'"
proof -
  obtain msg where m: "cl_store c m = Some msg" "c' = c\<lparr>cl_store := (cl_store c)(m \<mapsto> f msg)\<rparr>"
    using e by (auto simp: update_message_def split: option.splits)
  have "off_list c c'" if "client_inv c" "fresh m c"
    using that client_invD [OF that(1)] m by (auto simp: off_list_def fresh_def)
  moreover have "fresh m c'" if "fresh m c" "waiting c' = waiting c"
    using that m k by (auto simp: fresh_def)
  ultimately show ?thesis by (intro off_list_tri) (auto simp: m(2) later_def)
qed

lemma delete_tri:
  assumes "tr50_message_delete m c = Some (r, c')"
  shows "tri A b (m \<notin> set (waiting c)) c True c'"
proof -
  have "c' = c \<or> c' = c\<lparr>cl_store := (cl_store c)(m := None)\<rparr>"
    using assms by (auto simp: tr50_message_delete_def split: if_splits)
  then show ?thesis by (intro off_list_tri) (auto simp: off_list_def later_def)
qed

subsection \<open>Adding to the list and taking off\<close>

lemma payload_meta: "payload a = payload b \<Longrightarrow> meta a = meta b"
  using payload_eqD [of a b] by (simp add: meta_def)

lemma same_messages_meta: "same_messages h h' \<Longrightarrow> map_option meta (h' x) = map_option meta (h x)"
  unfolding same_messages_def map_option_case
  by (erule allE [of _ x]) (auto split: option.splits dest: payload_meta)

lemma same_messages_None: "same_messages h h' \<Longrightarrow> h' x = None \<longleftrightarrow> h x = None"
  unfolding same_messages_def by (metis option.map_disc_iff)

lemma add_fields:
  assumes "client_pending_add E m c = Some c'"
  shows "cl_events c' = cl_events c" "cl_next c' = cl_next c"
    "cl_mailbox_send_in_progress c' = cl_mailbox_send_in_progress c"
  using assms by (auto simp: client_pending_add_def time_now_def split: prod.splits option.splits)

lemma add_waiting:
  assumes e: "client_pending_add E m c = Some c'" and i: "client_inv c" and f: "fresh m c"
  shows "pending_list (cl_pending c', cl_store c') (waiting c @ [m])" "\<And>x. meta_of c' x = meta_of c x"
    "\<And>x. cl_store c' x = None \<longleftrightarrow> cl_store c x = None"
proof -
  obtain now c1 where t: "time_now E c = (now, c1)" by fastforce
  note v = frame_views [OF time_now_frame [OF t]]
  obtain msg where m: "cl_store c m = Some msg" "pending_next msg = 0" "pending_previous msg = 0" "m \<noteq> 0" "m \<notin> set (waiting c)"
    using f by (auto simp: fresh_def)
  let ?h = "(cl_store c)(m \<mapsto> msg\<lparr>pending_sent_timestamp := now, pending_expiration_timestamp := now + callback_timeout msg\<rparr>)"
  from add_list [OF client_invD(1) [OF i] m(4,5,1,2,3), of now] obtain pd' h' where
    a: "tr50_pending_add now m (cl_pending c, cl_store c) = Some (pd', h')" "pending_list (pd', h') (waiting c @ [m])"
      "same_messages ?h h'" by blast
  have c': "cl_pending c' = pd'" "cl_store c' = h'"
    using e t a(1) v by (auto simp: client_pending_add_def)
  show "pending_list (cl_pending c', cl_store c') (waiting c @ [m])" using a(2) by (simp add: c')
  show "\<And>x. meta_of c' x = meta_of c x"
    using same_messages_meta [OF a(3)] m(1) by (auto simp: meta_of_def c' meta_def)
  show "\<And>x. cl_store c' x = None \<longleftrightarrow> cl_store c x = None"
    using same_messages_None [OF a(3)] m(1) by (auto simp: c')
qed

lemma find_fields:
  assumes "client_find_and_remove hash c = Some (m, c')"
  shows "cl_events c' = cl_events c" "cl_next c' = cl_next c"
    "cl_mailbox_send_in_progress c' = cl_mailbox_send_in_progress c"
  using assms by (auto simp: client_find_and_remove_def split: prod.splits option.splits)

lemma has_seq_meta: "has_seq (cl_store c) hash m \<longleftrightarrow> meta_of c m \<noteq> None \<and> number_of c m = hash"
  by (cases "cl_store c m") (simp_all add: has_seq_def number_of_def meta_of_def meta_def)

lemma waiting_meta: "client_inv c \<Longrightarrow> m \<in> set (waiting c) \<Longrightarrow> m \<noteq> 0 \<and> meta_of c m \<noteq> None"
  using dll_member [of "cl_store c" 0 "waiting c" 0 m] by (auto simp: client_inv_def pending_list_def meta_of_def)

lemma find_waiting:
  assumes e: "client_find_and_remove hash c = Some (m, c')" and l: "pending_list (cl_pending c, cl_store c) xs"
  shows "m = (case find (has_seq (cl_store c) hash) xs of None \<Rightarrow> 0 | Some x \<Rightarrow> x)"
    "pending_list (cl_pending c', cl_store c') (case find (has_seq (cl_store c) hash) xs of None \<Rightarrow> xs | Some x \<Rightarrow> remove1 x xs)"
    "same_messages (cl_store c) (cl_store c')"
  using find_and_remove_list [OF l, of hash] e by (auto simp: client_find_and_remove_def)

text \<open>Operations whose events are neutral.\<close>

definition plain :: "('w, 'd) tr50 \<Rightarrow> ('w, 'd) tr50 \<Rightarrow> bool" where
  "plain c c' \<longleftrightarrow> (\<exists>evs. cl_events c' = cl_events c @ evs \<and> list_all neutral evs) \<and> cl_next c \<le> cl_next c' \<and>
     cl_mailbox_send_in_progress c' = cl_mailbox_send_in_progress c"

lemma plain_trans [trans]: "plain c c1 \<Longrightarrow> plain c1 c2 \<Longrightarrow> plain c c2"
  unfolding plain_def by (metis append.assoc list_all_append le_trans)

lemma create_plain: "client_message_create E c = (r, c') \<Longrightarrow> plain c c'"
  using create_fields [of E c r c'] by (simp add: plain_def exI [of _ "[]"])

lemma frame_plain: "frame c c' \<Longrightarrow> plain c c'"
  by (auto simp: frame_def plain_def)

lemma add_plain: "client_pending_add E m c = Some c' \<Longrightarrow> plain c c'"
  using add_fields [of E m c c'] by (simp add: plain_def exI [of _ "[]"])

lemma find_plain: "client_find_and_remove hash c = Some (m, c') \<Longrightarrow> plain c c'"
  using find_fields [of hash c m c'] by (simp add: plain_def exI [of _ "[]"])

lemma plain_later: "plain c c' \<Longrightarrow> later c c'"
  by (auto simp: plain_def later_def)

text \<open>The list as it was, or with the message appended, and the messages as they were.\<close>

definition listed :: "nat list \<Rightarrow> ('w, 'd) tr50 \<Rightarrow> ('w, 'd) tr50 \<Rightarrow> bool" where
  "listed new c c' \<longleftrightarrow> pending_list (cl_pending c', cl_store c') (waiting c @ new) \<and> cl_next c' = cl_next c \<and>
     (\<forall>x. meta_of c' x = meta_of c x) \<and> (\<forall>x. cl_store c' x = None \<longleftrightarrow> cl_store c x = None)"

lemma listed_frame: "listed new c c1 \<Longrightarrow> frame c1 c2 \<Longrightarrow> listed new c c2"
  using frame_views [of c1 c2] by (simp add: listed_def)

lemma frame_listed: "frame c c1 \<Longrightarrow> listed new c1 c2 \<Longrightarrow> listed new c c2"
  using frame_views [of c c1] by (simp add: listed_def)

lemma add_listed: "client_pending_add E m c = Some c' \<Longrightarrow> client_inv c \<Longrightarrow> fresh m c \<Longrightarrow> listed [m] c c'"
  unfolding listed_def using add_waiting add_fields(2) by blast

lemma find_append: "find P xs = None \<Longrightarrow> find P (xs @ ys) = find P ys"
  by (induction xs) (auto split: if_splits)

text \<open>A message whose number no other one has is found again.\<close>

lemma find_unlisted:
  assumes e: "client_find_and_remove sid c1 = Some (x, c2)" and i: "client_inv c" and l: "listed [m] c c1"
    and n: "number_of c m = sid" "sid \<notin> set (numbers c)" "meta_of c m \<noteq> None"
  shows "x = m" "listed [] c c2"
proof -
  let ?p = "has_seq (cl_store c1) sid"
  have pl: "pending_list (cl_pending c1, cl_store c1) (waiting c @ [m])" using l by (simp add: listed_def)
  have hs: "?p y \<longleftrightarrow> (meta_of c y \<noteq> None \<and> number_of c y = sid)" for y
    using l by (simp add: has_seq_meta listed_def number_of_def)
  have w: "\<not> ?p y" if "y \<in> set (waiting c)" for y
    using that n(2) by (auto simp: hs numbers_def)
  have "find ?p (waiting c) = None" using w by (simp add: find_None_iff)
  then have f: "find ?p (waiting c @ [m]) = Some m" using n by (simp add: find_append hs)
  have m: "m \<notin> set (waiting c)" using w [of m] n by (auto simp: hs)
  note fw = find_waiting [OF e pl, unfolded f, simplified]
  show "x = m" by (rule fw(1))
  have "remove1 m (waiting c @ [m]) = waiting c" using m by (simp add: remove1_append)
  then show "listed [] c c2"
    using fw(2) l find_fields(2) [OF e] same_messages_meta [OF fw(3)] same_messages_None [OF fw(3)]
    by (simp add: listed_def meta_of_def)
qed

subsection \<open>API calls\<close>

lemma api_call_send_plain:
  assumes "api_call_send E m sid topic data c = Some (ret, c')"
  shows "plain c c'"
proof -
  obtain c1 r c2 where 1: "client_pending_add E m c = Some c1"
    "client_publish E (topic_with_seq topic sid) data (in_api_call 2 c1) = Some (r, c2)"
    using assms by (auto simp: api_call_send_def Let_def bind_eq_Some_conv)
  have "plain c c1" by (rule add_plain [OF 1(1)])
  also have "plain c1 (in_api_call 2 c1)" by (rule frame_plain) simp
  also have "plain (in_api_call 2 c1) c2" by (rule frame_plain [OF client_publish_frame [OF 1(2)]])
  finally have p: "plain c c2" .
  show ?thesis
  proof (cases "r = 0")
    case True
    then have "c' = stats_up (\<lambda>st. stats_pub_sent_up st (int (length data))) (in_api_call 0 c2)"
      using assms 1 by (simp add: api_call_send_def Let_def)
    then have "frame c2 c'" by (auto intro: frame_trans [OF in_api_frame(1) stats_up_frame])
    then show ?thesis using plain_trans [OF p frame_plain] by blast
  next
    case False
    then obtain x c3 where "client_find_and_remove sid c2 = Some (x, c3)" "c' = in_api_call 0 c3"
      using assms 1 by (auto simp: api_call_send_def Let_def bind_eq_Some_conv)
    then show ?thesis using plain_trans [OF p plain_trans [OF find_plain frame_plain]] by auto
  qed
qed

lemma api_call_send_listed:
  assumes s: "api_call_send E m sid topic data c = Some (ret, c')" and i: "client_inv c" and f: "fresh m c"
    and n: "number_of c m = sid" "sid \<notin> set (numbers c)"
  shows "listed (if ret = 0 then [m] else []) c c'"
proof -
  have mm: "meta_of c m \<noteq> None" "m \<noteq> 0" using f by (auto simp: fresh_def meta_of_def)
  obtain c1 r c2 where 1: "client_pending_add E m c = Some c1"
    "client_publish E (topic_with_seq topic sid) data (in_api_call 2 c1) = Some (r, c2)"
    using s by (auto simp: api_call_send_def Let_def bind_eq_Some_conv)
  have "frame c1 c2" by (rule frame_trans [OF in_api_frame(1) client_publish_frame [OF 1(2)]])
  then have l: "listed [m] c c2" using listed_frame [OF add_listed [OF 1(1) i f]] by blast
  show ?thesis
  proof (cases "r = 0")
    case True
    then have "ret = 0" "c' = stats_up (\<lambda>st. stats_pub_sent_up st (int (length data))) (in_api_call 0 c2)"
      using s 1 by (simp_all add: api_call_send_def Let_def)
    moreover then have "frame c2 c'" by (auto intro: frame_trans [OF in_api_frame(1) stats_up_frame])
    ultimately show ?thesis using listed_frame [OF l] by simp
  next
    case False
    then obtain x c3 where x: "client_find_and_remove sid c2 = Some (x, c3)" "c' = in_api_call 0 c3"
      "ret = (if x \<noteq> 0 then r else 0)"
      using s 1 by (auto simp: api_call_send_def Let_def bind_eq_Some_conv)
    note u = find_unlisted [OF x(1) i l n mm(1)]
    then have "ret \<noteq> 0" using x(3) False mm(2) by simp
    then show ?thesis using listed_frame [OF u(2)] x(2) by simp
  qed
qed

text \<open>From the list of a call to what it does to the requests.\<close>

definition call_result :: "bool \<Rightarrow> nat \<Rightarrow> int \<Rightarrow> nat list \<Rightarrow> ('w, 'd) tr50 \<Rightarrow> ('w, 'd) tr50 \<Rightarrow> bool" where
  "call_result b m sid new c c' \<longleftrightarrow> pending_list (cl_pending c', cl_store c') (waiting c @ new) \<and> (new = [] \<or> new = [m]) \<and>
     m \<notin> set (waiting c) \<and> m < cl_next c' \<and> number_of c' m = sid \<and>
     (\<forall>x \<in> set (waiting c). meta_of c' x = meta_of c x) \<and> (\<forall>x \<ge> cl_next c'. cl_store c' x = None) \<and>
     (b \<longrightarrow> \<not> mailbox_request c' m)"

lemma grown:
  assumes i: "client_inv c" and d: "distinct (numbers c @ [sid])"
    and e: "issued evs = [sid]" "\<And>x. fate x evs = 0"
    and r: "call_result (keeps_stuck b) m sid new c c'"
    and n: "cl_next c \<le> cl_next c'" "cl_mailbox_send_in_progress c' = cl_mailbox_send_in_progress c"
  shows "client_inv c'" "good {m} b c evs c'"
proof -
  note cd = client_invD [OF i]
  have l: "pending_list (cl_pending c', cl_store c') (waiting c @ new)" and new: "new = [] \<or> new = [m]"
    and m: "m \<notin> set (waiting c)" "m < cl_next c'" "number_of c' m = sid"
    and s: "\<And>x. x \<in> set (waiting c) \<Longrightarrow> meta_of c' x = meta_of c x" "\<And>x. cl_next c' \<le> x \<Longrightarrow> cl_store c' x = None"
    and b: "keeps_stuck b \<Longrightarrow> \<not> mailbox_request c' m"
    using r by (simp_all add: call_result_def)
  have w: "waiting c' = waiting c @ new" by (rule waiting_eq [OF l])
  have nw: "map (number_of c') (waiting c) = numbers c"
    unfolding numbers_def by (rule map_cong) (simp_all add: number_of_def s(1))
  have num: "map (number_of c') (waiting c @ new) = numbers c @ (if new = [] then [] else [sid])"
    using new by (auto simp: nw m(3))
  then have dn: "distinct (map (number_of c') (waiting c @ new))" using d by auto
  show "client_inv c'"
  proof (rule client_invI [OF l dn])
    show "\<And>x. x \<in> set (waiting c @ new) \<Longrightarrow> x < cl_next c'" using cd(3) new m(2) n(1) by fastforce
  qed (use s(2) cd(5) n in auto)
  have mb: "mailbox_request c' x = mailbox_request c x" if "x \<in> set (waiting c)" for x
    using s(1) [OF that] by (simp add: mailbox_request_def)
  have nn: "numbers c' = numbers c @ (if new = [] then [] else [sid])" using num by (simp add: numbers_def w)
  have "settled {m} c evs c'"
    using new e s(1) by (auto simp: settled_def w nn)
  moreover have "mailbox_stuck c'" if "keeps_stuck b" "mailbox_stuck c"
    using that new b n(2) mb by (auto simp: mailbox_stuck_def w)
  ultimately show "good {m} b c evs c'" by (simp add: good_def w)
qed

text \<open>A number is issued, and a message gets it.\<close>

definition issue :: "('w, 'd) tr50 \<Rightarrow> ('w, 'd) tr50" where
  "issue c = emit (CeIssued (cl_seq_id (next_seq_id c))) (next_seq_id c)"

lemma issue_fields: "same_fields c (issue c)" "cl_events (issue c) = cl_events c @ [CeIssued (cl_seq_id (issue c))]"
  by (simp_all add: issue_def same_fields_def next_seq_id_def emit_def Let_def)

lemma numbered:
  assumes u: "update_message m f c = Some c'" and i: "client_inv c" and fr: "fresh m c"
    and k: "\<And>msg. pending_next (f msg) = pending_next msg" "\<And>msg. pending_previous (f msg) = pending_previous msg"
    and sid: "\<And>msg. seq_id (f msg) = sid"
  shows "client_inv c'" "fresh m c'" "number_of c' m = sid" "waiting c' = waiting c" "numbers c' = numbers c"
    "\<And>x. x \<in> set (waiting c) \<Longrightarrow> meta_of c' x = meta_of c x" "plain c c'"
proof -
  obtain msg where m: "cl_store c m = Some msg" "c' = c\<lparr>cl_store := (cl_store c)(m \<mapsto> f msg)\<rparr>"
    using u by (auto simp: update_message_def split: option.splits)
  have o: "off_list c c'" using fr client_invD [OF i] m by (auto simp: off_list_def fresh_def)
  note v = off_list_views [OF i o]
  show "client_inv c'" "waiting c' = waiting c" "numbers c' = numbers c"
    "\<And>x. x \<in> set (waiting c) \<Longrightarrow> meta_of c' x = meta_of c x" using v by simp_all
  show "fresh m c'" using fr v(1) m k by (auto simp: fresh_def)
  show "number_of c' m = sid" using m sid by (simp add: number_of_def meta_of_def meta_def)
  show "plain c c'" using m(2) by (simp add: plain_def exI [of _ "[]"])
qed

lemma plain_trace: "plain c c' \<Longrightarrow> issued (trace c c') = [] \<and> fate x (trace c c') = 0"
  by (auto simp: plain_def trace_eq neutral_trace)

lemma call_tri:
  assumes c1: "frame c c1" and p: "plain (issue c1) c'"
    and inv: "\<And>sid. client_inv c \<Longrightarrow> Q \<Longrightarrow> sid = cl_seq_id (issue c1) \<Longrightarrow> distinct (numbers c @ [sid]) \<Longrightarrow>
      \<exists>new. call_result (keeps_stuck b) m sid new c c' \<and> (waiting c' = waiting c @ new \<longrightarrow> P)"
  shows "tri {m} b Q c P c'"
proof -
  let ?sid = "cl_seq_id (issue c1)"
  have l1: "later c c1" "later c1 (issue c1)" "later (issue c1) c'"
    using frame_later [OF c1] plain_later [OF p] issue_fields [of c1] by (auto simp: later_def same_fields_def)
  then have l: "later c c'" by (blast intro: later_trans)
  have t: "trace c c' = trace c c1 @ [CeIssued ?sid] @ trace (issue c1) c'"
    using trace_append [OF l1(1) later_trans [OF l1(2,3)]] trace_append [OF l1(2,3)] trace_eq [OF issue_fields(2)] by simp
  have e: "issued (trace c c') = [?sid]" "\<And>x. fate x (trace c c') = 0"
    using frame_trace [OF c1] plain_trace [OF p] by (simp_all add: t)
  have n: "cl_next c \<le> cl_next c'" "cl_mailbox_send_in_progress c' = cl_mailbox_send_in_progress c"
    using p issue_fields(1) [of c1] frame_same_fields [OF c1] by (simp_all add: plain_def same_fields_def)
  have "P \<and> client_inv c' \<and> good {m} b c (trace c c') c'"
    if i: "client_inv c" and q: Q and d: "distinct (numbers c @ issued (trace c c'))"
  proof -
    have d': "distinct (numbers c @ [?sid])" using d by (simp add: e)
    from inv [OF i q refl d'] obtain new where *: "call_result (keeps_stuck b) m ?sid new c c'"
      "waiting c' = waiting c @ new \<longrightarrow> P" by blast
    have "client_inv c'" "good {m} b c (trace c c') c'"
      using grown [OF i d' e *(1) n] by simp_all
    moreover have P using waiting_eq [of c' "waiting c @ new"] * by (simp add: call_result_def)
    ultimately show ?thesis by blast
  qed
  then show ?thesis using l by (simp add: tri_def)
qed

text \<open>The numbered message, ready to be sent.\<close>

definition ready :: "nat \<Rightarrow> int \<Rightarrow> ('w, 'd) tr50 \<Rightarrow> ('w, 'd) tr50 \<Rightarrow> bool" where
  "ready m sid c c' \<longleftrightarrow> client_inv c' \<and> fresh m c' \<and> number_of c' m = sid \<and> waiting c' = waiting c \<and>
     numbers c' = numbers c \<and> (\<forall>x \<in> set (waiting c). meta_of c' x = meta_of c x)"

lemma ready_frame:
  assumes "ready m sid c c1" "frame c1 c2"
  shows "ready m sid c c2"
  using assms(1) frame_views [OF assms(2)] same_views(11) [OF frame_same_fields [OF assms(2)]]
  by (auto simp: ready_def fresh_def)

lemma ready_numbered:
  assumes "update_message m f c = Some c'" "client_inv c" "fresh m c"
    and "\<And>msg. pending_next (f msg) = pending_next msg" "\<And>msg. pending_previous (f msg) = pending_previous msg"
    and "\<And>msg. seq_id (f msg) = sid"
  shows "ready m sid c c'"
  using numbered [OF assms] by (simp add: ready_def)

lemma ready_result:
  assumes r: "ready m sid c c4" and l: "listed new c4 c'" and n: "new = [] \<or> new = [m]"
    and b: "b \<Longrightarrow> \<not> mailbox_request c4 m"
  shows "call_result b m sid new c c'"
proof -
  note d = client_invD [of c4]
  have i: "client_inv c4" using r by (simp add: ready_def)
  have m: "meta_of c' x = meta_of c4 x" for x using l by (simp add: listed_def)
  have "mailbox_request c' m = mailbox_request c4 m" "number_of c' m = number_of c4 m"
    by (simp_all add: mailbox_request_def number_of_def m)
  then show ?thesis using r l n b client_invD(4) [OF i] m
    by (auto simp: call_result_def ready_def listed_def fresh_def)
qed

lemma listed_same: "client_inv c \<Longrightarrow> frame c c' \<Longrightarrow> listed [] c c'"
  using frame_views [of c c'] client_invD(1) [of c] by (simp add: listed_def)

definition numbered_message :: "int \<Rightarrow> nat option \<Rightarrow> nat \<Rightarrow> int \<Rightarrow> 'd message \<Rightarrow> 'd message" where
  "numbered_message sid cb cust timeout msg = msg\<lparr>seq_id := sid, message_type := TR50_MESSAGE_TYPE_OBJ,
     reply_callback := cb, callback_custom := cust, callback_timeout := timeout\<rparr>"

lemma numbered_message_simps [simp]:
  "pending_next (numbered_message sid cb cust timeout msg) = pending_next msg"
  "pending_previous (numbered_message sid cb cust timeout msg) = pending_previous msg"
  "seq_id (numbered_message sid cb cust timeout msg) = sid"
  "meta (numbered_message sid cb cust timeout msg) = (sid, TR50_MESSAGE_TYPE_OBJ, cb, raw_callback msg, cust)"
  "tr50_message_to_string F (numbered_message sid cb cust timeout msg) = tr50_message_to_string F msg"
  by (simp_all add: numbered_message_def meta_def tr50_message_to_string_def)

lemma api_check_in_api: "api_check (in_api_call n c) = api_check c" "api_check (in_api_raw n c) = api_check c"
  by (simp_all add: api_check_def in_api_call_def in_api_raw_def stats_up_def cong: if_cong)

text \<open>The stages of a call that passes the checks: number, payload, and the sending.\<close>

lemma api_call_stages:
  assumes e: "tr50_api_call_async E m cb cust timeout c = Some (ret, c')" and a: "api_check c = 0"
    and sid: "sid = cl_seq_id (issue (in_api_call 1 c))"
  obtains msg c3 r c4 where "cl_store c m = Some msg"
    "update_message m (numbered_message sid cb cust timeout) (issue (in_api_call 1 c)) = Some c3"
    "build_payload E (numbered_message sid cb cust timeout msg) c3 = Some (r, c4)"
    "(case r of Inl ret \<Rightarrow> Some (ret, in_api_call 0 c4)
      | Inr (topic, data) \<Rightarrow> api_call_send E m sid topic data c4) = Some (ret, c')"
proof -
  define c1 where "c1 = in_api_call 1 c"
  have sid': "cl_seq_id (next_seq_id c1) = sid" by (simp add: sid issue_def emit_def c1_def)
  have a1: "api_check c1 = 0" using a by (simp add: api_check_in_api c1_def)
  obtain c3 msg2 r c4 where s: "update_message m (numbered_message sid cb cust timeout) (issue c1) = Some c3"
    "cl_store c3 m = Some msg2" "build_payload E msg2 c3 = Some (r, c4)"
    "(case r of Inl ret \<Rightarrow> Some (ret, in_api_call 0 c4)
      | Inr (topic, data) \<Rightarrow> api_call_send E m sid topic data c4) = Some (ret, c')"
    using e a1 unfolding tr50_api_call_async_def Let_def c1_def [symmetric] sid' numbered_message_def [abs_def] issue_def
    by (auto simp: bind_eq_Some_conv)
  obtain msg where m: "cl_store (issue c1) m = Some msg" "msg2 = numbered_message sid cb cust timeout msg"
    using s(1,2) by (auto simp: update_message_def split: option.splits)
  have "cl_store (issue c1) = cl_store c"
    using same_views(9) [OF issue_fields(1) [of c1]] by (simp add: c1_def in_api_call_def stats_up_def)
  then show thesis using that [of msg c3 r c4] s m by (simp add: c1_def)
qed

text \<open>The sending puts the message on the list or leaves the list as it was.\<close>

lemma api_call_sent:
  assumes "(case r of Inl ret \<Rightarrow> Some (ret, in_api_call 0 c4)
      | Inr (topic, data) \<Rightarrow> api_call_send E m sid topic data c4) = Some (ret, c')"
    and r4: "ready m sid c c4" and d: "sid \<notin> set (numbers c)"
  shows "listed (if ret = 0 \<and> (\<exists>out. r = Inr out) then [m] else []) c4 c'"
proof (cases r)
  case (Inl x)
  then show ?thesis using assms(1) r4 listed_same [OF _ in_api_frame(1)] by (auto simp: ready_def)
next
  case (Inr x)
  then obtain topic data where a: "api_call_send E m sid topic data c4 = Some (ret, c')"
    using assms(1) by (auto split: prod.splits)
  have "meta_of c4 m \<noteq> None" using r4 by (auto simp: ready_def fresh_def meta_of_def)
  then show ?thesis using api_call_send_listed [OF a] r4 d Inr by (auto simp: ready_def)
qed

lemma api_call_ready:
  assumes u: "update_message m (numbered_message sid cb cust timeout) (issue (in_api_call 1 c)) = Some c3"
    and b: "build_payload E msg c3 = Some (r, c4)" and i: "client_inv c" and f: "fresh m c"
  shows "ready m sid c c4"
proof -
  let ?c1 = "issue (in_api_call 1 c)"
  have "same_fields c ?c1"
    using frame_same_fields [OF in_api_frame(1), of c 1] issue_fields(1) [of "in_api_call 1 c"] by (simp add: same_fields_def)
  note v = same_views [OF this]
  have "ready m sid ?c1 c3" by (rule ready_numbered [OF u]) (use i f v in \<open>simp_all add: fresh_def\<close>)
  then have "ready m sid c c3" using v by (simp add: ready_def)
  then show ?thesis by (rule ready_frame [OF _ build_payload_frame [OF b]])
qed

lemma build_payload_fails:
  "build_payload E msg c = Some (Inl err, c') \<Longrightarrow> \<forall>bs. en_deflate E bs \<noteq> Inl 0 \<Longrightarrow> err \<noteq> 0"
  by (auto simp: build_payload_def tr50_message_to_string_def ERR_TR50_MALLOC_def Let_def
      split: option.splits sum.splits if_splits run.splits)

text \<open>After a call that answers 0 its message waits, with the callback it was given; otherwise it does not.\<close>

definition called :: "('w, 'd) env \<Rightarrow> nat \<Rightarrow> nat option \<Rightarrow> int \<Rightarrow> ('w, 'd) tr50 \<Rightarrow> bool" where
  "called E m cb ret c' \<longleftrightarrow> (ret \<noteq> 0 \<longrightarrow> m \<notin> set (waiting c')) \<and>
     (ret = 0 \<longrightarrow> (\<forall>bs. en_deflate E bs \<noteq> Inl 0) \<longrightarrow> m \<in> set (waiting c') \<and> (cb \<noteq> None \<longrightarrow> has_callback c' m))"

lemma api_call_tri:
  assumes e: "tr50_api_call_async E m cb cust timeout c = Some (ret, c')"
    and b: "keeps_stuck b \<Longrightarrow> cb \<noteq> Some MAILBOX_CALLBACK"
  shows "tri {m} b (fresh m c) c (called E m cb ret c') c'"
proof (cases "api_check c = 0")
  case False
  then have c': "c' = in_api_call 0 (in_api_call 1 c)"
    using e by (simp add: tr50_api_call_async_def Let_def api_check_in_api)
  have f: "frame c c'" unfolding c' by (rule frame_trans [OF in_api_frame(1) in_api_frame(1)])
  have "ret \<noteq> 0" using e False by (auto simp: tr50_api_call_async_def Let_def api_check_in_api)
  then show ?thesis by (intro frame_tri [OF f]) (simp add: fresh_def called_def frame_views [OF f])
next
  case True
  let ?c1 = "in_api_call 1 c"
  define sid where "sid = cl_seq_id (issue ?c1)"
  obtain msg c3 r c4 where s: "cl_store c m = Some msg"
    "update_message m (numbered_message sid cb cust timeout) (issue ?c1) = Some c3"
    "build_payload E (numbered_message sid cb cust timeout msg) c3 = Some (r, c4)"
    "(case r of Inl ret \<Rightarrow> Some (ret, in_api_call 0 c4)
      | Inr (topic, data) \<Rightarrow> api_call_send E m sid topic data c4) = Some (ret, c')"
    by (rule api_call_stages [OF e True sid_def])
  have f4: "frame c3 c4" by (rule build_payload_frame [OF s(3)])
  have pl: "plain c4 c'"
    using s(4) api_call_send_plain frame_plain [OF in_api_frame(1)] by (auto split: sum.splits prod.splits)
  obtain msg0 where m0: "c3 = (issue ?c1)\<lparr>cl_store := (cl_store (issue ?c1))(m \<mapsto> numbered_message sid cb cust timeout msg0)\<rparr>"
    using s(2) by (auto simp: update_message_def split: option.splits)
  have p3: "plain (issue ?c1) c3" using m0 by (simp add: plain_def exI [of _ "[]"])
  show ?thesis
  proof (rule call_tri [OF in_api_frame(1) plain_trans [OF p3 plain_trans [OF frame_plain [OF f4] pl]]])
    fix sid2 assume i: "client_inv c" and fr: "fresh m c" and sd: "sid2 = cl_seq_id (issue ?c1)"
      and d: "distinct (numbers c @ [sid2])"
    have r4: "ready m sid c c4" by (rule api_call_ready [OF s(2,3) i fr])
    have mt: "meta_of c4 m = Some (sid, TR50_MESSAGE_TYPE_OBJ, cb, raw_callback msg0, cust)"
      using frame_views [OF f4] by (simp add: m0 meta_of_def)
    then have mb: "keeps_stuck b \<Longrightarrow> \<not> mailbox_request c4 m" using b by (auto simp: mailbox_request_def)
    have ok: "\<exists>out. r = Inr out" if "ret = 0" "\<forall>bs. en_deflate E bs \<noteq> Inl 0"
      using s(3,4) that by (cases r) (auto dest: build_payload_fails)
    obtain new where new: "listed new c4 c'" "new = [] \<or> new = [m]" "ret \<noteq> 0 \<longrightarrow> new = []"
      "ret = 0 \<longrightarrow> (\<forall>bs. en_deflate E bs \<noteq> Inl 0) \<longrightarrow> new = [m]"
      using api_call_sent [OF s(4) r4] d sd ok by (auto simp: sid_def split: if_splits)
    have "meta_of c' m = meta_of c4 m" using new(1) by (simp add: listed_def)
    then have hc: "cb \<noteq> None \<longrightarrow> has_callback c' m" using mt by (simp add: has_callback_def)
    have "call_result (keeps_stuck b) m sid2 new c c'" using ready_result [OF r4 new(1,2) mb] sd by (simp add: sid_def)
    then show "\<exists>new. call_result (keeps_stuck b) m sid2 new c c' \<and>
        (waiting c' = waiting c @ new \<longrightarrow> called E m cb ret c')"
      using new(3,4) hc fr by (intro exI [of _ new]) (auto simp: fresh_def called_def)
  qed
qed

lemma api_call_async_tri:
  assumes "tr50_api_call_async E m cb cust timeout c = Some (ret, c')" "keeps_stuck b \<Longrightarrow> cb \<noteq> Some MAILBOX_CALLBACK"
  shows "tri {m} b (fresh m c) c (ret \<noteq> 0 \<longrightarrow> m \<notin> set (waiting c')) c'"
  by (rule tri_conseq [OF api_call_tri [OF assms]]) (simp_all add: called_def)

subsection \<open>Raw calls\<close>

definition codec_works :: "('w, 'd) env \<Rightarrow> bool" where
  "codec_works E \<longleftrightarrow> (\<forall>bs. \<exists>out. en_deflate E bs = Inr out)"

text \<open>The stages of a raw call: up to the publish and the search, then the deletion of what was found.\<close>

lemma api_raw_send_stages:
  assumes "api_raw_send E sid topic data req c = Some (ret, c')"
  obtains r c2 x c3 where "client_publish E (topic_with_seq topic sid) data c = Some (r, c2)"
    "if r \<noteq> 0 then client_find_and_remove sid c2 = Some (x, c3) else x = 0 \<and> c3 = c2"
    "if x \<noteq> 0 then tr50_message_delete x (in_api_raw 0 c3) = Some (0, c')
     else c' = in_api_raw 0 (stats_up (\<lambda>st. stats_pub_sent_up st (int (length req))) c3)"
    "ret = (if x \<noteq> 0 then r else 0)"
proof -
  obtain r c2 x c3 where 1: "client_publish E (topic_with_seq topic sid) data c = Some (r, c2)"
    "(if r \<noteq> 0 then client_find_and_remove sid c2 else Some (0, c2)) = Some (x, c3)"
    "(if x \<noteq> 0 then api_raw_fail x r c3
      else Some (0, in_api_raw 0 (stats_up (\<lambda>st. stats_pub_sent_up st (int (length req))) c3))) = Some (ret, c')"
    using assms unfolding api_raw_send_def by (auto simp only: bind_eq_Some_conv split_paired_Ex prod.case)
  have d: "tr50_message_delete x (in_api_raw 0 c3) = Some (0, c') \<and> ret = r" if "x \<noteq> 0"
    using that 1(3) by (auto simp: api_raw_fail_def tr50_message_delete_def split: if_splits)
  show thesis
    by (rule that [OF 1(1), of x c3]) (use 1(2,3) d in \<open>auto split: if_splits\<close>)
qed

lemma raw_ready:
  assumes k: "client_message_create E (issue c1) = (Inr m, c2)" and u: "update_message m f c2 = Some c3"
    and ff: "\<And>msg. pending_next (f msg) = pending_next msg" "\<And>msg. pending_previous (f msg) = pending_previous msg"
      "\<And>msg. seq_id (f msg) = sid"
    and c1: "frame c c1" and i: "client_inv c"
  shows "ready m sid c c3"
proof -
  have "same_fields c (issue c1)"
    using frame_same_fields [OF c1] issue_fields(1) [of c1] by (simp add: same_fields_def)
  note v = same_views [OF this]
  have i1: "client_inv (issue c1)" using i v by simp
  note v2 = off_list_views [OF i1 create_off_list [OF k i1]]
  have fr: "fresh m c2" using create_new(3) [OF k] i1 by simp
  have "ready m sid c2 c3" by (rule ready_numbered [OF u v2(3) fr]) (simp_all add: ff)
  then show ?thesis using v v2 by (simp add: ready_def)
qed

text \<open>Before the publish: number, message, list, watcher.\<close>

lemma api_raw_listed:
  assumes k: "client_message_create E (issue c1) = (Inr m, c2)" and u: "update_message m f c2 = Some c3"
    and a: "client_pending_add E m c3 = Some c4" and f5: "frame c4 c5"
    and p: "client_publish E t data c5 = Some (r, c6)"
    and x: "if r \<noteq> 0 then client_find_and_remove sid c6 = Some (x, c7) else x = 0 \<and> c7 = c6"
    and sid: "sid = cl_seq_id (issue c1)"
    and ff: "\<And>msg. pending_next (f msg) = pending_next msg" "\<And>msg. pending_previous (f msg) = pending_previous msg"
      "\<And>msg. seq_id (f msg) = sid" "\<And>msg. \<not> mailbox_meta (meta (f msg))"
    and c1: "frame c c1"
  shows "plain (issue c1) c7" "client_inv c \<Longrightarrow> distinct (numbers c @ [sid]) \<Longrightarrow>
    \<exists>new. call_result (keeps_stuck b) m sid new c c7 \<and> (new = [] \<or> x = 0) \<and> (x = 0 \<or> x = m)"
proof -
  have "plain (issue c1) c2" by (rule create_plain [OF k])
  also have "plain c2 c3" using u by (auto simp: update_message_def plain_def intro: exI [of _ "[]"] split: option.splits)
  also have "plain c3 c4" by (rule add_plain [OF a])
  also have "plain c4 c6" by (rule frame_plain [OF frame_trans [OF f5 client_publish_frame [OF p]]])
  also have "plain c6 c7" using x find_plain by (cases "r = 0") (auto intro: frame_plain)
  finally show "plain (issue c1) c7" .
  assume i: "client_inv c" and d: "distinct (numbers c @ [sid])"
  have r3: "ready m sid c c3" by (rule raw_ready [OF k u ff(1-3) c1 i])
  then have i3: "client_inv c3" "fresh m c3" "number_of c3 m = sid" "sid \<notin> set (numbers c3)" "meta_of c3 m \<noteq> None"
    using d by (auto simp: ready_def fresh_def meta_of_def)
  have mb: "\<not> mailbox_request c3 m"
    using u ff(4) by (auto simp: update_message_def mailbox_request_def meta_of_def split: option.splits)
  have "frame c4 c6" by (rule frame_trans [OF f5 client_publish_frame [OF p]])
  with add_listed [OF a i3(1,2)] have l: "listed [m] c3 c6" by (rule listed_frame)
  show "\<exists>new. call_result (keeps_stuck b) m sid new c c7 \<and> (new = [] \<or> x = 0) \<and> (x = 0 \<or> x = m)"
  proof (cases "r = 0")
    case True
    then have "call_result (keeps_stuck b) m sid [m] c c7" using ready_result [OF r3 l] mb x by simp
    then show ?thesis using True x by auto
  next
    case False
    then have "client_find_and_remove sid c6 = Some (x, c7)" using x by simp
    note un = find_unlisted [OF this i3(1) l i3(3-5)]
    have "call_result (keeps_stuck b) m sid [] c c7" using ready_result [OF r3 un(2)] mb by simp
    then show ?thesis using un(1) by auto
  qed
qed

lemma create_compress: "client_message_create E c = (r, c') \<Longrightarrow> cl_compress c' = cl_compress c"
  by (auto simp: client_message_create_def split: prod.splits sum.splits)

lemma update_compress: "update_message m f c = Some c' \<Longrightarrow> cl_compress c' = cl_compress c"
  by (auto simp: update_message_def split: option.splits)

lemma add_compress: "client_pending_add E m c = Some c' \<Longrightarrow> cl_compress c' = cl_compress c"
  by (auto simp: client_pending_add_def time_now_def split: prod.splits option.splits)

lemma same_compress [simp]: "cl_compress (in_api_raw n c) = cl_compress c" "cl_compress (issue c) = cl_compress c"
  "cl_compress (watch data r c) = cl_compress c"
  by (simp_all add: in_api_raw_def stats_up_def issue_def emit_def next_seq_id_def watch_def Let_def)

definition raw_message :: "int \<Rightarrow> nat option \<Rightarrow> nat \<Rightarrow> int \<Rightarrow> 'd message \<Rightarrow> 'd message" where
  "raw_message sid cb cust timeout msg = msg\<lparr>seq_id := sid, message_type := TR50_MESSAGE_TYPE_RAW,
     raw_callback := cb, callback_custom := cust, callback_timeout := timeout\<rparr>"

lemma raw_message_simps [simp]:
  "pending_next (raw_message sid cb cust timeout msg) = pending_next msg"
  "pending_previous (raw_message sid cb cust timeout msg) = pending_previous msg"
  "seq_id (raw_message sid cb cust timeout msg) = sid" "\<not> mailbox_meta (meta (raw_message sid cb cust timeout msg))"
  by (simp_all add: raw_message_def meta_def TR50_MESSAGE_TYPE_OBJ_def TR50_MESSAGE_TYPE_RAW_def)

text \<open>The stages of a raw call that passes the checks: number, message, list, and the sending.\<close>

lemma api_raw_stages:
  assumes e: "tr50_api_raw_async E req cb cust timeout c = Some (ret, c')" and a: "api_check c = 0"
    and sid: "sid = cl_seq_id (issue (in_api_raw 1 c))"
  obtains m c2 c3 c4 where "client_message_create E (issue (in_api_raw 1 c)) = (Inr m, c2)"
    "update_message m (raw_message sid cb cust timeout) c2 = Some c3" "client_pending_add E m c3 = Some c4"
    "cl_compress c4 = cl_compress c"
    "(if cl_compress c4 \<noteq> 0 \<and> int (length req) \<ge> TR50_MIN_COMPRESSION_LEN then
        (case en_deflate E req of Inl ret \<Rightarrow> api_raw_fail m ret (in_api_raw 2 (watch req False c4))
         | Inr out \<Rightarrow> api_raw_send E sid TR50_TOPIC_COMPRESS_API out req
             (stats_up (\<lambda>st. stats_set_compress_ratio st (int (length req)) (int (length out))) (in_api_raw 2 (watch req False c4))))
      else api_raw_send E sid TR50_TOPIC_API req req (in_api_raw 2 (watch req False c4))) = Some (ret, c')"
proof -
  define c1 where "c1 = in_api_raw 1 c"
  have sid': "cl_seq_id (next_seq_id c1) = sid" by (simp add: sid issue_def emit_def c1_def)
  have a1: "api_check c1 = 0" using a by (simp add: api_check_in_api c1_def)
  define f where "f = (\<lambda>msg :: 'b message. msg\<lparr>seq_id := sid, message_type := TR50_MESSAGE_TYPE_RAW,
      raw_callback := cb, callback_custom := cust, callback_timeout := timeout\<rparr>)"
  have rf: "raw_message sid cb cust timeout = f" by (rule ext) (simp add: raw_message_def f_def)
  obtain r2 c2 where k: "client_message_create E (issue c1) = (r2, c2)" by fastforce
  note e' = e [unfolded tr50_api_raw_async_def Let_def c1_def [symmetric] sid' issue_def [symmetric, of c1]
      f_def [symmetric] issue_def [of c1, symmetric, unfolded sid'] k, folded rf]
  from e' a1 k obtain m where m: "r2 = Inr m" by (cases r2) simp_all
  from e' a1 obtain c3 c4 where u: "update_message m (raw_message sid cb cust timeout) c2 = Some c3" "client_pending_add E m c3 = Some c4"
    and r: "(let c = in_api_raw 2 (watch req False c4) in
      if cl_compress c \<noteq> 0 \<and> int (length req) \<ge> TR50_MIN_COMPRESSION_LEN then
        (case en_deflate E req of Inl ret \<Rightarrow> api_raw_fail m ret c
         | Inr out \<Rightarrow> api_raw_send E sid TR50_TOPIC_COMPRESS_API out req
             (stats_up (\<lambda>st. stats_set_compress_ratio st (int (length req)) (int (length out))) c))
      else api_raw_send E sid TR50_TOPIC_API req req c) = Some (ret, c')"
    by (auto simp: m Let_def bind_eq_Some_conv)
  have "cl_compress c4 = cl_compress c"
    using add_compress [OF u(2)] update_compress [OF u(1)] create_compress [OF k] by (simp add: c1_def)
  then show thesis using that [of m c2 c3 c4] k m u r by (simp add: Let_def c1_def)
qed

lemma api_raw_async_ok:
  assumes e: "tr50_api_raw_async E req cb cust timeout c = Some (ret, c')" and w: "cl_compress c \<noteq> 0 \<Longrightarrow> codec_works E"
  shows "ok b c c'"
proof (cases "api_check c = 0")
  case False
  then have c': "c' = in_api_raw 0 (in_api_raw 1 c)" using e by (simp add: tr50_api_raw_async_def Let_def api_check_in_api)
  show ?thesis unfolding c' by (rule frame_ok [OF frame_trans [OF in_api_frame(2) in_api_frame(2)]])
next
  case True
  let ?c1 = "in_api_raw 1 c"
  define sid where "sid = cl_seq_id (issue ?c1)"
  obtain m c2 c3 c4 where s: "client_message_create E (issue ?c1) = (Inr m, c2)"
    "update_message m (raw_message sid cb cust timeout) c2 = Some c3" "client_pending_add E m c3 = Some c4"
    "cl_compress c4 = cl_compress c"
    and r: "(if cl_compress c4 \<noteq> 0 \<and> int (length req) \<ge> TR50_MIN_COMPRESSION_LEN then
        (case en_deflate E req of Inl ret \<Rightarrow> api_raw_fail m ret (in_api_raw 2 (watch req False c4))
         | Inr out \<Rightarrow> api_raw_send E sid TR50_TOPIC_COMPRESS_API out req
             (stats_up (\<lambda>st. stats_set_compress_ratio st (int (length req)) (int (length out))) (in_api_raw 2 (watch req False c4))))
      else api_raw_send E sid TR50_TOPIC_API req req (in_api_raw 2 (watch req False c4))) = Some (ret, c')"
    by (rule api_raw_stages [OF e True sid_def])
  have fr: "frame c4 (in_api_raw 2 (watch req False c4))" by (rule frame_trans [OF watch_frame in_api_frame(2)])
  have "en_deflate E req = Inl err \<Longrightarrow> cl_compress c4 = 0" for err
    using w [unfolded codec_works_def] s(4) by (metis sum.distinct(1))
  then have "\<exists>topic data c5. frame c4 c5 \<and> api_raw_send E sid topic data req c5 = Some (ret, c')"
    using r fr frame_trans [OF fr stats_up_frame] by (auto split: if_splits sum.splits)
  then obtain topic data c5 where s': "frame c4 c5" "api_raw_send E sid topic data req c5 = Some (ret, c')" by blast
  obtain r c6 x c7 where t: "client_publish E (topic_with_seq topic sid) data c5 = Some (r, c6)"
    "if r \<noteq> 0 then client_find_and_remove sid c6 = Some (x, c7) else x = 0 \<and> c7 = c6"
    "if x \<noteq> 0 then tr50_message_delete x (in_api_raw 0 c7) = Some (0, c')
     else c' = in_api_raw 0 (stats_up (\<lambda>st. stats_pub_sent_up st (int (length req))) c7)"
    by (rule api_raw_send_stages [OF s'(2)]) blast
  note rl = api_raw_listed [OF s(1-3) s'(1) t(1,2) sid_def _ _ _ _ in_api_frame(2), simplified]
  have "tri {m} b True c (x \<noteq> 0 \<longrightarrow> x \<notin> set (waiting c7)) c7"
  proof (rule call_tri [OF in_api_frame(2) rl(1)])
    fix sid2 assume i: "client_inv c" and sd: "sid2 = cl_seq_id (issue ?c1)" and d: "distinct (numbers c @ [sid2])"
    from rl(2) [OF i, of b] d sd obtain new where
      "call_result (keeps_stuck b) m sid new c c7" "new = [] \<or> x = 0" "x = 0 \<or> x = m" by (auto simp: sid_def)
    then show "\<exists>new. call_result (keeps_stuck b) m sid2 new c c7 \<and>
        (waiting c7 = waiting c @ new \<longrightarrow> (x \<noteq> 0 \<longrightarrow> x \<notin> set (waiting c7)))"
      using sd by (intro exI [of _ new]) (auto simp: sid_def call_result_def)
  qed
  moreover have "m = cl_next c"
    using create_new(1) [OF s(1)] same_views(8) [OF issue_fields(1) [of ?c1]] frame_views(8) [OF in_api_frame(2)] by simp
  ultimately have a: "tri {} b True c (x \<noteq> 0 \<longrightarrow> x \<notin> set (waiting c7)) c7" by (intro tri_fresh) auto
  show ?thesis
  proof (cases "x = 0")
    case True
    then have "frame c7 c'" using t(3) by (auto intro: frame_trans [OF stats_up_frame in_api_frame(2)])
    then show ?thesis by (intro tri_trans [OF a frame_tri]) simp_all
  next
    case False
    then have d: "tr50_message_delete x (in_api_raw 0 c7) = Some (0, c')" using t(3) by simp
    have "tri {} b (x \<noteq> 0 \<longrightarrow> x \<notin> set (waiting c7)) c7 (x \<notin> set (waiting (in_api_raw 0 c7))) (in_api_raw 0 c7)"
      using False by (intro frame_tri) (simp_all add: frame_views [OF in_api_frame(2)])
    from tri_trans [OF tri_trans [OF a this] delete_tri [OF d]] show ?thesis by simp
  qed
qed

end
