(* ===== verification/Tr50_Client_Steps.thy ===== *)
theory Tr50_Client_Steps
  imports Tr50_Client_Calls
begin

section \<open>The library's own steps keep the requests in order\<close>

text \<open>
  The messages the library sends itself, the mailbox, the dispatch of replies, and the rounds of the
  expiration handler.
\<close>

subsection \<open>Commands and the mailbox\<close>

lemma add_command_links:
  assumes "snd (tr50_message_add_command F (Some msg) cid cmd ps) = Some msg'"
  shows "pending_next msg' = pending_next msg" "pending_previous msg' = pending_previous msg"
  using assms by (auto simp: tr50_message_add_command_def Let_def split: if_splits)

text \<open>A message created, filled, sent, and deleted when that fails.\<close>

lemma created_call_tri:
  assumes k: "client_message_create E c = (Inr m, c1)"
    and msg: "cl_store c1 m = Some msg" "snd (tr50_message_add_command F (Some msg) cid cmd ps) = Some msg'"
    and u: "update_message m (\<lambda>_. msg') c1 = Some c2"
    and a: "tr50_api_call_async E m cb cust timeout c2 = Some (ret, c3)" and b: "keeps_stuck b \<Longrightarrow> cb \<noteq> Some MAILBOX_CALLBACK"
  shows "tri {} b True c (ret \<noteq> 0 \<longrightarrow> m \<notin> set (waiting c3)) c3"
proof (rule tri_create [OF create_fresh [OF k]])
  have "tri {m} b (fresh m c1) c1 (fresh m c2) c2"
    by (rule update_tri [OF u]) (use msg add_command_links [OF msg(2)] in auto)
  from tri_trans [OF this api_call_async_tri [OF a b]]
  show "tri {m} b (fresh m c1) c1 (ret \<noteq> 0 \<longrightarrow> m \<notin> set (waiting c3)) c3" by (simp add: fresh_def)
  show "cl_next c \<le> m" using create_new(1) [OF k] by simp
qed

lemma send_command_ok:
  assumes "send_command E cmd params c = Some (ret, c')"
  shows "ok b c c'"
proof -
  obtain m c1 msg msg' c2 r c3 where s: "client_message_create E c = (Inr m, c1)" "cl_store c1 m = Some msg"
    "snd (tr50_message_add_command (en_doubles E) (Some msg) (Some (cstr ''1'')) (Some cmd) (Some params)) = Some msg'"
    "update_message m (\<lambda>_. msg') c1 = Some c2" "tr50_api_call E m c2 = Some (r, c3)"
    "(if r \<noteq> 0 then do { (_, c) \<leftarrow> tr50_message_delete m c3; Some (r, c) } else Some (0, c3)) = Some (ret, c')"
    using assms by (auto simp: send_command_def bind_eq_Some_conv simp del: if_split_asm split: prod.splits sum.splits)
  have t: "tri {} b True c (r \<noteq> 0 \<longrightarrow> m \<notin> set (waiting c3)) c3"
    using created_call_tri [OF s(1-4) s(5) [unfolded tr50_api_call_def]] by simp
  show ?thesis
  proof (cases "r = 0")
    case True
    then show ?thesis using s(6) tri_conseq [OF t] by auto
  next
    case False
    then obtain x where d: "tr50_message_delete m c3 = Some (x, c')" using s(6) by (auto simp: bind_eq_Some_conv)
    have "tri {} b True c (m \<notin> set (waiting c3)) c3" using tri_conseq [OF t] False by simp
    from tri_trans [OF this delete_tri [OF d]] show ?thesis by simp
  qed
qed

lemma ack_ok:
  "tr50_command_ack E i st err a c = Some (ret, c') \<Longrightarrow> ok b c c'"
  "tr50_method_ack E i st err a c = Some (ret, c') \<Longrightarrow> ok b c c'"
  "tr50_command_update E i msg c = Some (ret, c') \<Longrightarrow> ok b c c'"
  "tr50_method_update E i msg c = Some (ret, c') \<Longrightarrow> ok b c c'"
  using send_command_ok
  by (fastforce simp: tr50_command_ack_def tr50_method_ack_def tr50_command_update_def tr50_method_update_def bind_eq_Some_conv)+

lemma command_process_ok: "tr50_command_process E i key command from params c = Some (ret, c') \<Longrightarrow> ok b c c'"
  using ack_ok(1) by (auto simp: tr50_command_process_def bind_eq_Some_conv emit_ok ok_refl split: option.splits if_splits)

lemma method_process_ok: "tr50_method_process E i key name from params c = Some (ret, c') \<Longrightarrow> ok b c c'"
  using ack_ok(2) by (auto simp: tr50_method_process_def bind_eq_Some_conv emit_ok ok_refl split: option.splits if_splits)

text \<open>Setting the flag of the mailbox keeps everything but \<open>mailbox_stuck\<close>.\<close>

lemma flag_ok:
  assumes "cl_pending c' = cl_pending c" "cl_store c' = cl_store c" "cl_next c' = cl_next c" "cl_events c' = cl_events c"
  shows "ok (Promise False k) c c'"
proof -
  have w: "waiting c' = waiting c" by (simp add: waiting_def assms)
  have m: "meta_of c' x = meta_of c x" for x by (simp add: meta_of_def assms)
  have n: "numbers c' = numbers c" by (simp add: numbers_def w number_of_def m)
  show ?thesis
    using assms by (simp add: tri_def later_def trace_def client_inv_def w n good_def settled_def m)
qed

lemma mailbox_check_ok:
  assumes e: "tr50_mailbox_check E c = Some (ret, c')"
  shows "ok b c c'"
proof -
  consider (suspend) "cl_mailbox_suspend c" | (busy) "\<not> cl_mailbox_suspend c" "cl_mailbox_send_in_progress c"
    | (go) "\<not> cl_mailbox_suspend c" "\<not> cl_mailbox_send_in_progress c" by blast
  then show ?thesis
  proof cases
    case suspend
    then show ?thesis using e ok_refl by (simp add: tr50_mailbox_check_def)
  next
    case busy
    then show ?thesis using e frame_ok [OF fields_frame(5)] by (auto simp: tr50_mailbox_check_def)
  next
    case go
    define c0 where "c0 = stats_up stats_mailbox_check_up (c\<lparr>cl_mailbox_send_in_progress := True\<rparr>)"
    have f: "ok (Promise False (keeps_waiting b)) x (snd (mailbox_check_failed r x))" for r and x :: "('a, 'b) tr50"
      by (rule flag_ok) (simp_all add: mailbox_check_failed_def)
    have 0: "ok (Promise False (keeps_waiting b)) c c0" by (rule flag_ok) (simp_all add: c0_def stats_up_def)
    obtain r c1 where k: "client_message_create E c0 = (r, c1)" by fastforce
    have "ok (Promise False (keeps_waiting b)) c c'"
    proof (cases r)
      case (Inl err)
      then have "c' = snd (mailbox_check_failed err c1)"
        using e go k by (simp add: tr50_mailbox_check_def flip: c0_def)
      with ok_trans [OF 0 ok_trans [OF create_ok [OF k] f]] show ?thesis by simp
    next
      case (Inr m)
      obtain msg msg' c2 r2 c3 where s: "cl_store c1 m = Some msg"
        "snd (tr50_message_add_command (en_doubles E) (Some msg) (Some (cstr ''1'')) (Some (cstr ''mailbox.check'')) None) = Some msg'"
        "update_message m (\<lambda>_. msg') c1 = Some c2"
        "tr50_api_call_async E m (Some MAILBOX_CALLBACK) 0 30000 c2 = Some (r2, c3)"
        "(if r2 \<noteq> 0 then do { (_, c) \<leftarrow> tr50_message_delete m c3; Some (mailbox_check_failed r2 c) }
          else Some (0, c3)) = Some (ret, c')"
        using e go k Inr unfolding tr50_mailbox_check_def Let_def c0_def [symmetric]
        by (auto simp: bind_eq_Some_conv simp del: if_split_asm)
      note t = tri_trans [OF 0 created_call_tri [OF k [unfolded Inr] s(1-4)]]
      show ?thesis
      proof (cases "r2 = 0")
        case True
        then show ?thesis using s(5) tri_conseq [OF t] by auto
      next
        case False
        then obtain x c4 where d: "tr50_message_delete m c3 = Some (x, c4)" "c' = snd (mailbox_check_failed r2 c4)"
          using s(5) by (auto simp: bind_eq_Some_conv mailbox_check_failed_def)
        have "tri {} (Promise False (keeps_waiting b)) True c (m \<notin> set (waiting c3)) c3" using tri_conseq [OF t] False by simp
        from ok_trans [OF tri_trans [OF this delete_tri [OF d(1)]] f] show ?thesis using d(2) by simp
      qed
    qed
    then show ?thesis by (rule ok_unstuck) (simp add: mailbox_stuck_def go)
  qed
qed

lemma mailbox_item_ok:
  assumes e: "mailbox_item E item c = Some c'"
  shows "ok b c c'"
proof -
  let ?str = "\<lambda>name. tr50_json_get_object_item_as_string (Some item) (Some (cstr name))"
  consider "c' = c" | i k cmd where "?str ''id'' = Some i" "?str ''thingKey'' = Some k" "?str ''command'' = Some cmd"
    using e unfolding mailbox_item_def Let_def by (auto split: option.splits)
  then show ?thesis
  proof cases
    case 1
    then show ?thesis by (simp add: ok_refl)
  next
    case 2
    obtain c1 name sender ps ret frm ps2 where
      1: "c1 = c \<or> (\<exists>r. tr50_method_process E i k name sender ps c = Some (r, c1))" and
      2: "tr50_command_process E i k (Some cmd) frm ps2 c1 = Some (ret, c')"
      using e 2 unfolding mailbox_item_def Let_def by (auto simp: bind_eq_Some_conv split: if_splits) blast+
    have "ok b c c1" using 1 method_process_ok ok_refl by blast
    then show ?thesis using command_process_ok [OF 2] by (rule ok_trans)
  qed
qed

lemma mailbox_items_ok: "mailbox_items E items c = Some c' \<Longrightarrow> ok b c c'"
  by (induction items arbitrary: c) (auto simp: bind_eq_Some_conv intro: ok_refl ok_trans mailbox_item_ok)

lemma mailbox_check_again_ok:
  assumes e: "mailbox_check_again E n c = Some c'"
  shows "ok (Promise False k) c c'"
proof (cases "n > 0 \<or> cl_mailbox_another_request c")
  case True
  let ?c = "c\<lparr>cl_mailbox_send_in_progress := False, cl_mailbox_another_request := False\<rparr>"
  obtain r where "tr50_mailbox_check E ?c = Some (r, c')"
    using e True by (auto simp: mailbox_check_again_def Let_def)
  from mailbox_check_ok [OF this] have "ok (Promise False k) ?c c'" .
  moreover have "ok (Promise False k) c ?c" by (rule flag_ok) simp_all
  ultimately show ?thesis by (rule ok_trans [rotated])
next
  case False
  then have "c' = c\<lparr>cl_mailbox_send_in_progress := False\<rparr>" using e by (simp add: mailbox_check_again_def Let_def)
  then show ?thesis by (intro flag_ok) simp_all
qed

lemma mailbox_callback_ok:
  assumes e: "mailbox_check_callback E status reply c = Some c'"
  shows "ok (Promise False k) c c'"
proof -
  obtain n c1 where "c1 = c \<or> (\<exists>items. mailbox_items E items c = Some c1)" "mailbox_check_again E n c1 = Some c'"
    using e by (auto simp: mailbox_check_callback_def Let_def bind_eq_Some_conv split: if_splits option.splits)
  then show ?thesis
    using ok_trans [OF _ mailbox_check_again_ok] mailbox_items_ok ok_refl by blast
qed

end
