(* ===== verification/Tr50_Client_Replies.thy ===== *)
theory Tr50_Client_Replies
  imports Tr50_Client_Steps
begin

section \<open>Replies and timeouts settle requests\<close>

text \<open>
  A request leaves the list when a reply with its number arrives or when it expires.  Either way its callback,
  if it has one, is called once, except that a reply which cannot be read drops it.
\<close>

subsection \<open>Taking a request off the list\<close>

definition removed :: "nat \<Rightarrow> ('w, 'd) tr50 \<Rightarrow> ('w, 'd) tr50 \<Rightarrow> bool" where
  "removed m c c1 \<longleftrightarrow> m \<in> set (waiting c) \<and> pending_list (cl_pending c1, cl_store c1) (remove1 m (waiting c)) \<and>
     cl_next c1 = cl_next c \<and> cl_mailbox_send_in_progress c1 = cl_mailbox_send_in_progress c \<and>
     (\<forall>x. x \<noteq> m \<longrightarrow> meta_of c1 x = meta_of c x) \<and> (\<forall>x \<ge> cl_next c. cl_store c1 x = None)"

definition gone :: "nat \<Rightarrow> ('w, 'd) tr50 \<Rightarrow> bool" where
  "gone m c \<longleftrightarrow> m \<notin> set (waiting c) \<and> m < cl_next c"

lemma removed_same: "removed m c c1 \<Longrightarrow> same_fields c1 c2 \<Longrightarrow> removed m c c2"
  using same_views [of c1 c2] by (simp add: removed_def)

lemma removed_views:
  assumes i: "client_inv c" and r: "removed m c c1"
  shows "waiting c1 = remove1 m (waiting c)" "client_inv c1" "mset (numbers c1) \<subseteq># mset (numbers c)"
    "mailbox_stuck c \<Longrightarrow> mailbox_stuck c1" "gone m c1" "\<And>x. x \<noteq> m \<Longrightarrow> meta_of c1 x = meta_of c x"
    "set (waiting c1) = set (waiting c) - {m}"
proof -
  note d = client_invD [OF i]
  have dw: "distinct (waiting c)" using d(1) by (simp add: pending_list_def)
  have l: "pending_list (cl_pending c1, cl_store c1) (remove1 m (waiting c))" using r by (simp add: removed_def)
  have f: "cl_next c1 = cl_next c" "cl_mailbox_send_in_progress c1 = cl_mailbox_send_in_progress c"
    "\<And>x. cl_next c \<le> x \<Longrightarrow> cl_store c1 x = None"
    using r by (simp_all add: removed_def)
  show w: "waiting c1 = remove1 m (waiting c)" by (rule waiting_eq [OF l])
  show me: "\<And>x. x \<noteq> m \<Longrightarrow> meta_of c1 x = meta_of c x" using r by (simp add: removed_def)
  show s: "set (waiting c1) = set (waiting c) - {m}" using dw by (simp add: w)
  have "map (number_of c1) (remove1 m (waiting c)) = map (number_of c) (remove1 m (waiting c))"
    using dw by (intro map_cong) (auto simp: number_of_def me)
  then have n: "numbers c1 = map (number_of c) (remove1 m (waiting c))" by (simp add: numbers_def w)
  show ms: "mset (numbers c1) \<subseteq># mset (numbers c)"
    unfolding n unfolding numbers_def mset_map by (intro image_mset_subseteq_mono) simp
  show "client_inv c1"
  proof (rule client_invI [OF l])
    show "distinct (map (number_of c1) (remove1 m (waiting c)))"
      using mset_distinct [OF ms d(2)] by (simp add: numbers_def w)
    show "\<And>x. x \<in> set (remove1 m (waiting c)) \<Longrightarrow> x < cl_next c1"
      using d(3) f(1) s by (simp add: w)
  qed (use f d(5) in simp_all)
  have "mailbox_request c1 x = mailbox_request c x" if "x \<noteq> m" for x by (simp add: mailbox_request_def me that)
  then show "mailbox_stuck c \<Longrightarrow> mailbox_stuck c1" by (simp add: mailbox_stuck_def s f)
  show "gone m c1" using d(3) r by (simp add: gone_def s f removed_def)
qed

definition left :: "nat \<Rightarrow> ('w, 'd) tr50 \<Rightarrow> ('w, 'd) tr50 \<Rightarrow> bool" where
  "left m c c' \<longleftrightarrow> gone m c' \<and> set (waiting c) \<subseteq> insert m (set (waiting c'))"

lemma removal_tri:
  assumes r: "client_inv c \<Longrightarrow> removed m c c1" and l: "later c c1"
    and e: "issued (trace c c1) = []" "\<And>x. x \<noteq> m \<Longrightarrow> fate x (trace c c1) = 0" "fate m (trace c c1) \<le> 1"
    and h: "client_inv c \<Longrightarrow> has_callback c m \<Longrightarrow> fate m (trace c c1) = 1"
  shows "tri {} (Promise s False) True c (left m c c1) c1"
proof -
  have "left m c c1 \<and> client_inv c1 \<and> good {} (Promise s False) c (trace c c1) c1" if i: "client_inv c"
  proof -
    note v = removed_views [OF i r [OF i]]
    have m: "m \<in> set (waiting c)" using r [OF i] by (simp add: removed_def)
    have f: "x \<notin> set (waiting c) \<Longrightarrow> fate x (trace c c1) = 0" for x using e(2) m by metis
    have "settled {} c (trace c c1) c1"
      unfolding settled_def
    proof (intro conjI ballI allI impI)
      fix x assume x: "x \<in> set (waiting c)"
      show "if x \<in> set (waiting c1) then fate x (trace c c1) = 0 \<and> meta_of c1 x = meta_of c x
          else fate x (trace c c1) \<le> 1 \<and> (has_callback c x \<longrightarrow> fate x (trace c c1) = 1)"
        using x e(2,3) v(6) h [OF i] by (cases "x = m") (simp_all add: v(7))
    qed (use v(3,7) e(1) f in simp_all)
    then show ?thesis using v by (auto simp: good_def left_def)
  qed
  then show ?thesis using l by (simp add: tri_def)
qed

lemma removal_silent:
  assumes "client_inv c \<Longrightarrow> removed m c c1" and p: "plain c c1" and "client_inv c \<Longrightarrow> \<not> has_callback c m"
  shows "tri {} (Promise s False) True c (left m c c1) c1"
  using assms plain_later [OF p] plain_trace [OF p] by (intro removal_tri) auto

lemma removal_event:
  assumes r: "client_inv c \<Longrightarrow> removed m c c1" and p: "plain c c1" and e: "e = CeDropped m \<or> (\<exists>call. e = CeReply m call)"
  shows "tri {} (Promise s False) True c (left m c (emit e c1)) (emit e c1)"
proof -
  have s: "same_fields c1 (emit e c1)" by (simp add: same_fields_def emit_def)
  have l: "later c1 (emit e c1)" by (auto simp: later_def emit_def)
  have "trace c1 (emit e c1) = [e]" by (simp add: trace_def emit_def)
  then have t: "trace c (emit e c1) = trace c c1 @ [e]" using trace_append [OF plain_later [OF p] l] by simp
  note pt = plain_trace [OF p]
  show ?thesis
    by (rule removal_tri) (use removed_same [OF r s] later_trans [OF plain_later [OF p] l] e pt in \<open>auto simp: t\<close>)
qed

subsection \<open>Callbacks\<close>

definition mailbox_call :: "'d reply_call \<Rightarrow> bool" where
  "mailbox_call call \<longleftrightarrow> (\<exists>status request reply cust. call = ReplyCall MAILBOX_CALLBACK status request reply cust)"

lemma run_call_cases:
  assumes e: "run_call E m call c = Some c'"
  shows "ok (Promise False k) (emit (CeReply m call) c) c'" "\<not> mailbox_call call \<Longrightarrow> c' = emit (CeReply m call) c"
  using e mailbox_callback_ok ok_refl
  by (auto simp: run_call_def mailbox_call_def Let_def split: reply_call.splits if_splits)

lemma tri_promise:
  "tri A (Promise s k) Q c P c' \<Longrightarrow> (s' \<Longrightarrow> s) \<Longrightarrow> (k' \<Longrightarrow> k) \<Longrightarrow> tri A (Promise s' k') Q c P c'"
  unfolding tri_def good_def by auto

text \<open>What has left stays away, and what is kept is kept.\<close>

lemma left_tri:
  assumes t: "ok (Promise s True) c1 c2"
  shows "tri {} (Promise s k) (left m c c1) c1 (left m c c2) c2"
proof -
  have "left m c c2" if "left m c c1" "good {} (Promise s True) c1 evs c2" "later c1 c2" for evs
    using that settled_gone [of "{}" c1 evs c2 m] by (auto simp: left_def gone_def good_def later_def)
  then show ?thesis using t unfolding tri_def good_def by auto
qed

lemma removal_call:
  assumes r: "client_inv c \<Longrightarrow> removed m c c1" and p: "plain c c1" and f: "frame c1 c2"
    and e: "run_call E m call c2 = Some c3"
    and mb: "client_inv c \<Longrightarrow> mailbox_call call \<Longrightarrow> mailbox_request c m"
  shows "tri {} (Promise s False) True c (left m c c3) c3"
proof -
  let ?c = "emit (CeReply m call) c2"
  have a: "tri {} (Promise s False) True c (left m c ?c) ?c" for s
    by (rule removal_event) (use removed_same [OF r frame_same_fields [OF f]] plain_trans [OF p frame_plain [OF f]] in auto)
  show ?thesis
  proof (cases "mailbox_call call")
    case True
    have "tri {} (Promise False False) True c (left m c c3) c3"
      by (rule tri_trans [OF a left_tri [OF run_call_cases(1) [OF e]]]) simp
    then show ?thesis
      by (intro ok_unstuck [where b = "Promise s False"]) (use True mb r in \<open>auto simp: mailbox_stuck_def removed_def\<close>)
  next
    case False
    then show ?thesis using a run_call_cases(2) [OF e] by simp
  qed
qed

subsection \<open>Replies\<close>

lemma find_zero: "client_find_and_remove sid c = Some (0, c') \<Longrightarrow> c' = c"
  by (auto simp: client_find_and_remove_def tr50_pending_find_and_remove_def split: option.splits prod.splits if_splits)

lemma find_removed:
  assumes e: "client_find_and_remove sid c = Some (m, c')" and m: "m \<noteq> 0" and i: "client_inv c"
  shows "removed m c c'" "meta_of c' m = meta_of c m"
proof -
  note d = client_invD [OF i]
  note w = find_waiting [OF e d(1)]
  obtain "find (has_seq (cl_store c) sid) (waiting c) = Some m" using w(1) m by (auto split: option.splits)
  note w = w [unfolded this, simplified] and mem = find_split [OF this]
  have "\<And>x. meta_of c' x = meta_of c x" using same_messages_meta [OF w(3)] by (simp add: meta_of_def)
  then show "removed m c c'" "meta_of c' m = meta_of c m"
    using w(2) mem same_messages_None [OF w(3)] d(4) find_fields [OF e] by (auto simp: removed_def)
qed

lemma reply_done_tri:
  assumes e: "reply_done m data len c = Some c'" and t: "tri {} (Promise s False) True c0 (left m c0 c) c"
  shows "ok (Promise s False) c0 c'"
proof -
  let ?c = "watch data True (stats_up (\<lambda>st. stats_pub_recv_up st len) c)"
  have f: "frame c ?c" by (rule frame_trans [OF stats_up_frame watch_frame])
  obtain r where d: "tr50_message_delete m ?c = Some (r, c')" using e by (auto simp: reply_done_def)
  have "tri {} (Promise s False) (left m c0 c) c (m \<notin> set (waiting ?c)) ?c"
    by (rule frame_tri [OF f]) (use frame_views(1) [OF f] in \<open>simp add: left_def gone_def\<close>)
  from tri_trans [OF tri_trans [OF t this] delete_tri [OF d]] show ?thesis by simp
qed

text \<open>The call of an object request's callback, with the clock read before and after it.\<close>

lemma object_call_tri:
  assumes r: "client_inv c \<Longrightarrow> removed m c c1" and p: "plain c c1"
    and e: "run_call E m call (snd (time_now E c1)) = Some c3"
    and mb: "client_inv c \<Longrightarrow> mailbox_call call \<Longrightarrow> mailbox_request c m"
  shows "tri {} (Promise s False) True c (left m c (snd (time_now E c3))) (snd (time_now E c3))"
proof -
  have f: "frame x (snd (time_now E x))" for x :: "('a, 'b) tr50" by (rule time_now_frame) (rule surjective_pairing)
  have "tri {} (Promise s False) (left m c c3) c3 (left m c (snd (time_now E c3))) (snd (time_now E c3))"
    by (rule frame_tri [OF f]) (simp add: left_def gone_def frame_views [OF f])
  from tri_trans [OF removal_call [OF r p f e mb] this] show ?thesis by simp
qed

text \<open>The reply to an object request.\<close>

lemma object_reply_ok:
  assumes R: "client_inv c \<Longrightarrow> removed m c c1" and p: "plain c c1" and me: "client_inv c \<Longrightarrow> meta_of c m = Some (meta rq)"
    and obj: "message_type rq = TR50_MESSAGE_TYPE_OBJ"
    and e: "(if \<not> is_reply reply then Some (emit (CeDropped m) c1)
             else do {
               c \<leftarrow> (case reply_callback rq of
                        None \<Rightarrow> Some c1
                      | Some cb \<Rightarrow> do {
                          let (_, c) = time_now E c1;
                          c \<leftarrow> run_call E m (ReplyCall cb 0 m (Some (reply\<lparr>seq_id := sid\<rparr>)) (callback_custom rq)) c;
                          let (_, c) = time_now E c;
                          Some c });
               reply_done m data len c }) = Some c'"
  shows "ok (Promise s False) c c'"
proof (cases "is_reply reply")
  case False
  then have "c' = emit (CeDropped m) c1" using e by simp
  then show ?thesis using tri_conseq [OF removal_event [OF R p]] by auto
next
  case True
  show ?thesis
  proof (cases "reply_callback rq")
    case None
    have "tri {} (Promise s False) True c (left m c c1) c1"
      by (rule removal_silent [OF R p]) (use me None obj in \<open>auto simp: has_callback_def meta_def\<close>)
    then show ?thesis using e True None by (intro reply_done_tri) auto
  next
    case (Some cb)
    let ?call = "ReplyCall cb 0 m (Some (reply\<lparr>seq_id := sid\<rparr>)) (callback_custom rq)"
    obtain c3 where c3: "run_call E m ?call (snd (time_now E c1)) = Some c3" "reply_done m data len (snd (time_now E c3)) = Some c'"
      using e True Some by (auto simp: bind_eq_Some_conv Let_def case_prod_unfold)
    show ?thesis
      by (rule reply_done_tri [OF c3(2) object_call_tri [OF R p c3(1)]])
        (use me Some obj in \<open>auto simp: mailbox_call_def mailbox_request_def meta_def\<close>)
  qed
qed

lemma publish_handle_publish_ok:
  assumes e: "publish_handle_publish E data len sid c = Some c'"
  shows "ok (Promise s False) c c'"
proof -
  obtain m c1 where fr: "client_find_and_remove sid c = Some (m, c1)"
    using e by (auto simp: publish_handle_publish_def bind_eq_Some_conv)
  show ?thesis
  proof (cases "m = 0")
    case True
    then have "c' = c" using e fr find_zero [of sid c c1] by (simp add: publish_handle_publish_def)
    then show ?thesis by (simp add: ok_refl)
  next
    case False
    obtain rq where rq: "cl_store c1 m = Some rq"
      using e fr False by (auto simp: publish_handle_publish_def bind_eq_Some_conv)
    have R: "client_inv c \<Longrightarrow> removed m c c1" using find_removed(1) [OF fr False] by blast
    have me: "client_inv c \<Longrightarrow> meta_of c m = Some (meta rq)"
      using find_removed(2) [OF fr False] rq by (simp add: meta_of_def)
    note p = find_plain [OF fr]
    let ?world = "\<lambda>w. c1\<lparr>cl_world := w\<rparr>"
    have W: "client_inv c \<Longrightarrow> removed m c (?world w)" "plain c (?world w)" for w
      using removed_same [OF R frame_same_fields [OF fields_frame(1)]] plain_trans [OF p frame_plain [OF fields_frame(1)]]
      by blast+
    consider (raw) "message_type rq = TR50_MESSAGE_TYPE_RAW" | (obj) "message_type rq = TR50_MESSAGE_TYPE_OBJ"
      | (other) "message_type rq \<noteq> TR50_MESSAGE_TYPE_RAW" "message_type rq \<noteq> TR50_MESSAGE_TYPE_OBJ" by blast
    then show ?thesis
    proof cases
      case raw
      show ?thesis
      proof (cases "raw_callback rq")
        case None
        have "tri {} (Promise s False) True c (left m c c1) c1"
          by (rule removal_silent [OF R p]) (use me None raw in \<open>auto simp: has_callback_def meta_def TR50_MESSAGE_TYPE_RAW_def TR50_MESSAGE_TYPE_OBJ_def\<close>)
        then show ?thesis
          using e fr False rq raw None by (intro reply_done_tri) (auto simp: publish_handle_publish_def)
      next
        case (Some cb)
        let ?call = "RawCall cb 0 (Some data) (callback_custom rq)"
        obtain c3 where c3: "run_call E m ?call c1 = Some c3" "reply_done m data len c3 = Some c'"
          using e fr False rq raw Some by (auto simp: publish_handle_publish_def bind_eq_Some_conv)
        show ?thesis
          by (rule reply_done_tri [OF c3(2) removal_call [OF R p frame_refl c3(1)]]) (auto simp: mailbox_call_def)
      qed
    next
      case obj
      have t: "message_type rq \<noteq> TR50_MESSAGE_TYPE_RAW" using obj by (simp add: TR50_MESSAGE_TYPE_RAW_def TR50_MESSAGE_TYPE_OBJ_def)
      obtain ml w where w: "p_malloc (en_platform E) (cl_world c1) = (ml, w)" by fastforce
      obtain r where r: "tr50_message_from_string (en_doubles E) ml data = Some r"
        using e fr False rq obj t w by (auto simp: publish_handle_publish_def bind_eq_Some_conv)
      show ?thesis
      proof (cases r)
        case (Inl err)
        then have "c' = watch data True (emit (CeDropped m) c1)"
          using e fr False rq obj t w r by (simp add: publish_handle_publish_def)
        with tri_conseq [OF tri_trans [OF removal_event [OF R p] frame_tri [OF watch_frame]]] show ?thesis by auto
      next
        case (Inr reply)
        show ?thesis
          by (rule object_reply_ok [OF W [of w] me obj, where reply = reply and E = E and sid = sid and data = data and len = len])
            (use e fr False rq obj t w r Inr in \<open>simp_all add: publish_handle_publish_def Let_def cong: if_cong\<close>)
      qed
    next
      case other
      have "tri {} (Promise s False) True c (left m c c1) c1"
        by (rule removal_silent [OF R p]) (use me other in \<open>auto simp: has_callback_def meta_def\<close>)
      then show ?thesis
        using e fr False rq other by (intro reply_done_tri) (auto simp: publish_handle_publish_def)
    qed
  qed
qed

end
