(* ===== verification/Tr50_Client_Threads.thy ===== *)
theory Tr50_Client_Threads
  imports Tr50_Client_Replies
begin

section \<open>The threads of the library\<close>

text \<open>
  A step of the MQTT client's handler thread, with the replies it dispatches, and a round of the expiration
  handler: what they do to the waiting requests.
\<close>

subsection \<open>The handler thread\<close>

lemma publish_handler_ok:
  assumes e: "publish_handler E topic data len c = Some c'"
  shows "ok (Promise s False) c c'"
proof -
  obtain c1 where f: "frame c c1" and c1:
    "c' = c1 \<or> (\<exists>d n sid. publish_handle_publish E d n sid c1 = Some c') \<or> (\<exists>r. tr50_mailbox_check E c1 = Some (r, c'))"
  proof -
    obtain tp d where td: "topic = Some tp" "data = Some d" using e by (auto simp: publish_handler_def bind_eq_Some_conv)
    define t where "t = takeWhile (\<lambda>b. b \<noteq> 0) tp"
    define c0 where "c0 = (if cl_non_api_callback c \<noteq> None then emit (CeNonApi t d len) c else c)"
    have f0: "frame c c0" by (simp add: c0_def)
    have e0: "(if take 7 t = topic_compress_reply then
       (case en_inflate E d of
          Inl ret \<Rightarrow> Some c0
        | Inr out \<Rightarrow> do {
            let c = stats_up (\<lambda>st. stats_set_compress_ratio st (int (length out)) len) c0;
            sid \<leftarrow> c_atoi (drop 7 t);
            publish_handle_publish E (takeWhile (\<lambda>b. b \<noteq> 0) out) (int (length out)) sid c })
     else if take 6 t = topic_reply then do {
       sid \<leftarrow> c_atoi (drop 6 t);
       publish_handle_publish E (takeWhile (\<lambda>b. b \<noteq> 0) d) len sid c0 }
     else if t = cstr ''notify/mailbox_activity'' then
       map_option snd (tr50_mailbox_check E (stats_up stats_notify_up c0))
     else Some c0) = Some c'"
      using e unfolding publish_handler_def td Let_def t_def c0_def by simp
    have fs: "frame c (stats_up g c0)" for g by (rule frame_trans [OF f0 stats_up_frame])
    show ?thesis
      using e0 f0 fs that by (auto simp: bind_eq_Some_conv Let_def split: if_splits sum.splits) blast+
  qed
  have "ok (Promise s False) c1 c'"
    using c1 publish_handle_publish_ok mailbox_check_ok ok_refl by blast
  then show ?thesis by (rule ok_trans [OF frame_ok [OF f]])
qed

lemma handle_events_ok: "handle_events E evs c = Some c' \<Longrightarrow> ok (Promise s False) c c'"
proof (induction E evs c rule: handle_events.induct)
  case (2 E prev cur err why evs c)
  then show ?case using ok_trans [OF frame_ok [OF state_change_frame]] by auto
next
  case (3 E topic data len evs c)
  then show ?case using ok_trans [OF publish_handler_ok] by (auto simp: bind_eq_Some_conv)
next
  case (4 E call evs c)
  have "ok (Promise s False) c (emit (CeQos call) c)" by (rule emit_ok) simp
  then show ?case using ok_trans 4 by auto
qed (simp add: ok_refl)

lemma client_handler_step_ok:
  assumes e: "client_handler_step E answer thr c = Some (thr', c')"
  shows "ok (Promise s False) c c'"
proof -
  obtain mq w evs where "handle_events E evs (c\<lparr>cl_mqtt := Some mq, cl_world := w\<rparr>) = Some c'"
    using e by (auto simp: client_handler_step_def bind_eq_Some_conv Let_def split: option.splits)
  from ok_trans [OF frame_ok [OF fields_frame(3)] handle_events_ok [OF this]] show ?thesis .
qed

subsection \<open>The expiration handler\<close>

lemma next_waiting:
  assumes i: "client_inv c" and m: "m \<in> set (waiting c)" "cl_store c m = Some msg"
  shows "pending_next msg = 0 \<or> (pending_next msg \<in> set (waiting c) \<and> pending_next msg \<noteq> m)"
proof -
  obtain xs ys where w: "waiting c = xs @ m # ys" using split_list [OF m(1)] by blast
  have d: "dll (cl_store c) 0 (xs @ m # ys) 0" "distinct (xs @ m # ys)"
    using client_invD(1) [OF i] by (simp_all add: pending_list_def w)
  have "pending_next msg = first ys 0" using dll_mid [OF d(1) m(2)] by simp
  then show ?thesis using d(2) by (cases ys) (auto simp: w)
qed

lemma listed_tri:
  assumes l: "client_inv c \<Longrightarrow> Q \<Longrightarrow> listed [] c c1"
    and f: "cl_events c1 = cl_events c" "cl_next c1 = cl_next c"
      "cl_mailbox_send_in_progress c1 = cl_mailbox_send_in_progress c"
    and p: "client_inv c \<Longrightarrow> Q \<Longrightarrow> waiting c1 = waiting c \<Longrightarrow> P"
  shows "tri A b Q c P c1"
proof -
  have "P \<and> client_inv c1 \<and> good A b c [] c1" if i: "client_inv c" and q: Q
  proof -
    have l1: "pending_list (cl_pending c1, cl_store c1) (waiting c)" "\<And>x. meta_of c1 x = meta_of c x"
      "\<And>x. cl_store c1 x = None \<longleftrightarrow> cl_store c x = None"
      using l [OF i q] by (simp_all add: listed_def)
    have w: "waiting c1 = waiting c" by (rule waiting_eq [OF l1(1)])
    have v: "numbers c1 = numbers c" "mailbox_stuck c1 = mailbox_stuck c"
      using f(3) by (simp_all add: numbers_def number_of_def [abs_def] mailbox_stuck_def mailbox_request_def w l1(2))
    have "client_inv c1" using i l1(1,3) w v(1) f(2) by (simp add: client_inv_def)
    then show ?thesis using p [OF i q w] v w l1(2) by (simp add: good_def settled_def)
  qed
  then show ?thesis using f by (simp add: tri_def later_def trace_def)
qed

lemma reschedule_listed:
  assumes i: "client_inv c" and m: "cl_store c m = Some msg"
  shows "listed [] c (c\<lparr>cl_store := (cl_store c)(m \<mapsto> reschedule now msg)\<rparr>)"
  using client_invD(1) [OF i] m dll_fields [of "cl_store c" m msg "reschedule now msg" 0 "waiting c" 0]
  by (simp add: listed_def pending_list_def reschedule_def meta_of_def meta_def)

definition expire_remove :: "nat \<Rightarrow> ('w, 'd) tr50 \<Rightarrow> ('w, 'd) tr50 option" where
  "expire_remove m c =
     (case pending_linklist_remove m ((cl_pending c)\<lparr>pd_expired := pd_expired (cl_pending c) + 1\<rparr>, cl_store c) of
        None \<Rightarrow> None
      | Some (pd, h) \<Rightarrow> Some (c\<lparr>cl_pending := pd, cl_store := h(m := None)\<rparr>))"

lemma expire_remove_removed:
  assumes e: "expire_remove m c = Some c1" and i: "client_inv c" and m: "m \<in> set (waiting c)"
  shows "removed m c c1"
proof -
  let ?pd = "(cl_pending c)\<lparr>pd_expired := pd_expired (cl_pending c) + 1\<rparr>"
  obtain xs ys where w: "waiting c = xs @ m # ys" using split_list [OF m] by blast
  have l: "pending_list (?pd, cl_store c) (xs @ m # ys)" using client_invD(1) [OF i] by (simp add: pending_list_def w)
  then have nm: "m \<notin> set xs" "m \<notin> set ys" by (simp_all add: pending_list_def)
  obtain pd h where r: "pending_linklist_remove m (?pd, cl_store c) = Some (pd, h)" "pending_list (pd, h) (xs @ ys)"
    "same_messages (cl_store c) h"
    using remove_list [OF l] by blast
  have c1: "c1 = c\<lparr>cl_pending := pd, cl_store := h(m := None)\<rparr>" using e r(1) by (simp add: expire_remove_def)
  have "pending_list (pd, h(m := None)) (xs @ ys)" by (rule pending_list_other [OF r(2)]) (use nm in auto)
  moreover have "remove1 m (waiting c) = xs @ ys" using nm by (simp add: w remove1_append)
  ultimately show ?thesis
    using m same_messages_meta [OF r(3)] same_messages_None [OF r(3)] client_invD(4) [OF i]
    by (simp add: removed_def c1 meta_of_def)
qed

text \<open>One message of the loop: it stays as it is, or rescheduled, or it is removed and called.\<close>

lemma expire_step_cases:
  assumes e: "expire_one now m msg (cl_pending c, cl_store c) = Some ((pd, h), calls)"
  obtains (keep) "c\<lparr>cl_pending := pd, cl_store := h\<rparr> = c" "calls = []"
    | (shift) "c\<lparr>cl_pending := pd, cl_store := h\<rparr> = c\<lparr>cl_store := (cl_store c)(m \<mapsto> reschedule now msg)\<rparr>" "calls = []"
    | (expire) "expire_remove m c = Some (c\<lparr>cl_pending := pd, cl_store := h\<rparr>)" "calls = timeout_call m msg"
proof (cases "pending_expiration_timestamp msg \<le> now \<and>
    \<not> pending_expiration_timestamp msg - now > TR50_PENDING_TIME_SHIFT_ALLOW")
  case True
  then show ?thesis
    using e expire by (auto simp: expire_one_def expire_remove_def Let_def split: option.splits prod.splits)
next
  case False
  then have "(pd, h) = (cl_pending c, cl_store c) \<or> (pd, h) = (cl_pending c, (cl_store c)(m \<mapsto> reschedule now msg))" "calls = []"
    using e by (auto simp: expire_one_def Let_def split: if_splits)
  then show ?thesis using keep shift by fastforce
qed

lemma expire_remove_plain: "expire_remove m c = Some c1 \<Longrightarrow> plain c c1"
  by (auto simp: expire_remove_def plain_def exI [of _ "[]"] split: option.splits prod.splits)

lemma timeout_call_cases:
  obtains "timeout_call m msg = []" "meta_callback (meta msg) = None"
    | call where "timeout_call m msg = [call]" "mailbox_call call \<Longrightarrow> mailbox_meta (meta msg)"
  by (cases "timeout_call m msg")
    (auto simp: timeout_call_def meta_def mailbox_call_def split: if_splits)

text \<open>With a weaker aim than the step's promise when the message is not on the list, which does not happen.\<close>

lemma tri_when: "later c c' \<Longrightarrow> (Q \<Longrightarrow> tri A b True c P c') \<Longrightarrow> tri A b Q c P c'"
  unfolding tri_def by blast

lemma run_call_later:
  assumes "run_call E m call c = Some c'"
  shows "later c c'"
proof -
  have "later c (emit (CeReply m call) c)" by (simp add: later_def emit_def)
  then show ?thesis by (rule later_trans) (rule tri_later [OF run_call_cases(1) [OF assms]])
qed

lemma run_calls_later: "run_calls E m calls c = Some c' \<Longrightarrow> later c c'"
  by (induction calls arbitrary: c) (auto simp: bind_eq_Some_conv intro: later_trans run_call_later)

lemma expire_step_tri:
  assumes m: "cl_store c m = Some msg"
    and x: "expire_one now m msg (cl_pending c, cl_store c) = Some ((pd, h), calls)"
    and r: "run_calls E m calls (c\<lparr>cl_pending := pd, cl_store := h\<rparr>) = Some c2"
  shows "tri {} (Promise s False) (m \<in> set (waiting c)) c (pending_next msg = 0 \<or> pending_next msg \<in> set (waiting c2)) c2"
  using x
proof (cases rule: expire_step_cases)
  case keep
  then have "c2 = c" using r by simp
  then show ?thesis using next_waiting [OF _ _ m] client_invD(1) [of c] by (intro listed_tri) (auto simp: listed_def)
next
  case shift
  then have "c2 = c\<lparr>cl_store := (cl_store c)(m \<mapsto> reschedule now msg)\<rparr>" using r by simp
  then show ?thesis using next_waiting [OF _ _ m] reschedule_listed [OF _ m] by (intro listed_tri) auto
next
  case expire
  let ?c = "c\<lparr>cl_pending := pd, cl_store := h\<rparr>"
  note p = expire_remove_plain [OF expire(1)]
  have me: "meta_of c m = Some (meta msg)" using m by (simp add: meta_of_def)
  have l: "later c c2" by (rule later_trans [OF plain_later [OF p] run_calls_later [OF r]])
  show ?thesis
  proof (rule tri_when [OF l])
    assume w: "m \<in> set (waiting c)"
    have R: "client_inv c \<Longrightarrow> removed m c ?c" using expire_remove_removed [OF expire(1) _ w] by blast
    have "tri {} (Promise s False) True c (left m c c2) c2"
    proof (cases rule: timeout_call_cases [of m msg])
      case 1
      then have "c2 = ?c" using r expire(2) by simp
      then show ?thesis using removal_silent [OF R p] 1(2) me by (simp add: has_callback_def)
    next
      case (2 call)
      then have rc: "run_call E m call ?c = Some c2" using r expire(2) by (auto simp: bind_eq_Some_conv)
      show ?thesis
        by (rule removal_call [OF R p frame_refl rc]) (use 2(2) me in \<open>auto simp: mailbox_request_def\<close>)
    qed
    then show "tri {} (Promise s False) True c (pending_next msg = 0 \<or> pending_next msg \<in> set (waiting c2)) c2"
      using next_waiting [OF _ w m] unfolding tri_def left_def by blast
  qed
qed

lemma client_expire_loop_tri:
  assumes e: "client_expire_loop E now ptr c = Some c'"
  shows "tri {} (Promise s False) (ptr = 0 \<or> ptr \<in> set (waiting c)) c True c'"
proof (rule client_expire_loop.raw_induct [where
      P = "\<lambda>E now ptr c c'. tri {} (Promise s False) (ptr = 0 \<or> ptr \<in> set (waiting c)) c True c'", OF _ e], goal_cases)
  case (1 loop E now ptr c c')
  show ?case
  proof (cases "ptr = 0")
    case True
    then show ?thesis using 1(2) ok_refl by simp
  next
    case False
    obtain msg pd h calls c2 where s: "cl_store c ptr = Some msg"
      "expire_one now ptr msg (cl_pending c, cl_store c) = Some ((pd, h), calls)"
      "run_calls E ptr calls (c\<lparr>cl_pending := pd, cl_store := h\<rparr>) = Some c2" "loop E now (pending_next msg) c2 = Some c'"
      using 1(2) False by (auto split: option.splits)
    from tri_trans [OF expire_step_tri [OF s(1-3)] 1(1) [OF s(4)]] False show ?thesis by simp
  qed
qed

lemma client_expiration_round_ok:
  assumes e: "client_expiration_round E c = Some c'"
  shows "ok (Promise s False) c c'"
proof -
  obtain now c1 where t: "time_now E c = (now, c1)" by fastforce
  note f = time_now_frame [OF t]
  have l: "client_expire_loop E now (pd_head (cl_pending c1)) c1 = Some c'"
    using e t by (simp add: client_expiration_round_def)
  have h: "pd_head (cl_pending c1) = 0 \<or> pd_head (cl_pending c1) \<in> set (waiting c1)" if "client_inv c1"
    using client_invD(1) [OF that] by (cases "waiting c1") (auto simp: pending_list_def)
  have "ok (Promise s False) c1 c'"
    using client_expire_loop_tri [OF l, of s] h unfolding tri_def by blast
  then show ?thesis by (rule ok_trans [OF frame_ok [OF f]])
qed

end
