(* ===== verification/Tr50_Client_Run.thy ===== *)
theory Tr50_Client_Run
  imports Tr50_Client_Threads
begin

section \<open>Runs of a client\<close>

text \<open>
  A run interleaves the calls of the application's threads with the steps of the handler thread and the
  rounds of the expiration handler, in any order.  A call that the code makes under the client's mutex is one
  step; so is making a message, filling it and sending it, which touches nothing that another thread sees
  before the message is listed.
\<close>

subsection \<open>The application's use of a call\<close>

text \<open>A message is made, given its parameters, and sent; when that fails the application, which still owns it,
  deletes it.  The results are the return code and the address of the message.\<close>

definition app_call ::
  "('w, 'd) env \<Rightarrow> 'd json \<Rightarrow> nat option \<Rightarrow> nat \<Rightarrow> int \<Rightarrow> ('w, 'd) tr50 \<Rightarrow> (int \<times> nat \<times> ('w, 'd) tr50) option" where
  "app_call E json cb cust timeout c =
     (case client_message_create E c of
        (Inl ret, c) \<Rightarrow> Some (ret, 0, c)
      | (Inr m, c) \<Rightarrow> do {
          c \<leftarrow> update_message m (\<lambda>msg. msg\<lparr>msg_json := json\<rparr>) c;
          (ret, c) \<leftarrow> tr50_api_call_async E m cb cust timeout c;
          if ret \<noteq> 0 then do { (_, c) \<leftarrow> tr50_message_delete m c; Some (ret, m, c) } else Some (0, m, c) })"

lemma app_call_ok:
  assumes e: "app_call E json cb cust timeout c = Some (ret, m, c')" and cb: "keeps_stuck b \<Longrightarrow> cb \<noteq> Some MAILBOX_CALLBACK"
  shows "ok b c c'"
proof (cases "client_message_create E c")
  case (Pair r c1)
  show ?thesis
  proof (cases r)
    case (Inl err)
    then show ?thesis using e Pair create_ok [of E c r c1] by (simp add: app_call_def)
  next
    case (Inr a)
    note k = Pair [unfolded Inr]
    obtain c2 r3 c3 where s: "update_message a (\<lambda>msg. msg\<lparr>msg_json := json\<rparr>) c1 = Some c2"
      "tr50_api_call_async E a cb cust timeout c2 = Some (r3, c3)"
      "(if r3 \<noteq> 0 then do { (_, c) \<leftarrow> tr50_message_delete a c3; Some (r3, a, c) } else Some (0, a, c3)) = Some (ret, m, c')"
      using e k unfolding app_call_def by (auto simp: bind_eq_Some_conv simp del: if_split_asm)
    have t: "tri {} b True c (r3 \<noteq> 0 \<longrightarrow> a \<notin> set (waiting c3)) c3"
    proof (rule tri_create [OF create_fresh [OF k]])
      have "tri {a} b (fresh a c1) c1 (fresh a c2) c2" by (rule update_tri [OF s(1)]) simp_all
      from tri_trans [OF this api_call_async_tri [OF s(2) cb]]
      show "tri {a} b (fresh a c1) c1 (r3 \<noteq> 0 \<longrightarrow> a \<notin> set (waiting c3)) c3" by (simp add: fresh_def)
      show "cl_next c \<le> a" using create_new(1) [OF k] by simp
    qed
    show ?thesis
    proof (cases "r3 = 0")
      case True
      then show ?thesis using s(3) tri_conseq [OF t] by auto
    next
      case False
      then obtain x where d: "tr50_message_delete a c3 = Some (x, c')" using s(3) by (auto simp: bind_eq_Some_conv)
      have "tri {} b True c (a \<notin> set (waiting c3)) c3" using tri_conseq [OF t] False by simp
      from tri_trans [OF this delete_tri [OF d]] show ?thesis by simp
    qed
  qed
qed

subsection \<open>Starting and stopping\<close>

lemma start_client_frame: "frame c (start_client cf params c)"
  by (simp add: frame_def start_client_def exI [of _ "[]"])

lemma start2_ok:
  assumes e: "tr50_start2 E mux thread c = Some (ret, err, c')"
  shows "ok b c c'"
proof (cases "cl_state c = TR50_STATE_STARTED")
  case True
  then show ?thesis using e by (simp add: tr50_start2_def ok_refl)
next
  case False
  obtain params mq w evs k where c':
    "c' = (let c = handle_states E evs ((start_client (cl_config c) params c)\<lparr>cl_mqtt := mq, cl_world := w\<rparr>)
           in if k then c\<lparr>cl_state := TR50_STATE_STOPPED\<rparr> else c)"
    using e False by (auto simp: tr50_start2_def bind_eq_Some_conv Let_def)
  have f: "frame c (handle_states E evs ((start_client (cl_config c) params c)\<lparr>cl_mqtt := mq, cl_world := w\<rparr>))"
    by (rule frame_trans [OF start_client_frame frame_trans [OF fields_frame(3) handle_states_frame]])
  then have "frame c c'" using frame_trans [OF f fields_frame(7)] by (simp add: c' Let_def)
  then show ?thesis by (rule frame_ok)
qed

lemma stop_begin_ok:
  assumes e: "tr50_stop_begin E c = Some (ret, totals, c')"
  shows "ok b c c'"
proof -
  have s: "frame c (c\<lparr>cl_is_stopping := True, cl_mqtt := x\<rparr>)" for x by (simp add: frame_def exI [of _ "[]"])
  have "c' = c \<or> (\<exists>evs mq. c' = handle_states E evs (c\<lparr>cl_is_stopping := True, cl_mqtt := Some mq\<rparr>))"
    using e by (auto simp: tr50_stop_begin_def Let_def split: if_splits option.splits prod.splits)
  then have "frame c c'" using frame_trans [OF s handle_states_frame] by auto
  then show ?thesis by (rule frame_ok)
qed

lemma stop_end_ok:
  assumes e: "tr50_stop_end E totals c = Some c'"
  shows "ok b c c'"
proof -
  have s: "frame x (x\<lparr>cl_connect_params := None, cl_mqtt := None, cl_state := TR50_STATE_STOPPED, cl_is_stopping := False\<rparr>)"
    for x :: "('a, 'b) tr50" by (simp add: frame_def exI [of _ "[]"])
  obtain w evs f where c': "c' = stats_up f ((handle_states E evs (c\<lparr>cl_world := w\<rparr>))\<lparr>cl_connect_params := None,
      cl_mqtt := None, cl_state := TR50_STATE_STOPPED, cl_is_stopping := False\<rparr>)"
    using e by (auto simp: tr50_stop_end_def bind_eq_Some_conv Let_def)
  have "frame c c'" unfolding c'
    by (rule frame_trans [OF frame_trans [OF fields_frame(1) handle_states_frame] frame_trans [OF s stats_up_frame]])
  then show ?thesis by (rule frame_ok)
qed

subsection \<open>Steps and runs\<close>

text \<open>The application's callbacks are not the mailbox's.  A raw call that compresses relies on the codec: when it
  fails the code deletes a message that is still listed (\<open>raw_deflate_failure_dangles\<close> below).  The
  configuration may change in any way between the calls, and the world may move on.\<close>

inductive client_step :: "('w, 'd) env \<Rightarrow> ('w, 'd) tr50 \<Rightarrow> ('w, 'd) tr50 \<Rightarrow> bool" for E where
  step_call: "app_call E json cb cust timeout c = Some (ret, m, c') \<Longrightarrow> cb \<noteq> Some MAILBOX_CALLBACK \<Longrightarrow> client_step E c c'"
| step_raw: "tr50_api_raw_async E req cb cust timeout c = Some (ret, c') \<Longrightarrow>
    cl_compress c \<noteq> 0 \<longrightarrow> codec_works E \<Longrightarrow> client_step E c c'"
| step_msg_id: "tr50_api_msg_id_next c = (sid, c') \<Longrightarrow> client_step E c c'"
| step_subscribe: "tr50_mqtt_subscribe E topic qs qcb cust c = Some (ret, c') \<Longrightarrow> client_step E c c'"
| step_unsubscribe: "tr50_mqtt_unsubscribe E topic qcb cust c = Some (ret, c') \<Longrightarrow> client_step E c c'"
| step_publish: "tr50_mqtt_publish_base E topic data len retain qs qcb cust c = Some (ret, c') \<Longrightarrow> client_step E c c'"
| step_command: "tr50_command_register cmd func E c = Some (ret, c') \<Longrightarrow> client_step E c c'"
| step_method: "tr50_method_register cmd func E c = Some (ret, c') \<Longrightarrow> client_step E c c'"
| step_command_ack: "tr50_command_ack E i st err ack c = Some (ret, c') \<Longrightarrow> client_step E c c'"
| step_method_ack: "tr50_method_ack E i st err ack c = Some (ret, c') \<Longrightarrow> client_step E c c'"
| step_command_update: "tr50_command_update E i text c = Some (ret, c') \<Longrightarrow> client_step E c c'"
| step_method_update: "tr50_method_update E i text c = Some (ret, c') \<Longrightarrow> client_step E c c'"
| step_check: "tr50_mailbox_check E c = Some (ret, c') \<Longrightarrow> client_step E c c'"
| step_suspend: "tr50_mailbox_suspend c = (ret, c') \<Longrightarrow> client_step E c c'"
| step_resume: "tr50_mailbox_resume E now c = Some (ret, c') \<Longrightarrow> client_step E c c'"
| step_start: "tr50_start2 E mux thread c = Some (ret, err, c') \<Longrightarrow> client_step E c c'"
| step_stop_begin: "tr50_stop_begin E c = Some (ret, totals, c') \<Longrightarrow> client_step E c c'"
| step_stop_end: "tr50_stop_end E totals c = Some c' \<Longrightarrow> client_step E c c'"
| step_handler: "client_handler_step E answer thr c = Some (thr', c') \<Longrightarrow> client_step E c c'"
| step_expiration: "client_expiration_round E c = Some c' \<Longrightarrow> client_step E c c'"
| step_config: "client_step E c (c\<lparr>cl_config := cf\<rparr>)"
| step_world: "client_step E c (c\<lparr>cl_world := w\<rparr>)"

inductive client_run :: "('w, 'd) env \<Rightarrow> ('w, 'd) tr50 \<Rightarrow> ('w, 'd) tr50 \<Rightarrow> bool" for E where
  run_refl: "client_run E c c"
| run_step: "client_run E c c1 \<Longrightarrow> client_step (E\<lparr>en_tid := t\<rparr>) c1 c2 \<Longrightarrow> client_run E c c2"

lemma mqtt_frame:
  "tr50_mqtt_subscribe E topic qs qcb cust c = Some (ret, c') \<Longrightarrow> frame c c'"
  "tr50_mqtt_unsubscribe E topic qcb cust c = Some (ret, c') \<Longrightarrow> frame c c'"
  "tr50_mqtt_publish_base E topic data len retain qs qcb cust c = Some (ret, c') \<Longrightarrow> frame c c'"
  by (auto simp: tr50_mqtt_subscribe_def tr50_mqtt_unsubscribe_def tr50_mqtt_publish_base_def checked_def
      split: if_splits dest: lift_request_frame)

lemma register_frame:
  "tr50_command_register cmd func E c = Some (ret, c') \<Longrightarrow> frame c c'"
  "tr50_method_register cmd func E c = Some (ret, c') \<Longrightarrow> frame c c'"
  by (auto simp: tr50_command_register_def tr50_method_register_def frame_def intro: exI [of _ "[]"]
      split: option.splits prod.splits)

lemma resume_ok:
  assumes "tr50_mailbox_resume E now c = Some (ret, c')"
  shows "ok b c c'"
proof -
  have "ok b c (c\<lparr>cl_mailbox_suspend := False\<rparr>)" by (rule frame_ok) simp
  moreover have "c' = c\<lparr>cl_mailbox_suspend := False\<rparr> \<or> (\<exists>r. tr50_mailbox_check E (c\<lparr>cl_mailbox_suspend := False\<rparr>) = Some (r, c'))"
    using assms by (auto simp: tr50_mailbox_resume_def Let_def bind_eq_Some_conv split: if_splits)
  ultimately show ?thesis using ok_trans mailbox_check_ok by blast
qed

lemma small_frames:
  "tr50_api_msg_id_next c = (sid, c') \<Longrightarrow> frame c c'" "tr50_mailbox_suspend c = (ret, c') \<Longrightarrow> frame c c'"
  "frame c (c\<lparr>cl_config := cf\<rparr>)"
  by (auto simp: tr50_api_msg_id_next_def next_seq_id_def tr50_mailbox_suspend_def frame_def Let_def exI [of _ "[]"])

lemma client_step_ok: "client_step E c c' \<Longrightarrow> ok (Promise s False) c c'"
proof (induction rule: client_step.induct)
  case step_call then show ?case by (intro app_call_ok) auto
next
  case step_raw then show ?case by (intro api_raw_async_ok) auto
next
  case step_command_ack then show ?case by (intro ack_ok(1))
next
  case step_method_ack then show ?case by (intro ack_ok(2))
next
  case step_command_update then show ?case by (intro ack_ok(3))
next
  case step_method_update then show ?case by (intro ack_ok(4))
next
  case step_check then show ?case by (rule mailbox_check_ok)
next
  case step_resume then show ?case by (rule resume_ok)
next
  case step_start then show ?case by (rule start2_ok)
next
  case step_stop_begin then show ?case by (rule stop_begin_ok)
next
  case step_stop_end then show ?case by (rule stop_end_ok)
next
  case step_handler then show ?case by (rule client_handler_step_ok)
next
  case step_expiration then show ?case by (rule client_expiration_round_ok)
qed (blast intro: frame_ok mqtt_frame register_frame small_frames fields_frame(1))+

lemma client_run_ok: "client_run E c c' \<Longrightarrow> ok (Promise s False) c c'"
  by (induction rule: client_run.induct) (auto intro: ok_refl ok_trans client_step_ok)

lemma client_run_tri:
  assumes "client_run E c c'" "client_inv c" "distinct (numbers c @ issued (trace c c'))"
  shows "client_inv c'" "settled {} c (trace c c') c'" "mailbox_stuck c \<Longrightarrow> mailbox_stuck c'"
  using client_run_ok [OF assms(1), of True] assms(2,3) by (simp_all add: tri_def good_def)

end
