(* ===== verification/Tr50_Worker_Run.thy ===== *)
theory Tr50_Worker_Run
  imports Tr50_Worker Tr50_Client_Run
begin

section \<open>The thing API on a running client\<close>

text \<open>
  What the thing API does to the requests of its client, and what its synchronous functions answer.  The
  locale \<open>caller\<close> is the interface between the thread that waits and the threads of the library.
\<close>

subsection \<open>The interface of the wait\<close>

text \<open>What the callback of the synchronous call of the request at \<open>m\<close> was first given: status and reply.\<close>

fun answered :: "nat \<Rightarrow> 'd client_event list \<Rightarrow> (int \<times> 'd message option) option" where
  "answered m [] = None"
| "answered m (CeReply m' (ReplyCall cb st req reply cust) # evs) =
     (if m' = m \<and> cb = SYNC_CALLBACK then Some (st, reply) else answered m evs)"
| "answered m (_ # evs) = answered m evs"

lemma answered_append: "answered m (evs @ evs') = (case answered m evs of None \<Rightarrow> answered m evs' | Some a \<Rightarrow> Some a)"
  by (induction m evs rule: answered.induct) auto

lemma answered_fate: "answered m evs = Some a \<Longrightarrow> 0 < fate m evs"
  by (induction m evs rule: answered.induct) (auto split: if_splits)

lemma unanswered: "fate m evs = 0 \<Longrightarrow> answered m evs = None"
  using answered_fate [of m evs] by (cases "answered m evs") auto

text \<open>While the thread waits the client runs, and the wait ends with what the callback stored.\<close>

locale caller =
  fixes E :: "('w, 'd) env" and K :: "('w, 'd) caller"
  assumes wait_run: "ca_wait K m c = Some (sync, c') \<Longrightarrow> client_run E c c'"
    and wait_answer: "ca_wait K m c = Some (sync, c') \<Longrightarrow>
      \<exists>st reply. answered m (trace c c') = Some (st, reply) \<and> sync = api_call_sync_callback st reply sync_new"

subsection \<open>Commands without a wait\<close>

definition command_json :: "'d doubles \<Rightarrow> bytes \<Rightarrow> 'd json \<Rightarrow> 'd json" where
  "command_json F cmd params =
     (let json = tr50_json_add_string_to_object F (tr50_json_create_object F) (Some json_command) (Some cmd);
          json = tr50_json_add_item_to_object json (Some json_params) params
      in tr50_json_add_item_to_object (tr50_json_create_object F) (Some (cstr ''1'')) json)"

lemma command_message_cases:
  assumes "command_message E cmd params c = Some (r, c')"
  obtains (failed) "r = Inl ERR_TR50_MALLOC" "client_message_create E c = (Inl ERR_TR50_MALLOC, c')"
  | (made) m c1 where "r = Inr m" "client_message_create E c = (Inr m, c1)"
      "c' = c1\<lparr>cl_store := (cl_store c1)(m \<mapsto> (message_new (en_doubles E))\<lparr>msg_json := command_json (en_doubles E) cmd params\<rparr>)\<rparr>"
proof (cases "client_message_create E c")
  case (Pair k c1)
  show thesis
  proof (cases k)
    case (Inl err)
    then have "err = ERR_TR50_MALLOC"
      using Pair by (auto simp: client_message_create_def tr50_message_create_def split: prod.splits option.splits)
    then show thesis using failed assms Pair Inl by (simp add: command_message_def)
  next
    case (Inr m)
    note n = create_new(2) [OF Pair [unfolded Inr]]
    have j: "msg_json (message_new (en_doubles E)) = tr50_json_create_object (en_doubles E)"
      by (simp add: message_new_def)
    show thesis
      using made [of m c1] assms Pair Inr n j
      by (simp add: command_message_def tr50_message_add_command_def command_json_def update_message_def Let_def)
  qed
qed

lemma command_message_made:
  assumes "command_message E cmd params c = Some (Inr m, c')"
  shows "m = cl_next c" "cl_next c' = cl_next c + 1" "tri A b True c (fresh m c') c'" "trace c c' = []"
    "cl_seq_id c' = cl_seq_id c"
proof -
  obtain c1 msg where c1: "client_message_create E c = (Inr m, c1)" "c' = c1\<lparr>cl_store := (cl_store c1)(m \<mapsto> msg)\<rparr>"
    "msg = (message_new (en_doubles E))\<lparr>msg_json := command_json (en_doubles E) cmd params\<rparr>"
    by (rule command_message_cases [OF assms]) auto
  note n = create_new [OF c1(1)] and f = create_fields [OF c1(1)]
  show "m = cl_next c" by (rule n(1))
  show "cl_next c' = cl_next c + 1" "cl_seq_id c' = cl_seq_id c"
    using c1(1,2) by (auto simp: client_message_create_def split: prod.splits sum.splits)
  show "trace c c' = []" using f(1) c1(2) by (simp add: trace_def)
  have "update_message m (\<lambda>_. msg) c1 = Some c'" using n(2) c1(2) by (simp add: update_message_def)
  then have "tri {m} b (fresh m c1) c1 (fresh m c') c'"
    by (rule update_tri) (simp_all add: n(2) c1(3) message_new_def)
  then have "tri {} b True c (fresh m c') c'"
    by (rule tri_create [OF create_fresh [OF c1(1)]]) (simp add: n(1))
  then show "tri A b True c (fresh m c') c'" by (rule tri_mono)
qed

lemma command_message_failed: "command_message E cmd params c = Some (Inl err, c') \<Longrightarrow>
    ok b c c' \<and> trace c c' = [] \<and> err \<noteq> 0 \<and> cl_store c' = cl_store c"
proof (elim command_message_cases, goal_cases)
  case 1
  then have "cl_store c' = cl_store c"
    by (auto simp: client_message_create_def split: prod.splits sum.splits)
  then show ?case using 1 create_ok [OF 1(2)] create_fields(1) [OF 1(2)] by (simp add: trace_def ERR_TR50_MALLOC_def)
qed simp

text \<open>A message that was made, sent, and deleted when that failed.\<close>

lemma call_or_delete:
  assumes m: "command_message E cmd params c = Some (Inr m, c1)" and t: "tri {m} b (fresh m c1) c1 (ret \<noteq> 0 \<longrightarrow> m \<notin> set (waiting c2)) c2"
    and d: "if ret \<noteq> 0 then \<exists>x. tr50_message_delete m c2 = Some (x, c') else c' = c2"
  shows "ok b c c'"
proof -
  have t2: "tri {} b True c (ret \<noteq> 0 \<longrightarrow> m \<notin> set (waiting c2)) c2"
    by (rule tri_create [OF command_message_made(3) [OF m] t]) (simp add: command_message_made(1) [OF m])
  show ?thesis
  proof (cases "ret = 0")
    case True
    then show ?thesis using d tri_conseq [OF t2] by auto
  next
    case False
    then obtain x where x: "tr50_message_delete m c2 = Some (x, c')" using d by auto
    have "tri {} b True c (m \<notin> set (waiting c2)) c2" using tri_conseq [OF t2] False by simp
    from tri_trans [OF this delete_tri [OF x]] show ?thesis by simp
  qed
qed

lemma call_command_ok:
  assumes e: "call_command E cmd params cb cust timeout c = Some (ret, c')" and cb: "keeps_stuck b \<Longrightarrow> cb \<noteq> Some MAILBOX_CALLBACK"
  shows "ok b c c'"
proof -
  obtain r c1 where r: "command_message E cmd params c = Some (r, c1)"
    using e by (auto simp: call_command_def bind_eq_Some_conv)
  show ?thesis
  proof (cases r)
    case (Inl err)
    then show ?thesis using e r command_message_failed [of E cmd params c err c1 b] by (simp add: call_command_def)
  next
    case (Inr m)
    obtain ret2 c2 where a: "tr50_api_call_async E m cb cust timeout c1 = Some (ret2, c2)"
      "if ret2 \<noteq> 0 then \<exists>x. tr50_message_delete m c2 = Some (x, c') else c' = c2"
      using e r Inr by (auto simp: call_command_def bind_eq_Some_conv split: if_splits)
    show ?thesis by (rule call_or_delete [OF r [unfolded Inr] api_call_async_tri [OF a(1) cb] a(2)])
  qed
qed

lemma send_json_ok: "send_json E cmd params c = Some (ret, c') \<Longrightarrow> ok b c c'"
  by (cases "take_timeout params") (auto simp: send_json_def intro: call_command_ok)

lemma send_json_async_ok:
  "send_json_async E cmd params cb cust timeout c = Some (ret, c') \<Longrightarrow> (keeps_stuck b \<Longrightarrow> cb \<noteq> Some MAILBOX_CALLBACK) \<Longrightarrow> ok b c c'"
  unfolding send_json_async_def by (rule call_command_ok)

subsection \<open>Synchronous commands\<close>

lemma sync_not_mailbox: "Some SYNC_CALLBACK \<noteq> Some MAILBOX_CALLBACK"
  by (simp add: SYNC_CALLBACK_def MAILBOX_CALLBACK_def)

lemma send_json_sync_cases:
  assumes "send_json_sync E K cmd params we c = Some (res, c')"
  obtains (failed) err ps where "command_message E cmd ps c = Some (Inl err, c')" "res = (err, None, None)"
  | (made) m ps timeout c1 ret reply c2 where "command_message E cmd ps c = Some (Inr m, c1)"
      "tr50_api_call_sync E K m timeout c1 = Some (ret, reply, c2)"
      "if ret \<noteq> 0 then \<exists>x. tr50_message_delete m c2 = Some (x, c') else c' = c2"
      "res = (if ret \<noteq> 0 then (ret, None, None) else read_reply we reply)"
proof -
  obtain timeout ps where t: "take_timeout params = (timeout, ps)" by fastforce
  obtain r c1 where r: "command_message E cmd ps c = Some (r, c1)"
    using assms t by (auto simp: send_json_sync_def bind_eq_Some_conv)
  show thesis
  proof (cases r)
    case (Inl err)
    then show thesis using failed [of ps err] assms t r by (simp add: send_json_sync_def)
  next
    case (Inr m)
    obtain ret reply c2 where "tr50_api_call_sync E K m timeout c1 = Some (ret, reply, c2)"
      "(if ret \<noteq> 0 then do { (_, c) \<leftarrow> tr50_message_delete m c2; Some ((ret, None, None), c) }
        else Some (read_reply we reply, c2)) = Some (res, c')"
      using assms t r Inr by (auto simp: send_json_sync_def bind_eq_Some_conv simp del: if_split_asm)
    then show thesis using made [of ps m c1 timeout ret reply c2] r Inr by (auto simp: bind_eq_Some_conv split: if_splits)
  qed
qed

lemma api_call_sync_cases:
  assumes "tr50_api_call_sync E K m timeout c = Some (ret, reply, c')"
  obtains (event) "ret \<noteq> 0" "c' = c"
  | (refused) "tr50_api_call_async E m (Some SYNC_CALLBACK) (ca_sync K) timeout c = Some (ret, c')" "ret \<noteq> 0"
  | (waited) c1 sync c2 w where "tr50_api_call_async E m (Some SYNC_CALLBACK) (ca_sync K) timeout c = Some (0, c1)" "ret = 0"
      "ca_wait K m c1 = Some (sync, c2)" "c' = c2\<lparr>cl_world := w\<rparr>"
      "reply = (if sync_status sync = 0 then sync_reply sync
        else Some (error_reply (en_doubles E) (sync_status sync) (message_new (en_doubles E))))"
proof (cases "ca_event K = 0")
  case False
  then show thesis using event assms by (simp add: tr50_api_call_sync_def)
next
  case True
  obtain r c1 where r: "tr50_api_call_async E m (Some SYNC_CALLBACK) (ca_sync K) timeout c = Some (r, c1)"
    using assms True by (auto simp: tr50_api_call_sync_def bind_eq_Some_conv)
  show thesis
  proof (cases "r = 0")
    case False
    then show thesis using refused assms True r by (simp add: tr50_api_call_sync_def)
  next
    case ok: True
    then have a: "await_reply E K m c1 = Some (reply, c')" "ret = 0"
      using assms True r by (auto simp: tr50_api_call_sync_def bind_eq_Some_conv)
    obtain sync c2 where w: "ca_wait K m c1 = Some (sync, c2)"
      using a(1) by (auto simp: await_reply_def bind_eq_Some_conv)
    obtain ml w where mw: "(if sync_status sync = 0 then (\<lambda>_. None, cl_world c2) else p_malloc (en_platform E) (cl_world c2)) = (ml, w)"
      by fastforce
    have s: "ca_wait K m c1 = Some (sync, c2)" "api_call_sync_result (en_doubles E) ml sync = Some reply" "c' = c2\<lparr>cl_world := w\<rparr>"
      using a(1) w mw by (auto simp: await_reply_def bind_eq_Some_conv)
    then show thesis
      using waited [of c1 sync c2 w] r ok a(2)
      by (auto simp: api_call_sync_result_def tr50_message_create_def split: if_splits sum.splits option.splits)
  qed
qed

context caller
begin

lemma api_call_sync_tri:
  assumes "tr50_api_call_sync E K m timeout c = Some (ret, reply, c')"
  shows "tri {m} (Promise s False) (fresh m c) c (ret \<noteq> 0 \<longrightarrow> m \<notin> set (waiting c')) c'"
  using assms
proof (cases rule: api_call_sync_cases)
  case event
  then show ?thesis by (intro frame_tri) (simp_all add: fresh_def)
next
  case refused
  then show ?thesis by (intro api_call_async_tri [OF _ sync_not_mailbox])
next
  case (waited c1 sync c2 w)
  have "tri {m} (Promise s False) (fresh m c) c (ret \<noteq> 0 \<longrightarrow> m \<notin> set (waiting c1)) c1"
    using api_call_async_tri [OF waited(1) sync_not_mailbox] waited(2) by simp
  moreover have "ok (Promise s False) c1 c'"
    unfolding waited(4) by (rule ok_trans [OF client_run_ok [OF wait_run [OF waited(3)]] frame_ok [OF fields_frame(1)]])
  ultimately have "tri {m} (Promise s False) (fresh m c) c True c'"
    using tri_trans [OF tri_conseq [where P' = True] tri_mono] by (fastforce simp: fresh_def)
  then show ?thesis by (rule tri_conseq) (simp_all add: waited(2))
qed

lemma send_json_sync_ok:
  assumes "send_json_sync E K cmd params we c = Some (res, c')"
  shows "ok (Promise s False) c c'"
  using assms
proof (cases rule: send_json_sync_cases)
  case (failed err ps)
  then show ?thesis using command_message_failed by blast
next
  case (made m ps timeout c1 ret reply c2)
  show ?thesis by (rule call_or_delete [OF made(1) api_call_sync_tri [OF made(2)] made(3)])
qed

end

end
