(* ===== verification/Tr50_Client_Props.thy ===== *)
theory Tr50_Client_Props
  imports Tr50_Client_Run Mqtt_Async_Run Tr50_Json_Round
begin

section \<open>What a client promises\<close>

text \<open>
  The properties of the client that span its components, and a client on a platform whose peer answers, for
  the witnesses.
\<close>

subsection \<open>A client to try things on\<close>

definition demo_env :: "(bytes, rat) env" where
  "demo_env = \<lparr>en_platform = loop_platform, en_doubles = rat_doubles, en_supported = True,
     en_deflate = (\<lambda>bs. Inr bs), en_inflate = (\<lambda>bs. Inr bs), en_tid = None, en_answer = (\<lambda>_. 0)\<rparr>"

text \<open>Created, started (the peer's CONNACK is in the world) and used for one call.\<close>

definition demo_created :: "(bytes, rat) tr50" where
  "demo_created = (case tr50_create demo_env (Some [0x61]) (Some [0x62]) 1883 [0x20, 2, 0, 0] of Some (Inr c) \<Rightarrow> c)"

definition demo_started :: "(bytes, rat) tr50" where
  "demo_started = (case tr50_start2 demo_env 0 0 demo_created of Some (ret, err, c) \<Rightarrow> c)"

definition demo_called :: "(bytes, rat) tr50" where
  "demo_called = (case app_call demo_env (tr50_json_create_object rat_doubles) (Some 9) 0 30000 demo_started of
     Some (ret, m, c) \<Rightarrow> c)"

lemma demo_create: "tr50_create demo_env (Some [0x61]) (Some [0x62]) 1883 [0x20, 2, 0, 0] = Some (Inr demo_created)"
proof -
  have "case tr50_create demo_env (Some [0x61]) (Some [0x62]) 1883 [0x20, 2, 0, 0] of Some (Inr c) \<Rightarrow> True | _ \<Rightarrow> False"
    by code_simp
  then show ?thesis by (auto simp: demo_created_def split: option.splits sum.splits)
qed

lemma demo_start: "\<exists>ret err. tr50_start2 demo_env 0 0 demo_created = Some (ret, err, demo_started)"
proof -
  have "case tr50_start2 demo_env 0 0 demo_created of Some (ret, err, c) \<Rightarrow> ret = 0 | _ \<Rightarrow> False"
    by code_simp
  then show ?thesis by (auto simp: demo_started_def split: option.splits)
qed

lemma demo_call: "\<exists>ret m. app_call demo_env (tr50_json_create_object rat_doubles) (Some 9) 0 30000 demo_started =
    Some (ret, m, demo_called)"
  "waiting demo_called = [1]" "numbers demo_called = [1]" "issued (cl_events demo_called) = [1]"
proof -
  have "case app_call demo_env (tr50_json_create_object rat_doubles) (Some 9) 0 30000 demo_started of
      Some (ret, m, c) \<Rightarrow> ret = 0 \<and> waiting c = [1] \<and> numbers c = [1] \<and> issued (cl_events c) = [1] | _ \<Rightarrow> False"
    by code_simp
  then show "\<exists>ret m. app_call demo_env (tr50_json_create_object rat_doubles) (Some 9) 0 30000 demo_started = Some (ret, m, demo_called)"
    "waiting demo_called = [1]" "numbers demo_called = [1]" "issued (cl_events demo_called) = [1]"
    by (auto simp: demo_called_def split: option.splits)
qed

text \<open>The reply arrives, with a text that is a reply or with one that is cut off.\<close>

definition demo_publish :: "string \<Rightarrow> bytes" where
  "demo_publish text = (let body = [0, 7] @ cstr ''reply/1'' @ cstr text in 0x30 # of_nat (length body) # body)"

definition demo_reply :: "string \<Rightarrow> (bytes, rat) tr50" where
  "demo_reply text = (case client_handler_step demo_env True (PLoop, 0) (demo_called\<lparr>cl_world := demo_publish text\<rparr>) of
     Some (thr, c) \<Rightarrow> c)"

lemma demo_replied: "\<exists>thr. client_handler_step demo_env True (PLoop, 0)
      (demo_called\<lparr>cl_world := demo_publish ''{\"success\":true}''\<rparr>) = Some (thr, demo_reply ''{\"success\":true}'')"
  "waiting (demo_reply ''{\"success\":true}'') = []" "fate 1 (trace demo_called (demo_reply ''{\"success\":true}'')) = 1"
    "issued (trace demo_called (demo_reply ''{\"success\":true}'')) = []"
proof -
  let ?s = "''{\"success\":true}''"
  have "case client_handler_step demo_env True (PLoop, 0) (demo_called\<lparr>cl_world := demo_publish ?s\<rparr>) of
      Some (thr, c) \<Rightarrow> waiting c = [] \<and> fate 1 (trace demo_called c) = 1 \<and> issued (trace demo_called c) = [] | _ \<Rightarrow> False"
    by code_simp
  then show "\<exists>thr. client_handler_step demo_env True (PLoop, 0)
      (demo_called\<lparr>cl_world := demo_publish ?s\<rparr>) = Some (thr, demo_reply ?s)"
  "waiting (demo_reply ?s) = []" "fate 1 (trace demo_called (demo_reply ?s)) = 1"
    "issued (trace demo_called (demo_reply ?s)) = []"
    by (auto simp: demo_reply_def split: option.splits)
qed

subsection \<open>The requests over a run\<close>

lemma created_inv:
  assumes "tr50_create E cid hst prt w = Some (Inr c)"
  shows "client_inv c" "numbers c = []" "cl_events c = []"
proof -
  have c: "cl_pending c = pending_new" "cl_store c = (\<lambda>_. None)" "cl_next c = 1" and e: "cl_events c = []"
    using assms by (auto simp: tr50_create_def client_new_def bind_eq_Some_conv split: prod.splits option.splits)
  have l: "pending_list (cl_pending c, cl_store c) []" unfolding c by (rule pending_new_list)
  show "client_inv c" by (rule client_invI [OF l]) (simp_all add: c)
  show "numbers c = []" using waiting_eq [OF l] by (simp add: numbers_def)
  show "cl_events c = []" by (rule e)
qed


lemma demo_step:
  assumes "client_run demo_env c c1" "client_step demo_env c1 c2"
  shows "client_run demo_env c c2"
proof -
  have "demo_env\<lparr>en_tid := None\<rparr> = demo_env" by (simp add: demo_env_def)
  then show ?thesis using run_step [OF assms(1), where t = None] assms(2) by simp
qed

lemma demo_called_run: "client_run demo_env demo_created demo_called"
proof -
  obtain ret err where "tr50_start2 demo_env 0 0 demo_created = Some (ret, err, demo_started)" using demo_start by blast
  then have 1: "client_run demo_env demo_created demo_started" by (rule demo_step [OF run_refl step_start])
  obtain ret2 m where "app_call demo_env (tr50_json_create_object rat_doubles) (Some 9) 0 30000 demo_started = Some (ret2, m, demo_called)"
    using demo_call(1) by blast
  then have "client_step demo_env demo_started demo_called" by (rule step_call) (simp add: MAILBOX_CALLBACK_def)
  then show ?thesis by (rule demo_step [OF 1])
qed



lemma demo_reply_run: "client_run demo_env demo_called (demo_reply ''{\"success\":true}'')"
proof -
  let ?c = "demo_called\<lparr>cl_world := demo_publish ''{\"success\":true}''\<rparr>"
  have 1: "client_run demo_env demo_called ?c" by (rule demo_step [OF run_refl step_world])
  obtain thr where "client_handler_step demo_env True (PLoop, 0) ?c = Some (thr, demo_reply ''{\"success\":true}'')"
    using demo_replied(1) by blast
  then show ?thesis by (rule demo_step [OF 1 step_handler])
qed

lemma demo_callback: "has_callback demo_called 1"
  by code_simp


subsection \<open>The contract of a call\<close>

lemma build_payload_result:
  assumes e: "build_payload E msg c = Some (Inr (topic, data), c')"
  obtains raw n where "tr50_message_to_string (en_doubles E) msg = Some (Inr (raw, n))"
    "if cl_compress c \<noteq> 0 \<and> n > TR50_MIN_COMPRESSION_LEN then topic = TR50_TOPIC_COMPRESS_API \<and> en_deflate E raw = Inr data
     else topic = TR50_TOPIC_API \<and> data = raw"
  using e that by (auto simp: build_payload_def Let_def split: option.splits sum.splits if_splits)

lemma mqtt_same:
  "build_payload E msg c = Some (r, c') \<Longrightarrow> cl_mqtt c' = cl_mqtt c"
  "update_message m f c = Some c' \<Longrightarrow> cl_mqtt c' = cl_mqtt c"
  "client_pending_add E m c = Some c' \<Longrightarrow> cl_mqtt c' = cl_mqtt c"
  "cl_mqtt (in_api_call n c) = cl_mqtt c" "cl_mqtt (stats_up g c) = cl_mqtt c" "cl_mqtt (issue c) = cl_mqtt c"
  "cl_compress (in_api_call n c) = cl_compress c"
  by (auto simp: build_payload_def update_message_def client_pending_add_def time_now_def watch_def in_api_call_def
      stats_up_def issue_def emit_def next_seq_id_def Let_def split: option.splits sum.splits if_splits prod.splits)

lemma api_call_send_published:
  assumes e: "api_call_send E m sid topic data c = Some (0, c')" and r: "ready m sid c0 c" and n: "sid \<notin> set (numbers c0)"
  shows "\<exists>c1 c2. client_publish E (topic_with_seq topic sid) data c1 = Some (0, c2) \<and> cl_mqtt c1 = cl_mqtt c \<and> cl_mqtt c' = cl_mqtt c2"
proof -
  obtain c5 r2 c6 where s: "client_pending_add E m c = Some c5"
    "client_publish E (topic_with_seq topic sid) data (in_api_call 2 c5) = Some (r2, c6)"
    "(if r2 \<noteq> 0 then do { (msg, c) \<leftarrow> client_find_and_remove sid c6; Some (if msg \<noteq> 0 then r2 else 0, in_api_call 0 c) }
      else Some (0, stats_up (\<lambda>st. stats_pub_sent_up st (int (length data))) (in_api_call 0 c6))) = Some (0, c')"
    using e unfolding api_call_send_def by (auto simp: bind_eq_Some_conv Let_def simp del: if_split_asm)
  have i: "client_inv c" "fresh m c" "number_of c m = sid" "sid \<notin> set (numbers c)" "meta_of c m \<noteq> None" "m \<noteq> 0"
    using r n by (auto simp: ready_def fresh_def meta_of_def)
  have "listed [m] c c6"
    using listed_frame [OF add_listed [OF s(1) i(1,2)] frame_trans [OF in_api_frame(1) client_publish_frame [OF s(2)]]] .
  then have "client_find_and_remove sid c6 = Some (x, c7) \<Longrightarrow> x \<noteq> 0" for x c7
    using find_unlisted(1) [OF _ i(1) _ i(3-5)] i(6) by blast
  then have "r2 = 0" "c' = stats_up (\<lambda>st. stats_pub_sent_up st (int (length data))) (in_api_call 0 c6)"
    using s(3) by (auto simp: bind_eq_Some_conv split: if_splits)
  then show ?thesis using s(1,2) mqtt_same(3) by (intro exI [of _ "in_api_call 2 c5"] exI [of _ c6]) (simp add: mqtt_same)
qed

text \<open>What a call sends: the topic of the API with the request's number, and the text of the message, compressed when
  the client compresses and the text is long.\<close>

definition sends :: "('w, 'd) env \<Rightarrow> ('w, 'd) tr50 \<Rightarrow> nat \<Rightarrow> int \<Rightarrow> bytes \<Rightarrow> bytes \<Rightarrow> bool" where
  "sends E c m sid topic data \<longleftrightarrow>
     (case Option.bind (cl_store c m) (tr50_message_to_string (en_doubles E)) of
        Some (Inr (raw, n)) \<Rightarrow>
          if cl_compress c \<noteq> 0 \<and> n > TR50_MIN_COMPRESSION_LEN
          then topic = topic_with_seq TR50_TOPIC_COMPRESS_API sid \<and> en_deflate E raw = Inr data
          else topic = topic_with_seq TR50_TOPIC_API sid \<and> data = raw
      | _ \<Rightarrow> False)"


definition demo_message_made :: "(bytes, rat) tr50" where
  "demo_message_made = snd (client_message_create demo_env demo_started)"

lemma demo_started_run: "client_run demo_env demo_created demo_started"
proof -
  obtain ret err where "tr50_start2 demo_env 0 0 demo_created = Some (ret, err, demo_started)" using demo_start by blast
  then show ?thesis by (rule demo_step [OF run_refl step_start])
qed

lemma demo_started_inv: "client_inv demo_started"
proof -
  have "issued (cl_events demo_started) = []" by code_simp
  then show ?thesis
    by (intro client_run_tri(1) [OF demo_started_run created_inv(1) [OF demo_create]])
      (simp add: created_inv(2,3) [OF demo_create] trace_def)
qed


subsection \<open>A reply to the mailbox check that cannot be read\<close>

text \<open>The reply with the number of a waiting object request, when its text is not JSON, takes exactly that request
  off the list, and calls nothing.\<close>

lemma unreadable_reply:
  assumes i: "client_inv c" and m: "m \<in> set (waiting c)"
    and o: "message_type (the (cl_store c m)) = TR50_MESSAGE_TYPE_OBJ"
    and bad: "\<And>ml. tr50_message_from_string (en_doubles E) ml data = Some (Inl err)"
    and e: "publish_handle_publish E data len (number_of c m) c = Some c'"
  shows "removed m c c'"
proof -
  let ?p = "has_seq (cl_store c) (number_of c m)"
  note d = client_invD [OF i]
  have u: "x = m" if "x \<in> set (waiting c)" "?p x" for x
    using d(2) m that by (auto simp: numbers_def has_seq_meta distinct_map dest: inj_onD)
  have "find ?p (waiting c) \<noteq> None" using waiting_meta [OF i m] m by (auto simp: find_None_iff has_seq_meta)
  then have f: "find ?p (waiting c) = Some m" using find_split u by fastforce
  obtain x c1 where fr: "client_find_and_remove (number_of c m) c = Some (x, c1)"
    using e by (auto simp: publish_handle_publish_def bind_eq_Some_conv)
  have x: "x = m" "m \<noteq> 0" using find_waiting(1) [OF fr d(1)] waiting_meta [OF i m] by (simp_all add: f)
  note fr = fr [unfolded x(1)]
  note R = find_removed [OF fr x(2) i]
  obtain rq where rq: "cl_store c1 m = Some rq" "message_type rq = TR50_MESSAGE_TYPE_OBJ"
    using R(2) waiting_meta [OF i m] o by (auto simp: meta_of_def meta_def)
  have ne: "TR50_MESSAGE_TYPE_OBJ \<noteq> TR50_MESSAGE_TYPE_RAW" by (simp add: TR50_MESSAGE_TYPE_RAW_def TR50_MESSAGE_TYPE_OBJ_def)
  obtain ml w where w: "p_malloc (en_platform E) (cl_world c1) = (ml, w)" by fastforce
  have "c' = watch data True (emit (CeDropped m) c1)"
    using e fr x(2) rq ne w bad [of ml] by (simp add: publish_handle_publish_def)
  then have "same_fields c1 c'" by (simp add: same_fields_def watch_def emit_def)
  then show ?thesis by (rule removed_same [OF R(1)])
qed


text \<open>A started client that checks its mailbox, and the answer \<open>x\<close>.\<close>

definition demo_checking :: "(bytes, rat) tr50" where
  "demo_checking = (case tr50_mailbox_check demo_env demo_started of Some (ret, c) \<Rightarrow> c)"

definition demo_stuck :: "(bytes, rat) tr50" where
  "demo_stuck = the (publish_handle_publish demo_env (cstr ''x'') 1 1 demo_checking)"

lemma demo_checking: "cl_mailbox_send_in_progress demo_checking" "filter (mailbox_request demo_checking) (waiting demo_checking) = [1]"
  "number_of demo_checking 1 = 1" "numbers demo_checking = [1]" "issued (cl_events demo_checking) = [1]"
  "case tr50_mailbox_check demo_env demo_started of Some (ret, c) \<Rightarrow> True | _ \<Rightarrow> False"
  "case publish_handle_publish demo_env (cstr ''x'') 1 1 demo_checking of Some c \<Rightarrow> True | _ \<Rightarrow> False"
  "case tr50_json_parse rat_doubles (cstr ''x'') of Null \<Rightarrow> True | _ \<Rightarrow> False"
  by code_simp+

lemma demo_checking_inv: "client_inv demo_checking"
proof -
  obtain ret where c: "tr50_mailbox_check demo_env demo_started = Some (ret, demo_checking)"
    using demo_checking(6) by (auto simp: demo_checking_def split: option.splits)
  have r: "client_run demo_env demo_created demo_checking" by (rule demo_step [OF demo_started_run step_check [OF c]])
  show ?thesis
    by (rule client_run_tri(1) [OF r created_inv(1) [OF demo_create]])
      (simp add: created_inv(2,3) [OF demo_create] demo_checking(5) trace_def)
qed


subsection \<open>A raw call whose compression fails\<close>

lemma pending_find_missing:
  "dll h p (xs @ [m]) 0 \<Longrightarrow> m \<notin> set xs \<Longrightarrow> \<forall>x \<in> set xs. \<not> has_seq h hash x \<Longrightarrow>
   pending_find (h(m := None)) hash (first (xs @ [m]) 0) = None"
proof (induction xs arbitrary: p)
  case Nil
  then show ?case by (simp add: pending_find.simps)
next
  case (Cons x xs)
  then obtain msg where "h x = Some msg" "pending_next msg = first (xs @ [m]) 0" "x \<noteq> 0" by auto
  with Cons show ?case by (auto simp: pending_find.simps [of _ hash x] has_seq_def)
qed

text \<open>The message that the call has listed is deleted and stays listed: a reply to a request that is not waiting makes
  the client read freed memory.\<close>

lemma raw_deflate_failure_dangles:
  assumes e: "tr50_api_raw_async E req cb cust timeout c = Some (ret, c')" and i: "client_inv c"
    and a: "api_check c = 0" and z: "cl_compress c \<noteq> 0" "int (length req) \<ge> TR50_MIN_COMPRESSION_LEN" "en_deflate E req = Inl err"
    and n: "cl_seq_id (next_seq_id c) \<notin> set (numbers c)" and h: "hash \<notin> set (numbers c)"
  shows "ret = err" "client_find_and_remove hash c' = None"
proof -
  define sid where "sid = cl_seq_id (issue (in_api_raw 1 c))"
  obtain m c2 c3 c4 where s: "client_message_create E (issue (in_api_raw 1 c)) = (Inr m, c2)"
    "update_message m (raw_message sid cb cust timeout) c2 = Some c3" "client_pending_add E m c3 = Some c4"
    "cl_compress c4 = cl_compress c" "api_raw_fail m err (in_api_raw 2 (watch req False c4)) = Some (ret, c')"
    by (rule api_raw_stages [OF e a sid_def]) (use z in auto)
  have r3: "ready m sid c c3" by (rule raw_ready [OF s(1,2) _ _ _ in_api_frame(2) i]) simp_all
  then have l: "listed [m] c3 c4" using add_listed [OF s(3)] by (simp add: ready_def)
  show "ret = err" using s(5) by (auto simp: api_raw_fail_def bind_eq_Some_conv)
  have c': "cl_pending c' = cl_pending c4" "cl_store c' = (cl_store c4)(m := None)"
    using s(5) r3 l by (auto simp: api_raw_fail_def bind_eq_Some_conv tr50_message_delete_def in_api_raw_def stats_up_def watch_def
        emit_def ready_def fresh_def split: if_splits)
  have p: "pending_list (cl_pending c4, cl_store c4) (waiting c @ [m])" using l r3 by (simp add: listed_def ready_def)
  then have d: "dll (cl_store c4) 0 (waiting c @ [m]) 0" "m \<notin> set (waiting c)" "pd_head (cl_pending c4) = first (waiting c @ [m]) 0"
    by (simp_all add: pending_list_def)
  have "meta_of c4 x = meta_of c x" if "x \<in> set (waiting c)" for x using l r3 that by (simp add: listed_def ready_def)
  then have "\<forall>x \<in> set (waiting c). \<not> has_seq (cl_store c4) hash x"
    using h by (auto simp: has_seq_meta number_of_def numbers_def)
  from pending_find_missing [OF d(1,2) this] show "client_find_and_remove hash c' = None"
    by (simp add: client_find_and_remove_def tr50_pending_find_and_remove_def c' d(3))
qed

end
