(* ===== verification/Tr50_Worker_Props.thy ===== *)
theory Tr50_Worker_Props
  imports Tr50_Worker_Run Tr50_Client_Props
begin

section \<open>What the thing API promises\<close>

subsection \<open>All its functions\<close>

text \<open>One call of any function of the API, by a thread whose waits are \<open>K\<close>.\<close>

inductive thing_call :: "('w, 'd) env \<Rightarrow> ('w, 'd) caller \<Rightarrow> ('w, 'd) tr50 \<Rightarrow> ('w, 'd) tr50 \<Rightarrow> bool" for E K where
  "tr50_method_exec_ex_async E x ps opt cb cust timeout c = Some (ret, c') \<Longrightarrow> cb \<noteq> Some MAILBOX_CALLBACK \<Longrightarrow> thing_call E K c c'"
| "tr50_method_exec_ex_sync E x ps opt wr c = Some (out, c') \<Longrightarrow> thing_call E K c c'"
| "tr50_alarm_publish_ex E K x st opt wr we c = Some (out, c') \<Longrightarrow> thing_call E K c c'"
| "tr50_location_publish_ex E K lat lng opt wr we c = Some (out, c') \<Longrightarrow> thing_call E K c c'"
| "tr50_log_publish_ex E K x opt wr we c = Some (out, c') \<Longrightarrow> thing_call E K c c'"
| "tr50_mailbox_send_ex E K x ps opt wr we c = Some (out, c') \<Longrightarrow> thing_call E K c c'"
| "tr50_property_publish_ex E K x v opt wr we c = Some (out, c') \<Longrightarrow> thing_call E K c c'"
| "tr50_property_current_ex E K x opt wr we c = Some (outv, c') \<Longrightarrow> thing_call E K c c'"
| "tr50_thing_attr_set_ex E K x y opt wr we c = Some (out, c') \<Longrightarrow> thing_call E K c c'"
| "tr50_thing_attr_get_ex E K x opt wr we c = Some (outs, c') \<Longrightarrow> thing_call E K c c'"
| "tr50_thing_attr_unset_ex E K x opt wr we c = Some (out, c') \<Longrightarrow> thing_call E K c c'"
| "tr50_thing_bind_ex E K x opt wr we c = Some (out, c') \<Longrightarrow> thing_call E K c c'"
| "tr50_thing_unbind_ex E K x opt wr we c = Some (out, c') \<Longrightarrow> thing_call E K c c'"
| "tr50_thing_tag_add_ex E K tags opt wr we c = Some (out, c') \<Longrightarrow> thing_call E K c c'"
| "tr50_thing_tag_delete_ex E K tags opt wr we c = Some (out, c') \<Longrightarrow> thing_call E K c c'"
| "tr50_file_get_ex E K x opt wr we c = Some (out, c') \<Longrightarrow> thing_call E K c c'"
| "tr50_file_put_ex E K x opt wr we c = Some (out, c') \<Longrightarrow> thing_call E K c c'"

named_theorems thing_api
lemmas [thing_api] = tr50_method_exec_ex_async_def tr50_method_exec_ex_sync_def tr50_alarm_publish_ex_def
  tr50_location_publish_ex_def tr50_log_publish_ex_def tr50_mailbox_send_ex_def tr50_property_publish_ex_def
  tr50_property_current_ex_def tr50_thing_attr_set_ex_def tr50_thing_attr_get_ex_def tr50_thing_attr_unset_ex_def
  tr50_thing_bind_ex_def tr50_thing_unbind_ex_def tr50_thing_tag_add_ex_def tr50_thing_tag_delete_ex_def
  tr50_file_get_ex_def tr50_file_put_ex_def send_and_leave_def send_and_give_def

text \<open>Each is refused, with the client as it was, or sends one command, with or without a wait.\<close>

definition sends_command :: "('w, 'd) env \<Rightarrow> ('w, 'd) caller \<Rightarrow> ('w, 'd) tr50 \<Rightarrow> ('w, 'd) tr50 \<Rightarrow> bool" where
  "sends_command E K c c' \<longleftrightarrow> c' = c \<or> (\<exists>cmd ps we res. send_json_sync E K cmd ps we c = Some (res, c')) \<or>
     (\<exists>cmd ps ret. send_json E cmd ps c = Some (ret, c')) \<or>
     (\<exists>cmd ps cb cust timeout ret. send_json_async E cmd ps cb cust timeout c = Some (ret, c') \<and> cb \<noteq> Some MAILBOX_CALLBACK)"

lemma thing_call_sends: "thing_call E K c c' \<Longrightarrow> sends_command E K c c'"
  by (induction rule: thing_call.induct)
    (fastforce simp: sends_command_def thing_api Let_def bind_eq_Some_conv split: option.splits if_splits prod.splits)+

context caller
begin

lemma thing_call_ok: "thing_call E K c c' \<Longrightarrow> ok (Promise s False) c c'"
  by (drule thing_call_sends, unfold sends_command_def, elim disjE exE conjE)
    (auto intro: ok_refl send_json_sync_ok send_json_ok send_json_async_ok)

text \<open>Runs in which threads of the application also call the API.\<close>

end

inductive app_run :: "('w, 'd) env \<Rightarrow> ('w, 'd) caller \<Rightarrow> ('w, 'd) tr50 \<Rightarrow> ('w, 'd) tr50 \<Rightarrow> bool" for E K where
  app_refl: "app_run E K c c"
| app_step: "app_run E K c c1 \<Longrightarrow> client_step (E\<lparr>en_tid := t\<rparr>) c1 c2 \<Longrightarrow> app_run E K c c2"
| app_thing: "app_run E K c c1 \<Longrightarrow> thing_call E K c1 c2 \<Longrightarrow> app_run E K c c2"

context caller
begin

lemma app_run_ok: "app_run E K c c' \<Longrightarrow> ok (Promise s False) c c'"
  by (induction rule: app_run.induct) (auto intro: ok_refl ok_trans client_step_ok thing_call_ok)

end

subsection \<open>The answer of a synchronous call\<close>

lemma api_call_fate:
  assumes e: "tr50_api_call_async E m cb cust timeout c = Some (ret, c')"
  shows "later c c'" "fate x (trace c c') = 0"
    "ret = 0 \<Longrightarrow> issued (trace c c') = [cl_seq_id (next_seq_id c)]"
proof -
  let ?c1 = "in_api_call 1 c"
  have "later c c' \<and> fate x (trace c c') = 0 \<and> (ret = 0 \<longrightarrow> issued (trace c c') = [cl_seq_id (next_seq_id c)])"
  proof (cases "api_check c = 0")
    case False
    then have c': "c' = in_api_call 0 ?c1" "ret \<noteq> 0"
      using e by (auto simp: tr50_api_call_async_def Let_def api_check_in_api)
    have f: "frame c c'" unfolding c' by (rule frame_trans [OF in_api_frame(1) in_api_frame(1)])
    show ?thesis using frame_later [OF f] frame_trace [OF f] c'(2) by simp
  next
    case True
    define sid where "sid = cl_seq_id (issue ?c1)"
    obtain msg c3 r c4 where s: "update_message m (numbered_message sid cb cust timeout) (issue ?c1) = Some c3"
      "build_payload E (numbered_message sid cb cust timeout msg) c3 = Some (r, c4)"
      "(case r of Inl ret \<Rightarrow> Some (ret, in_api_call 0 c4)
        | Inr (topic, data) \<Rightarrow> api_call_send E m sid topic data c4) = Some (ret, c')"
      by (rule api_call_stages [OF e True sid_def])
    have p3: "plain (issue ?c1) c3"
      using s(1) by (auto simp: update_message_def plain_def exI [of _ "[]"] split: option.splits)
    have "plain c4 c'"
      using s(3) api_call_send_plain frame_plain [OF in_api_frame(1)] by (auto split: sum.splits prod.splits)
    then have p: "plain (issue ?c1) c'"
      by (rule plain_trans [OF p3 plain_trans [OF frame_plain [OF build_payload_frame [OF s(2)]]]])
    have l: "later c ?c1" "later ?c1 (issue ?c1)" "later (issue ?c1) c'"
      using frame_later [OF in_api_frame(1)] plain_later [OF p] issue_fields [of ?c1] by (auto simp: later_def same_fields_def)
    have "trace c c' = trace c ?c1 @ [CeIssued sid] @ trace (issue ?c1) c'"
      using trace_append [OF l(1) later_trans [OF l(2,3)]] trace_append [OF l(2,3)] trace_eq [OF issue_fields(2) [of ?c1]]
      by (simp add: sid_def)
    moreover have "sid = cl_seq_id (next_seq_id c)"
      by (simp add: sid_def issue_def emit_def next_seq_id_def in_api_call_def stats_up_def Let_def)
    ultimately show ?thesis
      using later_trans [OF l(1) later_trans [OF l(2,3)]] frame_trace [OF in_api_frame(1) [of c 1]] plain_trace [OF p] by simp
  qed
  then show "later c c'" "fate x (trace c c') = 0" "ret = 0 \<Longrightarrow> issued (trace c c') = [cl_seq_id (next_seq_id c)]" by blast+
qed

context caller
begin

lemma wait_one:
  assumes w: "ca_wait K m c = Some (sync, c')" and i: "client_inv c" and d: "distinct (numbers c @ issued (trace c c'))"
    and m: "m \<in> set (waiting c)" "has_callback c m"
  shows "m \<notin> set (waiting c')" "fate m (trace c c') = 1"
    "\<exists>st reply. answered m (trace c c') = Some (st, reply) \<and> sync = api_call_sync_callback st reply sync_new"
proof -
  show a: "\<exists>st reply. answered m (trace c c') = Some (st, reply) \<and> sync = api_call_sync_callback st reply sync_new"
    by (rule wait_answer [OF w])
  then have "fate m (trace c c') \<noteq> 0" using answered_fate by fastforce
  have s: "settled {} c (trace c c') c'" using client_run_tri(2) [OF wait_run [OF w] i d] .
  show "m \<notin> set (waiting c')" using settled_stays [OF s m(1)] \<open>fate m (trace c c') \<noteq> 0\<close> by auto
  then show "fate m (trace c c') = 1" using settled_leaves [OF s m(1)] m(2) by simp
qed

lemma sync_answer:
  assumes e: "send_json_sync E K cmd params we c = Some (res, c')" and i: "client_inv c"
    and d: "distinct (numbers c @ issued (trace c c'))" and codec: "\<forall>bs. en_deflate E bs \<noteq> Inl 0"
  shows "if fate (cl_next c) (trace c c') = 0 then fst res \<noteq> 0 \<and> cl_store c' (cl_next c) = None
    else fate (cl_next c) (trace c c') = 1 \<and> cl_next c \<notin> set (waiting c') \<and>
      (\<exists>st reply. answered (cl_next c) (trace c c') = Some (st, reply) \<and>
        res = read_reply we (if st = 0 then reply else Some (error_reply (en_doubles E) st (message_new (en_doubles E)))))"
  using e
proof (cases rule: send_json_sync_cases)
  case (failed err ps)
  then show ?thesis using command_message_failed [OF failed(1)] client_invD(4) [OF i] by simp
next
  case (made m ps timeout c1 ret reply c2)
  note k = command_message_made [OF made(1)]
  have lt: "later c c1" "trace c c1 = []" using tri_later [OF k(3)] k(4) by simp_all
  show ?thesis using made(2)
  proof (cases rule: api_call_sync_cases)
    case event
    then have "trace c c' = []" "cl_store c' m = None" using made(3) lt(2) client_invD(5) [OF i]
      by (auto simp: tr50_message_delete_def trace_def k(1) split: if_splits)
    then show ?thesis using event made(4) k(1) by simp
  next
    case refused
    have "cl_store c' m = None" "cl_events c' = cl_events c2"
      using made(3) refused(2) client_invD(5) [OF i] by (auto simp: tr50_message_delete_def k(1) split: if_splits)
    then have "trace c c' = trace c1 c2" using trace_append [OF lt(1) api_call_fate(1) [OF refused(1)]] lt(2) by (simp add: trace_def)
    then show ?thesis using api_call_fate(2) [OF refused(1)] \<open>cl_store c' m = None\<close> refused(2) made(4) k(1) by simp
  next
    case (waited c3 sync c4 w)
    note f = api_call_fate [OF waited(1)]
    have c': "c' = c2" "trace c3 c2 = trace c3 c4" using made(3) waited(2,4) by (simp_all add: trace_def)
    have t: "trace c c' = trace c1 c3 @ trace c3 c4"
    proof -
      have "later c3 c2" unfolding waited(4)
        by (rule later_trans [OF tri_later [OF client_run_ok [OF wait_run [OF waited(3)]]] frame_later [OF fields_frame(1)]])
      then show ?thesis
        using trace_append [OF later_trans [OF lt(1) f(1)]] trace_append [OF lt(1) f(1)] lt(2) c' by simp
    qed
    have A: "client_inv c1" "fresh m c1" "settled {} c [] c1"
      using k(3) [of "{}" "Promise False False"] i d by (simp_all add: tri_def good_def lt(2))
    have "distinct (numbers c1 @ issued (trace c1 c3 @ trace c3 c4))"
      by (rule distinct_numbers_step [OF A(3)]) (use d in \<open>simp add: t\<close>)
    then have d1: "distinct (numbers c1 @ issued (trace c1 c3))" "distinct (numbers c1 @ issued (trace c1 c3 @ trace c3 c4))" by auto
    have C: "called E m (Some SYNC_CALLBACK) 0 c3" "client_inv c3" "settled {m} c1 (trace c1 c3) c3"
      using api_call_tri [OF waited(1) sync_not_mailbox, of "Promise False False"] A(1,2) d1(1) by (simp_all add: tri_def good_def)
    have B: "client_inv c3" "distinct (numbers c3 @ issued (trace c3 c4))" "m \<in> set (waiting c3)" "has_callback c3 m"
      using C(1,2) distinct_numbers_step [OF C(3) d1(2)] codec by (simp_all add: called_def)
    note W = wait_one [OF waited(3) B]
    have "waiting c' = waiting c4" using c'(1) waited(4) frame_views(1) [OF fields_frame(1)] by simp
    then show ?thesis
      using W f(2) [of m] made(4) waited(2,5)
      by (auto simp: t k(1) answered_append unanswered api_call_sync_callback_def sync_new_def)
  qed
qed

end

subsection \<open>A wait during which the handler thread runs\<close>

partial_function (option) handler_wait ::
  "('w, 'd) env \<Rightarrow> nat \<Rightarrow> nat \<Rightarrow> pc \<times> int \<Rightarrow> ('w, 'd) tr50 \<Rightarrow> ('d message sync_obj \<times> ('w, 'd) tr50) option" where
  "handler_wait E m k thr c =
     (case answered m (drop k (cl_events c)) of
        Some (st, reply) \<Rightarrow> Some (api_call_sync_callback st reply sync_new, c)
      | None \<Rightarrow> (case client_handler_step E True thr c of
                   None \<Rightarrow> None
                 | Some (thr, c) \<Rightarrow> handler_wait E m k thr c))"

declare handler_wait.simps [code]

definition handler_caller :: "('w, 'd) env \<Rightarrow> int \<Rightarrow> nat \<Rightarrow> pc \<times> int \<Rightarrow> ('w, 'd) caller" where
  "handler_caller E event sync thr =
     \<lparr>ca_event = event, ca_sync = sync, ca_wait = (\<lambda>m c. handler_wait E m (length (cl_events c)) thr c)\<rparr>"

lemma handler_wait_law:
  assumes r: "handler_wait E m k thr c = Some r"
  shows "(\<forall>c0. client_run E c0 c \<longrightarrow> client_run E c0 (snd r)) \<and>
    (\<exists>st reply. answered m (drop k (cl_events (snd r))) = Some (st, reply) \<and> fst r = api_call_sync_callback st reply sync_new)"
proof (rule handler_wait.raw_induct [where P = "\<lambda>E m k thr c r. (\<forall>c0. client_run E c0 c \<longrightarrow> client_run E c0 (snd r)) \<and>
    (\<exists>st reply. answered m (drop k (cl_events (snd r))) = Some (st, reply) \<and> fst r = api_call_sync_callback st reply sync_new)",
      OF _ r], goal_cases)
  case (1 f E m k thr c r)
  show ?case
  proof (cases "answered m (drop k (cl_events c))")
    case (Some a)
    then show ?thesis using 1(2) by (cases a) auto
  next
    case None
    obtain thr1 c1 where s: "client_handler_step E True thr c = Some (thr1, c1)" "f E m k thr1 c1 = Some r"
      using 1(2) None by (auto split: option.splits prod.splits)
    have "client_run E c0 c1" if "client_run E c0 c" for c0
      using run_step [OF that, of "en_tid E" c1] step_handler [OF s(1)] by simp
    then show ?thesis using 1(1) [OF s(2)] by blast
  qed
qed

interpretation handler: caller E "handler_caller E event sync thr" for E event sync thr
proof
  show "client_run E c c'" if "ca_wait (handler_caller E event sync thr) m c = Some (s, c')" for m c s c'
    using handler_wait_law [of E m "length (cl_events c)" thr c "(s, c')"] that
    by (auto simp: handler_caller_def intro: run_refl)
  show "\<exists>st reply. answered m (trace c c') = Some (st, reply) \<and> s = api_call_sync_callback st reply sync_new"
    if "ca_wait (handler_caller E event sync thr) m c = Some (s, c')" for m c s c'
    using handler_wait_law [of E m "length (cl_events c)" thr c "(s, c')"] that
    by (simp add: handler_caller_def trace_def)
qed

text \<open>A wait that ends with the next round of the expiration handler.\<close>

definition expiring_caller :: "('w, 'd) env \<Rightarrow> int \<Rightarrow> nat \<Rightarrow> ('w, 'd) caller" where
  "expiring_caller E event sync =
     \<lparr>ca_event = event, ca_sync = sync,
      ca_wait = (\<lambda>m c. do {
        c' \<leftarrow> client_expiration_round E c;
        (st, reply) \<leftarrow> answered m (trace c c');
        Some (api_call_sync_callback st reply sync_new, c') })\<rparr>"

interpretation expiring: caller E "expiring_caller E event sync" for E event sync
proof
  show "client_run E c c'" if w: "ca_wait (expiring_caller E event sync) m c = Some (s, c')" for m c s c'
  proof -
    have "client_expiration_round (E\<lparr>en_tid := en_tid E\<rparr>) c = Some c'"
      using w by (auto simp: expiring_caller_def bind_eq_Some_conv)
    then show ?thesis by (rule run_step [OF run_refl step_expiration])
  qed
  show "\<exists>st reply. answered m (trace c c') = Some (st, reply) \<and> s = api_call_sync_callback st reply sync_new"
    if "ca_wait (expiring_caller E event sync) m c = Some (s, c')" for m c s c'
    using that by (auto simp: expiring_caller_def bind_eq_Some_conv)
qed

subsection \<open>The error reply\<close>

lemma error_reply_names:
  "tr50_json_str_case_cmp (Some json_success) (Some json_success) = 0"
  "tr50_json_str_case_cmp (Some json_success) (Some json_errorcodes) \<noteq> 0"
  "tr50_json_str_case_cmp (Some json_success) (Some json_errormessages) \<noteq> 0"
  "tr50_json_str_case_cmp (Some json_errorcodes) (Some json_errorcodes) = 0"
  "tr50_json_str_case_cmp (Some json_errorcodes) (Some json_errormessages) \<noteq> 0"
  "tr50_json_str_case_cmp (Some json_errormessages) (Some json_errormessages) = 0"
  by code_simp+

lemma read_error_reply:
  assumes "st \<noteq> 0" "d_int F (d_of_int F st) = st"
  shows "read_reply we (Some (error_reply F st (message_new F))) =
    (st, None, if we then Some (cstr ''TR50: Operation Timeout.'') else None)"
proof -
  note defs = error_reply_def message_new_def tr50_json_create_object_def json_of_type_def tr50_json_add_false_to_object_def
    tr50_json_create_false_def tr50_json_add_item_to_object_def tr50_json_add_item_to_array_def with_string_def with_child_def
    tr50_json_create_int_array_def tr50_json_create_string_array_def tr50_json_create_array_def tr50_json_create_number_def
    tr50_json_create_string_def tr50_json_strdup_def Let_def
  let ?j = "msg_json (error_reply F st (message_new F))"
  have 1: "tr50_json_get_object_item_as_bool (Some ?j) (Some json_success) = Some 0"
    using error_reply_names
    by (simp add: defs tr50_json_get_object_item_as_bool_def tr50_json_get_object_item_def item_bool_def JSON_TRUE_def JSON_FALSE_def)
  have 2: "first_code (tr50_json_get_object_item (Some ?j) (Some json_errorcodes)) = st"
    using error_reply_names assms(2)
    by (simp add: defs first_code_def tr50_json_get_object_item_as_int_def tr50_json_get_object_item_def item_number_def)
  have 3: "first_message (tr50_json_get_object_item (Some ?j) (Some json_errormessages)) = Some (cstr ''TR50: Operation Timeout.'')"
    using error_reply_names
    by (simp add: defs first_message_def tr50_json_get_object_item_as_string_def tr50_json_get_object_item_def item_string_def)
  show ?thesis using 1 2 3 assms(1) by (simp add: read_reply_def tr50_reply_get_error_code_def tr50_reply_get_error_message_def)
qed

subsection \<open>The properties\<close>



text \<open>C27: A synchronous command whose request is called back with an error status, as it is when it expires, answers that
  status and, to a caller that asked for it, the text \<open>TR50: Operation Timeout.\<close>, and gives no parameters.\<close>

theorem sync_command_times_out:
  assumes "caller E K" "client_inv c" "send_json_sync E K cmd params we c = Some (res, c')"
    and "distinct (numbers c @ issued (trace c c'))" "\<forall>bs. en_deflate E bs \<noteq> Inl 0"
    and "answered (cl_next c) (trace c c') = Some (st, reply)" "st \<noteq> 0" "d_int (en_doubles E) (d_of_int (en_doubles E) st) = st"
  shows "res = (st, None, if we then Some (cstr ''TR50: Operation Timeout.'') else None)"
proof -
  have "fate (cl_next c) (trace c c') \<noteq> 0" using answered_fate [OF assms(6)] by simp
  then show ?thesis
    using caller.sync_answer [OF assms(1,3,2,4,5)] assms(6,7) read_error_reply [OF assms(7,8)] by simp
qed

text \<open>\<open>tr50_thing_attr_get\<close> never gives its caller a string: when it reports success the value is NULL or a pointer
  into the reply that the function itself has deleted.  Only a caller of \<open>tr50_thing_attr_get_ex\<close> that takes the reply
  over gets one.\<close>

theorem attr_get_dangles:
  "(tr50_thing_attr_get E K key c = Some ((0, v), c') \<longrightarrow> v = Some CNull \<or> v = Some CFreed) \<and>
   (tr50_thing_attr_get_ex E K key opt True we c = Some ((out, Some (CStr s)), c') \<longrightarrow>
     (\<exists>reply. oc_reply out = Some reply \<and> tr50_json_get_object_item_as_string reply (Some json_value) = Some s))"
  by (auto simp: tr50_thing_attr_get_def tr50_thing_attr_get_ex_def only_ret_def give_reply_def ERR_TR50_PARMS_def
      bind_eq_Some_conv Let_def split: option.splits if_splits)

subsection \<open>Examples\<close>

definition demo_sync :: "string \<Rightarrow> ((int \<times> rat json option \<times> bytes option) \<times> (bytes, rat) tr50) option" where
  "demo_sync text = send_json_sync demo_env (handler_caller demo_env 0 7 (PLoop, 0)) (cstr ''thing.bind'')
     (tr50_json_create_object rat_doubles) True (demo_started\<lparr>cl_world := demo_publish text\<rparr>)"

definition demo_bound :: "(bytes, rat) tr50" where
  "demo_bound = snd (the (demo_sync ''{\"1\":{\"success\":true}}''))"

definition demo_asked :: "(bytes, rat) tr50" where
  "demo_asked = demo_started\<lparr>cl_world := demo_publish ''{\"1\":{\"success\":true}}''\<rparr>"

lemma demo_started_idle: "waiting demo_started = []" "cl_next demo_started = 1"
proof -
  have "case tr50_start2 demo_env 0 0 demo_created of Some (ret, err, c) \<Rightarrow> waiting c = [] \<and> cl_next c = 1 | _ \<Rightarrow> False"
    by code_simp
  then show "waiting demo_started = []" "cl_next demo_started = 1" by (auto simp: demo_started_def split: option.splits)
qed

lemma demo_asked_inv: "client_inv demo_asked" "numbers demo_asked = []" "cl_next demo_asked = 1"
proof -
  have f: "frame demo_started demo_asked" unfolding demo_asked_def by (rule fields_frame(1))
  show "client_inv demo_asked" using frame_views(7) [OF f] demo_started_inv by simp
  show "numbers demo_asked = []" "cl_next demo_asked = 1"
    using frame_views(4,8) [OF f] demo_started_idle by (simp_all add: numbers_def)
qed

lemma demo_sync_runs:
  "case demo_sync ''{\"1\":{\"success\":true}}'' of Some (res, c) \<Rightarrow> fst res = 0 \<and> fate 1 (trace demo_asked c) = 1 \<and>
     issued (trace demo_asked c) = [1] | None \<Rightarrow> False"
  by code_simp

lemma demo_bound_eq:
  obtains res where "send_json_sync demo_env (handler_caller demo_env 0 7 (PLoop, 0)) (cstr ''thing.bind'')
     (tr50_json_create_object rat_doubles) True demo_asked = Some (res, demo_bound)" "fst res = 0"
    "fate 1 (trace demo_asked demo_bound) = 1" "issued (trace demo_asked demo_bound) = [1]"
  using demo_sync_runs by (auto simp: demo_bound_def demo_sync_def demo_asked_def split: option.splits)



theorem attr_get_dangles_witness:
  "\<exists>c. tr50_thing_attr_get demo_env (handler_caller demo_env 0 7 (PLoop, 0)) (Some [0x61])
     (demo_started\<lparr>cl_world := demo_publish ''{\"1\":{\"params\":{\"value\":\"x\"}}}''\<rparr>) = Some ((0, Some CFreed), c)"
proof -
  let ?call = "tr50_thing_attr_get demo_env (handler_caller demo_env 0 7 (PLoop, 0)) (Some [0x61])
     (demo_started\<lparr>cl_world := demo_publish ''{\"1\":{\"params\":{\"value\":\"x\"}}}''\<rparr>)"
  have "case ?call of Some ((ret, v), c) \<Rightarrow> ret = 0 \<and> v \<noteq> Some CNull | None \<Rightarrow> False" by code_simp
  then obtain v c where c: "?call = Some ((0, v), c)" "v \<noteq> Some CNull" by (auto split: option.splits)
  from attr_get_dangles c show ?thesis by blast
qed

theorem sync_command_times_out_witness:
  "\<exists>c. send_json_sync demo_env (expiring_caller demo_env 0 7) (cstr ''thing.bind'')
     (add_number rat_doubles ''timeout'' (- 1) (tr50_json_create_object rat_doubles)) True demo_asked =
     Some ((ERR_TR50_REQ_TIMEOUT, None, Some (cstr ''TR50: Operation Timeout.'')), c)"
proof -
  let ?call = "send_json_sync demo_env (expiring_caller demo_env 0 7) (cstr ''thing.bind'')
     (add_number rat_doubles ''timeout'' (- 1) (tr50_json_create_object rat_doubles)) True demo_asked"
  have "case ?call of Some (res, c) \<Rightarrow> issued (trace demo_asked c) = [1] \<and>
      (case answered 1 (trace demo_asked c) of Some (st, reply) \<Rightarrow> st = ERR_TR50_REQ_TIMEOUT | None \<Rightarrow> False) | None \<Rightarrow> False"
    by code_simp
  then obtain res c reply where r: "?call = Some (res, c)" "issued (trace demo_asked c) = [1]"
    "answered 1 (trace demo_asked c) = Some (ERR_TR50_REQ_TIMEOUT, reply)"
    by (auto split: option.splits)
  have d: "d_int (en_doubles demo_env) (d_of_int (en_doubles demo_env) ERR_TR50_REQ_TIMEOUT) = ERR_TR50_REQ_TIMEOUT"
    "ERR_TR50_REQ_TIMEOUT \<noteq> 0" by code_simp+
  from sync_command_times_out [OF expiring.caller_axioms demo_asked_inv(1) r(1) _ _ _ d(2,1)] show ?thesis
    using r demo_asked_inv(2,3) by (auto simp: demo_env_def)
qed

end
