(* ===== verification/Tr50_Worker_File_Props.thy ===== *)
theory Tr50_Worker_File_Props
  imports Linux_Wire Tr50_Worker_File Tr50_Worker_Props
begin

section \<open>What the transfer of files does\<close>

subsection \<open>Numbers in base 16\<close>

lemma hex_val_digit: "d < 16 \<Longrightarrow> hex_val (of_nat d + (if d < 10 then 0x30 else 0x57)) = Some d"
proof -
  have "\<forall>d \<in> set [0..<16]. hex_val (of_nat d + (if d < 10 then 0x30 else 0x57)) = Some d" by code_simp
  then show "d < 16 \<Longrightarrow> ?thesis" by simp
qed

lemma hex_digits_of_vals: "\<forall>b \<in> set (hex_digits_of n). hex_val b \<noteq> None"
proof (induction n rule: hex_digits_of.induct)
  case (1 n)
  show ?case
    using 1 hex_val_digit [of "n mod 16"] by (subst hex_digits_of.simps) (auto simp: Let_def)
qed

lemma hex_digits_of_nonempty [simp]: "hex_digits_of n \<noteq> []"
  by (subst hex_digits_of.simps) (simp add: Let_def)

lemma hex_digits_of_value: "foldl (\<lambda>n b. n * 16 + int (the (hex_val b))) 0 (hex_digits_of n) = int n"
proof (induction n rule: hex_digits_of.induct)
  case (1 n)
  show ?case
  proof (cases "n < 16")
    case True
    then show ?thesis using hex_val_digit [of n] by (subst hex_digits_of.simps) (simp add: Let_def)
  next
    case False
    then show ?thesis using 1 hex_val_digit [of "n mod 16"]
      by (subst hex_digits_of.simps) (simp add: Let_def zdiv_int zmod_int)
  qed
qed

lemma hex_scan_digits:
  assumes "rest = [] \<or> hex_val (hd rest) = None"
  shows "hex_scan (hex_digits_of n @ rest) = (int n, rest)"
proof -
  have t: "takeWhile (\<lambda>b. hex_val b \<noteq> None) rest = []" "dropWhile (\<lambda>b. hex_val b \<noteq> None) rest = rest"
    using assms by (cases rest; simp)+
  show ?thesis
    using hex_digits_of_vals [of n] hex_digits_of_value [of n] t by (simp add: hex_scan_def)
qed

lemma hex_val_other: "hex_val b \<noteq> None \<Longrightarrow> \<not> is_space b \<and> b \<noteq> 0x2D \<and> b \<noteq> 0x2B \<and> b \<noteq> 0x78 \<and> b \<noteq> 0x58 \<and> b \<noteq> 0 \<and> \<not> line_end b"
proof -
  have "\<forall>b \<in> set (map word_of_int [0..255]). hex_val (b :: byte) \<noteq> None \<longrightarrow>
      \<not> is_space b \<and> b \<noteq> 0x2D \<and> b \<noteq> 0x2B \<and> b \<noteq> 0x78 \<and> b \<noteq> 0x58 \<and> b \<noteq> 0 \<and> \<not> line_end b"
    by code_simp
  moreover have "b \<in> set (map word_of_int [0..255])"
    using uint_lt2p [of b] by (auto simp: image_iff intro!: bexI [of _ "uint b"])
  ultimately show "hex_val b \<noteq> None \<Longrightarrow> ?thesis" by blast
qed

lemma strtol_16_digits:
  assumes "rest = [] \<or> hex_val (hd rest) = None" "hd rest \<noteq> 0x78" "hd rest \<noteq> 0x58" "n < 2 ^ 63"
  shows "strtol_16 (hex_digits_of n @ rest) = (int n, rest)"
proof -
  obtain d ds where d: "hex_digits_of n = d # ds" by (cases "hex_digits_of n") auto
  have v: "\<forall>b \<in> set (d # ds). hex_val b \<noteq> None" using hex_digits_of_vals [of n] by (simp add: d)
  then have o: "\<not> is_space d" "d \<noteq> 0x2D" "d \<noteq> 0x2B" using hex_val_other [of d] by auto
  have "hex_prefixed (hex_digits_of n @ rest) = hex_scan (hex_digits_of n @ rest)"
  proof (cases ds)
    case Nil
    then show ?thesis using assms(2,3) by (cases rest) (auto simp: hex_prefixed_def d split: list.split)
  next
    case (Cons e es)
    then have "e \<noteq> 0x78" "e \<noteq> 0x58" using hex_val_other [of e] v by auto
    then show ?thesis using Cons by (auto simp: hex_prefixed_def d split: list.split)
  qed
  then have "hex_prefixed (d # ds @ rest) = (int n, rest)" using hex_scan_digits [OF assms(1), of n] by (simp add: d)
  then show ?thesis using o assms(4) by (simp add: strtol_16_def long_clamp_def d Let_def)
qed

lemma hex_digits_of_length: "n < 16 ^ k \<Longrightarrow> 0 < k \<Longrightarrow> length (hex_digits_of n) \<le> k"
proof (induction n arbitrary: k rule: hex_digits_of.induct)
  case (1 n)
  show ?case
  proof (cases "n < 16")
    case True
    then show ?thesis using 1(3) by (subst hex_digits_of.simps) (simp add: Let_def)
  next
    case False
    then obtain j where j: "k = Suc j" "0 < j" using 1(2,3) by (cases k; cases "k - 1") auto
    then have "n div 16 < 16 ^ j" using 1(2) by (simp add: less_mult_imp_div_less mult.commute)
    then show ?thesis using 1(1) [OF HOL.refl False _ j(2)] j(1) False by (subst hex_digits_of.simps) (simp add: Let_def)
  qed
qed

lemma chunk_size_digits:
  assumes "0 < n" "n < 2 ^ 31"
  shows "chunk_size (hex_digits_of n @ crlf) = Some (int n)"
proof -
  let ?l = "hex_digits_of n @ crlf"
  have len: "length ?l \<le> 10" using hex_digits_of_length [of n 8] assms by (simp add: crlf_def)
  have nz: "\<forall>b \<in> set ?l. b \<noteq> 0" using hex_digits_of_vals [of n] hex_val_other by (auto simp: crlf_def)
  have "takeWhile (\<lambda>b. b \<noteq> 0) (?l @ replicate (READ_SIZE - length ?l) 0) = ?l"
    using nz len by (simp add: takeWhile_append2 takeWhile_eq_Nil_iff READ_SIZE_def)
  moreover have "strtol_16 ?l = (int n, crlf)"
    by (rule strtol_16_digits) (use assms in \<open>auto simp: crlf_def hex_val_def is_digit_def\<close>)
  moreover have "0 \<in> set (?l @ replicate (READ_SIZE - length ?l) 0)" using len by (simp add: READ_SIZE_def)
  ultimately show ?thesis using assms by (simp add: chunk_size_def Let_def c_int_id)
qed

lemma chunk_size_empty: "chunk_size crlf = Some 0"
  by code_simp

subsection \<open>Lines on a connection that answers at once\<close>

text \<open>The first run of \<open>m\<close> line ends, after \<open>k\<close> of them, is the end of the text.\<close>

fun ends_at :: "nat \<Rightarrow> nat \<Rightarrow> bytes \<Rightarrow> bool" where
  "ends_at m k [] = False"
| "ends_at m k (b # bs) = (if line_end b then (if k + 1 = m then bs = [] else ends_at m (k + 1) bs) else ends_at m 0 bs)"

text \<open>A header of an answer with status 200.\<close>

definition ok_header :: "bytes \<Rightarrow> bool" where
  "ok_header hdr \<longleftrightarrow> ends_at 4 0 hdr \<and> 0 \<notin> set hdr \<and> take 12 hdr = cstr ''HTTP/1.1 200''"

lemma ends_at_line: "\<forall>b \<in> set ds. \<not> line_end b \<Longrightarrow> ends_at 2 0 (ds @ crlf)"
  by (induction ds) (auto simp: crlf_def line_end_def)

context prompt_transport
begin

lemma recv_byte:
  assumes "ready w h" "pending w h = b # rest" "0 \<le> t"
  shows "\<exists>w'. p_tcp_recv p w h 1 t = Some ((0, [b]), w') \<and> ready w' h \<and> pending w' h = rest"
proof -
  obtain bs w' where r: "p_tcp_recv p w h 1 t = Some ((0, bs), w')" "ready w' h"
    using prompt_recv [OF assms(1), of 1 t] assms(2,3) by auto
  then have "bs \<noteq> []" "length bs \<le> 1" "b # rest = bs @ pending w' h"
    using recv_law [OF r(1)] assms(2) by auto
  then show ?thesis using r by (cases bs) auto
qed

lemma header_loop_reads:
  "ready w h \<Longrightarrow> pending w h = xs @ rest \<Longrightarrow> ends_at 4 k xs \<Longrightarrow>
   \<exists>w'. header_loop p h k blob w = Some ((0, blob @ xs), w') \<and> ready w' h \<and> pending w' h = rest"
proof (induction xs arbitrary: k blob w)
  case (Cons b xs)
  obtain w1 where w1: "p_tcp_recv p w h 1 5000 = Some ((0, [b]), w1)" "ready w1 h" "pending w1 h = xs @ rest"
    using recv_byte [OF Cons.prems(1), of b "xs @ rest" 5000] Cons.prems(2) by auto
  show ?case
  proof (cases "line_end b \<and> k + 1 = 4")
    case True
    then show ?thesis using w1 Cons.prems(3) by (subst header_loop.simps) (auto simp: line_end_def)
  next
    case False
    have "\<exists>w'. header_loop p h (if line_end b then k + 1 else 0) (blob @ [b]) w1 = Some ((0, (blob @ [b]) @ xs), w') \<and>
        ready w' h \<and> pending w' h = rest"
      by (rule Cons.IH [OF w1(2,3)]) (use Cons.prems(3) False in \<open>auto split: if_splits\<close>)
    then show ?thesis using w1(1) False by (subst header_loop.simps) (auto simp: line_end_def split: if_splits)
  qed
qed simp

lemma chunk_line_reads:
  "ready w h \<Longrightarrow> pending w h = xs @ rest \<Longrightarrow> ends_at 2 k xs \<Longrightarrow> length line + length xs \<le> READ_SIZE \<Longrightarrow>
   \<exists>w'. chunk_line_loop p h k line w = Some ((0, line @ xs), w') \<and> ready w' h \<and> pending w' h = rest"
proof (induction xs arbitrary: k line w)
  case (Cons b xs)
  obtain w1 where w1: "p_tcp_recv p w h 1 5000 = Some ((0, [b]), w1)" "ready w1 h" "pending w1 h = xs @ rest"
    using recv_byte [OF Cons.prems(1), of b "xs @ rest" 5000] Cons.prems(2) by auto
  have l: "length line \<noteq> READ_SIZE" using Cons.prems(4) by simp
  show ?case
  proof (cases "line_end b \<and> k + 1 = 2")
    case True
    then show ?thesis using w1 Cons.prems(3) l by (subst chunk_line_loop.simps) (auto simp: line_end_def)
  next
    case False
    have "\<exists>w'. chunk_line_loop p h (if line_end b then k + 1 else 0) (line @ [b]) w1 = Some ((0, (line @ [b]) @ xs), w') \<and>
        ready w' h \<and> pending w' h = rest"
      by (rule Cons.IH [OF w1(2,3)]) (use Cons.prems(3,4) False in \<open>auto split: if_splits\<close>)
    then show ?thesis using w1(1) False l by (subst chunk_line_loop.simps) (auto simp: line_end_def split: if_splits)
  qed
qed simp

lemma body_loop_reads:
  assumes wr: "\<And>d bs. fs_write fs d bs"
  shows "ready w h \<Longrightarrow> pending w h = d @ rest \<Longrightarrow> n = int (length d) \<Longrightarrow>
    \<exists>w'. body_loop p fs h closes 0 n fp w = Some ((0, fp\<lparr>sk_data := sk_data fp @ d\<rparr>), w') \<and> ready w' h \<and> pending w' h = rest"
proof (induction "length d" arbitrary: d n fp w rule: less_induct)
  case less
  show ?case
  proof (cases "d = []")
    case True
    then show ?thesis using less.prems by (subst body_loop.simps) simp
  next
    case False
    let ?k = "if n > 1024 then 1024 else n"
    have n: "0 < n" using False less.prems(3) by simp
    have k: "0 < ?k" "?k < 2 ^ 31" using n by auto
    obtain bs w1 where w1: "p_tcp_recv p w h ?k 5000 = Some ((0, bs), w1)" "ready w1 h"
      using prompt_recv [OF less.prems(1) _ k, of 5000] less.prems(2) False by auto
    have bs: "bs \<noteq> []" "int (length bs) \<le> ?k" "d @ rest = bs @ pending w1 h"
      using recv_law [OF w1(1)] n less.prems(2) by (auto split: if_splits)
    then have "length bs \<le> length d" using less.prems(3) by (auto split: if_splits)
    define d' where "d' = drop (length bs) d"
    have "take (length bs) d = bs"
      using arg_cong [OF bs(3), of "take (length bs)"] \<open>length bs \<le> length d\<close> by simp
    then have d': "d = bs @ d'" "pending w1 h = d' @ rest"
      using arg_cong [OF bs(3), of "drop (length bs)"] \<open>length bs \<le> length d\<close> append_take_drop_id [of "length bs" d]
      by (simp_all add: d'_def)
    have "length d' < length d" using d'(1) bs(1) by simp
    have m: "n - int (length bs) = int (length d')" using d'(1) less.prems(3) by simp
    have "body_loop p fs h closes 0 n fp w = body_loop p fs h closes 0 (int (length d')) (fp\<lparr>sk_data := sk_data fp @ bs\<rparr>) w1"
      using n w1(1) bs(1) wr m by (subst body_loop.simps) simp
    moreover have "\<exists>w'. body_loop p fs h closes 0 (int (length d')) (fp\<lparr>sk_data := sk_data fp @ bs\<rparr>) w1 =
        Some ((0, fp\<lparr>sk_data := sk_data fp @ bs @ d'\<rparr>), w') \<and> ready w' h \<and> pending w' h = rest"
      using less.hyps [OF \<open>length d' < length d\<close> w1(2) d'(2) HOL.refl, of "fp\<lparr>sk_data := sk_data fp @ bs\<rparr>"] by simp
    ultimately show ?thesis using d'(1) by simp
  qed
qed

text \<open>The first chunk is written, and the line end behind it is taken for a chunk of size 0.\<close>

lemma chunks_loop_first:
  assumes wr: "\<And>d bs. fs_write fs d bs" and r: "ready w h" and d: "d \<noteq> []" "length d < 2 ^ 31"
    and w: "pending w h = hex_digits_of (length d) @ crlf @ d @ crlf @ rest"
  shows "\<exists>w'. chunks_loop p fs h fp w = Some ((- 1, fp\<lparr>sk_data := sk_data fp @ d\<rparr>), w') \<and> pending w' h = rest"
proof -
  let ?l = "hex_digits_of (length d) @ crlf" and ?fp = "fp\<lparr>sk_data := sk_data fp @ d\<rparr>"
  have n: "0 < length d" using d(1) by simp
  have e: "ends_at 2 0 ?l" by (rule ends_at_line) (use hex_digits_of_vals [of "length d"] hex_val_other in blast)
  have len: "length ?l \<le> READ_SIZE"
    using hex_digits_of_length [of "length d" 8] d(2) by (simp add: crlf_def READ_SIZE_def)
  obtain w1 where w1: "chunk_line_loop p h 0 [] w = Some ((0, ?l), w1)" "ready w1 h" "pending w1 h = d @ crlf @ rest"
    using chunk_line_reads [OF r _ e, of "d @ crlf @ rest" "[]"] w len by auto
  obtain w2 where w2: "body_loop p fs h False 0 (int (length d)) fp w1 = Some ((0, ?fp), w2)" "ready w2 h"
    "pending w2 h = crlf @ rest"
    using body_loop_reads [OF wr w1(2,3) HOL.refl] by blast
  have c1: "helper_chunked_reader p fs h fp w = Some ((0, ?fp), w2)"
    using w1(1) chunk_size_digits [OF n d(2)] n w2(1) by (simp add: helper_chunked_reader_def)
  have e2: "ends_at 2 0 crlf" by (simp add: crlf_def line_end_def)
  obtain w3 where w3: "chunk_line_loop p h 0 [] w2 = Some ((0, crlf), w3)" "pending w3 h = rest"
    using chunk_line_reads [OF w2(2,3) e2, of "[]"] by (auto simp: crlf_def READ_SIZE_def)
  have c2: "helper_chunked_reader p fs h ?fp w2 = Some ((- 1, ?fp), w3)"
    using w3(1) chunk_size_empty by (simp add: helper_chunked_reader_def)
  have "chunks_loop p fs h fp w = chunks_loop p fs h ?fp w2" using c1 by (subst chunks_loop.simps) simp
  also have "\<dots> = Some ((- 1, ?fp), w3)" using c2 by (subst chunks_loop.simps) simp
  finally show ?thesis using w3(2) by blast
qed

lemma decoder_reads:
  assumes "ready w h" "pending w h = hdr @ rest" "ok_header hdr"
  shows "\<exists>w'. http_header_msg_decoder p h True w =
    Some ((0, Some (is_chunked_text (snd (content_length hdr)), fst (content_length hdr))), w') \<and> ready w' h \<and> pending w' h = rest"
proof -
  have hd: "ends_at 4 0 hdr" "takeWhile (\<lambda>b. b \<noteq> 0) hdr = hdr" "take 12 hdr = cstr ''HTTP/1.1 200''"
    using assms(3) by (auto simp: ok_header_def)
  obtain w1 where "header_loop p h 0 [] w = Some ((0, hdr), w1)" "ready w1 h" "pending w1 h = rest"
    using header_loop_reads [OF assms(1,2) hd(1), of "[]"] by auto
  then show ?thesis by (simp add: http_header_msg_decoder_def Let_def hd(2,3) split_beta)
qed

end

subsection \<open>Lengths\<close>

text \<open>The decimal digits of \<open>n\<close>, read in base 16.\<close>

fun hex_of_decimal :: "nat \<Rightarrow> nat" where
  "hex_of_decimal n = (if n < 10 then n else 16 * hex_of_decimal (n div 10) + n mod 10)"

declare hex_of_decimal.simps [simp del]

lemma hex_of_decimal_less: "10 \<le> n \<Longrightarrow> n < hex_of_decimal n"
proof (induction n rule: hex_of_decimal.induct)
  case (1 n)
  have "n div 10 \<le> hex_of_decimal (n div 10)"
    using 1 by (cases "n div 10 < 10") (auto simp: hex_of_decimal.simps [of "n div 10"])
  then have "16 * (n div 10) + n mod 10 \<le> hex_of_decimal n" using 1(2) by (subst hex_of_decimal.simps) simp
  moreover have "n = 10 * (n div 10) + n mod 10" "0 < n div 10" using 1(2) by auto
  ultimately show ?case by linarith
qed

lemma decimal_hex_val: "d < 10 \<Longrightarrow> hex_val (of_nat (48 + d)) = Some d"
proof -
  have "\<forall>d \<in> set [0..<10]. hex_val (of_nat (48 + d)) = Some d" by code_simp
  then show "d < 10 \<Longrightarrow> ?thesis" by simp
qed

lemma decimal_digits: "(\<forall>b \<in> set (nat_digits n). hex_val b \<noteq> None \<and> is_digit b) \<and> nat_digits n \<noteq> [] \<and>
  foldl (\<lambda>n b. n * 16 + int (the (hex_val b))) 0 (nat_digits n) = int (hex_of_decimal n)"
proof (induction n rule: nat_digits.induct)
  case (1 n)
  show ?case
  proof (cases "n < 10")
    case True
    then show ?thesis using decimal_hex_val [of n] digit_of_nat [of n]
      by (simp add: nat_digits.simps [of n] hex_of_decimal.simps [of n] del: of_nat_add)
  next
    case False
    then show ?thesis using 1 decimal_hex_val [of "n mod 10"] digit_of_nat [of "n mod 10"]
      by (simp add: nat_digits.simps [of n] hex_of_decimal.simps [of n] del: of_nat_add)
  qed
qed

lemma strtol_16_decimal:
  assumes "hex_of_decimal n < 2 ^ 63"
  shows "fst (strtol_16 (nat_digits n)) = int (hex_of_decimal n)"
proof -
  obtain d ds where d: "nat_digits n = d # ds" using decimal_digits [of n] by (cases "nat_digits n") auto
  have v: "\<forall>b \<in> set (d # ds). hex_val b \<noteq> None" using decimal_digits [of n] by (simp add: d)
  then have o: "\<not> is_space d" "d \<noteq> 0x2D" "d \<noteq> 0x2B" using hex_val_other [of d] by auto
  have "\<And>e es. ds = e # es \<Longrightarrow> e \<noteq> 0x78 \<and> e \<noteq> 0x58" using v hex_val_other by fastforce
  then have "hex_prefixed (d # ds) = hex_scan (d # ds)" by (auto simp: hex_prefixed_def split: list.split)
  also have "\<dots> = (int (hex_of_decimal n), [])"
    using v decimal_digits [of n] by (simp add: hex_scan_def d takeWhile_eq_all_conv [THEN iffD2])
  finally show ?thesis using o assms by (simp add: strtol_16_def long_clamp_def d Let_def)
qed

text \<open>A header that gives the length of the body in decimal, as HTTP does.\<close>

lemma content_length_decimal:
  assumes "find_sub (cstr ''Content-Length: '') hdr = Some (before, nat_digits n @ 0x0D # hs)" "hex_of_decimal n < 2 ^ 63"
  shows "fst (content_length hdr) = int (hex_of_decimal n)"
proof -
  have v: "\<forall>b \<in> set (nat_digits n). \<not> line_end b" using decimal_digits [of n] hex_val_other by blast
  have e: "line_end 0x0D" by (simp add: line_end_def)
  have t: "takeWhile (\<lambda>b. \<not> line_end b) (nat_digits n @ 0x0D # hs) = nat_digits n" using v e by (simp add: takeWhile_append2)
  have d: "dropWhile line_end (nat_digits n @ 0x0D # hs) = nat_digits n @ 0x0D # hs"
    using decimal_digits [of n] v by (cases "nat_digits n") auto
  show ?thesis
    using strtol_16_decimal [OF assms(2)] by (simp only: content_length_def assms(1) Let_def t d option.case prod.case) simp
qed

context prompt_transport
begin

lemma body_loop_short:
  assumes wr: "\<And>d bs. fs_write fs d bs"
  shows "ready w h \<Longrightarrow> pending w h = d \<Longrightarrow> int (length d) < n \<Longrightarrow> body_loop p fs h closes r0 n fp w = Some ((r, fp'), w') \<Longrightarrow>
    (\<exists>w n t bs w'. p_tcp_recv p w h n t = Some ((r, bs), w')) \<and> r < 0 \<and> fp' = fp\<lparr>sk_data := sk_data fp @ d\<rparr>"
proof (induction "length d" arbitrary: d n r0 fp w rule: less_induct)
  case less
  let ?k = "if n > 1024 then 1024 else n"
  have n: "0 < n" using less.prems(3) by linarith
  then have k: "0 < ?k" "?k < 2 ^ 31" by auto
  obtain ret bs w1 where w1: "p_tcp_recv p w h ?k 5000 = Some ((ret, bs), w1)"
    using less.prems(4) n by (subst (asm) body_loop.simps) (auto split: option.splits)
  have step: "Some ((r, fp'), w') = (if ret \<noteq> 0 then Some ((ret, fp), w1)
      else if bs = [] \<or> \<not> fs_write fs (sk_data fp) bs
      then Some ((ERR_TR50_FILE_WRITE_FAILED, if closes then fp\<lparr>sk_open := False\<rparr> else fp), w1)
      else body_loop p fs h closes ret (n - int (length bs)) (fp\<lparr>sk_data := sk_data fp @ bs\<rparr>) w1)"
    using less.prems(4) n w1 by (subst (asm) body_loop.simps) simp
  note law = recv_law [OF w1 k, unfolded less.prems(2)]
  show ?case
  proof (cases "d = []")
    case True
    then have "ret < 0" "r = ret" "fp' = fp" using law step by (auto split: if_splits)
    then show ?thesis using w1 True by auto blast
  next
    case False
    obtain bs2 w2 where p: "p_tcp_recv p w h ?k 5000 = Some ((0, bs2), w2)" "ready w2 h"
      using prompt_recv [OF less.prems(1) _ k, of 5000] less.prems(2) False by auto
    then have e: "ret = 0" "bs2 = bs" "w2 = w1" using w1 by auto
    then have bs: "bs \<noteq> []" "d = bs @ pending w1 h" using law by auto
    have "body_loop p fs h closes ret (n - int (length bs)) (fp\<lparr>sk_data := sk_data fp @ bs\<rparr>) w1 = Some ((r, fp'), w')"
      using step e(1) bs(1) wr by simp
    moreover have "length (pending w1 h) < length d" "int (length (pending w1 h)) < n - int (length bs)"
      using bs less.prems(3) arg_cong [OF bs(2), of length] by (auto simp: length_greater_0_conv [symmetric] simp del: length_greater_0_conv)
    ultimately show ?thesis
      using less.hyps [of "pending w1 h" w1 "n - int (length bs)" ret "fp\<lparr>sk_data := sk_data fp @ bs\<rparr>"] p(2) e(3) bs(2) by auto
  qed
qed

end

subsection \<open>Downloads\<close>

lemma download_stages:
  assumes "p_tcp_connect p w (take 127 hst) 80 0 = Some ((0, h), w1)"
    and "p_tcp_send p w1 h (take 1023 (get_command file_id hst)) 5000 = Some (0, w2)"
    and "download_transfer p fs file_id hst w = Some ((ret, data), w')"
  obtains r fp w3 where "download_body p fs h \<lparr>sk_open = True, sk_data = []\<rparr> w2 = Some ((r, fp), w3)" "data = sk_data fp"
    "ret = (if r = - 1 \<or> r = 0 then 0 else ERR_TR50_FILE_PUT_HTTP)"
  using assms by (auto simp: download_transfer_def download_end_def bind_eq_Some_conv split: if_splits)

lemma download_refused:
  assumes "header_loop p h 0 [] w = Some ((r, blob), w1)" "take 12 (takeWhile (\<lambda>b. b \<noteq> 0) blob) \<noteq> cstr ''HTTP/1.1 200''"
  shows "download_body p fs h fp w = Some ((- 1, fp), w1)"
  using assms by (simp add: download_body_def http_header_msg_decoder_def helper_reader_def Let_def)

context prompt_transport
begin

lemma download_chunked:
  assumes wr: "\<And>d bs. fs_write fs d bs"
    and w: "ready w h" "pending w h = hdr @ hex_digits_of (length d) @ crlf @ d @ crlf @ rest"
    and hd: "ok_header hdr" "is_chunked_text (snd (content_length hdr))" and d: "d \<noteq> []" "length d < 2 ^ 31"
  shows "\<exists>w'. download_body p fs h fp w = Some ((- 1, fp\<lparr>sk_data := sk_data fp @ d\<rparr>), w')"
proof -
  obtain w1 where w1: "http_header_msg_decoder p h True w =
      Some ((0, Some (is_chunked_text (snd (content_length hdr)), fst (content_length hdr))), w1)"
    "ready w1 h" "pending w1 h = hex_digits_of (length d) @ crlf @ d @ crlf @ rest"
    using decoder_reads [OF w hd(1)] by blast
  then show ?thesis
    using chunks_loop_first [OF wr w1(2) d w1(3), of fp] hd(2) by (auto simp: download_body_def)
qed

lemma download_sized:
  assumes wr: "\<And>d bs. fs_write fs d bs" and code: "\<And>w n t r bs w'. p_tcp_recv p w h n t = Some ((r, bs), w') \<Longrightarrow> r \<noteq> - 1"
    and w: "ready w h" "pending w h = hdr @ d"
    and hd: "ok_header hdr" "\<not> is_chunked_text (snd (content_length hdr))"
    and len: "find_sub (cstr ''Content-Length: '') hdr = Some (before, nat_digits (length d) @ 0x0D # hs)" "hex_of_decimal (length d) < 2 ^ 31"
    and r: "download_body p fs h fp w = Some ((r, fp'), w')"
  shows "fp' = fp\<lparr>sk_data := sk_data fp @ d\<rparr> \<and> (if length d < 10 then r = - 1 \<or> r = 0 else r \<noteq> - 1 \<and> r \<noteq> 0)"
proof -
  let ?n = "int (hex_of_decimal (length d))"
  have n: "fst (content_length hdr) = ?n" by (rule content_length_decimal [OF len(1)]) (use len(2) in simp)
  obtain w1 where w1: "http_header_msg_decoder p h True w =
      Some ((0, Some (is_chunked_text (snd (content_length hdr)), fst (content_length hdr))), w1)" "ready w1 h" "pending w1 h = d"
    using decoder_reads [OF w(1), of hdr d] w(2) hd(1) by blast
  have b: "helper_reader p fs h ?n fp w1 = Some ((r, fp'), w')"
    using r w1(1) hd(2) len(2) by (simp add: download_body_def n c_int_id)
  show ?thesis
  proof (cases "length d < 10")
    case True
    then have n: "?n = int (length d)" by (simp add: hex_of_decimal.simps [of "length d"])
    show ?thesis
    proof (cases "d = []")
      case True
      then show ?thesis using b n by (simp add: helper_reader_def)
    next
      case False
      then show ?thesis
        using b n body_loop_reads [OF wr w1(2), of d "[]" "int (length d)" True fp] w1(3) True by (auto simp: helper_reader_def)
    qed
  next
    case False
    then have l: "int (length d) < ?n" using hex_of_decimal_less [of "length d"] by simp
    then have "body_loop p fs h True 0 ?n fp w1 = Some ((r, fp'), w')" using b by (auto simp: helper_reader_def)
    from body_loop_short [OF wr w1(2,3) l this] obtain w n t bs w'
      where short: "p_tcp_recv p w h n t = Some ((r, bs), w')" "r < 0" "fp' = fp\<lparr>sk_data := sk_data fp @ d\<rparr>" by blast
    show ?thesis using short(2,3) code [OF short(1)] False by simp
  qed
qed

end

subsection \<open>Chunks read back\<close>

text \<open>A reference decoder of the chunked encoding: size line, data, line end, up to the chunk of size 0.\<close>

function unchunk :: "bytes \<Rightarrow> bytes option" where
  "unchunk s =
     (let line = takeWhile (\<lambda>b. \<not> line_end b) s; rest = dropWhile (\<lambda>b. \<not> line_end b) s; n = nat (fst (hex_scan line)) in
      if line = [] \<or> snd (hex_scan line) \<noteq> [] \<or> take 2 rest \<noteq> crlf then None
      else if n = 0 then (if drop 2 rest = crlf then Some [] else None)
      else if length rest < n + 4 \<or> take 2 (drop (n + 2) rest) \<noteq> crlf then None
      else map_option ((@) (take n (drop 2 rest))) (unchunk (drop (n + 4) rest)))"
  by pat_completeness auto
termination
proof (relation "measure length", goal_cases)
  case (2 s line rest n)
  have "length rest \<le> length s" using 2(2) length_dropWhile_le by simp
  then show ?case using 2 by auto
qed simp

declare unchunk.simps [simp del]

lemma line_of_digits:
  "takeWhile (\<lambda>b. \<not> line_end b) (hex_digits_of n @ crlf @ rest) = hex_digits_of n"
  "dropWhile (\<lambda>b. \<not> line_end b) (hex_digits_of n @ crlf @ rest) = crlf @ rest"
proof -
  have v: "\<forall>b \<in> set (hex_digits_of n). \<not> line_end b" using hex_digits_of_vals [of n] hex_val_other by blast
  have e: "line_end 0x0D" by (simp add: line_end_def)
  show "takeWhile (\<lambda>b. \<not> line_end b) (hex_digits_of n @ crlf @ rest) = hex_digits_of n"
    using v by (simp add: takeWhile_append2) (simp add: crlf_def e)
  show "dropWhile (\<lambda>b. \<not> line_end b) (hex_digits_of n @ crlf @ rest) = crlf @ rest"
    using v by (simp add: dropWhile_append2) (simp add: crlf_def e)
qed

lemma crlf_take_drop: "take 2 (crlf @ s) = crlf" "drop 2 (crlf @ s) = s" "length crlf = 2"
  by (simp_all add: crlf_def)

lemma unchunk_chunk:
  assumes "d \<noteq> []"
  shows "unchunk (hex_digits_of (length d) @ crlf @ d @ crlf @ rest) = map_option ((@) d) (unchunk rest)"
proof -
  have "drop (length d + 2) (crlf @ d @ crlf @ rest) = crlf @ rest" "drop (length d + 4) (crlf @ d @ crlf @ rest) = rest"
    by (simp_all add: crlf_take_drop)
  then show ?thesis
    using assms hex_scan_digits [of "[]" "length d"]
    by (subst unchunk.simps) (simp add: line_of_digits Let_def crlf_take_drop)
qed

lemma unchunk_end: "unchunk (cstr ''0'' @ crlf @ crlf) = Some []"
  by code_simp

lemma unchunk_blocks: "unchunk (concat (concat (map chunk_sends (blocks content))) @ cstr ''0'' @ crlf @ crlf) = Some content"
proof (induction content rule: blocks.induct)
  case (1 bs)
  show ?case
  proof (cases "bs = []")
    case True
    then show ?thesis by (simp add: blocks.simps unchunk_end)
  next
    case False
    then have "take READ_SIZE bs \<noteq> []" by (simp add: READ_SIZE_def)
    from unchunk_chunk [OF this] show ?thesis
      using 1 [OF False] False by (simp add: blocks.simps [of bs] chunk_sends_def)
  qed
qed

subsection \<open>What goes onto the connection\<close>

context wire
begin

lemma send_all_sent:
  "plain_socket w h \<Longrightarrow> send_all p h bss w = Some (ret, w') \<Longrightarrow>
   \<exists>ds rest. concat bss = ds @ rest \<and> sent w' h = sent w h @ ds \<and> (ret = 0 \<longrightarrow> rest = [])"
proof (induction bss arbitrary: w)
  case (Cons bs bss)
  obtain r w1 where s: "p_tcp_send p w h bs 5000 = Some (r, w1)"
    using Cons.prems(2) by (auto split: option.splits)
  obtain ds rest where d: "bs = ds @ rest" "sent w1 h = sent w h @ ds" "r = 0 \<longrightarrow> rest = []" "plain_socket w1 h"
    using send_law [OF Cons.prems(1) s] by blast
  show ?case
  proof (cases "r = 0")
    case True
    then obtain ds2 rest2 where "concat bss = ds2 @ rest2" "sent w' h = sent w1 h @ ds2" "ret = 0 \<longrightarrow> rest2 = []"
      using Cons.IH [OF d(4)] Cons.prems(2) s by auto
    then show ?thesis using d True by (intro exI [of _ "ds @ ds2"] exI [of _ rest2]) auto
  next
    case False
    then have "ret = r" "w' = w1" using Cons.prems(2) s by auto
    then show ?thesis using d False by (intro exI [of _ ds] exI [of _ "rest @ concat bss"]) simp
  qed
qed auto

lemma upload_sent:
  assumes "upload_transfer p file_id hst content w = Some (0, w')"
  shows "\<exists>h w1 w2 body. p_tcp_connect p w (take 127 (hst @ cstr '':80'')) 80 0 = Some ((0, h), w1) \<and>
    send_all p h (upload_sends file_id hst content) w1 = Some (0, w2) \<and>
    sent w2 h = sent w1 h @ take 1023 (post_command file_id hst) @ body \<and> unchunk body = Some content"
proof -
  obtain ret h w1 where c: "p_tcp_connect p w (take 127 (hst @ cstr '':80'')) 80 0 = Some ((ret, h), w1)"
    using assms by (auto simp: upload_transfer_def bind_eq_Some_conv)
  have r: "ret = 0"
    using assms c by (auto simp: upload_transfer_def bind_eq_Some_conv ERR_TR50_FILE_PUT_HTTP_def split: if_splits)
  obtain ret2 w2 where s: "send_all p h (upload_sends file_id hst content) w1 = Some (ret2, w2)"
    using assms c r by (auto simp: upload_transfer_def bind_eq_Some_conv)
  have "ret2 = 0"
    using assms c r s by (auto simp: upload_transfer_def bind_eq_Some_conv ERR_TR50_FILE_PUT_HTTP_def split: if_splits)
  then obtain ds where "concat (upload_sends file_id hst content) = ds" "sent w2 h = sent w1 h @ ds"
    using send_all_sent [OF connect_law [OF c [unfolded r]] s] by auto
  then show ?thesis
    using c r s \<open>ret2 = 0\<close> unchunk_blocks [of content]
    by (intro exI [of _ h] exI [of _ w1] exI [of _ w2]
        exI [of _ "concat (concat (map chunk_sends (blocks content))) @ cstr ''0'' @ crlf @ crlf"])
      (auto simp: upload_sends_def)
qed

end

subsection \<open>The properties\<close>

text \<open>A peer whose bytes are the world is a prompt transport.\<close>

interpretation loop: prompt_transport loop_platform "\<lambda>w h. w" "\<lambda>w h. True" 0
proof
  show "live m \<and> True" if "p_malloc loop_platform w = (m, w')" for w m w'
    using that by (auto simp: loop_platform_def live_def)
qed (auto simp: loop_platform_def malloc_spec_def malloc_null_def ERR_TR50_TCP_TIMEOUT_def split: if_splits)

text \<open>C28: An upload that answers 0 has put the request line and header on its connection and behind them a body in
  the chunked encoding from which a reference decoder reads exactly the content of the file.\<close>

theorem upload_on_the_wire:
  assumes "wire p sent plain_socket" "upload_transfer p file_id hst content w = Some (0, w')"
  shows "\<exists>h w1 w2 body. p_tcp_connect p w (take 127 (hst @ cstr '':80'')) 80 0 = Some ((0, h), w1) \<and>
    send_all p h (upload_sends file_id hst content) w1 = Some (0, w2) \<and>
    sent w2 h = sent w1 h @ take 1023 (post_command file_id hst) @ body \<and> unchunk body = Some content"
  by (rule wire.upload_sent [OF assms])

text \<open>A download whose answer comes in chunks reports success with the first chunk only: the line end behind the data
  of a chunk is read as the size line of the next, whose size is then 0.\<close>

theorem chunked_download_truncates:
  assumes "prompt_transport p pending rdy clock" "\<And>d bs. fs_write fs d bs"
    and "p_tcp_connect p w (take 127 hst) 80 0 = Some ((0, h), w1)"
    and "p_tcp_send p w1 h (take 1023 (get_command file_id hst)) 5000 = Some (0, w2)"
    and "rdy w2 h" "pending w2 h = hdr @ hex_digits_of (length d) @ crlf @ d @ crlf @ rest"
    and "ok_header hdr" "is_chunked_text (snd (content_length hdr))" "d \<noteq> []" "length d < 2 ^ 31"
    and "download_transfer p fs file_id hst w = Some ((ret, data), w')"
  shows "ret = 0 \<and> data = d"
  by (rule download_stages [OF assms(3,4,11)])
    (use prompt_transport.download_chunked [OF assms(1,2,5-10), of "\<lparr>sk_open = True, sk_data = []\<rparr>"] in auto)

text \<open>A download whose answer gives the length of its body, in decimal as HTTP does, writes the whole body, but reports
  success only for bodies of fewer than ten bytes: the length is read in base 16, and the function waits for more bytes
  than there are.\<close>

theorem content_length_read_as_hex:
  assumes "prompt_transport p pending rdy clock" "\<And>d bs. fs_write fs d bs"
    and "p_tcp_connect p w (take 127 hst) 80 0 = Some ((0, h), w1)"
    and "p_tcp_send p w1 h (take 1023 (get_command file_id hst)) 5000 = Some (0, w2)"
    and "\<And>w n t r bs w'. p_tcp_recv p w h n t = Some ((r, bs), w') \<Longrightarrow> r \<noteq> - 1"
    and "rdy w2 h" "pending w2 h = hdr @ d" "ok_header hdr" "\<not> is_chunked_text (snd (content_length hdr))"
    and "find_sub (cstr ''Content-Length: '') hdr = Some (before, nat_digits (length d) @ 0x0D # hs)" "hex_of_decimal (length d) < 2 ^ 31"
    and "download_transfer p fs file_id hst w = Some ((ret, data), w')"
  shows "data = d \<and> ret = (if length d < 10 then 0 else ERR_TR50_FILE_PUT_HTTP)"
proof -
  obtain r fp w3 where s: "download_body p fs h \<lparr>sk_open = True, sk_data = []\<rparr> w2 = Some ((r, fp), w3)" "data = sk_data fp"
    "ret = (if r = - 1 \<or> r = 0 then 0 else ERR_TR50_FILE_PUT_HTTP)"
    by (rule download_stages [OF assms(3,4,12)])
  from prompt_transport.download_sized [OF assms(1,2,5-11) s(1)] s(2,3) show ?thesis by (auto split: if_splits)
qed

text \<open>A download reports success, with an empty file, for every answer whose status is not 200, and also when no
  answer comes at all.\<close>

theorem download_ignores_status:
  assumes "p_tcp_connect p w (take 127 hst) 80 0 = Some ((0, h), w1)"
    and "p_tcp_send p w1 h (take 1023 (get_command file_id hst)) 5000 = Some (0, w2)"
    and "header_loop p h 0 [] w2 = Some ((r, blob), w3)" "take 12 (takeWhile (\<lambda>b. b \<noteq> 0) blob) \<noteq> cstr ''HTTP/1.1 200''"
    and "download_transfer p fs file_id hst w = Some ((ret, data), w')"
  shows "ret = 0 \<and> data = []"
  by (rule download_stages [OF assms(1,2,5)]) (use download_refused [OF assms(3,4)] in auto)

subsection \<open>Witnesses\<close>

text \<open>A peer that answers with one chunk of three bytes, and one that answers with a body of twelve.\<close>

abbreviation disk :: files where
  "disk \<equiv> \<lparr>fs_read = (\<lambda>_. None), fs_create = (\<lambda>_. True), fs_write = (\<lambda>_ _. True)\<rparr>"

definition chunked_header :: bytes where
  "chunked_header = cstr ''HTTP/1.1 200 OK'' @ crlf @ cstr ''Transfer-Encoding: chunked'' @ crlf @ crlf"

definition sized_header :: bytes where
  "sized_header = cstr ''HTTP/1.1 200 OK'' @ crlf @ cstr ''Content-Length: 12'' @ crlf @ crlf"

declare tcp_send_loop.simps [code] ssl_send_loop.simps [code]

lemma upload_on_the_wire_witness:
  "\<exists>w'. upload_transfer linux_platform (cstr ''f1'') (cstr ''h'') [1, 2, 3] (os_init [[RxData (cstr ''HTTP/1.1 200 OK'' @ crlf @ crlf)]]) = Some (0, w') \<and>
    (\<exists>h w1 w2 body. p_tcp_connect linux_platform (os_init [[RxData (cstr ''HTTP/1.1 200 OK'' @ crlf @ crlf)]]) (take 127 (cstr ''h'' @ cstr '':80'')) 80 0 = Some ((0, h), w1) \<and>
    send_all linux_platform h (upload_sends (cstr ''f1'') (cstr ''h'') [1, 2, 3]) w1 = Some (0, w2) \<and>
    os_sent w2 h = os_sent w1 h @ take 1023 (post_command (cstr ''f1'') (cstr ''h'')) @ body \<and> unchunk body = Some [1, 2, 3])"
proof -
  let ?u = "upload_transfer linux_platform (cstr ''f1'') (cstr ''h'') [1, 2, 3] (os_init [[RxData (cstr ''HTTP/1.1 200 OK'' @ crlf @ crlf)]])"
  have "map_option fst ?u = Some 0" by code_simp
  then obtain w' where u: "?u = Some (0, w')" by auto
  show ?thesis using u upload_on_the_wire [OF linux_wire.wire_axioms u] by blast
qed

lemma chunked_download_truncates_witness:
  "\<exists>w'. download_transfer loop_platform disk (cstr ''f1'') (cstr ''h'') (chunked_header @ hex_digits_of (length [7, 8, 9 :: byte]) @ crlf @
     [7, 8, 9] @ crlf @ cstr ''2'' @ crlf @ [10, 11] @ crlf @ cstr ''0'' @ crlf @ crlf) = Some ((0, [7, 8, 9]), w')"
proof -
  let ?tail = "cstr ''2'' @ crlf @ [10, 11] @ crlf @ cstr ''0'' @ crlf @ crlf"
  let ?w = "chunked_header @ hex_digits_of (length [7, 8, 9 :: byte]) @ crlf @ [7, 8, 9] @ crlf @ ?tail"
  have "download_transfer loop_platform disk (cstr ''f1'') (cstr ''h'') ?w \<noteq> None" by code_simp
  then obtain ret data w' where d: "download_transfer loop_platform disk (cstr ''f1'') (cstr ''h'') ?w = Some ((ret, data), w')" by auto
  have h: "ok_header chunked_header" "is_chunked_text (snd (content_length chunked_header))" by code_simp+
  have "ret = 0 \<and> data = [7, 8, 9]"
    by (rule chunked_download_truncates [OF loop.prompt_transport_axioms _ _ _ _ _ h _ _ d, where h = 1 and ?w1.0 = ?w and ?w2.0 = ?w and rest = ?tail])
      (simp_all add: loop_platform_def)
  then show ?thesis using d by blast
qed

lemma content_length_read_as_hex_witness:
  "\<exists>w'. download_transfer loop_platform disk (cstr ''f1'') (cstr ''h'') (sized_header @ [1, 2, 3, 4, 5, 6, 7, 8, 9, 10, 11, 12]) =
     Some ((ERR_TR50_FILE_PUT_HTTP, [1, 2, 3, 4, 5, 6, 7, 8, 9, 10, 11, 12]), w')"
proof -
  let ?b = "[1, 2, 3, 4, 5, 6, 7, 8, 9, 10, 11, 12] :: bytes"
  let ?w = "sized_header @ ?b"
  have "download_transfer loop_platform disk (cstr ''f1'') (cstr ''h'') ?w \<noteq> None" by code_simp
  then obtain ret data w' where d: "download_transfer loop_platform disk (cstr ''f1'') (cstr ''h'') ?w = Some ((ret, data), w')" by auto
  have h: "ok_header sized_header" "\<not> is_chunked_text (snd (content_length sized_header))" by code_simp+
  have len: "nat_digits (length ?b) = [0x31, 0x32]" "hex_of_decimal (length ?b) < 2 ^ 31"
    by (simp_all add: nat_digits.simps hex_of_decimal.simps)
  have f: "find_sub (cstr ''Content-Length: '') sized_header =
       Some (cstr ''HTTP/1.1 200 OK'' @ crlf, nat_digits (length ?b) @ 0x0D # [0x0A, 0x0D, 0x0A])"
    unfolding len(1) by code_simp
  have t: "p_tcp_recv loop_platform w h n t = Some ((r, bs), w') \<Longrightarrow> r \<noteq> - 1" for w h n t r bs w'
    by (auto simp: loop_platform_def ERR_TR50_TCP_TIMEOUT_def split: if_splits)
  have "data = ?b \<and> ret = (if length ?b < 10 then 0 else ERR_TR50_FILE_PUT_HTTP)"
    by (rule content_length_read_as_hex [OF loop.prompt_transport_axioms _ _ _ t _ _ h f len(2) d, where h = 1 and ?w1.0 = ?w and ?w2.0 = ?w])
      (simp_all add: loop_platform_def)
  then show ?thesis using d by simp
qed

lemma download_ignores_status_witness:
  "\<exists>w'. download_transfer loop_platform disk (cstr ''f1'') (cstr ''h'') (cstr ''HTTP/1.1 404 Not Found'' @ crlf @ crlf) = Some ((0, []), w')"
proof -
  let ?w = "cstr ''HTTP/1.1 404 Not Found'' @ crlf @ crlf"
  have "download_transfer loop_platform disk (cstr ''f1'') (cstr ''h'') ?w \<noteq> None" by code_simp
  then obtain ret data w' where d: "download_transfer loop_platform disk (cstr ''f1'') (cstr ''h'') ?w = Some ((ret, data), w')" by auto
  have h: "header_loop loop_platform 1 0 [] ?w = Some ((0, ?w), [])"
    "take 12 (takeWhile (\<lambda>b. b \<noteq> 0) ?w) \<noteq> cstr ''HTTP/1.1 200''" by code_simp+
  have "ret = 0 \<and> data = []" by (rule download_ignores_status [OF _ _ h d]) (simp_all add: loop_platform_def)
  then show ?thesis using d by blast
qed


end
