(* ===== verification/Tr50_Blob.thy ===== *)
theory Tr50_Blob
  imports Tr50_Platform
begin

section \<open>Growing buffers (util/common/tr50.blob.c, util/linux/linux.blob.c)\<close>

text \<open>
  \<open>_BLOB\<close>: a block, its size, how much of it is used and how much is not.  A handle is the structure, or None for
  NULL; \<open>_blob_delete\<close> gives the memory back and leaves no state.  The sizes are \<open>int\<close>: one that leaves its range has
  no defined result.
\<close>

record blob =
  bl_buffer :: bytes
  bl_size :: int
  bl_len :: int
  bl_unused :: int

definition BLOB_DEFAULT_SIZE :: int where "BLOB_DEFAULT_SIZE = 1024"

definition int_range :: "int \<Rightarrow> bool" where
  "int_range n \<longleftrightarrow> - (2 ^ 31) \<le> n \<and> n < 2 ^ 31"

subsection \<open>Operations\<close>

definition blob_create :: "malloc \<Rightarrow> malloc \<Rightarrow> int \<Rightarrow> int + blob" where
  "blob_create m1 m2 initial_length =
     (if m1 32 = None then Inl ERR_TR50_MALLOC
      else
        let sz = (if initial_length \<le> 0 then BLOB_DEFAULT_SIZE else initial_length) in
        if m2 (nat sz) = None then Inl ERR_TR50_MALLOC
        else Inr \<lparr>bl_buffer = replicate (nat sz) 0, bl_size = sz, bl_len = 0, bl_unused = sz\<rparr>)"

definition blob_clear :: "blob option \<Rightarrow> int \<times> blob option" where
  "blob_clear handle =
     (case handle of
        None \<Rightarrow> (ERR_TR50_BADHANDLE, None)
      | Some blob \<Rightarrow> (0, Some (blob\<lparr>bl_buffer := replicate (nat (bl_size blob)) 0, bl_len := 0, bl_unused := bl_size blob\<rparr>)))"

definition blob_get_buffer :: "blob option \<Rightarrow> bytes option" where
  "blob_get_buffer handle = map_option bl_buffer handle"

definition blob_get_length :: "blob option \<Rightarrow> int" where
  "blob_get_length handle = (case handle of None \<Rightarrow> ERR_TR50_BADHANDLE | Some blob \<Rightarrow> bl_len blob)"

text \<open>\<open>realloc\<close> keeps what was in the block; the rest is cleared.\<close>

definition blob_grow :: "malloc \<Rightarrow> blob \<Rightarrow> int \<Rightarrow> (int \<times> blob) option" where
  "blob_grow m blob additional =
     (if additional < bl_unused blob then Some (0, blob)
      else
        let new_size = (if additional - bl_unused blob > bl_size blob then additional + bl_len blob else bl_size blob * 2) in
        if \<not> int_range (additional - bl_unused blob) \<or> \<not> int_range new_size then None
        else if m (c_size new_size) = None then Some (ERR_TR50_MALLOC, blob)
        else if new_size < bl_size blob then None
        else Some (0, blob\<lparr>bl_buffer := bl_buffer blob @ replicate (nat (new_size - bl_size blob)) 0, bl_size := new_size,
                           bl_unused := new_size - bl_len blob\<rparr>))"

text \<open>\<open>data\<close> is None for NULL: zeros are appended.\<close>

definition blob_append :: "malloc \<Rightarrow> blob option \<Rightarrow> bytes option \<Rightarrow> int \<Rightarrow> (int \<times> blob option) option" where
  "blob_append m handle data data_len =
     (case handle of
        None \<Rightarrow> Some (ERR_TR50_BADHANDLE, None)
      | Some blob \<Rightarrow> do {
          (ret, blob) \<leftarrow> blob_grow m blob data_len;
          if ret < 0 then Some (ret, Some blob)
          else do {
            src \<leftarrow> (case data of None \<Rightarrow> (if data_len < 0 then None else Some (replicate (nat data_len) 0))
                              | Some d \<Rightarrow> mem_read d 0 (c_size data_len));
            buffer \<leftarrow> mem_write (bl_buffer blob) (bl_len blob) src;
            Some (0, Some (blob\<lparr>bl_buffer := buffer, bl_len := bl_len blob + data_len, bl_unused := bl_unused blob - data_len\<rparr>)) } })"

text \<open>What \<open>vsnprintf\<close> prints for a format whose only directives are \<open>%%\<close> and, once and with an argument, \<open>%s\<close>; whether
  the argument was taken.  Another directive has no argument here.\<close>

fun format_text :: "bytes \<Rightarrow> bytes option \<Rightarrow> (bytes \<times> bool) option" where
  "format_text [] arg = Some ([], False)"
| "format_text (b # bs) arg =
     (if b \<noteq> 0x25 then map_option (\<lambda>(t, u). (b # t, u)) (format_text bs arg)
      else case bs of
             [] \<Rightarrow> None
           | c # cs \<Rightarrow>
               if c = 0x25 then map_option (\<lambda>(t, u). (0x25 # t, u)) (format_text cs arg)
               else if c = 0x73 then (case arg of None \<Rightarrow> None | Some s \<Rightarrow> map_option (\<lambda>(t, _). (s @ t, True)) (format_text cs None))
               else None)"

text \<open>The bytes that \<open>vsnprintf\<close> writes into a space of \<open>n\<close> bytes.\<close>

definition printed :: "int \<Rightarrow> bytes \<Rightarrow> bytes" where
  "printed n text = (if n = 0 then [] else take (c_size n - 1) text @ [0])"

text \<open>After the block has grown the text is printed again, with the same argument list: when its argument has been taken
  that has no defined result.  The outcome of the growth is not looked at.\<close>

definition blob_format_append :: "malloc \<Rightarrow> blob option \<Rightarrow> bytes option \<Rightarrow> bytes option \<Rightarrow> (int \<times> blob option) option" where
  "blob_format_append m handle msg arg =
     (case (handle, msg) of
        (None, _) \<Rightarrow> Some (ERR_TR50_BADHANDLE, None)
      | (Some blob, None) \<Rightarrow> Some (ERR_TR50_PARMS, Some blob)
      | (Some blob, Some pat) \<Rightarrow> do {
          (text, used) \<leftarrow> format_text pat arg;
          let vsnl = int (length text);
          buffer \<leftarrow> mem_write (bl_buffer blob) (bl_len blob) (printed (bl_unused blob) text);
          let blob = blob\<lparr>bl_buffer := buffer\<rparr>;
          blob \<leftarrow> (if vsnl \<ge> bl_unused blob then do {
                    (_, blob) \<leftarrow> blob_grow m blob (vsnl + 1);
                    if used then None
                    else do {
                      buffer \<leftarrow> mem_write (bl_buffer blob) (bl_len blob) (printed (bl_unused blob) text);
                      Some (blob\<lparr>bl_buffer := buffer\<rparr>) } }
                  else Some blob);
          Some (0, Some (blob\<lparr>bl_len := bl_len blob + vsnl, bl_unused := bl_unused blob - vsnl\<rparr>)) })"

subsection \<open>What a buffer holds\<close>

definition blob_abs :: "blob \<Rightarrow> bytes" where
  "blob_abs b = take (nat (bl_len b)) (bl_buffer b)"

definition blob_ok :: "blob \<Rightarrow> bool" where
  "blob_ok b \<longleftrightarrow> 0 \<le> bl_len b \<and> 0 \<le> bl_unused b \<and> 0 < bl_size b \<and> bl_len b + bl_unused b = bl_size b \<and>
     int (length (bl_buffer b)) = bl_size b"

text \<open>A byte behind the content ends it as a C string.\<close>

definition blob_terminated :: "blob \<Rightarrow> bool" where
  "blob_terminated b \<longleftrightarrow> 0 < bl_unused b \<and> bl_buffer b ! nat (bl_len b) = 0"

definition blob_clean :: "blob \<Rightarrow> bool" where
  "blob_clean b \<longleftrightarrow> (\<forall>x \<in> set (drop (nat (bl_len b)) (bl_buffer b)). x = 0)"

lemma blob_terminatedI:
  assumes "blob_ok b" "blob_clean b" "0 < bl_unused b"
  shows "blob_terminated b"
proof -
  have "nat (bl_len b) < length (bl_buffer b)" using assms(1,3) by (auto simp: blob_ok_def)
  from Cons_nth_drop_Suc [OF this] have "bl_buffer b ! nat (bl_len b) \<in> set (drop (nat (bl_len b)) (bl_buffer b))"
    by (metis list.set_intros(1))
  then show ?thesis using assms(2,3) by (auto simp: blob_terminated_def blob_clean_def)
qed

lemma blob_create_ok: "blob_create m1 m2 n = Inr b \<Longrightarrow> blob_ok b \<and> blob_clean b \<and> blob_abs b = [] \<and> 0 < bl_unused b"
  by (auto simp: blob_create_def blob_ok_def blob_clean_def blob_abs_def BLOB_DEFAULT_SIZE_def Let_def split: if_splits)

lemma blob_clear_ok:
  assumes "blob_ok b"
  shows "\<exists>b'. blob_clear (Some b) = (0, Some b') \<and> blob_ok b' \<and> blob_clean b' \<and> blob_abs b' = [] \<and> 0 < bl_unused b'"
  using assms by (auto simp: blob_clear_def blob_ok_def blob_clean_def blob_abs_def)

text \<open>The sizes stay in the range of \<open>int\<close>.\<close>

definition blob_room :: "blob \<Rightarrow> int \<Rightarrow> bool" where
  "blob_room b k \<longleftrightarrow> 2 * bl_size b + k < 2 ^ 31"

lemmas grow_def = blob_grow_def [unfolded ERR_TR50_MALLOC_def]

lemma blob_grow_ok:
  assumes "blob_ok b" "0 \<le> k" "blob_grow m b k = Some (r, b')"
  shows "blob_ok b' \<and> blob_abs b' = blob_abs b \<and> bl_len b' = bl_len b \<and> (blob_clean b \<longrightarrow> blob_clean b') \<and>
    (\<exists>z. bl_buffer b' = bl_buffer b @ replicate z 0) \<and> (bl_size b < 2 ^ 31 \<longrightarrow> bl_size b' < 2 ^ 31) \<and>
    (if r = 0 then k \<le> bl_unused b' else r = ERR_TR50_MALLOC \<and> b' = b \<and> (\<exists>n. m n = None))"
proof (cases "k < bl_unused b \<or> r \<noteq> 0")
  case True
  then show ?thesis using assms by (auto simp: grow_def Let_def ERR_TR50_MALLOC_def split: if_splits)
next
  case False
  define n where "n = (if k - bl_unused b > bl_size b then k + bl_len b else bl_size b * 2)"
  have b': "b' = b\<lparr>bl_buffer := bl_buffer b @ replicate (nat (n - bl_size b)) 0, bl_size := n, bl_unused := n - bl_len b\<rparr>" "r = 0"
    "n < 2 ^ 31"
    using assms(3) False by (auto simp: grow_def n_def int_range_def Let_def split: if_splits)
  have n: "bl_size b \<le> n" "k \<le> n - bl_len b" using assms(1,2) by (auto simp: n_def blob_ok_def)
  then show ?thesis using assms(1) b'(3) by (auto simp: b'(1,2) blob_ok_def blob_abs_def blob_clean_def)
qed

lemma blob_grow_total:
  assumes "blob_ok b" "0 \<le> k" "blob_room b k"
  shows "blob_grow m b k \<noteq> None"
  using assms by (auto simp: blob_grow_def Let_def blob_ok_def blob_room_def int_range_def)

lemma in_drop_more: "x \<in> set (drop (n + k) xs) \<Longrightarrow> x \<in> set (drop n xs)"
  by (metis add.commute drop_drop in_set_dropD)

lemma blob_write_abs:
  assumes "blob_ok b" "mem_write (bl_buffer b) (bl_len b) src = Some buf"
  shows "take (nat (bl_len b) + length src) buf = blob_abs b @ src \<and> length buf = length (bl_buffer b) \<and>
    take (nat (bl_len b)) buf = blob_abs b \<and> drop (nat (bl_len b) + length src) buf = drop (nat (bl_len b) + length src) (bl_buffer b)"
proof -
  have b: "buf = take (nat (bl_len b)) (bl_buffer b) @ src @ drop (nat (bl_len b) + length src) (bl_buffer b)"
    "nat (bl_len b) + length src \<le> length (bl_buffer b)"
    using assms by (auto simp: mem_write_def blob_ok_def split: if_splits)
  then show ?thesis by (simp add: blob_abs_def)
qed

theorem blob_append_ok:
  assumes "blob_ok b" "blob_append m (Some b) (Some d) (int (length d)) = Some (r, out)" "length d < 2 ^ 31"
  shows "\<exists>b'. out = Some b' \<and> blob_ok b' \<and> (blob_clean b \<longrightarrow> blob_clean b') \<and>
    (if r = 0 then blob_abs b' = blob_abs b @ d else r = ERR_TR50_MALLOC \<and> b' = b \<and> (\<exists>n. m n = None))"
proof -
  obtain r1 b1 where g: "blob_grow m b (int (length d)) = Some (r1, b1)"
    using assms(2) by (auto simp: blob_append_def bind_eq_Some_conv)
  note g1 = blob_grow_ok [OF assms(1) _ g, simplified]
  show ?thesis
  proof (cases "r1 = 0")
    case False
    then show ?thesis using g1 assms g by (auto simp: blob_append_def err_code)
  next
    case True
    obtain src buf where s: "mem_read d 0 (c_size (int (length d))) = Some src" "mem_write (bl_buffer b1) (bl_len b1) src = Some buf"
      and r: "r = 0" "out = Some (b1\<lparr>bl_buffer := buf, bl_len := bl_len b1 + int (length d), bl_unused := bl_unused b1 - int (length d)\<rparr>)"
      using assms(2) g True by (auto simp: blob_append_def bind_eq_Some_conv)
    have "src = d" using s(1) assms(3) by (auto simp: mem_read_def c_size_nonneg split: if_splits)
    let ?b = "b1\<lparr>bl_buffer := buf, bl_len := bl_len b1 + int (length d), bl_unused := bl_unused b1 - int (length d)\<rparr>"
    have b1: "blob_ok b1" "blob_abs b1 = blob_abs b" "int (length d) \<le> bl_unused b1" "blob_clean b \<Longrightarrow> blob_clean b1"
      using g1 True by simp_all
    have n: "nat (bl_len b1 + int (length d)) = nat (bl_len b1) + length d"
      using b1(1) by (simp add: blob_ok_def nat_add_distrib)
    note w = blob_write_abs [OF b1(1) s(2), unfolded \<open>src = d\<close>]
    have "blob_ok ?b" using b1(1,3) w by (simp add: blob_ok_def)
    moreover have "blob_abs ?b = blob_abs b @ d" using w b1(2) by (simp add: blob_abs_def n)
    moreover have "blob_clean b \<Longrightarrow> blob_clean ?b" using w b1(4) in_drop_more by (fastforce simp: blob_clean_def n)
    ultimately show ?thesis using r by simp
  qed
qed

text \<open>Room for the terminator is left when single bytes are appended; a block that is longer than what is free and as much
  again fills the new block to its last byte.\<close>

lemma blob_append_byte_room:
  assumes "blob_ok b" "0 < bl_unused b" "blob_append m (Some b) (Some [x]) 1 = Some (r, Some b')"
  shows "0 < bl_unused b'"
  using assms by (auto simp: blob_append_def grow_def blob_ok_def Let_def bind_eq_Some_conv split: if_splits)

lemma blob_append_fills:
  assumes "blob_ok b" "bl_unused b + bl_size b < int (length d)" "length d < 2 ^ 31"
    and "blob_append m (Some b) (Some d) (int (length d)) = Some (0, Some b')"
  shows "bl_unused b' = 0"
  using assms by (auto simp: blob_append_def grow_def blob_ok_def Let_def bind_eq_Some_conv split: if_splits)

lemma printed_length: "0 \<le> n \<Longrightarrow> n < 2 ^ 31 \<Longrightarrow> int (length (printed n t)) \<le> n"
  by (auto simp: printed_def c_size_nonneg)

lemma printed_into:
  assumes b: "blob_ok b" and t: "int (length t) < bl_unused b" "bl_unused b < 2 ^ 31"
    and z: "\<forall>x \<in> set (drop (nat (bl_len b) + length t + 1) (bl_buffer b)). x = 0"
  obtains buf where "mem_write (bl_buffer b) (bl_len b) (printed (bl_unused b) t) = Some buf"
    "blob_ok (b\<lparr>bl_buffer := buf, bl_len := bl_len b + int (length t), bl_unused := bl_unused b - int (length t)\<rparr>)"
    "blob_clean (b\<lparr>bl_buffer := buf, bl_len := bl_len b + int (length t), bl_unused := bl_unused b - int (length t)\<rparr>)"
    "blob_abs (b\<lparr>bl_buffer := buf, bl_len := bl_len b + int (length t), bl_unused := bl_unused b - int (length t)\<rparr>) = blob_abs b @ t"
proof -
  let ?n = "nat (bl_len b)"
  let ?buf = "take ?n (bl_buffer b) @ (t @ [0]) @ drop (?n + length t + 1) (bl_buffer b)"
  have n: "?n + length t + 1 \<le> length (bl_buffer b)" using b t(1) by (auto simp: blob_ok_def)
  have p: "printed (bl_unused b) t = t @ [0]" using t by (auto simp: printed_def c_size_nonneg)
  have l: "nat (bl_len b + int (length t)) = ?n + length t" using b by (auto simp: blob_ok_def nat_add_distrib)
  have "mem_write (bl_buffer b) (bl_len b) (printed (bl_unused b) t) = Some ?buf"
    using b t(1) unfolding p by (auto simp: mem_write_def blob_ok_def)
  then show thesis
    by (rule that) (use b n t z in \<open>auto simp: blob_ok_def blob_clean_def blob_abs_def l\<close>)
qed

theorem blob_format_append_ok:
  assumes b: "blob_ok b" "blob_clean b" "blob_room b (int (length t) + 1)"
    and t: "format_text pat arg = Some (t, used)" "used \<longrightarrow> int (length t) < bl_unused b" and m: "\<forall>n. m n \<noteq> None"
  shows "\<exists>b'. blob_format_append m (Some b) (Some pat) arg = Some (0, Some b') \<and> blob_ok b' \<and> blob_clean b' \<and>
    blob_abs b' = blob_abs b @ t \<and> 0 < bl_unused b'"
proof (cases "int (length t) < bl_unused b")
  case True
  obtain buf where buf: "mem_write (bl_buffer b) (bl_len b) (printed (bl_unused b) t) = Some buf"
    "blob_ok (b\<lparr>bl_buffer := buf, bl_len := bl_len b + int (length t), bl_unused := bl_unused b - int (length t)\<rparr>)"
    "blob_clean (b\<lparr>bl_buffer := buf, bl_len := bl_len b + int (length t), bl_unused := bl_unused b - int (length t)\<rparr>)"
    "blob_abs (b\<lparr>bl_buffer := buf, bl_len := bl_len b + int (length t), bl_unused := bl_unused b - int (length t)\<rparr>) = blob_abs b @ t"
    by (rule printed_into [OF b(1) True])
      (use b in \<open>auto simp: blob_ok_def blob_room_def blob_clean_def dest!: in_drop_more [of _ "nat (bl_len b)" "length t + 1", simplified]\<close>)
  show ?thesis using True t(1) buf by (simp add: blob_format_append_def Let_def)
next
  case False
  obtain buf where buf: "mem_write (bl_buffer b) (bl_len b) (printed (bl_unused b) t) = Some buf"
    using printed_length [of "bl_unused b" t] b(1,3) by (auto simp: mem_write_def blob_ok_def blob_room_def)
  let ?b = "b\<lparr>bl_buffer := buf\<rparr>"
  have ok: "blob_ok ?b" "blob_abs ?b = blob_abs b"
    using b(1) length_mem_write [OF buf] blob_write_abs [OF b(1) buf] by (auto simp: blob_ok_def blob_abs_def)
  obtain r b1 where g: "blob_grow m ?b (int (length t) + 1) = Some (r, b1)"
    using blob_grow_total [OF ok(1), of "int (length t) + 1" m] b(3) by (auto simp: blob_room_def)
  note g1 = blob_grow_ok [OF ok(1) _ g]
  have "r = 0"
  proof (rule ccontr)
    assume "r \<noteq> 0"
    then obtain n where "m n = None" using g1 by auto
    then show False using m by blast
  qed
  then have b1: "blob_ok b1" "blob_abs b1 = blob_abs b" "bl_len b1 = bl_len b" "int (length t) < bl_unused b1" "bl_size b1 < 2 ^ 31"
    using g1 ok(2) b(3) by (auto simp: blob_room_def)
  obtain z where z: "bl_buffer b1 = buf @ replicate z 0" using g1 by auto
  obtain buf2 where buf2: "mem_write (bl_buffer b1) (bl_len b1) (printed (bl_unused b1) t) = Some buf2"
    "blob_ok (b1\<lparr>bl_buffer := buf2, bl_len := bl_len b1 + int (length t), bl_unused := bl_unused b1 - int (length t)\<rparr>)"
    "blob_clean (b1\<lparr>bl_buffer := buf2, bl_len := bl_len b1 + int (length t), bl_unused := bl_unused b1 - int (length t)\<rparr>)"
    "blob_abs (b1\<lparr>bl_buffer := buf2, bl_len := bl_len b1 + int (length t), bl_unused := bl_unused b1 - int (length t)\<rparr>) = blob_abs b1 @ t"
    by (rule printed_into [OF b1(1,4)])
      (use b1 False b(1) length_mem_write [OF buf] in \<open>auto simp: blob_ok_def z\<close>)
  show ?thesis
    using False t buf buf2 g b1 by (auto simp: blob_format_append_def Let_def)
qed

subsection \<open>Runs\<close>

text \<open>A buffer and what has been put into it, from its creation on; a format that grows the block finds memory, and its text
  has no argument.\<close>

inductive blob_run :: "blob \<Rightarrow> bytes \<Rightarrow> bool" where
  run_create: "blob_create m1 m2 n = Inr b \<Longrightarrow> blob_run b []"
| run_clear: "blob_run b s \<Longrightarrow> blob_clear (Some b) = (0, Some b') \<Longrightarrow> blob_run b' []"
| run_append: "blob_run b s \<Longrightarrow> length d < 2 ^ 31 \<Longrightarrow> blob_append m (Some b) (Some d) (int (length d)) = Some (ret, Some b') \<Longrightarrow>
    blob_run b' (if ret = 0 then s @ d else s)"
| run_format: "blob_run b s \<Longrightarrow> blob_room b (int (length t) + 1) \<Longrightarrow> \<forall>n. m n \<noteq> None \<Longrightarrow> format_text pat arg = Some (t, used) \<Longrightarrow>
    used \<longrightarrow> int (length t) < bl_unused b \<Longrightarrow> blob_format_append m (Some b) (Some pat) arg = Some (ret, Some b') \<Longrightarrow> blob_run b' (s @ t)"

lemma blob_run_holds: "blob_run b s \<Longrightarrow> blob_ok b \<and> blob_clean b \<and> blob_abs b = s"
proof (induction rule: blob_run.induct)
  case (run_create m1 m2 n b)
  then show ?case using blob_create_ok by blast
next
  case (run_clear b s b')
  then show ?case using blob_clear_ok [of b] by auto
next
  case (run_append b s d m ret b')
  then show ?case using blob_append_ok [of b m d ret "Some b'"] by (auto split: if_splits)
next
  case (run_format b s t m pat arg used ret b')
  then show ?case using blob_format_append_ok [of b t pat arg used m] by auto
qed


text \<open>The bytes of a header go in one by one; the outcome of an append is not looked at.\<close>

fun blob_collect :: "malloc \<Rightarrow> bytes \<Rightarrow> blob \<Rightarrow> blob option" where
  "blob_collect m [] b = Some b"
| "blob_collect m (x # xs) b =
     (case blob_append m (Some b) (Some [x]) 1 of Some (_, Some b) \<Rightarrow> blob_collect m xs b | _ \<Rightarrow> None)"

lemma blob_append_byte:
  assumes "blob_ok b" "blob_clean b" "0 < bl_unused b" "bl_size b < 2 ^ 30" "\<forall>n. m n \<noteq> None"
  shows "\<exists>b'. blob_append m (Some b) (Some [x]) 1 = Some (0, Some b') \<and> blob_ok b' \<and> blob_clean b' \<and> 0 < bl_unused b' \<and>
    blob_abs b' = blob_abs b @ [x] \<and> bl_len b' = bl_len b + 1 \<and> (bl_size b' = bl_size b \<or> bl_size b' = 2 * bl_size b \<and> bl_unused b = 1)"
proof -
  have "blob_append m (Some b) (Some [x]) 1 \<noteq> None"
    using assms by (auto simp: blob_append_def blob_grow_def blob_ok_def int_range_def Let_def c_size_def mem_read_def mem_write_def bind_eq_None_conv split: if_splits option.splits)
  then obtain r out where a: "blob_append m (Some b) (Some [x]) 1 = Some (r, out)" by fastforce
  then obtain b' where b': "out = Some b'" "blob_ok b'" "blob_clean b'"
    and r: "if r = 0 then blob_abs b' = blob_abs b @ [x] else \<exists>n. m n = None"
    using blob_append_ok [of b m "[x]" r out] assms(1,2) by (cases "r = 0") auto
  have "r = 0" using r assms(5) by metis
  moreover have "bl_len b' = bl_len b + 1 \<and> (bl_size b' = bl_size b \<or> bl_size b' = 2 * bl_size b \<and> bl_unused b = 1)"
    using a assms(1,3,5) \<open>r = 0\<close> b'(1)
    by (auto simp: blob_append_def grow_def blob_ok_def Let_def bind_eq_Some_conv split: if_splits)
  ultimately show ?thesis
    using a b' r blob_append_byte_room [OF assms(1,3) a [unfolded b'(1)]] by simp
qed

lemma blob_collect_bytes:
  assumes "\<forall>n. m n \<noteq> None"
  shows "blob_ok b \<Longrightarrow> blob_clean b \<Longrightarrow> 0 < bl_unused b \<Longrightarrow> max (bl_size b) (2 * (bl_len b + int (length xs))) < 2 ^ 30 \<Longrightarrow>
    \<exists>b'. blob_collect m xs b = Some b' \<and> blob_ok b' \<and> blob_terminated b' \<and> blob_abs b' = blob_abs b @ xs"
proof (induction xs arbitrary: b)
  case Nil
  then show ?case by (simp add: blob_terminatedI)
next
  case (Cons x xs)
  have "bl_size b < 2 ^ 30" using Cons.prems(4) by simp
  from blob_append_byte [OF Cons.prems(1-3) this assms, of x] obtain b1 where
    b1: "blob_append m (Some b) (Some [x]) 1 = Some (0, Some b1)" "blob_ok b1" "blob_clean b1" "0 < bl_unused b1"
      "blob_abs b1 = blob_abs b @ [x]" "bl_len b1 = bl_len b + 1"
      "bl_size b1 = bl_size b \<or> bl_size b1 = 2 * bl_size b \<and> bl_unused b = 1" by blast
  have "max (bl_size b1) (2 * (bl_len b1 + int (length xs))) < 2 ^ 30"
    using b1(6,7) Cons.prems(1,4) by (auto simp: blob_ok_def)
  from Cons.IH [OF b1(2,3,4) this] b1(1,5) show ?case by auto
qed

text \<open>A header of any length that is put into a new buffer byte by byte is there as a C string: its bytes, and a zero byte
  behind them.\<close>

theorem blob_header_string:
  assumes "blob_create m1 m2 n = Inr b" "\<forall>n. m n \<noteq> None" "max n BLOB_DEFAULT_SIZE < 2 ^ 30" "2 * int (length xs) < 2 ^ 30"
  shows "\<exists>b'. blob_collect m xs b = Some b' \<and> blob_terminated b' \<and> blob_get_length (Some b') = int (length xs) \<and>
    take (length xs + 1) (the (blob_get_buffer (Some b'))) = xs @ [0]"
proof -
  have b: "blob_ok b" "blob_clean b" "blob_abs b = []" "0 < bl_unused b" using blob_create_ok [OF assms(1)] by auto
  have "bl_len b = 0" "bl_size b < 2 ^ 30" using assms(1,3) by (auto simp: blob_create_def Let_def split: if_splits)
  then obtain b' where b': "blob_collect m xs b = Some b'" "blob_ok b'" "blob_terminated b'" "blob_abs b' = xs"
    using blob_collect_bytes [OF assms(2) b(1,2,4), of xs] b(3) assms(4) by auto
  have l: "nat (bl_len b') = length xs" "length xs < length (bl_buffer b')"
    using b'(2,3,4) by (auto simp: blob_ok_def blob_terminated_def blob_abs_def)
  then have "take (length xs + 1) (bl_buffer b') = xs @ [0]"
    using b'(3,4) by (auto simp: take_Suc_conv_app_nth blob_terminated_def blob_abs_def)
  then show ?thesis using b' l(1) by (auto simp: blob_get_length_def blob_get_buffer_def blob_ok_def)
qed

text \<open>A block that is appended in one piece may leave no room for the zero byte.\<close>

theorem blob_append_unterminated:
  assumes "blob_ok b" "bl_unused b + bl_size b < int (length d)" "length d < 2 ^ 31"
    and "blob_append m (Some b) (Some d) (int (length d)) = Some (0, Some b')"
  shows "\<not> blob_terminated b'"
  using blob_append_fills [OF assms] by (simp add: blob_terminated_def)

subsection \<open>Witnesses\<close>


lemma blob_header_string_witness:
  "\<exists>b b'. blob_create malloc_zero malloc_zero 2 = Inr b \<and> blob_collect malloc_zero [1, 2, 3] b = Some b' \<and>
     take 4 (the (blob_get_buffer (Some b'))) = [1, 2, 3, 0]"
proof -
  have c: "blob_create malloc_zero malloc_zero 2 = Inr \<lparr>bl_buffer = [0, 0], bl_size = 2, bl_len = 0, bl_unused = 2\<rparr>" by code_simp
  show ?thesis
    using blob_header_string [OF c, of malloc_zero "[1, 2, 3]"] c by (auto simp: malloc_zero_def BLOB_DEFAULT_SIZE_def numeral_eq_Suc)
qed

end
