(* ===== verification/Linux_Proxy.thy ===== *)
theory Linux_Proxy
  imports C_Text Tr50_Blob Linux_Tcp
begin

section \<open>Proxy handshakes (util/linux/linux.tcp_proxy.c)\<close>

text \<open>
  The requests that open a connection through a SOCKS 4, 4a or 5 or an HTTP proxy, over the sends and receives of any
  platform.  \<open>gethostbyname\<close> is a parameter: the four bytes of the first address of a name, or None.  An address string is
  changed while it is looked up; where that shows afterwards it is a result.
\<close>

type_synonym resolver = "bytes \<Rightarrow> bytes option"

record sockaddr =
  sin_port :: u16
  sin_addr :: bytes

subsection \<open>Addresses\<close>

definition before_colon :: "bytes \<Rightarrow> bytes" where
  "before_colon addr = takeWhile (\<lambda>b. b \<noteq> 0x3A) addr"

definition addr_port :: "bytes \<Rightarrow> u16" where
  "addr_port addr = (case dropWhile (\<lambda>b. b \<noteq> 0x3A) addr of [] \<Rightarrow> 0 | _ # digits \<Rightarrow> word_of_int (strtol_10 digits))"

text \<open>The result, and the address string afterwards: the colon stays overwritten when the name is not found.  The port is kept in
  the order of the network.\<close>

definition make_addr :: "resolver \<Rightarrow> bytes \<Rightarrow> (int + sockaddr) \<times> bytes" where
  "make_addr resolve addr =
     (let name = before_colon addr in
      case resolve name of
        None \<Rightarrow> (Inl ERR_TR50_SOCK_HOSTNOTFOUND, name)
      | Some ip \<Rightarrow> (Inr \<lparr>sin_port = addr_port addr, sin_addr = ip\<rparr>, addr))"

text \<open>The first 255 bytes of an address are copied into a block of 256 on the stack, which a longer address leaves without a
  terminator.\<close>

definition host_copy :: "bytes \<Rightarrow> bytes option" where
  "host_copy addr =
     (if length addr < 255 \<or> 0x3A \<in> set (take 255 addr) then Some (before_colon (take 255 addr)) else None)"

definition socket_proxy_uses_hostname :: "bytes \<Rightarrow> bool" where
  "socket_proxy_uses_hostname addr \<longleftrightarrow> (\<exists>b \<in> set addr. \<not> (is_digit b \<or> b = 0x2E \<or> b = 0x3A))"

subsection \<open>Base 64\<close>

definition base64_charset :: bytes where
  "base64_charset = cstr ''ABCDEFGHIJKLMNOPQRSTUVWXYZabcdefghijklmnopqrstuvwxyz0123456789+/''"

definition base64_char :: "byte \<Rightarrow> byte" where
  "base64_char b = base64_charset ! unat b"

definition base64_group :: "byte \<Rightarrow> byte \<Rightarrow> byte \<Rightarrow> bytes" where
  "base64_group a b c =
     map base64_char [drop_bit 2 a, push_bit 4 (a AND 3) + drop_bit 4 b, push_bit 2 (b AND 0xF) + drop_bit 6 c, c AND 0x3F]"

text \<open>\<open>i\<close> is how far the input has been read, \<open>inlen\<close> what is left, \<open>tmp\<close> the output block and \<open>n\<close> how much is written.\<close>

function base64_loop :: "bytes \<Rightarrow> int \<Rightarrow> int \<Rightarrow> bytes \<Rightarrow> int \<Rightarrow> (int \<times> int \<times> bytes \<times> int) option" where
  "base64_loop inb i inlen tmp n =
     (if 2 < inlen then do {
        a \<leftarrow> peek inb i; b \<leftarrow> peek inb (i + 1); c \<leftarrow> peek inb (i + 2);
        tmp \<leftarrow> mem_write tmp n (base64_group a b c);
        base64_loop inb (i + 3) (inlen - 3) tmp (n + 4) }
      else Some (i, inlen, tmp, n))"
  by pat_completeness auto
termination by (relation "measure (\<lambda>(_, _, inlen, _, _). nat inlen)") auto

declare base64_loop.simps [simp del]

definition base64_pad :: "bytes \<Rightarrow> int \<Rightarrow> int \<Rightarrow> bytes \<Rightarrow> int \<Rightarrow> (bytes \<times> int) option" where
  "base64_pad inb i inlen tmp n =
     (if inlen = 0 then Some (tmp, n)
      else do {
        left \<leftarrow> mem_read inb i (nat inlen);
        let input = left @ replicate (3 - length left) 0;
        let g = base64_group (input ! 0) (input ! 1) (input ! 2);
        tmp \<leftarrow> mem_write tmp n [g ! 0, g ! 1, if inlen = 1 then 0x3D else g ! 2, 0x3D];
        Some (tmp, n + 4) })"

text \<open>\<open>inlen\<close> becomes the length of the output, and is what the loop counts down.\<close>

definition base64_encode :: "malloc \<Rightarrow> bytes \<Rightarrow> int \<Rightarrow> (int + bytes) option" where
  "base64_encode m inb inlen =
     (let inlen = inlen * 4 div 3; inlen = inlen + (4 - inlen mod 4) in
      case m (nat (inlen + 1)) of
        None \<Rightarrow> Some (Inl (- 1))
      | Some out \<Rightarrow> do {
          (i, left, tmp, n) \<leftarrow> base64_loop inb 0 inlen out 0;
          (tmp, n) \<leftarrow> base64_pad inb i left tmp n;
          tmp \<leftarrow> poke tmp n 0;
          Some (Inr (takeWhile (\<lambda>b. b \<noteq> 0) tmp)) })"

subsection \<open>SOCKS 4\<close>

text \<open>What a receive leaves in the block.\<close>

definition recv_into ::
  "'w platform \<Rightarrow> handle \<Rightarrow> bytes \<Rightarrow> int \<Rightarrow> int \<Rightarrow> 'w \<Rightarrow> ((int \<times> bytes) \<times> 'w) option" where
  "recv_into p h buf len timeout w = do {
     ((ret, bs), w) \<leftarrow> p_tcp_recv p w h len timeout;
     if ret \<noteq> 0 then Some ((ret, buf), w)
     else do { buf \<leftarrow> mem_write buf 0 bs; Some ((0, buf), w) } }"

text \<open>Buffers sent one after the other, until one is refused.\<close>

fun sends :: "'w platform \<Rightarrow> handle \<Rightarrow> bytes list \<Rightarrow> 'w \<Rightarrow> (int \<times> 'w) option" where
  "sends p h [] w = Some (0, w)"
| "sends p h (bs # rest) w = do {
     (ret, w) \<leftarrow> p_tcp_send p w h bs TCP_DEFAULT_TIMEOUT;
     if ret \<noteq> 0 then Some (ret, w) else sends p h rest w }"

definition socks4_answer :: "bytes \<Rightarrow> int" where
  "socks4_answer buf =
     (if buf ! 1 = 0x5A then 0
      else if buf ! 1 = 0x5D then ERR_TR50_SOCK_PROXY_AUTH_REJECTED
      else ERR_TR50_SOCK_PROXY_OTHER)"

definition socks4_request :: "sockaddr \<Rightarrow> bytes \<Rightarrow> bytes" where
  "socks4_request sin ip = [4, 1] @ be16 (sin_port sin) @ ip @ [0]"

text \<open>The parts of a request, and the answer.\<close>

definition socks4_exchange ::
  "'w platform \<Rightarrow> handle \<Rightarrow> bytes list \<Rightarrow> bytes \<Rightarrow> int \<Rightarrow> 'w \<Rightarrow> (int \<times> 'w) option" where
  "socks4_exchange p h parts buf timeout w = do {
     (ret, w) \<leftarrow> sends p h parts w;
     if ret \<noteq> 0 then Some (ret, w)
     else do {
       ((ret, buf), w) \<leftarrow> recv_into p h buf 8 timeout w;
       Some (if ret \<noteq> 0 then ret else socks4_answer buf, w) } }"

text \<open>The result, and the address string afterwards.\<close>

definition socket_proxy_setup_socks4 ::
  "'w platform \<Rightarrow> resolver \<Rightarrow> handle \<Rightarrow> bytes \<Rightarrow> bytes option \<Rightarrow> 'w \<Rightarrow> ((int \<times> bytes) \<times> 'w) option" where
  "socket_proxy_setup_socks4 p resolve h addr user w =
     (case make_addr resolve addr of
        (Inl ret, addr) \<Rightarrow> Some ((ret, addr), w)
      | (Inr sin, addr) \<Rightarrow>
          let buf = socks4_request sin (sin_addr sin);
              parts = (case user of None \<Rightarrow> [buf] | Some u \<Rightarrow> [take 8 buf, u @ [0]])
          in map_option (\<lambda>(ret, w). ((ret, addr), w)) (socks4_exchange p h parts buf 15000 w))"

definition socket_proxy_setup_socks4a ::
  "'w platform \<Rightarrow> resolver \<Rightarrow> handle \<Rightarrow> bytes \<Rightarrow> bytes option \<Rightarrow> 'w \<Rightarrow> ((int \<times> bytes) \<times> 'w) option" where
  "socket_proxy_setup_socks4a p resolve h addr user w = do {
     hst \<leftarrow> host_copy addr;
     (case make_addr resolve addr of
        (Inl ret, addr) \<Rightarrow> Some ((ret, addr), w)
      | (Inr sin, addr) \<Rightarrow>
          let buf = socks4_request sin [0, 0, 0, 3];
              parts = (case user of None \<Rightarrow> [buf, hst @ [0]] | Some u \<Rightarrow> [take 8 buf, u @ [0], hst @ [0]])
          in map_option (\<lambda>(ret, w). ((ret, addr), w)) (socks4_exchange p h parts buf 5000 w)) }"

subsection \<open>SOCKS 5\<close>

definition c_strncpy :: "bytes \<Rightarrow> int \<Rightarrow> bytes \<Rightarrow> int \<Rightarrow> bytes option" where
  "c_strncpy buf i src n = (if n < 0 then None else mem_write buf i (take (nat n) (src @ replicate (nat n) 0)))"

text \<open>A length and a string, at \<open>buf_idx\<close>; the length is a \<open>char\<close>, which is signed where \<open>buf_idx\<close> moves by it.\<close>

definition socks5_string :: "bytes \<Rightarrow> int \<Rightarrow> bytes \<Rightarrow> int \<Rightarrow> (bytes \<times> int) option" where
  "socks5_string buf buf_idx str n = do {
     buf \<leftarrow> poke buf buf_idx (of_nat (length str));
     buf \<leftarrow> c_strncpy buf (buf_idx + 1) str n;
     c \<leftarrow> peek buf buf_idx;
     Some (buf, buf_idx + sint c + 1) }"

definition socks5_field :: "bytes \<Rightarrow> int \<Rightarrow> bytes option \<Rightarrow> (bytes \<times> int) option" where
  "socks5_field buf buf_idx field =
     (case field of
        None \<Rightarrow> do { buf \<leftarrow> poke buf buf_idx 0; Some (buf, buf_idx + 1) }
      | Some str \<Rightarrow> socks5_string buf buf_idx str (256 - buf_idx))"

definition send_block :: "'w platform \<Rightarrow> handle \<Rightarrow> bytes \<Rightarrow> int \<Rightarrow> 'w \<Rightarrow> (int \<times> 'w) option" where
  "send_block p h buf n w = do { bs \<leftarrow> mem_read buf 0 (c_size n); p_tcp_send p w h bs TCP_DEFAULT_TIMEOUT }"

definition socks5_auth ::
  "'w platform \<Rightarrow> handle \<Rightarrow> bytes option \<Rightarrow> bytes option \<Rightarrow> bytes \<Rightarrow> 'w \<Rightarrow> ((int \<times> bytes) \<times> 'w) option" where
  "socks5_auth p h user pass buf w = do {
     buf \<leftarrow> poke buf 0 1;
     (buf, buf_idx) \<leftarrow> socks5_field buf 1 user;
     (buf, buf_idx) \<leftarrow> socks5_field buf buf_idx pass;
     (ret, w) \<leftarrow> send_block p h buf buf_idx w;
     if ret \<noteq> 0 then Some ((ret, buf), w)
     else do {
       ((ret, buf), w) \<leftarrow> recv_into p h buf 2 5000 w;
       Some ((if ret \<noteq> 0 then ret else if buf ! 1 \<noteq> 0 then ERR_TR50_SOCK_PROXY_AUTH_REJECTED else 0, buf), w) } }"

definition socks5_connect_request :: "bytes \<Rightarrow> sockaddr \<Rightarrow> bytes \<Rightarrow> (bytes \<times> int) option" where
  "socks5_connect_request addr sin buf = do {
     buf \<leftarrow> mem_write buf 0 [5, 1, 0];
     (buf, buf_idx) \<leftarrow> (if socket_proxy_uses_hostname addr then do {
                            buf \<leftarrow> poke buf 3 3;
                            hst \<leftarrow> host_copy addr;
                            socks5_string buf 4 hst 252 }
                          else do {
                            buf \<leftarrow> poke buf 3 1;
                            buf \<leftarrow> mem_write buf 4 (sin_addr sin);
                            Some (buf, 8) });
     buf \<leftarrow> mem_write buf buf_idx (be16 (sin_port sin));
     Some (buf, buf_idx + 2) }"

text \<open>The answer: six bytes, and what is left of an address, or of a name whose length is the fifth byte.\<close>

definition socks5_answer :: "'w platform \<Rightarrow> handle \<Rightarrow> bytes \<Rightarrow> 'w \<Rightarrow> (int \<times> 'w) option" where
  "socks5_answer p h buf w = do {
     ((ret, buf), w) \<leftarrow> recv_into p h buf 6 5000 w;
     if ret \<noteq> 0 then Some (ret, w)
     else if buf ! 1 \<noteq> 0 then Some (ERR_TR50_SOCK_PROXY_OTHER, w)
     else if buf ! 3 = 1 then do {
       ((ret, buf), w) \<leftarrow> recv_into p h buf 4 5000 w;
       Some (ret, w) }
     else if buf ! 3 = 3 then do {
       ((ret, buf), w) \<leftarrow> recv_into p h buf 1 5000 w;
       if ret \<noteq> 0 then Some (ret, w)
       else do {
         ((ret, buf), w) \<leftarrow> recv_into p h buf (sint (buf ! 4)) 5000 w;
         Some (ret, w) } }
     else Some (0, w) }"

text \<open>The choice of a method, and the credentials when the proxy wants them; \<open>stack\<close> is what the 512 bytes of \<open>buf\<close> hold before
  they are written.\<close>

definition socks5_greeting ::
  "'w platform \<Rightarrow> handle \<Rightarrow> bytes option \<Rightarrow> bytes option \<Rightarrow> bytes \<Rightarrow> 'w \<Rightarrow> ((int \<times> bytes) \<times> 'w) option" where
  "socks5_greeting p h user pass stack w = do {
     buf \<leftarrow> mem_write stack 0 [5, 2, 2, 0];
     (ret, w) \<leftarrow> send_block p h buf 4 w;
     if ret \<noteq> 0 then Some ((ret, buf), w)
     else do {
       ((ret, buf), w) \<leftarrow> recv_into p h buf 2 TCP_DEFAULT_TIMEOUT w;
       if ret \<noteq> 0 then Some ((ret, buf), w)
       else if buf ! 1 = 0xFF then Some ((ERR_TR50_SOCK_PROXY_AUTH_UNSUP, buf), w)
       else if buf ! 1 = 2 then socks5_auth p h user pass buf w
       else Some ((0, buf), w) } }"

definition socks5_connect :: "'w platform \<Rightarrow> handle \<Rightarrow> bytes \<Rightarrow> sockaddr \<Rightarrow> bytes \<Rightarrow> 'w \<Rightarrow> (int \<times> 'w) option" where
  "socks5_connect p h addr sin buf w = do {
     (buf, buf_idx) \<leftarrow> socks5_connect_request addr sin buf;
     (ret, w) \<leftarrow> send_block p h buf buf_idx w;
     if ret \<noteq> 0 then Some (ret, w) else socks5_answer p h buf w }"

definition socket_proxy_setup_socks5 ::
  "'w platform \<Rightarrow> resolver \<Rightarrow> bytes \<Rightarrow> handle \<Rightarrow> bytes \<Rightarrow> bytes option \<Rightarrow> bytes option \<Rightarrow> 'w \<Rightarrow> ((int \<times> bytes) \<times> 'w) option" where
  "socket_proxy_setup_socks5 p resolve stack h addr user pass w = do {
     _ \<leftarrow> host_copy addr;
     (case make_addr resolve addr of
        (Inl ret, addr) \<Rightarrow> Some ((ret, addr), w)
      | (Inr sin, addr) \<Rightarrow> do {
          ((ret, buf), w) \<leftarrow> socks5_greeting p h user pass stack w;
          if ret \<noteq> 0 then Some ((ret, addr), w)
          else map_option (\<lambda>(ret, w). ((ret, addr), w)) (socks5_connect p h addr sin buf w) }) }"

subsection \<open>HTTP\<close>

text \<open>An append of formatted text; memory is asked for when the text does not fit.\<close>

definition http_append :: "'w platform \<Rightarrow> bytes \<Rightarrow> bytes option \<Rightarrow> blob \<Rightarrow> 'w \<Rightarrow> (blob \<times> 'w) option" where
  "http_append p pat arg blob w = do {
     (t, _) \<leftarrow> format_text pat arg;
     let (m, w) = (if int (length t) < bl_unused blob then (malloc_null, w) else p_malloc p w);
     (_, b) \<leftarrow> blob_format_append m (Some blob) (Some pat) arg;
     map_option (\<lambda>b. (b, w)) b }"

text \<open>The credentials: the outcome is an error code, or the buffer with the header line.\<close>

definition http_credentials :: "'w platform \<Rightarrow> bytes \<Rightarrow> bytes \<Rightarrow> blob \<Rightarrow> 'w \<Rightarrow> ((int + blob) \<times> 'w) option" where
  "http_credentials p user pass blob w =
     (let (m, w) = p_malloc p w; n = length user + length pass + 8 in
      case m n of
        None \<Rightarrow> Some (Inl ERR_TR50_MALLOC, w)
      | Some block \<Rightarrow> do {
          let userpass = user @ [0x3A] @ pass;
          block \<leftarrow> mem_write block 0 (take (n - 2) userpass @ [0]);
          let (m, w) = p_malloc p w;
          r \<leftarrow> base64_encode m block (int (length userpass));
          (case r of
             Inl ret \<Rightarrow> Some (Inl ret, w)
           | Inr userpass_e \<Rightarrow>
               map_option (\<lambda>(b, w). (Inr b, w)) (http_append p (cstr ''Authorization: Basic %s'' @ [0x0D, 0x0A]) (Some userpass_e) blob w)) })"

definition http_request ::
  "'w platform \<Rightarrow> bytes \<Rightarrow> bytes \<Rightarrow> bytes option \<Rightarrow> bytes option \<Rightarrow> blob \<Rightarrow> 'w \<Rightarrow> ((int + blob) \<times> 'w) option" where
  "http_request p addr hst user pass blob w = do {
     (blob, w) \<leftarrow> http_append p (cstr ''CONNECT '') None blob w;
     (blob, w) \<leftarrow> http_append p addr None blob w;
     (blob, w) \<leftarrow> http_append p (cstr '' HTTP/1.1'' @ [0x0D, 0x0A]) None blob w;
     (blob, w) \<leftarrow> (if 0x3A \<notin> set hst then http_append p (cstr ''Host: %s'' @ [0x0D, 0x0A]) (Some hst) blob w
                   else do {
                     (blob, w) \<leftarrow> http_append p (cstr ''Host: '') None blob w;
                     (blob, w) \<leftarrow> http_append p hst None blob w;
                     http_append p [0x0D, 0x0A] None blob w });
     (r, w) \<leftarrow> (case (user, pass) of
                 (Some u, Some pw) \<Rightarrow> http_credentials p u pw blob w
               | _ \<Rightarrow> Some (Inr blob, w));
     (case r of
        Inl ret \<Rightarrow> Some (Inl ret, w)
      | Inr blob \<Rightarrow> map_option (\<lambda>(b, w). (Inr b, w)) (http_append p [0x0D, 0x0A] None blob w)) }"

text \<open>\<open>&buffer\<close> as a string: it is one when the character is NUL.\<close>

definition lone_string :: "byte \<Rightarrow> bytes option" where
  "lone_string b = (if b = 0 then Some [] else None)"

text \<open>The status behind the first nine bytes of the answer, or 0 when a receive fails; \<open>err\<close> is \<open>socket_error\<close>.\<close>

partial_function (option) http_answer ::
  "'w platform \<Rightarrow> ('w \<Rightarrow> handle \<Rightarrow> int option) \<Rightarrow> handle \<Rightarrow> nat \<Rightarrow> blob \<Rightarrow> 'w \<Rightarrow> (int \<times> 'w) option" where
  "http_answer p err h termchr blob w =
     (case p_tcp_recv p w h 1 5000 of
        None \<Rightarrow> None
      | Some ((ret, bs), w) \<Rightarrow>
          if ret \<noteq> 0 then
            (case err w h of
               None \<Rightarrow> None
             | Some e \<Rightarrow> if e = ERR_TR50_SOCK_TIMEOUT then http_answer p err h termchr blob w else Some (0, w))
          else
            let b = (case bs of [] \<Rightarrow> 0 | b # _ \<Rightarrow> b) in
            case Option.bind (lone_string b) (\<lambda>pat. http_append p pat None blob w) of
              None \<Rightarrow> None
            | Some (blob, w) \<Rightarrow>
                if b = 0x0D \<or> b = 0x0A then
                  if termchr + 1 = 4 then Some (c_int (strtol_10 (takeWhile (\<lambda>b. b \<noteq> 0) (drop 9 (bl_buffer blob)))), w)
                  else http_answer p err h (termchr + 1) blob w
                else http_answer p err h 0 blob w)"

declare http_answer.simps [code]

definition socket_proxy_setup_http ::
  "'w platform \<Rightarrow> ('w \<Rightarrow> handle \<Rightarrow> int option) \<Rightarrow> handle \<Rightarrow> bytes \<Rightarrow> bytes \<Rightarrow> bytes option \<Rightarrow> bytes option \<Rightarrow> 'w \<Rightarrow> (int \<times> 'w) option" where
  "socket_proxy_setup_http p err h addr hst user pass w =
     (let (m1, w) = p_malloc p w; (m2, w) = (if m1 32 = None then (malloc_null, w) else p_malloc p w) in
      case blob_create m1 m2 128 of
        Inl ret \<Rightarrow> Some (ret, w)
      | Inr blob \<Rightarrow> do {
          (r, w) \<leftarrow> http_request p addr hst user pass blob w;
          (case r of
             Inl ret \<Rightarrow> Some (ret, w)
           | Inr blob \<Rightarrow> do {
               (ret, w) \<leftarrow> send_block p h (bl_buffer blob) (bl_len blob) w;
               if ret \<noteq> 0 then Some (ret, w)
               else do {
                 blob \<leftarrow> snd (blob_clear (Some blob));
                 (status, w) \<leftarrow> http_answer p err h 0 blob w;
                 Some (if status = 200 then 0 else ERR_TR50_SOCK_PROXY_OTHER, w) } }) })"

text \<open>\<open>socket_error\<close>, on this file's view of a socket: \<open>err\<close> at offset 8, where the sockets of linux.tcp.c have \<open>is_ssl\<close>.\<close>

definition socket_error :: "os \<Rightarrow> handle \<Rightarrow> int option" where
  "socket_error os h = (if h = 0 then Some ERR_TR50_BADHANDLE else map_option at8 (os_sock os h))"

end
