(* ===== verification/Linux_Proxy_Props.thy ===== *)
theory Linux_Proxy_Props
  imports Linux_Proxy Linux_Wire
begin

section \<open>What the proxy handshakes do\<close>

lemma bind_pairE:
  assumes "Option.bind m (case_prod f) = Some r"
  obtains a b where "m = Some (a, b)" "f a b = Some r"
  using assms by (auto simp: bind_eq_Some_conv)

text \<open>Looking a name up answers four bytes.\<close>

definition ipv4 :: "resolver \<Rightarrow> bool" where
  "ipv4 resolve \<longleftrightarrow> (\<forall>name ip. resolve name = Some ip \<longrightarrow> length ip = 4)"

lemma make_addr_cases:
  obtains "resolve (before_colon addr) = None" "make_addr resolve addr = (Inl ERR_TR50_SOCK_HOSTNOTFOUND, before_colon addr)"
  | ip where "resolve (before_colon addr) = Some ip" "make_addr resolve addr = (Inr \<lparr>sin_port = addr_port addr, sin_addr = ip\<rparr>, addr)"
  by (cases "resolve (before_colon addr)") (simp_all add: make_addr_def)

context duplex
begin

lemma send_sent:
  assumes "plain_socket w h" "p_tcp_send p w h bs t = Some (0, w')"
  shows "plain_socket w' h \<and> sent w' h = sent w h @ bs \<and> pending w' = pending w"
  using tx.send_law [OF assms] rx.send_law [OF assms(2)] by auto

lemma sends_sent:
  "plain_socket w h \<Longrightarrow> sends p h bss w = Some (0, w') \<Longrightarrow>
   plain_socket w' h \<and> sent w' h = sent w h @ concat bss \<and> pending w' = pending w"
proof (induction bss arbitrary: w)
  case (Cons bs bss)
  obtain ret w1 where s: "p_tcp_send p w h bs TCP_DEFAULT_TIMEOUT = Some (ret, w1)" "(if ret \<noteq> 0 then Some (ret, w1) else sends p h bss w1) = Some (0, w')"
    using Cons.prems(2) unfolding sends.simps by (elim bind_pairE) (rule that)
  then have "ret = 0" by (auto split: if_splits)
  with s send_sent [OF Cons.prems(1)] Cons.IH [of w1] show ?case by auto
qed simp

lemma recv_into_ok:
  assumes "plain_socket w h" "recv_into p h buf n t w = Some ((0, buf'), w')" "0 < n" "n < 2 ^ 31"
  shows "plain_socket w' h \<and> sent w' h = sent w h \<and> (\<exists>bs. bs \<noteq> [] \<and> int (length bs) \<le> n \<and> pending w h = bs @ pending w' h \<and>
    length bs \<le> length buf \<and> buf' = bs @ drop (length bs) buf)"
proof -
  obtain bs where bs: "p_tcp_recv p w h n t = Some ((0, bs), w')" "mem_write buf 0 bs = Some buf'"
    using assms(2) by (auto simp: recv_into_def bind_eq_Some_conv split: if_splits)
  show ?thesis
    using recv_frame [OF assms(1) bs(1)] rx.recv_law [OF bs(1) assms(3,4)] bs(2) by (auto simp: mem_write_def split: if_splits)
qed

lemma socks4_exchanged:
  assumes "plain_socket w h" "socks4_exchange p h parts buf t w = Some (0, w')" "buf ! 1 = 1"
  shows "sent w' h = sent w h @ concat parts \<and>
    (\<exists>reply. pending w h = reply @ pending w' h \<and> 2 \<le> length reply \<and> length reply \<le> 8 \<and> reply ! 1 = 0x5A)"
proof -
  obtain w1 ret buf' where s: "sends p h parts w = Some (0, w1)" "recv_into p h buf 8 t w1 = Some ((ret, buf'), w')"
    "(if ret \<noteq> 0 then ret else socks4_answer buf') = 0"
    using assms(2) by (auto simp: socks4_exchange_def bind_eq_Some_conv split: if_splits)
  note s1 = sends_sent [OF assms(1) s(1)]
  have "ret = 0" "buf' ! 1 = 0x5A" using s(3) by (auto simp: socks4_answer_def err_code split: if_splits)
  with recv_into_ok [of w1 h buf 8 t buf' w'] s(2) s1 obtain bs where bs: "sent w' h = sent w1 h" "bs \<noteq> []" "length bs \<le> 8"
    "pending w1 h = bs @ pending w' h" "length bs \<le> length buf" "buf' = bs @ drop (length bs) buf" by auto
  have "2 \<le> length bs"
  proof (rule ccontr)
    assume "\<not> 2 \<le> length bs"
    then have "length bs = 1" using bs(2) by (cases "length bs") auto
    then have "buf' ! 1 = buf ! 1" using bs(5,6) by (auto simp: nth_append)
    then show False using \<open>buf' ! 1 = 0x5A\<close> assms(3) by simp
  qed
  then show ?thesis using bs s1 \<open>buf' ! 1 = 0x5A\<close> by (intro conjI exI [of _ bs]) (auto simp: nth_append)
qed

lemma socks4_opened:
  assumes "plain_socket w h" "ipv4 resolve" "socket_proxy_setup_socks4 p resolve h addr user w = Some ((0, a), w')"
  shows "\<exists>ip reply. resolve (before_colon addr) = Some ip \<and> a = addr \<and>
    sent w' h = sent w h @ [4, 1] @ be16 (addr_port addr) @ ip @ (case user of None \<Rightarrow> [] | Some u \<Rightarrow> u) @ [0] \<and>
    pending w h = reply @ pending w' h \<and> 2 \<le> length reply \<and> length reply \<le> 8 \<and> reply ! 1 = 0x5A"
proof (cases rule: make_addr_cases [of resolve addr])
  case 1
  then show ?thesis using assms(3) by (simp add: socket_proxy_setup_socks4_def err_code)
next
  case (2 ip)
  let ?buf = "socks4_request \<lparr>sin_port = addr_port addr, sin_addr = ip\<rparr> ip"
  let ?parts = "case user of None \<Rightarrow> [?buf] | Some u \<Rightarrow> [take 8 ?buf, u @ [0]]"
  have e: "socks4_exchange p h ?parts ?buf 15000 w = Some (0, w')" "a = addr"
    using assms(3) by (auto simp: socket_proxy_setup_socks4_def 2(2) Let_def)
  have c: "concat ?parts = [4, 1] @ be16 (addr_port addr) @ ip @ (case user of None \<Rightarrow> [] | Some u \<Rightarrow> u) @ [0]" "?buf ! 1 = 1"
    using assms(2) 2(1) by (auto simp: socks4_request_def ipv4_def split: option.split)
  show ?thesis using socks4_exchanged [OF assms(1) e(1) c(2)] e(2) 2(1) unfolding c(1) by blast
qed

lemma socks4a_opened:
  assumes "plain_socket w h" "socket_proxy_setup_socks4a p resolve h addr user w = Some ((0, a), w')"
  shows "\<exists>reply. resolve (before_colon addr) \<noteq> None \<and> a = addr \<and>
    sent w' h = sent w h @ [4, 1] @ be16 (addr_port addr) @ [0, 0, 0, 3] @ (case user of None \<Rightarrow> [] | Some u \<Rightarrow> u) @ [0] @
      before_colon (take 255 addr) @ [0] \<and>
    pending w h = reply @ pending w' h \<and> 2 \<le> length reply \<and> length reply \<le> 8 \<and> reply ! 1 = 0x5A"
proof (cases rule: make_addr_cases [of resolve addr])
  case 1
  then show ?thesis using assms(2) by (auto simp: socket_proxy_setup_socks4a_def bind_eq_Some_conv err_code)
next
  case (2 ip)
  obtain hst where hst: "host_copy addr = Some hst" "hst = before_colon (take 255 addr)"
    using assms(2) by (auto simp: socket_proxy_setup_socks4a_def host_copy_def bind_eq_Some_conv split: if_splits)
  let ?buf = "socks4_request \<lparr>sin_port = addr_port addr, sin_addr = ip\<rparr> [0, 0, 0, 3]"
  let ?parts = "case user of None \<Rightarrow> [?buf, hst @ [0]] | Some u \<Rightarrow> [take 8 ?buf, u @ [0], hst @ [0]]"
  have e: "socks4_exchange p h ?parts ?buf 5000 w = Some (0, w')" "a = addr"
    using assms(2) hst(1) by (auto simp: socket_proxy_setup_socks4a_def 2(2) Let_def)
  have c: "concat ?parts = [4, 1] @ be16 (addr_port addr) @ [0, 0, 0, 3] @ (case user of None \<Rightarrow> [] | Some u \<Rightarrow> u) @ [0] @ hst @ [0]"
    "?buf ! 1 = 1"
    by (auto simp: socks4_request_def split: option.split)
  show ?thesis using socks4_exchanged [OF assms(1) e(1) c(2)] e(2) 2(1) unfolding c(1) unfolding hst(2) by force
qed

lemma recv_into_frame:
  assumes "plain_socket w h" "recv_into p h buf n t w = Some ((ret, buf'), w')"
  shows "plain_socket w' h \<and> sent w' h = sent w h \<and> length buf' = length buf"
  using assms(2) recv_frame [OF assms(1)]
  by (auto simp: recv_into_def bind_eq_Some_conv length_mem_write split: if_splits)

lemma socks5_answer_frame:
  assumes "plain_socket w h" "socks5_answer p h buf w = Some (ret, w')"
  shows "plain_socket w' h \<and> sent w' h = sent w h"
proof -
  obtain r1 b1 w1 where r1: "recv_into p h buf 6 5000 w = Some ((r1, b1), w1)"
    using assms(2) by (auto simp: socks5_answer_def bind_eq_Some_conv)
  then have w1: "plain_socket w1 h" "sent w1 h = sent w h" using recv_into_frame [OF assms(1)] by auto
  consider "w' = w1" | b2 r2 where "recv_into p h b1 4 5000 w1 = Some ((r2, b2), w')"
    | r2 b2 where "recv_into p h b1 1 5000 w1 = Some ((r2, b2), w')"
    | r2 b2 w2 r3 b3 n where "recv_into p h b1 1 5000 w1 = Some ((r2, b2), w2)" "recv_into p h b2 n 5000 w2 = Some ((r3, b3), w')"
    using assms(2) r1 by (auto simp: socks5_answer_def bind_eq_Some_conv split: if_splits)
  then show ?thesis
    using w1 by cases (metis recv_into_frame)+
qed

lemma send_block_sent:
  assumes "plain_socket w h" "send_block p h buf n w = Some (0, w')" "0 \<le> n" "n \<le> int (length buf)" "length buf < 2 ^ 31"
  shows "plain_socket w' h \<and> sent w' h = sent w h @ take (nat n) buf"
proof -
  have "c_size n = nat n" using assms(3-5) by (simp add: c_size_nonneg)
  then show ?thesis using assms send_sent [OF assms(1)] by (auto simp: send_block_def mem_read_def)
qed

end

text \<open>A string with its length, as SOCKS 5 has it.\<close>

definition pascal :: "bytes option \<Rightarrow> bytes" where
  "pascal s = (case s of None \<Rightarrow> [0] | Some s \<Rightarrow> of_nat (length s) # s)"

definition short :: "bytes option \<Rightarrow> bool" where
  "short s \<longleftrightarrow> (case s of None \<Rightarrow> True | Some s \<Rightarrow> length s \<le> 127)"

lemma char_length: "n \<le> 127 \<Longrightarrow> sint (of_nat n :: byte) = int n"
proof -
  have "\<forall>n \<in> set [0..<128]. sint (of_nat n :: byte) = int n" by code_simp
  then show "n \<le> 127 \<Longrightarrow> ?thesis" by simp
qed

lemma socks5_string_writes:
  assumes "length pre = nat i" "0 \<le> i" "length str \<le> 127" "int (length str) \<le> n" "i + 1 + n \<le> int (length buf)" "take (nat i) buf = pre"
  obtains buf' where "socks5_string buf i str n = Some (buf', i + 1 + int (length str))" "length buf' = length buf"
    "take (nat i + 1 + length str) buf' = pre @ pascal (Some str)"
proof -
  let ?l = "of_nat (length str) :: byte" and ?z = "replicate (nat n - length str) 0 :: bytes"
  obtain x rest where buf: "buf = pre @ x # rest" "nat n \<le> length rest"
  proof -
    have n: "nat n < length (drop (nat i) buf)" using assms(2-5) by auto
    then obtain x rest where d: "drop (nat i) buf = x # rest" by (cases "drop (nat i) buf") auto
    show thesis
      by (rule that [of x rest]) (use assms(6) append_take_drop_id [of "nat i" buf] n d in auto)
  qed
  have i: "i = int (length pre)" "i + 1 = int (length (pre @ [?l]))" using assms(1,2) by auto
  have "poke buf i ?l = Some (pre @ ?l # rest)" using i(1) by (simp add: buf(1) mem_simp)
  moreover have "take (nat n) (str @ replicate (nat n) 0) = str @ ?z" using assms(4) by (simp add: min_def)
  moreover have "mem_write (pre @ ?l # rest) (i + 1) (str @ ?z) = Some ((pre @ [?l]) @ (str @ ?z) @ drop (nat n) rest)"
    using mem_write_cursor [OF i(2), of "str @ ?z" rest] buf(2) assms(4) by simp
  moreover have "peek (pre @ ?l # (str @ ?z) @ drop (nat n) rest) i = Some ?l" using i(1) by (simp add: mem_simp)
  ultimately have "socks5_string buf i str n = Some (pre @ ?l # (str @ ?z) @ drop (nat n) rest, i + 1 + int (length str))"
    using assms(3,4) by (simp add: socks5_string_def c_strncpy_def char_length)
  then show thesis
    by (rule that) (use assms(1,4) buf in \<open>auto simp: pascal_def\<close>)
qed

lemma socks5_field_writes:
  assumes "length pre = nat i" "0 \<le> i" "short s" "i \<le> 129" "length buf = 512" "take (nat i) buf = pre"
  obtains buf' where "socks5_field buf i s = Some (buf', i + int (length (pascal s)))" "length buf' = 512"
    "take (nat i + length (pascal s)) buf' = pre @ pascal s"
proof (cases s)
  case None
  have "take (Suc (nat i)) (buf[nat i := 0]) = pre @ [0]"
    using assms(2,4-6) by (subst take_Suc_conv_app_nth) auto
  then show thesis
    using that [of "buf[nat i := 0]"] assms(2,4,5) None by (simp add: socks5_field_def poke_def pascal_def)
next
  case (Some str)
  have str: "length str \<le> 127" using assms(3) Some by (simp add: short_def)
  obtain buf' where "socks5_string buf i str (256 - i) = Some (buf', i + 1 + int (length str))" "length buf' = length buf"
    "take (nat i + 1 + length str) buf' = pre @ pascal (Some str)"
    by (rule socks5_string_writes [OF assms(1,2) str _ _ assms(6), of "256 - i"]) (use str assms(4,5) in auto)
  then show thesis
    using that [of buf'] assms(5) Some by (simp add: socks5_field_def pascal_def add.assoc)
qed

definition socks5_dest :: "bytes \<Rightarrow> bytes \<Rightarrow> bytes" where
  "socks5_dest addr ip = (if socket_proxy_uses_hostname addr then 3 # pascal (Some (before_colon (take 255 addr))) else 1 # ip)"

lemma socks5_connect_request_writes:
  assumes "socks5_connect_request addr sin buf = Some (buf', k)" "length buf = 512" "length (before_colon (take 255 addr)) \<le> 127"
    "length (sin_addr sin) = 4"
  shows "take (nat k) buf' = [5, 1, 0] @ socks5_dest addr (sin_addr sin) @ be16 (sin_port sin) \<and> 0 \<le> k \<and> k \<le> 512 \<and> length buf' = 512"
proof -
  let ?d = "socks5_dest addr (sin_addr sin)"
  obtain b1 where b1: "mem_write buf 0 [5, 1, 0] = Some b1" "length b1 = 512" "take 3 b1 = [5, 1, 0]"
    using assms(2) by (auto simp: mem_write_def)
  obtain b2 i where b2: "(if socket_proxy_uses_hostname addr then do {
        buf \<leftarrow> poke b1 3 3; hst \<leftarrow> host_copy addr; socks5_string buf 4 hst 252 }
      else do { buf \<leftarrow> poke b1 3 1; buf \<leftarrow> mem_write buf 4 (sin_addr sin); Some (buf, 8) }) = Some (b2, i)"
    "Option.bind (mem_write b2 i (be16 (sin_port sin))) (\<lambda>buf. Some (buf, i + 2)) = Some (buf', k)"
    using assms(1) b1(1) unfolding socks5_connect_request_def by (auto simp: bind_eq_Some_conv)
  have "take 4 (b1[3 := x]) = [5, 1, 0, x]" for x
    using b1(2,3) by (subst numeral_eq_Suc, subst take_Suc_conv_app_nth) auto
  then have b1x: "take 4 (b1[3 := x]) = [5, 1, 0, x]" "length (b1[3 := x]) = 512" for x
    using b1(2) by auto
  have b2x: "take (nat i) b2 = [5, 1, 0] @ ?d \<and> 0 \<le> i \<and> i \<le> 510 \<and> length b2 = 512"
  proof (cases "socket_proxy_uses_hostname addr")
    case True
    obtain hst where hst: "host_copy addr = Some hst" "socks5_string (b1[3 := 3]) 4 hst 252 = Some (b2, i)"
      using b2(1) b1(2) True by (auto simp: bind_eq_Some_conv poke_def)
    have h: "hst = before_colon (take 255 addr)" using hst(1) by (auto simp: host_copy_def split: if_splits)
    obtain b3 where "socks5_string (b1[3 := 3]) 4 hst 252 = Some (b3, 4 + 1 + int (length hst))" "length b3 = 512"
      "take (nat 4 + 1 + length hst) b3 = [5, 1, 0, 3] @ pascal (Some hst)"
      by (rule socks5_string_writes [of "[5, 1, 0, 3]" 4 hst 252 "b1[3 := 3]"]) (use assms(3) h b1x b1(2) in auto)
    then show ?thesis using hst(2) h True assms(3) by (auto simp: socks5_dest_def nat_add_distrib)
  next
    case False
    have "mem_write (b1[3 := 1]) 4 (sin_addr sin) = Some b2" "i = 8"
      using b2(1) b1(2) False by (auto simp: bind_eq_Some_conv poke_def)
    then show ?thesis
      using b1x [of 1] assms(4) False by (auto simp: mem_write_def socks5_dest_def split: if_splits)
  qed
  obtain b3 where b3: "mem_write b2 i (be16 (sin_port sin)) = Some b3" "buf' = b3" "k = i + 2"
    using b2(2) by (auto simp: bind_eq_Some_conv)
  have "b3 = take (nat i) b2 @ be16 (sin_port sin) @ drop (nat i + 2) b2"
    using b3(1) by (simp add: mem_write_def split: if_splits)
  moreover have "length (take (nat i) b2) = nat i" by (subst length_take) (use b2x in auto)
  ultimately have "take (nat i + 2) b3 = take (nat i) b2 @ be16 (sin_port sin)" by (simp del: length_take)
  then show ?thesis using b2x b3 length_mem_write [OF b3(1)] by (auto simp: nat_add_distrib)
qed

context duplex
begin

lemma socks5_auth_sent:
  assumes "plain_socket w h" "short user" "short pass" "length buf = 512" "socks5_auth p h user pass buf w = Some ((0, buf'), w')"
  shows "plain_socket w' h \<and> sent w' h = sent w h @ [1] @ pascal user @ pascal pass \<and> length buf' = 512"
proof -
  have b0: "poke buf 0 1 = Some (buf[0 := 1])" "take (nat 1) (buf[0 := 1]) = [1]" using assms(4) by (cases buf; simp add: poke_def)+
  obtain b1 where b1: "socks5_field (buf[0 := 1]) 1 user = Some (b1, 1 + int (length (pascal user)))" "length b1 = 512"
    "take (nat 1 + length (pascal user)) b1 = [1] @ pascal user"
    by (rule socks5_field_writes [of "[1]" 1 user "buf[0 := 1]"]) (use assms(2,4) b0 in auto)
  have l: "length (pascal user) \<le> 128" "length (pascal pass) \<le> 128"
    using assms(2,3) by (auto simp: short_def pascal_def split: option.splits)
  obtain b2 where b2: "socks5_field b1 (1 + int (length (pascal user))) pass =
      Some (b2, 1 + int (length (pascal user)) + int (length (pascal pass)))" "length b2 = 512"
    "take (nat (1 + int (length (pascal user))) + length (pascal pass)) b2 = ([1] @ pascal user) @ pascal pass"
    by (rule socks5_field_writes [of "[1] @ pascal user" "1 + int (length (pascal user))" pass b1])
      (use assms(3) b1 l in \<open>auto simp: nat_add_distrib\<close>)
  let ?k = "1 + int (length (pascal user)) + int (length (pascal pass))"
  have k: "nat ?k = nat (1 + int (length (pascal user))) + length (pascal pass)" by simp
  obtain w1 where w1: "send_block p h b2 ?k w = Some (0, w1)" "recv_into p h b2 2 5000 w1 = Some ((0, buf'), w')"
    using assms(5) b0(1) b1(1) b2(1) by (auto simp: socks5_auth_def bind_eq_Some_conv err_code split: if_splits)
  have "plain_socket w1 h \<and> sent w1 h = sent w h @ take (nat ?k) b2"
    by (rule send_block_sent [OF assms(1) w1(1)]) (use b2(2) l in auto)
  then show ?thesis using recv_into_frame [OF _ w1(2)] b2(2,3) unfolding k by auto
qed

lemma socks5_greeting_sent:
  assumes "plain_socket w h" "length stack = 512" "short user" "short pass"
    and "socks5_greeting p h user pass stack w = Some ((0, buf), w')"
  shows "plain_socket w' h \<and> length buf = 512 \<and>
    (\<exists>auth. (auth = [] \<or> auth = [1] @ pascal user @ pascal pass) \<and> sent w' h = sent w h @ [5, 2, 2, 0] @ auth)"
proof -
  obtain b0 where b0: "mem_write stack 0 [5, 2, 2, 0] = Some b0" "length b0 = 512" "take 4 b0 = [5, 2, 2, 0]"
    using assms(2) by (auto simp: mem_write_def)
  obtain w1 b1 w2 where s: "send_block p h b0 4 w = Some (0, w1)" "recv_into p h b0 2 TCP_DEFAULT_TIMEOUT w1 = Some ((0, b1), w2)"
    "(if b1 ! 1 = 2 then socks5_auth p h user pass b1 w2 else Some ((0, b1), w2)) = Some ((0, buf), w')"
    using assms(5) b0(1) by (auto simp: socks5_greeting_def bind_eq_Some_conv err_code split: if_splits)
  have w1: "plain_socket w1 h" "sent w1 h = sent w h @ [5, 2, 2, 0]"
    using send_block_sent [OF assms(1) s(1)] b0(2,3) by auto
  have w2: "plain_socket w2 h" "sent w2 h = sent w1 h" "length b1 = 512"
    using recv_into_frame [OF w1(1) s(2)] b0(2) by auto
  show ?thesis
    using s(3) socks5_auth_sent [OF w2(1) assms(3,4) w2(3), of buf w'] w1 w2 by (auto split: if_splits)
qed

lemma socks5_connect_sent:
  assumes "plain_socket w h" "length buf = 512" "length (before_colon (take 255 addr)) \<le> 127" "length (sin_addr sin) = 4"
    and "socks5_connect p h addr sin buf w = Some (0, w')"
  shows "sent w' h = sent w h @ [5, 1, 0] @ socks5_dest addr (sin_addr sin) @ be16 (sin_port sin)"
proof -
  obtain b k w1 where s: "socks5_connect_request addr sin buf = Some (b, k)" "send_block p h b k w = Some (0, w1)"
    "socks5_answer p h b w1 = Some (0, w')"
    using assms(5) by (auto simp: socks5_connect_def bind_eq_Some_conv split: if_splits)
  note b = socks5_connect_request_writes [OF s(1) assms(2-4)]
  have "plain_socket w1 h" "sent w1 h = sent w h @ take (nat k) b"
    using send_block_sent [OF assms(1) s(2)] b by auto
  then show ?thesis using socks5_answer_frame [OF _ s(3)] b by simp
qed

lemma socks5_opened:
  assumes "plain_socket w h" "ipv4 resolve" "length stack = 512" "short user" "short pass" "length (before_colon (take 255 addr)) \<le> 127"
    and "socket_proxy_setup_socks5 p resolve stack h addr user pass w = Some ((0, a), w')"
  shows "\<exists>ip auth. resolve (before_colon addr) = Some ip \<and> a = addr \<and> (auth = [] \<or> auth = [1] @ pascal user @ pascal pass) \<and>
    sent w' h = sent w h @ [5, 2, 2, 0] @ auth @ [5, 1, 0] @ socks5_dest addr ip @ be16 (addr_port addr)"
proof (cases rule: make_addr_cases [of resolve addr])
  case 1
  then show ?thesis using assms(7) by (auto simp: socket_proxy_setup_socks5_def bind_eq_Some_conv err_code)
next
  case (2 ip)
  let ?sin = "\<lparr>sin_port = addr_port addr, sin_addr = ip\<rparr>"
  have ip: "length (sin_addr ?sin) = 4" using assms(2) 2(1) by (simp add: ipv4_def)
  obtain buf w1 where s: "socks5_greeting p h user pass stack w = Some ((0, buf), w1)" "socks5_connect p h addr ?sin buf w1 = Some (0, w')"
    "a = addr"
    using assms(7) 2(2) by (auto simp: socket_proxy_setup_socks5_def bind_eq_Some_conv split: if_splits)
  from socks5_greeting_sent [OF assms(1,3-5) s(1)] obtain auth where
    g: "plain_socket w1 h" "length buf = 512" "auth = [] \<or> auth = [1] @ pascal user @ pascal pass" "sent w1 h = sent w h @ [5, 2, 2, 0] @ auth"
    by blast
  from socks5_connect_sent [OF g(1,2) assms(6) ip s(2)] show ?thesis
    using 2(1) s(3) g(3,4) by (intro exI [of _ ip] exI [of _ auth]) simp
qed

end

subsection \<open>Base 64\<close>

lemma base64_loop_done:
  "base64_loop inb i l tmp n = Some (i', l', tmp', n') \<Longrightarrow> 0 \<le> l \<Longrightarrow>
   length tmp' = length tmp \<and> 0 \<le> l' \<and> l' \<le> 2 \<and> 3 * (n' - n) = 4 * (l - l')"
proof (induction inb i l tmp n rule: base64_loop.induct)
  case (1 inb i l tmp n)
  show ?case
  proof (cases "2 < l")
    case True
    obtain a b c tmp1 where r: "peek inb i = Some a" "peek inb (i + 1) = Some b" "peek inb (i + 2) = Some c"
      "mem_write tmp n (base64_group a b c) = Some tmp1" "base64_loop inb (i + 3) (l - 3) tmp1 (n + 4) = Some (i', l', tmp', n')"
      using 1(2) True by (subst (asm) base64_loop.simps) (auto simp: bind_eq_Some_conv)
    show ?thesis using 1(1) [OF True r] 1(3) True length_mem_write [OF r(4)] by auto
  next
    case False
    then show ?thesis using 1(2,3) by (subst (asm) base64_loop.simps) auto
  qed
qed

text \<open>The encoder never has a result: it writes behind its block whatever it is given.\<close>

theorem base64_encode_overflows:
  assumes "malloc_spec m" "0 \<le> inlen" "base64_encode m inb inlen = Some r"
  shows "r = Inl (- 1)"
proof (rule ccontr)
  assume "r \<noteq> Inl (- 1)"
  define k where "k = inlen * 4 div 3 + (4 - inlen * 4 div 3 mod 4)"
  have k: "4 \<le> k" using assms(2) by (simp add: k_def) presburger
  obtain out i left tmp n tmp2 n2 tmp3 where r: "m (nat (k + 1)) = Some out" "base64_loop inb 0 k out 0 = Some (i, left, tmp, n)"
    "base64_pad inb i left tmp n = Some (tmp2, n2)" "poke tmp2 n2 0 = Some tmp3"
    using assms(3) \<open>r \<noteq> Inl (- 1)\<close> unfolding k_def
    by (auto simp: base64_encode_def Let_def bind_eq_Some_conv split: option.splits)
  have l: "length tmp = length out" "0 \<le> left" "left \<le> 2" "3 * n = 4 * (k - left)"
    using base64_loop_done [OF r(2)] k by auto
  have p: "length tmp2 = length tmp" "n2 = (if left = 0 then n else n + 4)"
    using r(3) by (auto simp: base64_pad_def bind_eq_Some_conv Let_def length_mem_write split: if_splits)
  have "int (length out) = k + 1" using malloc_spec_length [OF assms(1) r(1)] k by simp
  then have "n2 < k + 1" using r(4) l(1) p(1) by (auto simp: poke_def split: if_splits)
  then show False using l(2,3,4) p(2) k by (auto split: if_splits)
qed

subsection \<open>HTTP\<close>

text \<open>A byte that comes back is undefined or a NUL byte, which is no line end.\<close>

lemma http_answer_status:
  assumes "http_answer p err h k blob w = Some r"
  shows "fst r = 0"
proof (rule http_answer.raw_induct [where P = "\<lambda>_ _ _ _ _ _ r. fst r = 0", OF _ assms], goal_cases)
  case (1 f p err h k blob w r)
  then show ?case
    by (auto simp: lone_string_def Let_def split: option.splits prod.splits if_splits)
qed

lemma http_credentials_fail:
  assumes "\<forall>w. malloc_spec (fst (p_malloc p w))" "http_credentials p user pass blob w = Some (r, w')"
  shows "r = Inl ERR_TR50_MALLOC \<or> r = Inl (- 1)"
proof -
  obtain m1 w1 m2 w2 where m: "p_malloc p w = (m1, w1)" "p_malloc p w1 = (m2, w2)" by (metis surj_pair)
  have "malloc_spec m2" using assms(1) [rule_format, of w1] m(2) by simp
  note b = base64_encode_overflows [OF this]
  show ?thesis
  proof (cases "m1 (length user + length pass + 8)")
    case None
    then show ?thesis using assms(2) m by (simp add: http_credentials_def)
  next
    case (Some block)
    then obtain block2 r2 where r2: "base64_encode m2 block2 (1 + (int (length user) + int (length pass))) = Some r2"
      "(case r2 of Inl ret \<Rightarrow> Some (Inl ret, w2)
       | Inr e \<Rightarrow> map_option (\<lambda>(b, w). (Inr b, w)) (http_append p (cstr ''Authorization: Basic %s'' @ [0x0D, 0x0A]) (Some e) blob w2)) = Some (r, w')"
      using assms(2) m by (auto simp: http_credentials_def bind_eq_Some_conv)
    have "r2 = Inl (- 1)" by (rule b [OF _ r2(1)]) simp
    then show ?thesis using r2(2) by simp
  qed
qed

lemma http_request_errors:
  assumes "\<forall>w. malloc_spec (fst (p_malloc p w))" "http_request p addr hst user pass blob w = Some (r, w')"
  shows "(case r of Inl ret \<Rightarrow> ret = ERR_TR50_MALLOC \<or> ret = - 1 | Inr _ \<Rightarrow> user = None \<or> pass = None)"
proof -
  obtain blob w2 r1 w3 where c: "(case (user, pass) of (Some u, Some pw) \<Rightarrow> http_credentials p u pw blob w2 | _ \<Rightarrow> Some (Inr blob, w2)) = Some (r1, w3)"
    "(case r1 of Inl ret \<Rightarrow> Some (Inl ret, w3) | Inr blob \<Rightarrow> map_option (\<lambda>(b, w). (Inr b, w)) (http_append p [0x0D, 0x0A] None blob w3)) = Some (r, w')"
    using assms(2) unfolding http_request_def by (elim bind_pairE) (rule that)
  show ?thesis
  proof (cases "user = None \<or> pass = None")
    case True
    then have "\<exists>b. r1 = Inr b" using c(1) by (auto split: option.splits)
    then show ?thesis using c(2) True by auto
  next
    case False
    then obtain u pw where "user = Some u" "pass = Some pw" by auto
    then have "r1 = Inl ERR_TR50_MALLOC \<or> r1 = Inl (- 1)" using c(1) http_credentials_fail [OF assms(1)] by simp
    then show ?thesis using c(2) by auto
  qed
qed

text \<open>The HTTP handshake never opens a connection: a run that has a defined result answers an error, whatever the proxy
  sends; with a user name and a password it does not even send its request, since the encoder of the credentials writes
  behind its block.\<close>

theorem http_proxy_never_opens:
  assumes "transport p pending" "socket_proxy_setup_http p err h addr hst user pass w = Some (ret, w')"
  shows "ret \<noteq> 0 \<and> (user \<noteq> None \<and> pass \<noteq> None \<longrightarrow> ret = ERR_TR50_MALLOC \<or> ret = - 1)"
proof -
  have m: "\<forall>w. malloc_spec (fst (p_malloc p w))" using transport.malloc_law [OF assms(1)] by (metis prod.collapse)
  obtain m1 w1 where m1: "p_malloc p w = (m1, w1)" by fastforce
  obtain m2 w2 where m2: "(if m1 32 = None then (malloc_null, w1) else p_malloc p w1) = (m2, w2)" by fastforce
  show ?thesis
  proof (cases "blob_create m1 m2 128")
    case (Inl c)
    then have "c = ERR_TR50_MALLOC" by (auto simp: blob_create_def Let_def split: if_splits)
    then show ?thesis using assms(2) m1 m2 Inl by (auto simp: socket_proxy_setup_http_def err_code)
  next
    case (Inr blob)
    obtain r w3 where q: "http_request p addr hst user pass blob w2 = Some (r, w3)"
      "(case r of Inl ret \<Rightarrow> Some (ret, w3) | Inr blob \<Rightarrow> do {
         (ret, w) \<leftarrow> send_block p h (bl_buffer blob) (bl_len blob) w3;
         if ret \<noteq> 0 then Some (ret, w)
         else do {
           blob \<leftarrow> snd (blob_clear (Some blob));
           (status, w) \<leftarrow> http_answer p err h 0 blob w;
           Some (if status = 200 then 0 else ERR_TR50_SOCK_PROXY_OTHER, w) } }) = Some (ret, w')"
      using assms(2) unfolding socket_proxy_setup_http_def Let_def m1 m2 prod.case Inr sum.case by (elim bind_pairE) (rule that)
    note e = http_request_errors [OF m q(1)]
    show ?thesis
    proof (cases r)
      case (Inl c)
      then show ?thesis using e q(2) by (auto simp: err_code)
    next
      case (Inr b)
      obtain ret1 w4 where s1: "send_block p h (bl_buffer b) (bl_len b) w3 = Some (ret1, w4)"
        "(if ret1 \<noteq> 0 then Some (ret1, w4) else do {
           blob \<leftarrow> snd (blob_clear (Some b));
           (status, w) \<leftarrow> http_answer p err h 0 blob w4;
           Some (if status = 200 then 0 else ERR_TR50_SOCK_PROXY_OTHER, w) }) = Some (ret, w')"
        using q(2) unfolding Inr sum.case by (elim bind_pairE) (rule that)
      have "ret \<noteq> 0"
      proof (cases "ret1 = 0")
        case True
        then obtain blob status w5 where "http_answer p err h 0 blob w4 = Some (status, w5)"
          "ret = (if status = 200 then 0 else ERR_TR50_SOCK_PROXY_OTHER)"
          using s1(2) by (auto simp: bind_eq_Some_conv)
        then show ?thesis using http_answer_status [of p err h 0 blob w4] by (simp add: err_code)
      qed (use s1(2) in simp)
      then show ?thesis using e Inr by auto
    qed
  qed
qed

subsection \<open>SOCKS\<close>

text \<open>C29: A SOCKS 4 handshake that answers 0 has sent exactly the request of the protocol, version 4, command 1, the port and
  the address that the name resolves to, the user and a zero, and the proxy has answered with at least two bytes of
  which the second grants the request; the address string is as it was.\<close>

theorem socks4_opens:
  assumes "duplex p pending sent plain_socket" "plain_socket w h" "ipv4 resolve"
    and "socket_proxy_setup_socks4 p resolve h addr user w = Some ((0, a), w')"
  shows "\<exists>ip reply. resolve (before_colon addr) = Some ip \<and> a = addr \<and>
    sent w' h = sent w h @ [4, 1] @ be16 (addr_port addr) @ ip @ (case user of None \<Rightarrow> [] | Some u \<Rightarrow> u) @ [0] \<and>
    pending w h = reply @ pending w' h \<and> 2 \<le> length reply \<and> length reply \<le> 8 \<and> reply ! 1 = 0x5A"
  by (rule duplex.socks4_opened [OF assms])

text \<open>SOCKS 4a leaves the name to the proxy, but the code looks it up all the same, and fails when it cannot.\<close>

theorem socks4a_resolves:
  assumes "duplex p pending sent plain_socket" "plain_socket w h"
    and "socket_proxy_setup_socks4a p resolve h addr user w = Some ((0, a), w')"
  shows "resolve (before_colon addr) \<noteq> None"
  using duplex.socks4a_opened [OF assms] by blast


text \<open>The block the answer goes into still holds the greeting: when only one byte arrives, the method is the 2 that the
  client wrote, and it sends its credentials.\<close>

lemma socks5_one_byte_answer:
  assumes "mem_write stack 0 [5, 2, 2, 0] = Some b0" "send_block p h b0 4 w = Some (0, w1)"
    and "p_tcp_recv p w1 h 2 TCP_DEFAULT_TIMEOUT = Some ((0, [x]), w2)"
  shows "socks5_greeting p h user pass stack w = socks5_auth p h user pass (x # drop 1 b0) w2"
proof -
  have "mem_write b0 0 [x] = Some (x # drop 1 b0)" "(x # drop 1 b0) ! 1 = 2"
    using assms(1) by (auto simp: mem_write_def split: if_splits)
  then show ?thesis using assms by (simp add: socks5_greeting_def recv_into_def)
qed

text \<open>The length of a longer name is negative as a \<open>char\<close>, and the next field lies before the block.\<close>

lemma socks5_long_user:
  assumes "128 \<le> length u" "length u \<le> 253" "length buf = 512"
  shows "socks5_auth p h (Some u) pass buf w = None"
proof -
  have c: "\<forall>n \<in> set [128..<254]. sint (of_nat n :: byte) = int n - 256" by code_simp
  have l: "sint (of_nat (length u) :: byte) = int (length u) - 256"
    by (rule bspec [OF c], unfold set_upt atLeastLessThan_iff) (use assms(1,2) in linarith)
  have f: "socks5_field b (int (length u) - 254) pass = None" for b
    using assms(1,2) by (cases pass) (simp_all add: socks5_field_def socks5_string_def poke_def)
  have "socks5_field b 1 (Some u) = Some (b', i) \<Longrightarrow> i = int (length u) - 254" for b b' i
    using l by (auto simp: socks5_field_def socks5_string_def c_strncpy_def poke_def peek_def mem_write_def bind_eq_Some_conv
        nth_append split: if_splits)
  then have "socks5_field b 1 (Some u) = Some (b', i) \<Longrightarrow> socks5_field b' i pass = None" for b b' i using f by blast
  then show ?thesis
    by (cases "socks5_auth p h (Some u) pass buf w") (auto simp: socks5_auth_def bind_eq_Some_conv)
qed

subsection \<open>Witnesses\<close>

declare tcp_send_loop.simps [code] ssl_send_loop.simps [code]

abbreviation names :: resolver where
  "names \<equiv> (\<lambda>n. if n = cstr ''h'' then Some [10, 0, 0, 1] else None)"

lemma ipv4_names: "ipv4 names"
  by (simp add: ipv4_def)

lemma clear_open: "clear 1 (os_open es)"
  by (simp add: clear_def os_open_def)

lemma socks4_opens_witness:
  "\<exists>w' reply. socket_proxy_setup_socks4 linux_platform names 1 (cstr ''h:80'') None (os_open [RxData [0, 0x5A, 0, 0, 0, 0, 0, 0]]) =
     Some ((0, cstr ''h:80''), w') \<and> os_sent w' 1 = [4, 1, 0, 80, 10, 0, 0, 1, 0]"
proof -
  let ?s = "socket_proxy_setup_socks4 linux_platform names 1 (cstr ''h:80'') None (os_open [RxData [0, 0x5A, 0, 0, 0, 0, 0, 0]])"
  have "map_option fst ?s = Some (0, cstr ''h:80'')" by code_simp
  then obtain w' where s: "?s = Some ((0, cstr ''h:80''), w')" by auto
  have v: "before_colon (cstr ''h:80'') = cstr ''h''" "be16 (addr_port (cstr ''h:80'')) = [0, 80]" by code_simp+
  have "os_sent (os_open [RxData [0, 0x5A, 0, 0, 0, 0, 0, 0]]) 1 = []" by code_simp
  then show ?thesis
    using socks4_opens [OF linux_duplex.duplex_axioms clear_open ipv4_names s] s v by auto
qed


lemma http_proxy_never_opens_witness:
  "\<exists>w'. socket_proxy_setup_http linux_platform socket_error 1 (cstr ''h:80'') (cstr ''p:8080'') None None (os_open [RxShutdown]) =
     Some (ERR_TR50_SOCK_PROXY_OTHER, w') \<and> ERR_TR50_SOCK_PROXY_OTHER \<noteq> 0"
proof -
  let ?s = "socket_proxy_setup_http linux_platform socket_error 1 (cstr ''h:80'') (cstr ''p:8080'') None None (os_open [RxShutdown])"
  have "map_option fst ?s = Some ERR_TR50_SOCK_PROXY_OTHER" by code_simp
  then obtain w' where s: "?s = Some (ERR_TR50_SOCK_PROXY_OTHER, w')" by auto
  then show ?thesis using http_proxy_never_opens [OF linux.transport_axioms s] by blast
qed

end
