(* ===== verification/Tr50_Locks.thy ===== *)
theory Tr50_Locks
  imports Tr50_Error
begin

section \<open>Mutexes and threads (util/linux/linux.mutex.c)\<close>

text \<open>
  The other theories take a step of a thread to be what it does under a mutex.  This one is about the mutexes themselves:
  recursive ones, as \<open>_tr50_mutex_create\<close> makes them, threads as what they still have to lock and unlock, and when
  such threads can block each other for ever.
\<close>

subsection \<open>Recursive mutexes\<close>

text \<open>The owner of each mutex and how often it has locked it; a mutex nobody owns is free.\<close>

type_synonym ('l, 't) mutexes = "'l \<Rightarrow> ('t \<times> nat) option"

text \<open>\<open>_tr50_mutex_lock\<close> has no result while another thread owns the mutex.  \<open>_tr50_mutex_unlock\<close> by a thread that does not
  own it is refused.\<close>

definition mutex_lock :: "'t \<Rightarrow> 'l \<Rightarrow> ('l, 't) mutexes \<Rightarrow> (int \<times> ('l, 't) mutexes) option" where
  "mutex_lock t l mx =
     (case mx l of
        None \<Rightarrow> Some (0, mx(l \<mapsto> (t, 1)))
      | Some (u, n) \<Rightarrow> if u = t then Some (0, mx(l \<mapsto> (t, n + 1))) else None)"

definition mutex_unlock :: "'t \<Rightarrow> 'l \<Rightarrow> ('l, 't) mutexes \<Rightarrow> int \<times> ('l, 't) mutexes" where
  "mutex_unlock t l mx =
     (case mx l of
        None \<Rightarrow> (ERR_TR50_OS, mx)
      | Some (u, n) \<Rightarrow>
          if u \<noteq> t then (ERR_TR50_OS, mx)
          else if n > 1 then (0, mx(l \<mapsto> (t, n - 1)))
          else (0, mx(l := None)))"

lemma mutex_lock_free: "mutex_lock t l mx = None \<longleftrightarrow> (\<exists>u n. mx l = Some (u, n) \<and> u \<noteq> t)"
  by (auto simp: mutex_lock_def split: option.splits)

subsection \<open>Threads\<close>

text \<open>What a thread does that another can wait for: it takes a mutex, it gives one back, it waits for the end of a thread.\<close>

datatype 'l action = Acquire 'l | Release 'l | Join nat

record 'l threads =
  th_script :: "nat \<Rightarrow> 'l action list"
  th_mutexes :: "('l, nat) mutexes"

inductive thread_step :: "'l threads \<Rightarrow> nat \<Rightarrow> 'l threads \<Rightarrow> bool" where
  step_acquire: "th_script c t = Acquire l # as \<Longrightarrow> mutex_lock t l (th_mutexes c) = Some (0, mx) \<Longrightarrow>
    thread_step c t (c\<lparr>th_script := (th_script c)(t := as), th_mutexes := mx\<rparr>)"
| step_release: "th_script c t = Release l # as \<Longrightarrow> mutex_unlock t l (th_mutexes c) = (r, mx) \<Longrightarrow>
    thread_step c t (c\<lparr>th_script := (th_script c)(t := as), th_mutexes := mx\<rparr>)"
| step_join: "th_script c t = Join u # as \<Longrightarrow> th_script c u = [] \<Longrightarrow>
    thread_step c t (c\<lparr>th_script := (th_script c)(t := as)\<rparr>)"

inductive_simps thread_step_iff: "thread_step c t c'"

inductive thread_run :: "'l threads \<Rightarrow> nat list \<Rightarrow> 'l threads \<Rightarrow> bool" where
  run_nil: "thread_run c [] c"
| run_step: "thread_step c t c' \<Longrightarrow> thread_run c' ts c'' \<Longrightarrow> thread_run c (t # ts) c''"

inductive_simps thread_run_simps [simp]: "thread_run c [] c'" "thread_run c (t # ts) c'"

definition start_threads :: "(nat \<Rightarrow> 'l action list) \<Rightarrow> 'l threads" where
  "start_threads scripts = \<lparr>th_script = scripts, th_mutexes = (\<lambda>_. None)\<rparr>"

text \<open>A thread that cannot go on.\<close>

definition blocked :: "'l threads \<Rightarrow> nat \<Rightarrow> bool" where
  "blocked c t \<longleftrightarrow> th_script c t \<noteq> [] \<and> (\<forall>c'. \<not> thread_step c t c')"

lemma blocked_cases:
  "blocked c t \<longleftrightarrow> (\<exists>l as u n. th_script c t = Acquire l # as \<and> th_mutexes c l = Some (u, n) \<and> u \<noteq> t) \<or>
     (\<exists>u as. th_script c t = Join u # as \<and> th_script c u \<noteq> [])"
proof (cases "th_script c t")
  case (Cons a as)
  then show ?thesis
  proof (cases a)
    case (Acquire l)
    then show ?thesis using Cons
      by (auto simp: blocked_def thread_step_iff mutex_lock_def split: option.splits)
  next
    case (Release l)
    obtain r mx where "mutex_unlock t l (th_mutexes c) = (r, mx)" by fastforce
    then show ?thesis using Cons Release by (auto simp: blocked_def thread_step_iff)
  next
    case (Join u)
    then show ?thesis using Cons by (auto simp: blocked_def thread_step_iff)
  qed
qed (simp add: blocked_def)

subsection \<open>Scripts that take mutexes in order\<close>

text \<open>\<open>held\<close> is what the thread has locked, the latest first: it locks a mutex it has, or one above all it has; it waits for a
  thread, one of a smaller number, when it has none; and it has none in the end.\<close>

fun orderly :: "nat \<Rightarrow> 'l :: linorder list \<Rightarrow> 'l action list \<Rightarrow> bool" where
  "orderly t held [] \<longleftrightarrow> held = []"
| "orderly t held (Acquire l # as) \<longleftrightarrow> (l \<in> set held \<or> (\<forall>k \<in> set held. k < l)) \<and> orderly t (l # held) as"
| "orderly t held (Release l # as) \<longleftrightarrow> l \<in> set held \<and> orderly t (remove1 l held) as"
| "orderly t held (Join u # as) \<longleftrightarrow> held = [] \<and> u < t \<and> orderly t held as"

text \<open>The mutexes are those the threads hold.\<close>

definition owner_ok :: "(nat \<Rightarrow> 'l list) \<Rightarrow> 'l \<Rightarrow> (nat \<times> nat) option \<Rightarrow> bool" where
  "owner_ok held l m \<longleftrightarrow>
     (case m of
        None \<Rightarrow> \<forall>t. l \<notin> set (held t)
      | Some (u, n) \<Rightarrow> l \<in> set (held u) \<and> n = count_list (held u) l \<and> (\<forall>t. t \<noteq> u \<longrightarrow> l \<notin> set (held t)))"

definition consistent :: "'l :: linorder threads \<Rightarrow> (nat \<Rightarrow> 'l list) \<Rightarrow> bool" where
  "consistent c held \<longleftrightarrow> (\<forall>t. orderly t (held t) (th_script c t)) \<and> (\<forall>l. owner_ok held l (th_mutexes c l))"

lemma consistent_start: "(\<And>t. orderly t [] (scripts t)) \<Longrightarrow> consistent (start_threads scripts) (\<lambda>_. [])"
  by (simp add: consistent_def start_threads_def owner_ok_def)

lemma count_list_remove1: "count_list (remove1 x xs) y = (if x = y then count_list xs y - 1 else count_list xs y)"
  by (induction xs) (auto simp: Suc_pred count_list_0_iff)

lemma in_set_remove1_count: "l \<in> set (remove1 x xs) \<longleftrightarrow> (if x = l then 1 < count_list xs l else l \<in> set xs)"
proof -
  have c: "l \<in> set (remove1 x xs) \<longleftrightarrow> count_list (remove1 x xs) l \<noteq> 0" by (simp only: count_list_0_iff not_not)
  have x: "l \<in> set xs \<longleftrightarrow> count_list xs l \<noteq> 0" by (simp only: count_list_0_iff not_not)
  show ?thesis unfolding c x count_list_remove1 by auto
qed

lemma owner_lock:
  assumes "\<forall>k. owner_ok held k (mx k)" "mutex_lock t l mx = Some (r, mx')"
  shows "\<forall>k. owner_ok (held(t := l # held t)) k (mx' k)"
proof
  fix k
  have "owner_ok held k (mx k)" "owner_ok held l (mx l)" using assms(1) by auto
  then show "owner_ok (held(t := l # held t)) k (mx' k)"
    using assms(2) by (cases "k = l") (auto simp: owner_ok_def mutex_lock_def count_list_0_iff split: option.splits if_splits)
qed

lemma owner_unlock:
  assumes "\<forall>k. owner_ok held k (mx k)" "mutex_unlock t l mx = (r, mx')" "l \<in> set (held t)"
  shows "r = 0 \<and> (\<forall>k. owner_ok (held(t := remove1 l (held t))) k (mx' k))"
proof -
  obtain a n where a: "mx l = Some (a, n)"
    using assms(1)[rule_format, of l] assms(3) by (auto simp: owner_ok_def split: option.splits)
  then have "a = t" using assms(1)[rule_format, of l] assms(3) by (auto simp: owner_ok_def)
  then have o: "mx l = Some (t, count_list (held t) l)" "\<forall>u. u \<noteq> t \<longrightarrow> l \<notin> set (held u)"
    using assms(1)[rule_format, of l] a by (simp_all add: owner_ok_def)
  have "owner_ok (held(t := remove1 l (held t))) k (mx' k)" for k
    using assms(1)[rule_format, of k] assms(2) o
    by (cases "k = l") (auto simp: owner_ok_def mutex_unlock_def in_set_remove1_count count_list_remove1 split: option.splits if_splits)
  then show ?thesis using assms(2) o(1) by (auto simp: mutex_unlock_def split: if_splits)
qed

lemma consistent_step:
  assumes c: "consistent c held" and s: "thread_step c t c'"
  shows "\<exists>held'. consistent c' held'"
  using s
proof cases
  case (step_acquire l as mx)
  have "orderly t (l # held t) as" using c step_acquire(2) by (auto simp: consistent_def dest: spec [of _ t])
  then have "consistent c' (held(t := l # held t))"
    using c owner_lock [OF _ step_acquire(3), of held] unfolding step_acquire(1) consistent_def by auto
  then show ?thesis by blast
next
  case (step_release l as r mx)
  have "orderly t (remove1 l (held t)) as" "l \<in> set (held t)"
    using c step_release(2) by (auto simp: consistent_def dest: spec [of _ t])
  then have "consistent c' (held(t := remove1 l (held t)))"
    using c owner_unlock [OF _ step_release(3), of held] unfolding step_release(1) consistent_def by auto
  then show ?thesis by blast
next
  case (step_join u as)
  have "orderly t (held t) (Join u # as)" using c step_join(2) by (metis consistent_def)
  then have "orderly t (held t) as" by (cases "held t") simp_all
  then have "consistent c' held" using c unfolding step_join(1) by (auto simp: consistent_def)
  then show ?thesis by blast
qed

lemma consistent_run: "thread_run c ts c' \<Longrightarrow> consistent c held \<Longrightarrow> \<exists>held'. consistent c' held'"
  by (induction arbitrary: held rule: thread_run.induct) (use consistent_step in blast)+

text \<open>Of the threads that wait for a mutex take one that waits for the largest: the owner of that mutex waits for a larger one.\<close>

lemma consistent_progress:
  fixes c :: "'l :: linorder threads"
  assumes c: "consistent c held" and fin: "finite {t. th_script c t \<noteq> []}" and ex: "th_script c t0 \<noteq> []"
  shows "\<exists>t c'. thread_step c t c'"
proof (rule ccontr)
  assume "\<nexists>t c'. thread_step c t c'"
  then have b: "th_script c t \<noteq> [] \<Longrightarrow> blocked c t" for t by (auto simp: blocked_def)
  let ?W = "{l. \<exists>t as. th_script c t = Acquire l # as}"
  have finW: "finite ?W"
  proof -
    have "?W \<subseteq> (\<lambda>t. case hd (th_script c t) of Acquire l \<Rightarrow> l) ` {t. th_script c t \<noteq> []}"
    proof
      fix l
      assume "l \<in> ?W"
      then obtain t as where "th_script c t = Acquire l # as" by blast
      then show "l \<in> (\<lambda>t. case hd (th_script c t) of Acquire l \<Rightarrow> l) ` {t. th_script c t \<noteq> []}"
        by (intro image_eqI [of _ _ t]) simp_all
    qed
    then show ?thesis using fin finite_surj by blast
  qed
  have "?W \<noteq> {}"
  proof
    assume none: "?W = {}"
    obtain t where t: "th_script c t \<noteq> []" "\<forall>u < t. th_script c u = []"
      using ex exists_least_iff [of "\<lambda>t. th_script c t \<noteq> []"] by auto
    from b [OF t(1)] none obtain u as where j: "th_script c t = Join u # as" "th_script c u \<noteq> []"
      by (auto simp: blocked_cases)
    then have "u < t" using c by (auto simp: consistent_def dest: spec [of _ t])
    then show False using t(2) j(2) by blast
  qed
  then obtain t l as where l: "th_script c t = Acquire l # as" "\<forall>k \<in> ?W. k \<le> l"
  proof -
    assume "?W \<noteq> {}"
    then obtain t as where "th_script c t = Acquire (Max ?W) # as" using Max_in [OF finW] by blast
    moreover have "\<forall>k \<in> ?W. k \<le> Max ?W" using Max_ge [OF finW] by blast
    ultimately show thesis using that by blast
  qed
  then obtain u n where u: "th_mutexes c l = Some (u, n)" "u \<noteq> t" using b [of t] by (auto simp: blocked_cases)
  have lu: "l \<in> set (held u)" using c u(1) by (auto simp: consistent_def owner_ok_def dest!: spec [of _ l])
  have o: "orderly u (held u) (th_script c u)" using c by (simp add: consistent_def)
  then have "th_script c u \<noteq> []" using lu by auto
  with b have "blocked c u" by blast
  then show False
  proof (unfold blocked_cases, elim disjE exE conjE)
    fix k as' v m
    assume k: "th_script c u = Acquire k # as'" "th_mutexes c k = Some (v, m)" "v \<noteq> u"
    have "k \<notin> set (held u)" using c k(2,3) by (auto simp: consistent_def owner_ok_def dest!: spec [of _ k])
    then have "l < k" using o k(1) lu by auto
    moreover have "k \<in> ?W" using k(1) by blast
    ultimately show False using l(2) leD by blast
  next
    fix v as'
    assume "th_script c u = Join v # as'"
    then show False using o lu by auto
  qed
qed

subsection \<open>Schedules\<close>

text \<open>What is left to do of the threads below \<open>n\<close>; every step does one thing of it.\<close>

definition left :: "nat \<Rightarrow> 'l threads \<Rightarrow> nat" where
  "left n c = (\<Sum>t<n. length (th_script c t))"

lemma left_cons:
  assumes "t < n" "th_script c t = a # as" "th_script c' = (th_script c)(t := as)"
  shows "left n c = Suc (left n c')"
proof -
  have "left n x = length (th_script x t) + (\<Sum>u \<in> {..<n} - {t}. length (th_script x u))" for x :: "'l threads"
    unfolding left_def using assms(1) by (intro sum.remove) auto
  from this [of c] this [of c'] show ?thesis using assms(2,3) by simp
qed

lemma step_script:
  assumes "thread_step c t c'"
  obtains a as where "th_script c t = a # as" "th_script c' = (th_script c)(t := as)"
  using assms by cases auto

lemma thread_step_left:
  assumes "thread_step c t c'" "\<forall>t \<ge> n. th_script c t = []"
  shows "left n c = Suc (left n c') \<and> (\<forall>t \<ge> n. th_script c' t = [])"
proof -
  obtain a as where s: "th_script c t = a # as" "th_script c' = (th_script c)(t := as)" using assms(1) by (rule step_script)
  then have "t < n" using assms(2) by (metis list.distinct(1) not_le)
  then show ?thesis using left_cons [of t n c a as c'] s assms(2) by auto
qed

lemma thread_run_left:
  "thread_run c ts c' \<Longrightarrow> \<forall>t \<ge> n. th_script c t = [] \<Longrightarrow>
   left n c = length ts + left n c' \<and> (\<forall>t \<ge> n. th_script c' t = [])"
proof (induction rule: thread_run.induct)
  case (run_step c t c' ts c'')
  have s: "left n c = Suc (left n c') \<and> (\<forall>t \<ge> n. th_script c' t = [])"
    using run_step(1,4) by (rule thread_step_left)
  then show ?case using run_step(3) by simp
qed simp

text \<open>From a consistent state every schedule can be continued to the end of all threads.\<close>

lemma consistent_finish:
  assumes "consistent c held" "\<forall>t \<ge> n. th_script c t = []"
  shows "\<exists>ts c'. thread_run c ts c' \<and> (\<forall>t. th_script c' t = [])"
  using assms
proof (induction "left n c" arbitrary: c held rule: less_induct)
  case less
  show ?case
  proof (cases "\<forall>t. th_script c t = []")
    case False
    have "{t. th_script c t \<noteq> []} \<subseteq> {..<n}" using less.prems(2) by (auto simp: not_le [symmetric])
    then have "finite {t. th_script c t \<noteq> []}" by (rule finite_subset) simp
    then obtain t c' where s: "thread_step c t c'" using consistent_progress less.prems(1) False by blast
    obtain held' where "consistent c' held'" using consistent_step less.prems(1) s by blast
    moreover have "left n c = Suc (left n c')" "\<forall>t \<ge> n. th_script c' t = []"
      using thread_step_left [OF s less.prems(2)] by auto
    ultimately obtain ts c'' where "thread_run c' ts c''" "\<forall>t. th_script c'' t = []" using less.hyps [of c' held'] by auto
    then show ?thesis using run_step [OF s] by blast
  qed (use run_nil in blast)
qed

lemma orderly_finish:
  assumes "\<And>t. orderly t [] (scripts t)" "\<forall>t \<ge> n. scripts t = []" "thread_run (start_threads scripts) ts c"
  shows "length ts \<le> (\<Sum>t<n. length (scripts t)) \<and> (\<exists>ts' c'. thread_run c ts' c' \<and> (\<forall>t. th_script c' t = []))"
proof -
  have e: "\<forall>t \<ge> n. th_script (start_threads scripts) t = []" using assms(2) by (simp add: start_threads_def)
  obtain held where "consistent c held" using consistent_run assms(3) consistent_start [OF assms(1)] by blast
  moreover have "left n (start_threads scripts) = length ts + left n c \<and> (\<forall>t \<ge> n. th_script c t = [])"
    using thread_run_left [OF assms(3) e] .
  ultimately show ?thesis using consistent_finish [of c held n] by (auto simp: left_def start_threads_def)
qed

subsection \<open>Deadlock\<close>

text \<open>Two threads, each before a mutex of the other.\<close>

definition embrace :: "'l threads \<Rightarrow> nat \<Rightarrow> nat \<Rightarrow> bool" where
  "embrace c t u \<longleftrightarrow> t \<noteq> u \<and>
     (\<exists>l k as bs m n. th_script c t = Acquire l # as \<and> th_mutexes c l = Some (u, Suc m) \<and>
        th_script c u = Acquire k # bs \<and> th_mutexes c k = Some (t, Suc n))"

lemma embrace_blocked: "embrace c t u \<Longrightarrow> blocked c t \<and> blocked c u"
  unfolding embrace_def blocked_cases by metis

text \<open>A mutex changes only by its owner, or when nobody owns it.\<close>

lemma step_owner:
  assumes "thread_step c t c'" "th_mutexes c l = Some (u, n)" "t \<noteq> u"
  shows "th_mutexes c' l = Some (u, n)"
  using assms by cases (auto simp: mutex_lock_def mutex_unlock_def split: option.splits if_splits)

lemma embrace_step:
  assumes "embrace c t u" "thread_step c v c'"
  shows "v \<noteq> t \<and> v \<noteq> u \<and> embrace c' t u"
proof -
  have v: "v \<noteq> t" "v \<noteq> u" using embrace_blocked [OF assms(1)] assms(2) by (auto simp: blocked_def)
  obtain a as where "th_script c v = a # as" "th_script c' = (th_script c)(v := as)" using assms(2) by (rule step_script)
  then have "th_script c' t = th_script c t" "th_script c' u = th_script c u" using v by auto
  then show ?thesis using assms(1) v step_owner [OF assms(2)] unfolding embrace_def by metis
qed

lemma embrace_run: "thread_run c ts c' \<Longrightarrow> embrace c t u \<Longrightarrow> t \<notin> set ts \<and> u \<notin> set ts \<and> embrace c' t u"
  by (induction rule: thread_run.induct) (use embrace_step in force)+

subsection \<open>Playing a schedule\<close>

fun step_of :: "'l threads \<Rightarrow> nat \<Rightarrow> 'l threads option" where
  "step_of c t =
     (case th_script c t of
        [] \<Rightarrow> None
      | Acquire l # as \<Rightarrow>
          (case mutex_lock t l (th_mutexes c) of
             None \<Rightarrow> None
           | Some (r, mx) \<Rightarrow> Some (c\<lparr>th_script := (th_script c)(t := as), th_mutexes := mx\<rparr>))
      | Release l # as \<Rightarrow> Some (c\<lparr>th_script := (th_script c)(t := as), th_mutexes := snd (mutex_unlock t l (th_mutexes c))\<rparr>)
      | Join u # as \<Rightarrow> if th_script c u = [] then Some (c\<lparr>th_script := (th_script c)(t := as)\<rparr>) else None)"

fun play :: "'l threads \<Rightarrow> nat list \<Rightarrow> 'l threads option" where
  "play c [] = Some c"
| "play c (t # ts) = (case step_of c t of None \<Rightarrow> None | Some c' \<Rightarrow> play c' ts)"

lemma mutex_lock_result: "mutex_lock t l mx = Some (r, mx') \<Longrightarrow> r = 0"
  by (auto simp: mutex_lock_def split: option.splits if_splits)

lemma step_of_step: "step_of c t = Some c' \<Longrightarrow> thread_step c t c'"
  by (auto simp: thread_step_iff mutex_lock_result split: list.splits action.splits option.splits if_splits)
     (metis prod.collapse)

lemma play_run: "play c ts = Some c' \<Longrightarrow> thread_run c ts c'"
  by (induction ts arbitrary: c) (auto simp del: step_of.simps dest: step_of_step split: option.splits)

end
