(* ===== verification/Tr50_Lock_Order.thy ===== *)
theory Tr50_Lock_Order
  imports Tr50_Locks
begin

section \<open>What the library locks, and in which order\<close>

text \<open>
  For every function that locks something: the mutexes it takes, on which ways through it, and which of its callbacks run
  under which of them.  The conditions that choose a way are not here (they are in the theories of the components): every
  combination of ways is allowed, so what is shown holds for all of them.
\<close>

subsection \<open>A language of locking\<close>

text \<open>\<open>Under l p\<close> is \<open>p\<close> between the lock and the unlock of \<open>l\<close>; \<open>Outside l p\<close> is \<open>p\<close> between an unlock and the lock after it;
  \<open>Await u\<close> is the join of thread \<open>u\<close>.\<close>

datatype 'l locking =
    Nothing
  | Seq "'l locking" "'l locking"
  | Either "'l locking" "'l locking"
  | Again "'l locking"
  | Under 'l "'l locking"
  | Outside 'l "'l locking"
  | Await nat

fun do_all :: "'l locking list \<Rightarrow> 'l locking" where
  "do_all [] = Nothing"
| "do_all (p # ps) = Seq p (do_all ps)"

fun one_of :: "'l locking list \<Rightarrow> 'l locking" where
  "one_of [] = Nothing"
| "one_of [p] = p"
| "one_of (p # ps) = Either p (one_of ps)"

definition perhaps :: "'l locking \<Rightarrow> 'l locking" where
  "perhaps p = Either Nothing p"

text \<open>The ways through it.\<close>

inductive way :: "'l locking \<Rightarrow> 'l action list \<Rightarrow> bool" where
  way_nothing: "way Nothing []"
| way_seq: "way p as \<Longrightarrow> way q bs \<Longrightarrow> way (Seq p q) (as @ bs)"
| way_left: "way p as \<Longrightarrow> way (Either p q) as"
| way_right: "way q as \<Longrightarrow> way (Either p q) as"
| way_stop: "way (Again p) []"
| way_again: "way p as \<Longrightarrow> way (Again p) bs \<Longrightarrow> way (Again p) (as @ bs)"
| way_under: "way p as \<Longrightarrow> way (Under l p) (Acquire l # as @ [Release l])"
| way_outside: "way p as \<Longrightarrow> way (Outside l p) (Release l # as @ [Acquire l])"
| way_await: "way (Await u) [Join u]"

text \<open>The check of the order: \<open>t\<close> is the thread that runs it, \<open>held\<close> what it has locked, the latest first.\<close>

fun in_order :: "nat \<Rightarrow> 'l :: linorder list \<Rightarrow> 'l locking \<Rightarrow> bool" where
  "in_order t held Nothing \<longleftrightarrow> True"
| "in_order t held (Seq p q) \<longleftrightarrow> in_order t held p \<and> in_order t held q"
| "in_order t held (Either p q) \<longleftrightarrow> in_order t held p \<and> in_order t held q"
| "in_order t held (Again p) \<longleftrightarrow> in_order t held p"
| "in_order t held (Under l p) \<longleftrightarrow> (l \<in> set held \<or> (\<forall>k \<in> set held. k < l)) \<and> in_order t (l # held) p"
| "in_order t held (Outside l p) \<longleftrightarrow>
     (case held of [] \<Rightarrow> False | k # ks \<Rightarrow> k = l \<and> (l \<in> set ks \<or> (\<forall>j \<in> set ks. j < l)) \<and> in_order t ks p)"
| "in_order t held (Await u) \<longleftrightarrow> held = [] \<and> u < t"

lemma in_order_do_all: "in_order t held (do_all ps) \<longleftrightarrow> (\<forall>p \<in> set ps. in_order t held p)"
  by (induction ps) auto

lemma in_order_one_of: "in_order t held (one_of ps) \<longleftrightarrow> (\<forall>p \<in> set ps. in_order t held p)"
  by (induction ps rule: one_of.induct) auto

lemma in_order_perhaps: "in_order t held (perhaps p) \<longleftrightarrow> in_order t held p"
  by (simp add: perhaps_def)

lemmas in_order_simps = in_order_do_all in_order_one_of in_order_perhaps

text \<open>The check is sound: every way through something in order leaves an orderly script orderly when put before it.\<close>

lemma in_order_way:
  "way p as \<Longrightarrow> in_order t held p \<Longrightarrow> orderly t held cont \<Longrightarrow> orderly t held (as @ cont)"
proof (induction arbitrary: held cont rule: way.induct)
  case (way_outside p as l)
  then obtain ks where "held = l # ks" "l \<in> set ks \<or> (\<forall>j \<in> set ks. j < l)" "in_order t ks p"
    by (auto split: list.splits)
  then show ?case using way_outside by auto
qed auto

subsection \<open>The mutexes of a client\<close>

text \<open>In the order in which they are nested: \<open>client->mux\<close>, the mutex of the asynchronous client, that of the acknowledgement
  table, of the pending list, of the mailbox check, of the statistics, and of the event a synchronous call waits for.\<close>

datatype lock = Client_Mux | Async_Mux | Qos_Mux | Pending_Mux | Mailbox_Mux | Stats_Mux | Event_Mux

fun lock_rank :: "lock \<Rightarrow> nat" where
  "lock_rank Client_Mux = 0"
| "lock_rank Async_Mux = 1"
| "lock_rank Qos_Mux = 2"
| "lock_rank Pending_Mux = 3"
| "lock_rank Mailbox_Mux = 4"
| "lock_rank Stats_Mux = 5"
| "lock_rank Event_Mux = 6"

lemma lock_rank_eq [simp]: "lock_rank a = lock_rank b \<longleftrightarrow> a = b"
  by (cases a; cases b) simp_all

instantiation lock :: linorder
begin

definition less_eq_lock :: "lock \<Rightarrow> lock \<Rightarrow> bool" where "a \<le> b \<longleftrightarrow> lock_rank a \<le> lock_rank b"

definition less_lock :: "lock \<Rightarrow> lock \<Rightarrow> bool" where "a < b \<longleftrightarrow> lock_rank a < lock_rank b"

instance
  by standard (auto simp: less_eq_lock_def less_lock_def dest: antisym)

end

text \<open>The threads: the one of the pending list, the one that receives, then those of the application.\<close>

definition expiration_thread :: nat where "expiration_thread = 0"

definition receive_thread :: nat where "receive_thread = 1"

text \<open>What the handlers of the application lock: through the functions of the library they call.\<close>

record handlers =
  on_state :: "lock locking"
  on_watch :: "lock locking"
  on_reconnect :: "lock locking"
  on_message :: "lock locking"
  on_command :: "lock locking"
  on_reply :: "lock locking"
  on_timeout :: "lock locking"
  on_qos :: "lock locking"

subsection \<open>Statistics, pending requests and acknowledgements\<close>

definition stats_locks :: "lock locking" where
  "stats_locks = Under Stats_Mux Nothing"

definition set_last_error_locks :: "lock locking" where
  "set_last_error_locks = perhaps (Under Stats_Mux Nothing)"

definition pending_locks :: "lock locking" where
  "pending_locks = Under Pending_Mux Nothing"

definition qos_locks :: "lock locking" where
  "qos_locks = Under Qos_Mux Nothing"

definition qos_signal_locks :: "handlers \<Rightarrow> lock locking" where
  "qos_signal_locks hs = do_all [Under Qos_Mux Nothing, perhaps (on_qos hs)]"

definition qos_clear_locks :: "handlers \<Rightarrow> lock locking" where
  "qos_clear_locks hs = Under Qos_Mux (Again (Outside Qos_Mux (perhaps (on_qos hs))))"

subsection \<open>The asynchronous MQTT client\<close>

definition state_change_locks :: "handlers \<Rightarrow> lock locking" where
  "state_change_locks hs = do_all [set_last_error_locks, perhaps stats_locks, perhaps (on_state hs)]"

definition async_publish_locks :: "handlers \<Rightarrow> lock locking" where
  "async_publish_locks hs =
     perhaps (Under Async_Mux (perhaps (do_all [perhaps qos_locks, perhaps (state_change_locks hs)])))"

definition async_subscribe_locks :: "handlers \<Rightarrow> lock locking" where
  "async_subscribe_locks hs =
     perhaps (Under Async_Mux (perhaps (do_all [qos_locks, perhaps (state_change_locks hs)])))"

definition async_disconnect_locks :: "bool \<Rightarrow> handlers \<Rightarrow> lock locking" where
  "async_disconnect_locks thread hs =
     do_all [Under Async_Mux (state_change_locks hs),
             if thread then Await receive_thread else Nothing,
             state_change_locks hs]"

definition async_connect_locks :: "handlers \<Rightarrow> lock locking" where
  "async_connect_locks hs =
     perhaps (do_all [state_change_locks hs, state_change_locks hs, perhaps (async_disconnect_locks False hs)])"

text \<open>A state that is found out to be broken.\<close>

definition broken_locks :: "handlers \<Rightarrow> lock locking" where
  "broken_locks hs = Under Async_Mux (perhaps (state_change_locks hs))"

definition keepalive_locks :: "handlers \<Rightarrow> lock locking" where
  "keepalive_locks hs = perhaps (broken_locks hs)"

definition reconnect_locks :: "handlers \<Rightarrow> lock locking" where
  "reconnect_locks hs =
     Again (do_all [Under Async_Mux (perhaps (do_all [state_change_locks hs, state_change_locks hs])),
                    Again (perhaps (on_reconnect hs))])"

subsection \<open>The client's functions\<close>

definition client_locks :: "lock locking" where
  "client_locks = Under Client_Mux Nothing"

definition payload_locks :: "handlers \<Rightarrow> lock locking" where
  "payload_locks hs = do_all [perhaps (on_watch hs), perhaps stats_locks]"

definition call_async_locks :: "handlers \<Rightarrow> lock locking" where
  "call_async_locks hs =
     do_all [Under Client_Mux
               (perhaps (do_all [payload_locks hs,
                                 perhaps (do_all [pending_locks, async_publish_locks hs, perhaps pending_locks])])),
             perhaps stats_locks]"

definition raw_async_locks :: "handlers \<Rightarrow> lock locking" where
  "raw_async_locks hs =
     Under Client_Mux
       (perhaps (do_all [pending_locks, perhaps (on_watch hs),
                         perhaps (do_all [perhaps stats_locks, async_publish_locks hs, perhaps pending_locks,
                                          perhaps stats_locks])]))"

definition mqtt_call_locks :: "lock locking \<Rightarrow> lock locking" where
  "mqtt_call_locks p = Under Client_Mux (perhaps p)"

definition start_locks :: "handlers \<Rightarrow> lock locking" where
  "start_locks hs = Under Client_Mux (perhaps (do_all [stats_locks, async_connect_locks hs]))"

definition stop_locks :: "handlers \<Rightarrow> lock locking" where
  "stop_locks hs = do_all [client_locks, perhaps (do_all [async_disconnect_locks True hs, client_locks])]"

definition delete_locks :: "lock locking" where
  "delete_locks = Await expiration_thread"

subsection \<open>Synchronous calls and the mailbox\<close>

text \<open>The wait gives the mutex of the event back while it waits.\<close>

definition sync_callback_locks :: "lock locking" where
  "sync_callback_locks = Under Event_Mux Nothing"

definition sync_locks :: "lock locking \<Rightarrow> lock locking" where
  "sync_locks call = do_all [call, perhaps (Under Event_Mux (Again (Outside Event_Mux Nothing)))]"

definition mailbox_check_locks :: "handlers \<Rightarrow> lock locking" where
  "mailbox_check_locks hs =
     perhaps (do_all [Under Mailbox_Mux Nothing,
                      perhaps (do_all [stats_locks, perhaps (call_async_locks hs), perhaps (Under Mailbox_Mux Nothing)])])"

definition mailbox_callback_locks :: "handlers \<Rightarrow> lock locking" where
  "mailbox_callback_locks hs =
     do_all [Again (on_command hs), Under Mailbox_Mux Nothing, perhaps (mailbox_check_locks hs)]"

subsection \<open>The receiving thread\<close>

definition answer_locks :: "handlers \<Rightarrow> lock locking" where
  "answer_locks hs =
     do_all [pending_locks,
             one_of [Nothing,
                     perhaps (on_watch hs),
                     do_all [one_of [Nothing, on_reply hs, sync_callback_locks, mailbox_callback_locks hs],
                             stats_locks, perhaps (on_watch hs)]]]"

definition publish_handler_locks :: "handlers \<Rightarrow> lock locking" where
  "publish_handler_locks hs =
     do_all [perhaps (on_message hs),
             one_of [Nothing,
                     do_all [stats_locks, answer_locks hs],
                     answer_locks hs,
                     do_all [stats_locks, mailbox_check_locks hs]]]"

definition process_locks :: "handlers \<Rightarrow> lock locking" where
  "process_locks hs =
     one_of [Nothing,
             do_all [perhaps (Under Async_Mux Nothing), publish_handler_locks hs],
             qos_signal_locks hs]"

definition receive_loop_locks :: "handlers \<Rightarrow> lock locking" where
  "receive_loop_locks hs =
     do_all [Again (do_all [one_of [Nothing, broken_locks hs, process_locks hs],
                            qos_locks,
                            perhaps (do_all [broken_locks hs, qos_clear_locks hs]),
                            keepalive_locks hs,
                            reconnect_locks hs]),
             qos_clear_locks hs]"

subsection \<open>The expiration thread\<close>

text \<open>Who made a request that is pending: its callback is the application's, the one of a synchronous call, or the mailbox's.\<close>

datatype requester = By_Application | By_Sync_Call | By_Mailbox

text \<open>The mailbox's callback for a request that failed has no commands to process.\<close>

fun timeout_locks :: "handlers \<Rightarrow> requester \<Rightarrow> lock locking" where
  "timeout_locks hs By_Application = on_timeout hs"
| "timeout_locks hs By_Sync_Call = sync_callback_locks"
| "timeout_locks hs By_Mailbox = do_all [Under Mailbox_Mux Nothing, perhaps (mailbox_check_locks hs)]"

definition expiration_round_locks :: "handlers \<Rightarrow> requester list \<Rightarrow> lock locking" where
  "expiration_round_locks hs rs = Under Pending_Mux (Again (perhaps (one_of (map (timeout_locks hs) rs))))"

definition expiration_loop_locks :: "handlers \<Rightarrow> requester list \<Rightarrow> lock locking" where
  "expiration_loop_locks hs rs = Again (expiration_round_locks hs rs)"

subsection \<open>A thread of the application\<close>

definition api_locks :: "handlers \<Rightarrow> lock locking list" where
  "api_locks hs =
     [start_locks hs, client_locks, call_async_locks hs, raw_async_locks hs,
      sync_locks (call_async_locks hs), sync_locks (raw_async_locks hs),
      mqtt_call_locks (async_publish_locks hs), mqtt_call_locks (async_subscribe_locks hs),
      mailbox_check_locks hs, stats_locks]"

definition application_locks :: "handlers \<Rightarrow> lock locking" where
  "application_locks hs = Again (one_of (stop_locks hs # delete_locks # api_locks hs))"

lemmas library_locks_def =
  stats_locks_def set_last_error_locks_def pending_locks_def qos_locks_def qos_signal_locks_def qos_clear_locks_def
  state_change_locks_def async_publish_locks_def async_subscribe_locks_def async_disconnect_locks_def async_connect_locks_def
  broken_locks_def keepalive_locks_def reconnect_locks_def client_locks_def payload_locks_def call_async_locks_def
  raw_async_locks_def mqtt_call_locks_def start_locks_def stop_locks_def delete_locks_def sync_callback_locks_def
  sync_locks_def mailbox_check_locks_def mailbox_callback_locks_def answer_locks_def publish_handler_locks_def
  process_locks_def receive_loop_locks_def expiration_round_locks_def expiration_loop_locks_def api_locks_def
  application_locks_def

subsection \<open>What the application's handlers may lock\<close>

text \<open>By the thread and the mutexes with which the library calls them.  The state handler is called with \<open>client->mux\<close> by
  \<open>tr50_start2\<close>, with the asynchronous client's mutex by the receiving thread and \<open>tr50_stop\<close>, with both by a publish that
  fails, with neither at the end of a disconnect; what the library locks before it, it locks for every thread.\<close>

definition handlers_ok :: "handlers \<Rightarrow> nat \<Rightarrow> bool" where
  "handlers_ok hs t \<longleftrightarrow>
     (\<forall>held \<in> {[], [Client_Mux], [Async_Mux], [Async_Mux, Client_Mux]}. in_order t held (on_state hs)) \<and>
     (\<forall>held \<in> {[], [Client_Mux]}. in_order t held (on_watch hs)) \<and>
     (t = receive_thread \<longrightarrow>
        (\<forall>p \<in> {on_reconnect hs, on_message hs, on_command hs, on_reply hs, on_qos hs}. in_order t [] p)) \<and>
     (t = expiration_thread \<longrightarrow> in_order t [Pending_Mux] (on_timeout hs))"

lemma expiration_in_order:
  assumes "handlers_ok hs expiration_thread" "By_Mailbox \<notin> set rs"
  shows "in_order expiration_thread [] (expiration_loop_locks hs rs)"
proof -
  have "in_order expiration_thread [Pending_Mux] (timeout_locks hs r)" if "r \<in> set rs" for r
    by (rule requester.exhaust [of r]) (use that assms in \<open>auto simp: handlers_ok_def sync_callback_locks_def less_lock_def\<close>)
  then show ?thesis
    by (simp add: expiration_loop_locks_def expiration_round_locks_def in_order_simps)
qed

lemma receive_in_order:
  assumes "handlers_ok hs receive_thread"
  shows "in_order receive_thread [] (receive_loop_locks hs)"
  using assms by (simp add: handlers_ok_def library_locks_def in_order_simps less_lock_def)

lemma application_in_order:
  assumes "handlers_ok hs t" "receive_thread < t"
  shows "in_order t [] (application_locks hs)"
  using assms by (simp add: handlers_ok_def library_locks_def in_order_simps less_lock_def receive_thread_def
    expiration_thread_def)

end
