(* ===== verification/Tr50_Deadlock.thy ===== *)
theory Tr50_Deadlock
  imports Tr50_Lock_Order
begin

section \<open>When the library's threads finish, and when they block each other for ever\<close>

subsection \<open>One way through a function\<close>

text \<open>Every \<open>Either\<close> and every \<open>Again\<close> takes the next answer: the right side, one round; without answers the left side, no
  round.\<close>

fun follow :: "'l locking \<Rightarrow> bool list \<Rightarrow> 'l action list \<times> bool list" where
  "follow Nothing bs = ([], bs)"
| "follow (Seq p q) bs = (let (as, bs') = follow p bs; (as', bs'') = follow q bs' in (as @ as', bs''))"
| "follow (Either p q) bs = (if bs \<noteq> [] \<and> hd bs then follow q (tl bs) else follow p (tl bs))"
| "follow (Again p) bs = (if bs \<noteq> [] \<and> hd bs then follow p (tl bs) else ([], tl bs))"
| "follow (Under l p) bs = (let (as, bs') = follow p bs in (Acquire l # as @ [Release l], bs'))"
| "follow (Outside l p) bs = (let (as, bs') = follow p bs in (Release l # as @ [Acquire l], bs'))"
| "follow (Await u) bs = ([Join u], bs)"

lemma way_once: "way p as \<Longrightarrow> way (Again p) as"
  using way_again [OF _ way_stop, of p as] by simp

lemma way_follow: "way p (fst (follow p bs))"
  by (induction p arbitrary: bs) (auto simp: split_beta Let_def intro: way.intros way_once)

subsection \<open>Threads that finish\<close>

lemma application_threads_orderly:
  assumes "\<forall>t. handlers_ok hs t" "By_Mailbox \<notin> set rs"
    and "way (expiration_loop_locks hs rs) (scripts expiration_thread)"
    and "way (receive_loop_locks hs) (scripts receive_thread)"
    and "\<forall>t > receive_thread. way (application_locks hs) (scripts t)"
  shows "orderly t [] (scripts t)"
proof -
  have o: "orderly t [] as" if "way p as" "in_order t [] p" for p as
    using in_order_way [OF that, of "[]"] by simp
  consider "t = expiration_thread" | "t = receive_thread" | "t > receive_thread"
    unfolding expiration_thread_def receive_thread_def by linarith
  then show ?thesis
    by cases (use assms o expiration_in_order receive_in_order application_in_order in blast)+
qed


text \<open>An application whose reply and message handlers call the library, and one that has no handlers.\<close>

definition no_handlers :: handlers where
  "no_handlers = \<lparr>on_state = Nothing, on_watch = Nothing, on_reconnect = Nothing, on_message = Nothing, on_command = Nothing,
     on_reply = Nothing, on_timeout = Nothing, on_qos = Nothing\<rparr>"

definition calling_handlers :: handlers where
  "calling_handlers = no_handlers\<lparr>on_message := call_async_locks no_handlers, on_command := call_async_locks no_handlers,
     on_reply := call_async_locks no_handlers, on_qos := mqtt_call_locks (async_publish_locks no_handlers)\<rparr>"

lemma calling_handlers_ok: "handlers_ok calling_handlers t"
  by (simp add: handlers_ok_def calling_handlers_def no_handlers_def library_locks_def in_order_simps less_lock_def)

definition finish_scripts :: "nat \<Rightarrow> lock action list" where
  "finish_scripts t =
     (if t = expiration_thread then fst (follow (expiration_loop_locks calling_handlers [By_Sync_Call]) (replicate 9 True))
      else if t = receive_thread then fst (follow (receive_loop_locks calling_handlers) (replicate 99 True))
      else if t = 2 then fst (follow (application_locks calling_handlers) [True, False, True])
      else [])"


subsection \<open>The mailbox check that expires\<close>

lemma embrace_for_ever:
  assumes "embrace c t u"
  shows "blocked c t \<and> blocked c u \<and> \<not> (\<exists>ts c'. thread_run c ts c' \<and> (t \<in> set ts \<or> u \<in> set ts))"
  using embrace_blocked [OF assms] embrace_run [OF _ assms] by blast

text \<open>with a request of the mailbox check among those that expire the library deadlocks with itself, whatever the
  handlers of the application do.  The expiration thread calls the mailbox's callback with the pending list locked; the
  callback starts the next check, whose call wants \<open>client->mux\<close>.  A thread that is in \<open>tr50_api_call_async\<close> has
  \<open>client->mux\<close> and wants the pending list.  There is a schedule of the two after which both are blocked, and no schedule
  that goes on from there has a step of either.\<close>

theorem mailbox_expiry_deadlock:
  "\<exists>scripts ts c.
     way (expiration_round_locks hs [By_Mailbox]) (scripts expiration_thread) \<and>
     way (call_async_locks hs) (scripts (Suc (Suc k))) \<and>
     thread_run (start_threads scripts) ts c \<and>
     blocked c expiration_thread \<and> blocked c (Suc (Suc k)) \<and>
     \<not> (\<exists>ts' c'. thread_run c ts' c' \<and> (expiration_thread \<in> set ts' \<or> Suc (Suc k) \<in> set ts'))"
proof -
  let ?app = "Suc (Suc k)"
  define scripts where "scripts = (\<lambda>t. if t = expiration_thread
      then fst (follow (expiration_round_locks hs [By_Mailbox]) (replicate 6 True))
      else fst (follow (call_async_locks hs) [True, False, False, True]))"
  have "\<exists>c. play (start_threads scripts) (?app # replicate 7 expiration_thread) = Some c \<and> embrace c expiration_thread ?app"
    by (simp add: start_threads_def scripts_def mutex_lock_def mutex_unlock_def expiration_thread_def embrace_def
      library_locks_def perhaps_def numeral_eq_Suc)
  then obtain c where c: "thread_run (start_threads scripts) (?app # replicate 7 expiration_thread) c"
    and e: "embrace c expiration_thread ?app" using play_run by blast
  have "way (expiration_round_locks hs [By_Mailbox]) (scripts expiration_thread)" "way (call_async_locks hs) (scripts ?app)"
    by (simp_all add: scripts_def way_follow expiration_thread_def del: follow.simps)
  then show ?thesis using c embrace_for_ever [OF e] by blast
qed

subsection \<open>The state handler that asks for the state\<close>

text \<open>A state handler that calls a function of the client, as \<open>tr50_current_status\<close> is one, deadlocks with a thread
  that publishes.  The receiving thread calls the handler with the mutex of the asynchronous client; the function wants
  \<open>client->mux\<close>, and \<open>tr50_mqtt_publish\<close> has \<open>client->mux\<close> and wants the mutex of the asynchronous client.  The thread
  number check of the asynchronous client does not help: it comes after \<open>client->mux\<close> is taken.\<close>

theorem state_handler_deadlock:
  "\<exists>scripts ts c.
     way (receive_loop_locks (hs\<lparr>on_state := client_locks\<rparr>)) (scripts receive_thread) \<and>
     way (mqtt_call_locks (async_publish_locks (hs\<lparr>on_state := client_locks\<rparr>))) (scripts (Suc (Suc k))) \<and>
     thread_run (start_threads scripts) ts c \<and>
     blocked c receive_thread \<and> blocked c (Suc (Suc k)) \<and>
     \<not> (\<exists>ts' c'. thread_run c ts' c' \<and> (receive_thread \<in> set ts' \<or> Suc (Suc k) \<in> set ts'))"
proof -
  let ?app = "Suc (Suc k)" and ?hs = "hs\<lparr>on_state := client_locks\<rparr>"
  define scripts where "scripts = (\<lambda>t. if t = receive_thread
      then fst (follow (receive_loop_locks ?hs) [True, True, False, True, False, False, True])
      else fst (follow (mqtt_call_locks (async_publish_locks ?hs)) [True, True]))"
  have "\<exists>c. play (start_threads scripts) [?app, receive_thread] = Some c \<and> embrace c receive_thread ?app"
    by (simp add: start_threads_def scripts_def mutex_lock_def mutex_unlock_def receive_thread_def embrace_def
      library_locks_def perhaps_def)
  then obtain c where c: "thread_run (start_threads scripts) [?app, receive_thread] c"
    and e: "embrace c receive_thread ?app" using play_run by blast
  have "way (receive_loop_locks ?hs) (scripts receive_thread)"
    "way (mqtt_call_locks (async_publish_locks ?hs)) (scripts ?app)"
    by (simp_all add: scripts_def way_follow receive_thread_def del: follow.simps)
  then show ?thesis using c embrace_for_ever [OF e] by blast
qed

end
