(* ===== verification/Linux_Event.thy ===== *)
theory Linux_Event
  imports Tr50_Error
begin

section \<open>The event of a synchronous call (util/linux/linux.event.c)\<close>

text \<open>
  \<open>tr50_api_call_sync\<close> waits for its answer with an event, which the thread that has the answer (or the time-out) signals.
  The two threads, step by step: every access to the event or to the \<open>_TR50_SYNC_OBJ\<close> on the stack of the waiting thread is
  a step of its own, the condition variable may wake up for no reason, and the waiting thread deletes the event.
\<close>

subsection \<open>The two threads and what they share\<close>

text \<open>The waiting thread: before the lock of \<open>_tr50_event_wait\<close>, at the test of its loop, asleep in \<open>pthread_cond_wait\<close>, awake
  and before it has the mutex again, before the unlock, back in \<open>tr50_api_call_sync\<close>, and after \<open>_tr50_event_delete\<close>.\<close>

datatype waiter = Wait_Enter | Wait_Test | Wait_Asleep | Wait_Awake | Wait_Leave | Wait_Back | Wait_Deleted

text \<open>The thread that answers: before the callback has stored the status, before the lock of \<open>_tr50_event_signal\<close>, before
  \<open>is_locked\<close> is reset, before the broadcast, before the unlock, and done.\<close>

datatype signaller = Sig_Store | Sig_Enter | Sig_Reset | Sig_Broadcast | Sig_Leave | Sig_Done

datatype agent = Waiter | Signaller

record sync_event =
  ev_is_locked :: bool
  ev_wait_count :: int
  ev_owner :: "agent option"
  ev_freed :: bool
  sync_status :: int
  ev_waiter :: waiter
  ev_signaller :: signaller
  ev_result :: "int option"

text \<open>\<open>_tr50_event_create\<close>, and \<open>sync.status = -1\<close>.\<close>

definition event_create :: sync_event where
  "event_create = \<lparr>ev_is_locked = True, ev_wait_count = 0, ev_owner = None, ev_freed = False, sync_status = -1,
     ev_waiter = Wait_Enter, ev_signaller = Sig_Store, ev_result = None\<rparr>"

subsection \<open>Their steps\<close>

text \<open>\<open>_tr50_event_wait\<close>, then the read of \<open>sync.status\<close> and \<open>_tr50_event_delete\<close>.\<close>

fun wait_step :: "sync_event \<Rightarrow> sync_event option" where
  "wait_step e =
     (case ev_waiter e of
        Wait_Enter \<Rightarrow> if ev_owner e = None then Some (e\<lparr>ev_owner := Some Waiter, ev_waiter := Wait_Test\<rparr>) else None
      | Wait_Test \<Rightarrow>
          if ev_is_locked e
          then Some (e\<lparr>ev_wait_count := ev_wait_count e + 1, ev_owner := None, ev_waiter := Wait_Asleep\<rparr>)
          else Some (e\<lparr>ev_waiter := Wait_Leave\<rparr>)
      | Wait_Asleep \<Rightarrow> None
      | Wait_Awake \<Rightarrow>
          if ev_owner e = None
          then Some (e\<lparr>ev_owner := Some Waiter, ev_wait_count := ev_wait_count e - 1, ev_waiter := Wait_Test\<rparr>)
          else None
      | Wait_Leave \<Rightarrow> Some (e\<lparr>ev_owner := None, ev_waiter := Wait_Back\<rparr>)
      | Wait_Back \<Rightarrow> Some (e\<lparr>ev_result := Some (sync_status e), ev_freed := True, ev_waiter := Wait_Deleted\<rparr>)
      | Wait_Deleted \<Rightarrow> None)"

text \<open>\<open>_tr50_api_call_sync_callback\<close> with the status of the answer, then \<open>_tr50_event_signal\<close>.\<close>

fun signal_step :: "int \<Rightarrow> sync_event \<Rightarrow> sync_event option" where
  "signal_step status e =
     (case ev_signaller e of
        Sig_Store \<Rightarrow> Some (e\<lparr>sync_status := status, ev_signaller := Sig_Enter\<rparr>)
      | Sig_Enter \<Rightarrow>
          if ev_owner e = None then Some (e\<lparr>ev_owner := Some Signaller, ev_signaller := Sig_Reset\<rparr>) else None
      | Sig_Reset \<Rightarrow> Some (e\<lparr>ev_is_locked := False, ev_signaller := Sig_Broadcast\<rparr>)
      | Sig_Broadcast \<Rightarrow>
          Some (e\<lparr>ev_waiter := (if ev_waiter e = Wait_Asleep then Wait_Awake else ev_waiter e), ev_signaller := Sig_Leave\<rparr>)
      | Sig_Leave \<Rightarrow> Some (e\<lparr>ev_owner := None, ev_signaller := Sig_Done\<rparr>)
      | Sig_Done \<Rightarrow> None)"

text \<open>A wake-up for no reason; a \<open>pthread_cond_wait\<close> that fails, where \<open>_tr50_event_wait\<close> returns an error that
  \<open>tr50_api_call_sync\<close> does not look at.\<close>

fun wake_up :: "sync_event \<Rightarrow> sync_event option" where
  "wake_up e = (if ev_waiter e = Wait_Asleep then Some (e\<lparr>ev_waiter := Wait_Awake\<rparr>) else None)"

fun wait_fails :: "sync_event \<Rightarrow> sync_event option" where
  "wait_fails e =
     (if ev_waiter e = Wait_Test \<and> ev_is_locked e then Some (e\<lparr>ev_owner := None, ev_waiter := Wait_Back\<rparr>) else None)"

datatype event_step = Wait_Step | Signal_Step | Wake_Up | Wait_Fails

fun event_move :: "int \<Rightarrow> sync_event \<Rightarrow> event_step \<Rightarrow> sync_event option" where
  "event_move status e Wait_Step = wait_step e"
| "event_move status e Signal_Step = signal_step status e"
| "event_move status e Wake_Up = wake_up e"
| "event_move status e Wait_Fails = wait_fails e"

fun event_moves :: "int \<Rightarrow> sync_event \<Rightarrow> event_step list \<Rightarrow> sync_event option" where
  "event_moves status e [] = Some e"
| "event_moves status e (m # ms) =
     (case event_move status e m of None \<Rightarrow> None | Some e' \<Rightarrow> event_moves status e' ms)"

subsection \<open>What holds in every state\<close>

definition waiter_inside :: "waiter \<Rightarrow> bool" where
  "waiter_inside w \<longleftrightarrow> w \<in> {Wait_Test, Wait_Leave}"

definition signaller_inside :: "signaller \<Rightarrow> bool" where
  "signaller_inside s \<longleftrightarrow> s \<in> {Sig_Reset, Sig_Broadcast, Sig_Leave}"

definition event_inv :: "int \<Rightarrow> sync_event \<Rightarrow> bool" where
  "event_inv status e \<longleftrightarrow>
     ev_owner e = (if waiter_inside (ev_waiter e) then Some Waiter
                   else if signaller_inside (ev_signaller e) then Some Signaller else None) \<and>
     \<not> (waiter_inside (ev_waiter e) \<and> signaller_inside (ev_signaller e)) \<and>
     (ev_is_locked e \<longleftrightarrow> ev_signaller e \<in> {Sig_Store, Sig_Enter, Sig_Reset}) \<and>
     (ev_waiter e \<in> {Wait_Leave, Wait_Back, Wait_Deleted} \<longrightarrow> ev_signaller e = Sig_Done) \<and>
     (ev_waiter e = Wait_Asleep \<longrightarrow> ev_signaller e \<notin> {Sig_Leave, Sig_Done}) \<and>
     (ev_signaller e \<noteq> Sig_Store \<longrightarrow> sync_status e = status) \<and>
     (ev_freed e \<longleftrightarrow> ev_waiter e = Wait_Deleted) \<and>
     (ev_waiter e = Wait_Deleted \<longrightarrow> ev_result e = Some status) \<and>
     ev_wait_count e = (if ev_waiter e \<in> {Wait_Asleep, Wait_Awake} then 1 else 0)"

lemma event_inv_create: "event_inv status event_create"
  by (simp add: event_inv_def event_create_def waiter_inside_def signaller_inside_def)

lemma event_inv_wait:
  assumes "event_inv status e" "wait_step e = Some e'"
  shows "event_inv status e'"
proof (cases e)
  case (fields l n own f st w s r)
  show ?thesis using assms unfolding fields
    by (cases w; cases s; clarsimp simp: event_inv_def waiter_inside_def signaller_inside_def split: if_splits)
qed

lemma event_inv_signal:
  assumes "event_inv status e" "signal_step status e = Some e'"
  shows "event_inv status e'"
proof (cases e)
  case (fields l n own f st w s r)
  show ?thesis using assms unfolding fields
    by (cases w; cases s; clarsimp simp: event_inv_def waiter_inside_def signaller_inside_def split: if_splits)
qed

lemma event_inv_wake_up:
  assumes "event_inv status e" "wake_up e = Some e'"
  shows "event_inv status e'"
proof (cases e)
  case (fields l n own f st w s r)
  show ?thesis using assms unfolding fields
    by (cases w; cases s; clarsimp simp: event_inv_def waiter_inside_def signaller_inside_def split: if_splits)
qed

lemma event_inv_move:
  "event_inv status e \<Longrightarrow> event_move status e m = Some e' \<Longrightarrow> m \<noteq> Wait_Fails \<Longrightarrow> event_inv status e'"
  using event_inv_wait [of status e e'] event_inv_signal [of status e e'] event_inv_wake_up [of status e e']
  by (cases m) (simp_all del: wait_step.simps signal_step.simps wake_up.simps)

lemma event_inv_moves:
  "event_moves status e ms = Some e' \<Longrightarrow> event_inv status e \<Longrightarrow> Wait_Fails \<notin> set ms \<Longrightarrow> event_inv status e'"
  by (induction ms arbitrary: e) (auto split: option.splits dest: event_inv_move)

subsection \<open>How long it takes\<close>

fun waiter_left :: "waiter \<Rightarrow> nat" where
  "waiter_left Wait_Enter = 5"
| "waiter_left Wait_Test = 4"
| "waiter_left Wait_Asleep = 3"
| "waiter_left Wait_Awake = 5"
| "waiter_left Wait_Leave = 2"
| "waiter_left Wait_Back = 1"
| "waiter_left Wait_Deleted = 0"

fun signaller_left :: "signaller \<Rightarrow> nat" where
  "signaller_left Sig_Store = 5"
| "signaller_left Sig_Enter = 4"
| "signaller_left Sig_Reset = 3"
| "signaller_left Sig_Broadcast = 2"
| "signaller_left Sig_Leave = 1"
| "signaller_left Sig_Done = 0"

text \<open>A broadcast makes the waiting thread two steps longer, as a wake-up for no reason does.\<close>

definition event_left :: "sync_event \<Rightarrow> nat" where
  "event_left e = 3 * signaller_left (ev_signaller e) + waiter_left (ev_waiter e)"

lemma event_left_move:
  assumes "event_move status e m = Some e'" "m \<noteq> Wait_Fails"
  shows "event_left e' < event_left e + (if m = Wake_Up then 3 else 0)"
  using assms
  by (cases m; cases "ev_signaller e"; cases "ev_waiter e") (auto simp: event_left_def split: if_splits)

lemma event_left_moves:
  "event_moves status e ms = Some e' \<Longrightarrow> Wait_Fails \<notin> set ms \<Longrightarrow>
   length ms + event_left e' \<le> event_left e + 3 * count_list ms Wake_Up"
proof (induction ms arbitrary: e)
  case (Cons m ms)
  then obtain e1 where e1: "event_move status e m = Some e1" "event_moves status e1 ms = Some e'"
    by (auto split: option.splits)
  have "event_left e1 < event_left e + (if m = Wake_Up then 3 else 0)" using event_left_move [OF e1(1)] Cons.prems(2) by auto
  then show ?case using Cons.IH [OF e1(2)] Cons.prems(2) by (auto split: if_splits)
qed simp

lemma event_can_move:
  assumes "event_inv status e" "ev_waiter e \<noteq> Wait_Deleted"
  shows "wait_step e \<noteq> None \<or> signal_step status e \<noteq> None"
proof (cases e)
  case (fields l n own f st w s r)
  show ?thesis using assms unfolding fields
    by (cases w; cases s; simp add: event_inv_def waiter_inside_def signaller_inside_def)
qed

subsection \<open>The wait of a synchronous call\<close>

text \<open>C33: the event is sound under every interleaving.  However the two threads run and however often the condition variable
  wakes up for no reason, as long as \<open>pthread_cond_wait\<close> does not fail: when the waiting thread has gone on (and has deleted
  the event and left the stack frame that holds the status) the thread that answers does not touch either any more, and the
  status that was read is the one of the answer; before that one of the two threads can go on, so no wake-up is lost; and a run
  with \<open>k\<close> wake-ups for no reason has at most \<open>20 + 3 * k\<close> steps, so the wait ends.\<close>

theorem sync_event_sound:
  assumes "event_moves status event_create ms = Some e" "Wait_Fails \<notin> set ms"
  shows "(ev_freed e \<longrightarrow> ev_signaller e = Sig_Done \<and> ev_result e = Some status) \<and>
         (ev_freed e \<or> wait_step e \<noteq> None \<or> signal_step status e \<noteq> None) \<and>
         length ms \<le> 20 + 3 * count_list ms Wake_Up"
proof -
  have i: "event_inv status e" using event_inv_moves [OF assms(1) event_inv_create assms(2)] .
  have "length ms + event_left e \<le> 20 + 3 * count_list ms Wake_Up"
    using event_left_moves [OF assms] by (simp add: event_left_def event_create_def)
  moreover have "ev_freed e \<longrightarrow> ev_signaller e = Sig_Done \<and> ev_result e = Some status"
    using i unfolding event_inv_def by blast
  moreover have "ev_freed e \<or> wait_step e \<noteq> None \<or> signal_step status e \<noteq> None"
    using event_can_move [OF i] i unfolding event_inv_def by blast
  ultimately show ?thesis by simp
qed

definition event_example :: "event_step list" where
  "event_example = [Wait_Step, Signal_Step, Wait_Step, Wake_Up, Signal_Step, Signal_Step, Signal_Step, Signal_Step,
     Wait_Step, Wait_Step, Wait_Step, Wait_Step]"

theorem sync_event_sound_witness:
  "ev_freed (the (event_moves 7 event_create event_example)) \<and>
   ev_result (the (event_moves 7 event_create event_example)) = Some 7 \<and> length event_example \<le> 23"
proof -
  obtain e where e: "event_moves 7 event_create event_example = Some e" "ev_freed e"
    by (simp add: event_example_def event_create_def)
  have "Wait_Fails \<notin> set event_example" by (simp add: event_example_def)
  moreover have "count_list event_example Wake_Up = 1" by (simp add: event_example_def)
  ultimately show ?thesis using sync_event_sound [OF e(1)] e by simp
qed

text \<open>When the wait fails, the answer comes to an event that is gone.\<close>

lemma failed_wait_dangles:
  "\<exists>e. event_moves status event_create [Wait_Step, Wait_Fails, Wait_Step] = Some e \<and> ev_freed e \<and> ev_signaller e = Sig_Store \<and>
     ev_result e = Some (-1)"
  by (simp add: event_create_def)

end
