(* ===== verification/He910_At_Token.thy ===== *)
theory He910_At_Token
  imports C_Text Tr50_Error
begin

section \<open>AT commands as tokens (util/he910/wrappers/at.parser.c)\<close>

text \<open>
  The library's build for the HE910 modem is driven with AT commands: a command line is matched against the known names
  and what follows is cut into parameters, in place: \<open>strtok_r\<close> ends a parameter with a zero byte, and where a quoted
  parameter has been cut at a comma inside it the code puts the comma back.  A token is the block of its text, with offsets
  where the code has pointers.  The build for the modem is modelled, which looks at quotes (\<open>_AT_SIMULATOR\<close> not defined).
\<close>

definition AT_TOKEN_PARAM_MAX :: nat where "AT_TOKEN_PARAM_MAX = 32"
definition ERR_AT_TOKEN_PARAM_MAX :: int where "ERR_AT_TOKEN_PARAM_MAX = -19001"
definition ERR_AT_TOKEN_CMD_NOT_MATCH :: int where "ERR_AT_TOKEN_CMD_NOT_MATCH = -19002"
definition ERR_AT_CMD_NOT_SUPPORTED :: int where "ERR_AT_CMD_NOT_SUPPORTED = -19003"

text \<open>\<open>AT_TOKEN_DELIMITERS\<close>: a comma and the two bytes of a line end.\<close>

definition at_delimiter :: "byte \<Rightarrow> bool" where
  "at_delimiter b \<longleftrightarrow> b = 0x2C \<or> b = 0x0D \<or> b = 0x0A"

definition quote :: byte where "quote = 0x22"
definition comma :: byte where "comma = 0x2C"

record at_token =
  at_string :: bytes
  at_string_len :: nat
  at_walker :: nat
  at_params :: "nat list"
  at_is_tokenized :: bool

text \<open>The string at an offset of a block.\<close>

definition c_string_at :: "bytes \<Rightarrow> nat \<Rightarrow> bytes" where
  "c_string_at blk p = takeWhile (\<lambda>b. b \<noteq> 0) (drop p blk)"

subsection \<open>Creation and matching\<close>

definition at_token_create :: "malloc \<Rightarrow> malloc \<Rightarrow> bytes \<Rightarrow> int + at_token" where
  "at_token_create m1 m2 s =
     (if s = [] then Inl ERR_TR50_PARMS
      else if m1 288 = None then Inl ERR_TR50_PARMS
      else if m2 (length s + 1) = None then Inl ERR_TR50_MALLOC
      else Inr \<lparr>at_string = s @ [0], at_string_len = length s, at_walker = 0, at_params = [], at_is_tokenized = False\<rparr>)"

definition at_token_continue_with :: "bytes \<Rightarrow> at_token \<Rightarrow> bool \<times> at_token" where
  "at_token_continue_with s token =
     (if take (length s) (drop (at_walker token) (at_string token)) \<noteq> s then (False, token)
      else (True, token\<lparr>at_walker := at_walker token + length s\<rparr>))"

definition at_token_has_ended :: "at_token \<Rightarrow> bool" where
  "at_token_has_ended token \<longleftrightarrow> at_string_len token = at_walker token"

definition at_token_data :: "at_token \<Rightarrow> bytes" where
  "at_token_data token = c_string_at (at_string token) 0"

subsection \<open>Parameters\<close>

text \<open>\<open>strtok_r\<close>: where the next token starts, where the search goes on, and the block with the token ended; None when there is
  none.\<close>

definition strtok :: "bytes \<Rightarrow> nat \<Rightarrow> (nat \<times> nat \<times> bytes) option" where
  "strtok blk p =
     (let s = p + length (takeWhile at_delimiter (drop p blk));
          e = s + length (takeWhile (\<lambda>b. b \<noteq> 0 \<and> \<not> at_delimiter b) (drop s blk))
      in if e = s then None
         else if e < length blk \<and> blk ! e \<noteq> 0 then Some (s, e + 1, blk[e := 0]) else Some (s, e, blk))"

text \<open>The offset, counted back from the token in a \<open>UINT8\<close>, of the zero byte before it: one that is 256 bytes or more away
  is never found, and the loop does not end.\<close>

definition neg_offset :: "bytes \<Rightarrow> nat \<Rightarrow> nat option" where
  "neg_offset blk s = find (\<lambda>k. blk ! (s - k) = 0) [1..<min 256 (s + 1)]"

text \<open>The quotes around the parameter at \<open>cur\<close> are removed: its bytes move one to the front.  The new length is a \<open>UINT8\<close>.\<close>

definition strip_quotes :: "bytes \<Rightarrow> nat \<Rightarrow> bytes" where
  "strip_quotes blk cur =
     (let new_len = (length (c_string_at blk cur) - 2) mod 256
      in (take cur blk @ take new_len (drop (cur + 1) blk) @ drop (cur + new_len) blk)[cur + new_len := 0])"

text \<open>A token that continues a quoted parameter.\<close>

definition join_token :: "bytes \<Rightarrow> nat \<Rightarrow> nat \<Rightarrow> (bytes \<times> bool) option" where
  "join_token blk cur s =
     (case neg_offset blk s of
        None \<Rightarrow> None
      | Some k \<Rightarrow>
          let closing = quote \<in> set (c_string_at blk s); blk = blk[s - k := comma]
          in Some (if closing then (strip_quotes blk cur, False) else (blk, True)))"

lemma strtok_pos:
  assumes "strtok blk p = Some (s, p', blk')"
  shows "length blk' = length blk \<and> p < p' \<and> p < length blk"
proof -
  have "p < length blk"
  proof (rule ccontr)
    assume "\<not> p < length blk"
    then show False using assms by (simp add: strtok_def)
  qed
  then show ?thesis using assms by (auto simp: strtok_def Let_def split: if_splits)
qed

lemma strip_quotes_length: "length (strip_quotes blk cur) = length blk"
proof -
  have "length (c_string_at blk cur) \<le> length blk - cur"
    unfolding c_string_at_def by (metis length_drop length_takeWhile_le)
  moreover have "(length (c_string_at blk cur) - 2) mod 256 \<le> length (c_string_at blk cur) - 2" by simp
  ultimately show ?thesis by (auto simp: strip_quotes_def Let_def)
qed

lemma join_token_length: "join_token blk cur s = Some (blk', looking) \<Longrightarrow> length blk' = length blk"
  by (auto simp: join_token_def strip_quotes_length Let_def split: option.splits if_splits)

text \<open>\<open>_at_token_parse_parameters\<close> from the offset \<open>p\<close>: \<open>looking\<close> is \<open>lookForClosingQuote\<close>; the return code, the block and the
  parameters.\<close>

function (sequential) parse_loop :: "bytes \<Rightarrow> nat \<Rightarrow> bool \<Rightarrow> nat list \<Rightarrow> (int \<times> bytes \<times> nat list) option" where
  "parse_loop blk p looking params =
     (case strtok blk p of
        None \<Rightarrow> Some (0, blk, params)
      | Some (s, p', blk') \<Rightarrow>
          if length params \<ge> AT_TOKEN_PARAM_MAX then Some (ERR_AT_TOKEN_PARAM_MAX, blk', params)
          else if \<not> looking then
            parse_loop blk' p' (length (filter ((=) quote) (c_string_at blk' s)) = 1) (params @ [s])
          else
            (case join_token blk' (last params) s of
               None \<Rightarrow> None
             | Some (blk'', looking) \<Rightarrow> parse_loop blk'' p' looking params))"
  by pat_completeness auto
termination
  by (relation "measure (\<lambda>(blk, p, _, _). length blk - p)") (auto dest!: strtok_pos join_token_length)

declare parse_loop.simps [simp del]

definition at_token_parse_parameters :: "at_token \<Rightarrow> (int \<times> at_token) option" where
  "at_token_parse_parameters token =
     (case parse_loop (at_string token) (at_walker token) False (at_params token) of
        None \<Rightarrow> None
      | Some (ret, blk, params) \<Rightarrow>
          Some (ret, token\<lparr>at_string := blk, at_params := params, at_is_tokenized := (ret = 0) \<or> at_is_tokenized token\<rparr>))"

definition tokenized :: "at_token \<Rightarrow> at_token option" where
  "tokenized token = (if at_is_tokenized token then Some token else map_option snd (at_token_parse_parameters token))"

text \<open>The parameter, None for NULL.\<close>

definition at_token_parameter :: "nat \<Rightarrow> at_token \<Rightarrow> (bytes option \<times> at_token) option" where
  "at_token_parameter i token =
     map_option (\<lambda>token.
       (if i \<ge> length (at_params token) then None else Some (c_string_at (at_string token) (at_params token ! i)), token))
       (tokenized token)"

definition at_token_count :: "at_token \<Rightarrow> (nat \<times> at_token) option" where
  "at_token_count token = map_option (\<lambda>token. (length (at_params token), token)) (tokenized token)"

end
