(* ===== verification/He910_At_Token_Props.thy ===== *)
theory He910_At_Token_Props
  imports He910_At_Token
begin

section \<open>What the tokens of an AT command are\<close>

subsection \<open>Command lines\<close>

text \<open>A parameter as it is typed: plain, or between quotes.\<close>

datatype at_arg = Plain bytes | Quoted bytes

fun arg_text :: "at_arg \<Rightarrow> bytes" where
  "arg_text (Plain p) = p"
| "arg_text (Quoted q) = quote # q @ [quote]"

text \<open>What the parser makes of it: the quotes go when there is a comma between them.\<close>

fun arg_value :: "at_arg \<Rightarrow> bytes" where
  "arg_value (Plain p) = p"
| "arg_value (Quoted q) = (if comma \<in> set q then q else quote # q @ [quote])"

definition text_byte :: "byte \<Rightarrow> bool" where
  "text_byte b \<longleftrightarrow> b \<noteq> 0 \<and> b \<noteq> 0x0D \<and> b \<noteq> 0x0A \<and> b \<noteq> quote"

fun arg_ok :: "at_arg \<Rightarrow> bool" where
  "arg_ok (Plain p) \<longleftrightarrow> p \<noteq> [] \<and> (\<forall>b \<in> set p. text_byte b \<and> b \<noteq> comma)"
| "arg_ok (Quoted q) \<longleftrightarrow> (\<forall>b \<in> set q. text_byte b) \<and> length q < 256"

fun args_text :: "at_arg list \<Rightarrow> bytes" where
  "args_text [] = []"
| "args_text [a] = arg_text a"
| "args_text (a # as) = arg_text a @ comma # args_text as"

subsection \<open>The pieces of the parser\<close>

definition token_byte :: "byte \<Rightarrow> bool" where
  "token_byte b \<longleftrightarrow> b \<noteq> 0 \<and> \<not> at_delimiter b"

lemma token_byte_text: "text_byte b \<Longrightarrow> b \<noteq> comma \<Longrightarrow> token_byte b"
  by (auto simp: token_byte_def text_byte_def at_delimiter_def comma_def)

lemma token_byte_quote: "token_byte quote"
  by (simp add: token_byte_def at_delimiter_def quote_def)

lemma strtok_token:
  assumes "\<forall>b \<in> set ds. at_delimiter b" "w \<noteq> []" "\<forall>b \<in> set w. token_byte b" "c = 0 \<or> at_delimiter c"
  shows "strtok (D @ ds @ w @ c # R) (length D) =
           Some (length D + length ds, length D + length ds + length w + (if c = 0 then 0 else 1), D @ ds @ w @ 0 # R)"
proof -
  have "takeWhile at_delimiter (ds @ w @ c # R) = ds"
    using assms(1-3) by (cases w) (auto simp: token_byte_def takeWhile_append2)
  moreover have "takeWhile (\<lambda>b. b \<noteq> 0 \<and> \<not> at_delimiter b) (w @ c # R) = w"
    using assms(3,4) by (auto simp: token_byte_def takeWhile_append2)
  moreover have "drop (length D + length ds) (D @ ds @ w @ c # R) = w @ c # R" by simp
  moreover have "(D @ ds @ w @ c # R) ! (length D + length ds + length w) = c"
    by (metis append_assoc length_append nth_append_length)
  moreover have "(D @ ds @ w @ c # R)[length D + length ds + length w := 0] = D @ ds @ w @ 0 # R"
    by (metis append_assoc length_append list_update_length)
  ultimately show ?thesis using assms(2) by (auto simp: strtok_def Let_def)
qed

lemma strtok_end: "strtok (D @ 0 # R) (length D) = None"
  by (simp add: strtok_def at_delimiter_def)

lemma c_string_prefix: "0 \<notin> set w \<Longrightarrow> c_string_at (D @ w @ 0 # R) (length D) = w"
  by (induction w) (simp_all add: c_string_at_def)

lemma token_no_zero: "\<forall>b \<in> set w. token_byte b \<Longrightarrow> 0 \<notin> set w"
  by (auto simp: token_byte_def)

text \<open>An unbroken parameter.\<close>

lemma parse_whole:
  assumes "w \<noteq> []" "\<forall>b \<in> set w. token_byte b" "c = 0 \<or> at_delimiter c" "length ps < AT_TOKEN_PARAM_MAX"
  shows "parse_loop (D @ w @ c # R) (length D) False ps =
         parse_loop (D @ w @ 0 # R) (length D + length w + (if c = 0 then 0 else 1)) (length (filter ((=) quote) w) = 1)
           (ps @ [length D])"
  using assms strtok_token [of "[]" w c D R] c_string_prefix [OF token_no_zero [OF assms(2)], of D R]
  by (subst parse_loop.simps) simp

lemma neg_offset_commas:
  assumes "0 \<notin> set cs" "length cs < 255"
  shows "neg_offset (P @ 0 # cs @ Z) (length P + 1 + length cs) = Some (length cs + 1)"
proof -
  let ?blk = "P @ 0 # cs @ Z" and ?s = "length P + 1 + length cs"
  have n: "?blk ! (?s - (j + 1)) \<noteq> 0" if "j < length cs" for j
  proof -
    have "?s - (j + 1) = length P + (1 + (length cs - (j + 1)))" using that by simp
    then have "?blk ! (?s - (j + 1)) = (cs @ Z) ! (length cs - (j + 1))" by (simp only: nth_append_length_plus) simp
    moreover have "length cs - (j + 1) < length cs" using that by simp
    ultimately have "?blk ! (?s - (j + 1)) = cs ! (length cs - (j + 1))" by (simp only: nth_append if_True)
    then show ?thesis using assms(1) that by (metis diff_less in_set_conv_nth length_greater_0_conv list.size(3) not_less_zero zero_less_Suc Suc_eq_plus1)
  qed
  have z: "?blk ! (?s - (length cs + 1)) = 0" by simp
  define m where "m = min 256 (?s + 1)"
  have m: "[1..<m] ! j = j + 1" if "j \<le> length cs" for j
    using that assms(2) by (subst nth_upt) (auto simp: m_def)
  have "length cs + 1 < m" using assms(2) by (simp add: m_def)
  then have lm: "length cs < length [1..<m]" by (simp only: length_upt)
  show ?thesis unfolding neg_offset_def find_Some_iff m_def [symmetric]
  proof (intro exI [of _ "length cs"] conjI allI impI)
    show "?blk ! (?s - [1..<m] ! length cs) = 0" unfolding m [OF le_refl] by (rule z)
    show "length cs + 1 = [1..<m] ! length cs" using m by simp
    fix j
    assume j: "j < length cs"
    then have "[1..<m] ! j = j + 1" using m by simp
    then show "?blk ! (?s - [1..<m] ! j) \<noteq> 0" using n [OF j] by simp
  qed (rule lm)
qed

lemma strip_quotes_text:
  assumes "0 \<notin> set q" "length q < 256"
  shows "strip_quotes (D @ quote # q @ quote # 0 # R) (length D) = D @ q @ 0 # quote # 0 # R"
proof -
  have "c_string_at (D @ quote # q @ quote # 0 # R) (length D) = quote # q @ [quote]"
    using c_string_prefix [of "quote # q @ [quote]" D R] assms(1) by (simp add: quote_def)
  then have n: "(length (c_string_at (D @ quote # q @ quote # 0 # R) (length D)) - 2) mod 256 = length q"
    using assms(2) by simp
  obtain b xs where b: "quote # q = xs @ [b]" by (metis list.distinct(1) rev_exhaust)
  then have "length xs = length q" by (metis Suc_inject length_Cons length_append_singleton)
  then have d: "drop (length q) (quote # q @ quote # 0 # R) = b # quote # 0 # R"
    using b by (metis append_Cons append_assoc append_eq_conv_conj append_Nil)
  have "(D @ q @ b # quote # 0 # R)[length D + length q := 0] = D @ q @ 0 # quote # 0 # R"
    by (metis append_assoc length_append list_update_length)
  then show ?thesis unfolding strip_quotes_def n Let_def by (simp add: d)
qed

text \<open>A quoted parameter with a comma inside: \<open>u\<close> is what has been joined already, \<open>v\<close> the rest.\<close>

lemma quote_not_in: "\<forall>b \<in> set q. text_byte b \<Longrightarrow> quote \<notin> set q \<and> 0 \<notin> set q"
  by (auto simp: text_byte_def)

lemma commas_first:
  obtains cs t v' where "v = cs @ t @ v'" "set cs \<subseteq> {comma}" "comma \<notin> set t" "v' = [] \<or> (\<exists>v''. v' = comma # v'' \<and> t \<noteq> [])"
proof -
  let ?cs = "takeWhile ((=) comma) v" and ?r = "dropWhile ((=) comma) v"
  let ?t = "takeWhile ((\<noteq>) comma) ?r" and ?v' = "dropWhile ((\<noteq>) comma) ?r"
  have "?v' = [] \<or> (\<exists>v''. ?v' = comma # v'' \<and> ?t \<noteq> [])"
  proof (cases ?v')
    case (Cons b v'')
    then have "b = comma" by (metis (full_types) dropWhile_eq_Cons_conv)
    moreover have "?t \<noteq> []"
    proof
      assume "?t = []"
      then have "?r = ?v'" by (metis append_Nil takeWhile_dropWhile_id)
      then have "?r \<noteq> [] \<and> hd ?r = comma" using Cons \<open>b = comma\<close> by simp
      then show False using hd_dropWhile [of "(=) comma" v] by simp
    qed
    ultimately show ?thesis using Cons by blast
  qed simp
  moreover have "comma \<notin> set ?t" by (auto dest: set_takeWhileD)
  moreover have "set ?cs \<subseteq> {comma}" by (auto dest: set_takeWhileD)
  moreover have "v = ?cs @ ?t @ ?v'" by simp
  ultimately show thesis using that by blast
qed

lemma join_token_text:
  assumes "set cs \<subseteq> {comma}" "length cs < 255" "0 \<notin> set t"
  shows "join_token ((D @ quote # u) @ 0 # cs @ t @ 0 # R) (length D) (length (D @ quote # u) + 1 + length cs) =
    Some (if quote \<in> set t then (strip_quotes ((D @ quote # u) @ comma # cs @ t @ 0 # R) (length D), False)
          else ((D @ quote # u) @ comma # cs @ t @ 0 # R, True))"
proof -
  let ?P = "D @ quote # u"
  have "0 \<notin> set cs" using assms(1) by (auto simp: comma_def)
  then have k: "neg_offset (?P @ 0 # cs @ t @ 0 # R) (length ?P + 1 + length cs) = Some (length cs + 1)"
    using neg_offset_commas assms(2) by blast
  have c: "c_string_at (?P @ 0 # cs @ t @ 0 # R) (length ?P + 1 + length cs) = t"
    using c_string_prefix [OF assms(3), of "?P @ 0 # cs" R] by (simp add: ac_simps)
  have "(?P @ 0 # cs @ t @ 0 # R)[length ?P + 1 + length cs - (length cs + 1) := comma] = ?P @ comma # cs @ t @ 0 # R"
    using list_update_length [of ?P 0 "cs @ t @ 0 # R" comma] by simp
  then show ?thesis unfolding join_token_def k c Let_def by simp
qed

lemma parse_quoted:
  assumes "\<forall>b \<in> set (u @ comma # v). text_byte b" "length (u @ comma # v) < 256" "c = 0 \<or> at_delimiter c"
    "length ps + 1 < AT_TOKEN_PARAM_MAX"
  shows "parse_loop ((D @ quote # u) @ 0 # v @ quote # c # R) (length (D @ quote # u) + 1) True (ps @ [length D]) =
         parse_loop (D @ (u @ comma # v) @ 0 # quote # 0 # R)
           (length D + length (u @ comma # v) + 2 + (if c = 0 then 0 else 1)) False (ps @ [length D])"
  using assms
proof (induction "length v" arbitrary: u v rule: less_induct)
  case less
  let ?P = "D @ quote # u"
  obtain cs t v' where v: "v = cs @ t @ v'" and cs: "set cs \<subseteq> {comma}" and t: "comma \<notin> set t"
    and v': "v' = [] \<or> (\<exists>v''. v' = comma # v'' \<and> t \<noteq> [])" by (rule commas_first)
  have tb: "\<forall>b \<in> set t. text_byte b" using less.prems(1) v by simp
  then have tok: "\<forall>b \<in> set t. token_byte b" using t token_byte_text by blast
  have cd: "\<forall>b \<in> set cs. at_delimiter b" using cs by (auto simp: at_delimiter_def comma_def)
  have n: "length cs < 255" using less.prems(2) v by simp
  from v' show ?case
  proof (elim disjE exE conjE)
    assume e: "v' = []"
    let ?w = "t @ [quote]"
    have w: "\<forall>b \<in> set ?w. token_byte b" using tok token_byte_quote by simp
    have "strtok ((?P @ [0]) @ cs @ ?w @ c # R) (length (?P @ [0])) =
      Some (length ?P + 1 + length cs, length ?P + 1 + length cs + length ?w + (if c = 0 then 0 else 1),
        (?P @ [0]) @ cs @ ?w @ 0 # R)"
      using strtok_token [OF cd _ w less.prems(3), of "?P @ [0]" R] by simp
    moreover have "join_token (?P @ 0 # cs @ ?w @ 0 # R) (length D) (length ?P + 1 + length cs) =
      Some (D @ (u @ comma # v) @ 0 # quote # 0 # R, False)"
    proof -
      have z: "0 \<notin> set ?w" using token_no_zero [OF w] .
      have "0 \<notin> set (u @ comma # v)" using less.prems(1) by (auto simp: text_byte_def)
      then have "strip_quotes (?P @ comma # cs @ ?w @ 0 # R) (length D) = D @ (u @ comma # v) @ 0 # quote # 0 # R"
        using strip_quotes_text [of "u @ comma # v" D R] less.prems(2) v e by simp
      then show ?thesis using join_token_text [OF cs n z, of D u R] by simp
    qed
    ultimately show ?thesis using less.prems(4) v e
      by (subst parse_loop.simps) (simp add: ac_simps)
  next
    fix v''
    assume e: "v' = comma # v''" "t \<noteq> []"
    let ?R = "v'' @ quote # c # R" and ?u = "u @ comma # cs @ t"
    have "strtok ((?P @ [0]) @ cs @ t @ comma # ?R) (length (?P @ [0])) =
      Some (length ?P + 1 + length cs, length ?P + 1 + length cs + length t + 1, (?P @ [0]) @ cs @ t @ 0 # ?R)"
      using strtok_token [OF cd e(2) tok, of comma "?P @ [0]" ?R] by (simp add: at_delimiter_def comma_def)
    moreover have "join_token (?P @ 0 # cs @ t @ 0 # ?R) (length D) (length ?P + 1 + length cs) =
      Some (?P @ comma # cs @ t @ 0 # ?R, True)"
    proof -
      have "quote \<notin> set t" "0 \<notin> set t" using quote_not_in [OF tb] by auto
      then show ?thesis using join_token_text [OF cs n, of t D u ?R] by simp
    qed
    ultimately have "parse_loop (?P @ 0 # v @ quote # c # R) (length ?P + 1) True (ps @ [length D]) =
        parse_loop ((D @ quote # ?u) @ 0 # v'' @ quote # c # R) (length (D @ quote # ?u) + 1) True (ps @ [length D])"
      using less.prems(4) v e by (subst parse_loop.simps) (simp add: ac_simps)
    also have "\<dots> = parse_loop (D @ (?u @ comma # v'') @ 0 # quote # 0 # R)
           (length D + length (?u @ comma # v'') + 2 + (if c = 0 then 0 else 1)) False (ps @ [length D])"
      using less.prems v e by (intro less.hyps) auto
    finally show ?thesis using v e by simp
  qed
qed

subsection \<open>One parameter\<close>

text \<open>What a parameter becomes in the block.\<close>

fun arg_block :: "at_arg \<Rightarrow> bytes" where
  "arg_block (Plain p) = p"
| "arg_block (Quoted q) = (if comma \<in> set q then q @ [0, quote] else quote # q @ [quote])"

lemma arg_block_length: "length (arg_block a) = length (arg_text a)"
  by (cases a) auto

lemma arg_block_value:
  assumes "arg_ok a"
  shows "c_string_at (D @ arg_block a @ 0 # R) (length D) = arg_value a"
proof (cases a)
  case (Plain p)
  then have "0 \<notin> set p" using assms by (auto simp: text_byte_def)
  then show ?thesis using c_string_prefix Plain by simp
next
  case (Quoted q)
  then have q: "0 \<notin> set q" using assms by (auto simp: text_byte_def)
  then have "0 \<notin> set (quote # q @ [quote])" by (simp add: quote_def)
  then show ?thesis
    using c_string_prefix [OF q, of D "quote # 0 # R"] c_string_prefix [of "quote # q @ [quote]" D R] Quoted by simp
qed

lemma parse_arg:
  assumes "arg_ok a" "c = 0 \<or> at_delimiter c" "length ps + 1 < AT_TOKEN_PARAM_MAX"
  shows "parse_loop (D @ arg_text a @ c # R) (length D) False ps =
         parse_loop (D @ arg_block a @ 0 # R) (length D + length (arg_text a) + (if c = 0 then 0 else 1)) False (ps @ [length D])"
proof (cases a)
  case (Plain p)
  have "filter ((=) quote) p = []" using assms(1) Plain by (auto simp: filter_empty_conv text_byte_def)
  then show ?thesis
    using parse_whole [of p c ps D R] token_byte_text assms Plain by simp
next
  case (Quoted q)
  have tb: "\<forall>b \<in> set q. text_byte b" and l: "length q < 256" using assms(1) Quoted by simp_all
  have nq: "filter ((=) quote) q = []" using quote_not_in [OF tb] by (auto simp: filter_empty_conv)
  show ?thesis
  proof (cases "comma \<in> set q")
    case False
    have "\<forall>b \<in> set (quote # q @ [quote]). token_byte b"
      using tb False token_byte_text token_byte_quote by auto
    then show ?thesis using parse_whole [of "quote # q @ [quote]" c ps D R] assms(2,3) Quoted False nq by simp
  next
    case True
    then obtain u v where q: "q = u @ comma # v" and u: "comma \<notin> set u" by (meson split_list_first)
    have "\<forall>b \<in> set (quote # u). token_byte b" using tb q u token_byte_text token_byte_quote by auto
    then have "parse_loop (D @ (quote # u) @ comma # v @ quote # c # R) (length D) False ps =
      parse_loop (D @ (quote # u) @ 0 # v @ quote # c # R) (length D + length (quote # u) + 1) True (ps @ [length D])"
      using parse_whole [of "quote # u" comma ps D "v @ quote # c # R"] assms(3) nq q by (simp add: at_delimiter_def comma_def)
    then show ?thesis
      using parse_quoted [of u v c ps D R] tb l q assms(2,3) Quoted True by simp
  qed
qed

subsection \<open>All parameters\<close>

lemma c_string_append: "0 \<in> set (drop p blk) \<Longrightarrow> c_string_at (blk @ X) p = c_string_at blk p"
  unfolding c_string_at_def
  by (cases "p \<le> length blk") (auto intro: takeWhile_append1)

lemma parse_args:
  assumes "\<forall>a \<in> set as. arg_ok a" "length ps + length as < AT_TOKEN_PARAM_MAX"
  shows "\<exists>B offs. parse_loop (D @ args_text as @ [0]) (length D) False ps = Some (0, D @ B, ps @ offs) \<and>
           map (c_string_at (D @ B)) offs = map arg_value as"
  using assms
proof (induction as arbitrary: D ps rule: args_text.induct)
  case 1
  have "parse_loop (D @ [0]) (length D) False ps = Some (0, D @ [0], ps)"
    using strtok_end [of D "[]"] by (subst parse_loop.simps) simp
  then show ?case by (intro exI [of _ "[0]"] exI [of _ "[]"]) simp
next
  case (2 a)
  have "parse_loop (D @ arg_block a @ [0]) (length D + length (arg_text a)) False (ps @ [length D]) =
    Some (0, D @ arg_block a @ [0], ps @ [length D])"
    using strtok_end [of "D @ arg_block a" "[]"] by (subst parse_loop.simps) (simp add: arg_block_length)
  then show ?case
    using parse_arg [of a 0 ps D "[]"] arg_block_value [of a D "[]"] 2 by (intro exI [of _ "arg_block a @ [0]"] exI [of _ "[length D]"]) simp
next
  case (3 a b as)
  let ?D = "D @ arg_block a @ [0]" and ?t = "args_text (b # as)"
  obtain B offs where ih: "parse_loop (?D @ ?t @ [0]) (length ?D) False (ps @ [length D]) = Some (0, ?D @ B, ps @ [length D] @ offs)"
    "map (c_string_at (?D @ B)) offs = map arg_value (b # as)"
    using "3.IH" [of "ps @ [length D]" ?D] "3.prems" by auto
  have "c_string_at (?D @ B) (length D) = arg_value a"
    using arg_block_value [of a D B] "3.prems"(1) by simp
  moreover have "parse_loop (D @ args_text (a # b # as) @ [0]) (length D) False ps = Some (0, ?D @ B, ps @ [length D] @ offs)"
    using parse_arg [of a comma ps D "?t @ [0]"] ih(1) "3.prems" by (simp add: at_delimiter_def comma_def arg_block_length)
  ultimately show ?case using ih(2)
    by (intro exI [of _ "arg_block a @ [0] @ B"] exI [of _ "length D # offs"]) simp
qed

subsection \<open>Reading a command line\<close>

text \<open>The token of a line whose name has been matched, when it has been cut.\<close>

lemma tokenized_args:
  assumes "\<forall>a \<in> set as. arg_ok a" "length as < AT_TOKEN_PARAM_MAX"
    and "at_string token = cmd @ args_text as @ [0]" "at_walker token = length cmd" "at_params token = []"
    "\<not> at_is_tokenized token"
  shows "\<exists>token'. tokenized token = Some token' \<and> length (at_params token') = length as \<and>
           (\<forall>i < length as. c_string_at (at_string token') (at_params token' ! i) = arg_value (as ! i))"
proof -
  obtain B offs where p: "parse_loop (cmd @ args_text as @ [0]) (length cmd) False [] = Some (0, cmd @ B, offs)"
    and v: "map (c_string_at (cmd @ B)) offs = map arg_value as"
    using parse_args [OF assms(1), of "[]" cmd] assms(2) by auto
  have n: "length offs = length as" using v by (metis length_map)
  have "c_string_at (cmd @ B) (offs ! i) = arg_value (as ! i)" if "i < length as" for i
    using arg_cong [OF v, of "\<lambda>l. l ! i"] that n by simp
  then show ?thesis using assms(3-6) p n by (simp add: tokenized_def at_token_parse_parameters_def)
qed

lemma at_token_create_token:
  "at_token_create m1 m2 (cmd @ s) = Inr token \<Longrightarrow>
   token = \<lparr>at_string = cmd @ s @ [0], at_string_len = length (cmd @ s), at_walker = 0, at_params = [], at_is_tokenized = False\<rparr>"
  by (auto simp: at_token_create_def split: if_splits)


definition at_example :: "at_arg list" where
  "at_example = [Plain [0x30], Quoted [0x61, 0x2C, 0x2C, 0x62, 0x2C], Quoted [0x78], Plain [0x35, 0x37]]"


text \<open>A quoted text of 256 bytes loses all of them: its length is kept in a byte.\<close>

lemma long_quoted_text_lost:
  assumes "0 \<notin> set q" "length q = 256"
  shows "c_string_at (strip_quotes (D @ quote # q @ quote # 0 # R) (length D)) (length D) = []"
proof -
  have "c_string_at (D @ quote # q @ quote # 0 # R) (length D) = quote # q @ [quote]"
    using c_string_prefix [of "quote # q @ [quote]" D R] assms(1) by (simp add: quote_def)
  then have "strip_quotes (D @ quote # q @ quote # 0 # R) (length D) = D @ 0 # q @ quote # 0 # R"
    using assms(2) by (simp add: strip_quotes_def)
  then show ?thesis using c_string_prefix [of "[]" D "q @ quote # 0 # R"] by simp
qed

end
