(* ===== verification/He910_At_Storage.thy ===== *)
theory He910_At_Storage
  imports Tr50_Message "HOL-Library.Multiset"
begin

section \<open>The answers that wait for the modem's host (util/he910/wrappers/at.storage.c)\<close>

text \<open>
  What the service answers to an AT command, and the methods it asks for, are kept as text in twenty slots until the host
  reads them with another AT command.  Texts are byte strings; a text that is given out belongs to the caller.
\<close>

definition TR50_AT_SEND_MODE_DELIMITED :: int where "TR50_AT_SEND_MODE_DELIMITED = 1"
definition TR50_AT_SEND_MODE_RAW :: int where "TR50_AT_SEND_MODE_RAW = 2"
definition TR50_AT_SEND_MODE_METHOD :: int where "TR50_AT_SEND_MODE_METHOD = 3"
definition TR50_AT_STORAGE_SIZE :: nat where "TR50_AT_STORAGE_SIZE = 20"

lemmas at_modes = TR50_AT_SEND_MODE_DELIMITED_def TR50_AT_SEND_MODE_RAW_def TR50_AT_SEND_MODE_METHOD_def

record at_slot =
  sl_id :: int
  sl_output :: bytes
  sl_output_len :: int
  sl_is_used :: bool
  sl_mode :: int
  sl_status :: int

record at_storage =
  sto_slots :: "at_slot list"
  sto_count :: int

definition at_storage_new :: at_storage where
  "at_storage_new =
     \<lparr>sto_slots = replicate TR50_AT_STORAGE_SIZE \<lparr>sl_id = 0, sl_output = [], sl_output_len = 0, sl_is_used = False,
        sl_mode = 0, sl_status = 0\<rparr>,
      sto_count = 0\<rparr>"

subsection \<open>The text of an answer\<close>

text \<open>What is stored: the text of a method, or a reply.\<close>

datatype 'd at_message = At_Method bytes | At_Reply "'d message"

text \<open>One parameter of a reply.  A name or text that is NULL has no defined print.\<close>

definition delimited_item :: "'d doubles \<Rightarrow> 'd json \<Rightarrow> bytes option" where
  "delimited_item F ptr =
     (if jtype ptr = JSON_FALSE then map_option (\<lambda>s. s @ cstr '',false'') (jstring ptr)
      else if jtype ptr = JSON_TRUE then map_option (\<lambda>s. s @ cstr '',true'') (jstring ptr)
      else if jtype ptr = JSON_NUMBER then
        map_option (\<lambda>s. s @ cstr '','' @
          (if jdouble ptr = d_of_int F (d_int F (jdouble ptr)) then print_lld (jint ptr) else d_print_f F (jdouble ptr)))
          (jstring ptr)
      else if jtype ptr = JSON_STRING then
        (case (jstring ptr, jvaluestring ptr) of (Some s, Some v) \<Rightarrow> Some (s @ cstr '','' @ v) | _ \<Rightarrow> None)
      else Some [])"

text \<open>A comma before each but the first, also where nothing is printed.\<close>

fun delimited_items :: "'d doubles \<Rightarrow> 'd json list \<Rightarrow> bytes option" where
  "delimited_items F [] = Some []"
| "delimited_items F [ptr] = delimited_item F ptr"
| "delimited_items F (ptr # ptrs) = do {
     a \<leftarrow> delimited_item F ptr;
     b \<leftarrow> delimited_items F ptrs;
     Some (a @ cstr '','' @ b) }"

definition delimited_text :: "'d doubles \<Rightarrow> 'd message \<Rightarrow> bytes option" where
  "delimited_text F message =
     (case fst (tr50_reply_get_params (Some message) (Some (cstr ''1'')) False) of
        Some params \<Rightarrow> if jchild params = [] then Some (cstr ''OK'') else delimited_items F (jchild params)
      | None \<Rightarrow> Some (cstr ''OK''))"

definition failed_text :: "bytes option \<Rightarrow> bytes" where
  "failed_text error_message =
     (case error_message of
        Some msg \<Rightarrow> cstr ''Failed: '' @ msg
      | None \<Rightarrow> cstr ''Failed without message.'')"

text \<open>Status and text.  The texts of failures are allocated without a check.  \<open>Inl\<close> is an error code; a reply that cannot be
  printed leaves the slot with whatever pointer it had.\<close>

definition storage_text :: "'d doubles \<Rightarrow> 'd at_message \<Rightarrow> int \<Rightarrow> (int + int \<times> bytes) option" where
  "storage_text F message mode =
     (case message of
        At_Method text \<Rightarrow> if mode = TR50_AT_SEND_MODE_METHOD then Some (Inr (0, text)) else None
      | At_Reply reply \<Rightarrow>
          if mode = TR50_AT_SEND_MODE_METHOD then None
          else do {
            (code, error_message) \<leftarrow> tr50_reply_get_error (Some reply) (Some (cstr ''1'')) True;
            if code \<noteq> 0 then Some (Inr (1, failed_text error_message))
            else if mode = TR50_AT_SEND_MODE_DELIMITED then map_option (\<lambda>text. Inr (0, text)) (delimited_text F reply)
            else if mode = TR50_AT_SEND_MODE_RAW then
              (case tr50_message_to_string F reply of
                 Some (Inr (text, _)) \<Rightarrow> Some (Inr (0, text))
               | _ \<Rightarrow> None)
            else Some (Inl ERR_TR50_AT_SEND_MODE_UNKNOWN) })"

subsection \<open>Operations\<close>

fun first_free :: "at_slot list \<Rightarrow> nat option" where
  "first_free [] = None"
| "first_free (sl # sls) = (if sl_is_used sl then map_option Suc (first_free sls) else Some 0)"

text \<open>The return code, the length and the storage; an error of the mode leaves the length as it was.\<close>

definition at_storage_put ::
  "'d doubles \<Rightarrow> 'd at_message \<Rightarrow> int \<Rightarrow> int \<Rightarrow> at_storage \<Rightarrow> (int \<times> int option \<times> at_storage) option" where
  "at_storage_put F message mode ident sto =
     (if sto_count sto > int TR50_AT_STORAGE_SIZE then Some (ERR_TR50_AT_STORAGE_FULL, None, sto)
      else case first_free (sto_slots sto) of
             None \<Rightarrow> Some (ERR_TR50_AT_STORAGE_FULL, None, sto)
           | Some i \<Rightarrow>
               (case storage_text F message mode of
                  None \<Rightarrow> None
                | Some (Inl ret) \<Rightarrow> Some (ret, None, sto)
                | Some (Inr (status, text)) \<Rightarrow>
                    Some (0, Some (int (length text)),
                      sto\<lparr>sto_slots := (sto_slots sto)[i := \<lparr>sl_id = ident, sl_output = text,
                            sl_output_len = int (length text), sl_is_used = True, sl_mode = mode, sl_status = status\<rparr>],
                          sto_count := sto_count sto + 1\<rparr>)))"

text \<open>Whether a get for this id and mode takes the slot.\<close>

definition slot_matches :: "int \<Rightarrow> int \<Rightarrow> at_slot \<Rightarrow> bool" where
  "slot_matches ident mode sl \<longleftrightarrow>
     sl_is_used sl \<and> sl_id sl = ident \<and>
     \<not> (sl_mode sl \<noteq> mode \<and> sl_mode sl = TR50_AT_SEND_MODE_METHOD \<and> mode \<noteq> TR50_AT_SEND_MODE_DELIMITED)"

fun first_match :: "int \<Rightarrow> int \<Rightarrow> at_slot list \<Rightarrow> nat option" where
  "first_match ident mode [] = None"
| "first_match ident mode (sl # sls) =
     (if slot_matches ident mode sl then Some 0 else map_option Suc (first_match ident mode sls))"

definition at_storage_get :: "int \<Rightarrow> int \<Rightarrow> at_storage \<Rightarrow> (int + int \<times> bytes \<times> int) \<times> at_storage" where
  "at_storage_get ident mode sto =
     (case first_match ident mode (sto_slots sto) of
        None \<Rightarrow> (Inl ERR_TR50_AT_STORAGE_NOTFOUND, sto)
      | Some i \<Rightarrow>
          let sl = sto_slots sto ! i
          in (Inr (sl_status sl, sl_output sl, sl_output_len sl),
              sto\<lparr>sto_slots := (sto_slots sto)[i := sl\<lparr>sl_is_used := False\<rparr>], sto_count := sto_count sto - 1\<rparr>))"

definition at_storage_list :: "at_storage \<Rightarrow> bytes" where
  "at_storage_list sto =
     print_lld (sto_count sto) @
     concat (map (\<lambda>sl. if sl_is_used sl then cstr '','' @ print_lld (sl_id sl) @ cstr '','' @ print_lld (sl_output_len sl) else [])
       (sto_slots sto))"

definition at_storage_is_full :: "at_storage \<Rightarrow> bool" where
  "at_storage_is_full sto = False"

subsection \<open>The storage as a bag\<close>

text \<open>What a slot that is used holds: id, mode, status and text.\<close>

definition slot_entry :: "at_slot \<Rightarrow> int \<times> int \<times> int \<times> bytes" where
  "slot_entry sl = (sl_id sl, sl_mode sl, sl_status sl, sl_output sl)"

definition at_bag :: "at_storage \<Rightarrow> (int \<times> int \<times> int \<times> bytes) multiset" where
  "at_bag sto = mset (map slot_entry (filter sl_is_used (sto_slots sto)))"

text \<open>Which entries a get may give.\<close>

definition entry_matches :: "int \<Rightarrow> int \<Rightarrow> int \<times> int \<times> int \<times> bytes \<Rightarrow> bool" where
  "entry_matches ident mode e =
     (case e of (i, m, _, _) \<Rightarrow> i = ident \<and> (m = TR50_AT_SEND_MODE_METHOD \<longrightarrow> mode = m \<or> mode = TR50_AT_SEND_MODE_DELIMITED))"

definition at_storage_ok :: "at_storage \<Rightarrow> bool" where
  "at_storage_ok sto \<longleftrightarrow>
     length (sto_slots sto) = TR50_AT_STORAGE_SIZE \<and>
     sto_count sto = int (size (at_bag sto)) \<and>
     (\<forall>sl \<in> set (sto_slots sto). sl_is_used sl \<longrightarrow> sl_output_len sl = int (length (sl_output sl)))"

lemma at_storage_new_ok: "at_storage_ok at_storage_new \<and> at_bag at_storage_new = {#}"
  by (simp add: at_storage_ok_def at_storage_new_def at_bag_def)

lemma first_free_some: "first_free sls = Some i \<Longrightarrow> i < length sls \<and> \<not> sl_is_used (sls ! i)"
  by (induction sls arbitrary: i) (auto split: if_splits)

lemma first_free_none: "first_free sls = None \<longleftrightarrow> (\<forall>sl \<in> set sls. sl_is_used sl)"
  by (induction sls) auto

lemma first_match_some: "first_match ident mode sls = Some i \<Longrightarrow> i < length sls \<and> slot_matches ident mode (sls ! i)"
  by (induction sls arbitrary: i) (auto split: if_splits)

lemma first_match_none: "first_match ident mode sls = None \<longleftrightarrow> (\<forall>sl \<in> set sls. \<not> slot_matches ident mode sl)"
  by (induction sls) auto

lemma slot_entry_matches: "slot_matches ident mode sl \<longleftrightarrow> sl_is_used sl \<and> entry_matches ident mode (slot_entry sl)"
  by (auto simp: slot_matches_def entry_matches_def slot_entry_def)

lemma list_at:
  assumes "i < length xs"
  obtains A B where "xs = A @ xs ! i # B" "length A = i"
  using assms id_take_nth_drop [of i xs] by (metis length_take min.absorb4)

lemma bag_use:
  assumes "i < length sls" "\<not> sl_is_used (sls ! i)" "sl_is_used sl"
  shows "mset (map slot_entry (filter sl_is_used (sls[i := sl]))) =
    add_mset (slot_entry sl) (mset (map slot_entry (filter sl_is_used sls)))"
proof -
  obtain A B where s: "sls = A @ sls ! i # B" and i: "length A = i" using assms(1) by (rule list_at)
  have "sls[i := sl] = A @ sl # B" using list_update_length [of A "sls ! i" B sl] s i by simp
  moreover have "filter sl_is_used sls = filter sl_is_used A @ filter sl_is_used B"
    using arg_cong [OF s, of "filter sl_is_used"] assms(2) by simp
  ultimately show ?thesis using assms(3) by simp
qed

lemma bag_release:
  assumes "i < length sls" "sl_is_used (sls ! i)" "\<not> sl_is_used sl"
  shows "mset (map slot_entry (filter sl_is_used sls)) =
    add_mset (slot_entry (sls ! i)) (mset (map slot_entry (filter sl_is_used (sls[i := sl]))))"
proof -
  obtain A B where s: "sls = A @ sls ! i # B" and i: "length A = i" using assms(1) by (rule list_at)
  have "sls[i := sl] = A @ sl # B" using list_update_length [of A "sls ! i" B sl] s i by simp
  moreover have "filter sl_is_used sls = filter sl_is_used A @ sls ! i # filter sl_is_used B"
    using arg_cong [OF s, of "filter sl_is_used"] assms(2) by simp
  ultimately show ?thesis using assms(3) by simp
qed

lemma at_bag_size: "size (at_bag sto) = length (filter sl_is_used (sto_slots sto))"
  by (simp only: at_bag_def size_mset length_map)

lemma at_bag_entries: "set_mset (at_bag sto) = slot_entry ` {sl \<in> set (sto_slots sto). sl_is_used sl}"
  by (simp only: at_bag_def set_mset_mset set_map set_filter)

lemma storage_text_error: "storage_text F message mode = Some (Inl ret) \<Longrightarrow> ret = ERR_TR50_AT_SEND_MODE_UNKNOWN"
  by (auto simp: storage_text_def Option.bind_eq_Some_conv split: at_message.splits if_splits option.splits sum.splits)

lemma at_storage_put_ok:
  assumes ok: "at_storage_ok sto" and put: "at_storage_put F message mode ident sto = Some (ret, len, sto')"
  shows "at_storage_ok sto' \<and>
         (ret = ERR_TR50_AT_STORAGE_FULL \<longleftrightarrow> size (at_bag sto) = TR50_AT_STORAGE_SIZE) \<and>
         (if ret = 0
          then \<exists>status text. storage_text F message mode = Some (Inr (status, text)) \<and> len = Some (int (length text)) \<and>
                 at_bag sto' = add_mset (ident, mode, status, text) (at_bag sto)
          else at_bag sto' = at_bag sto)"
proof -
  have n: "length (sto_slots sto) = TR50_AT_STORAGE_SIZE" and c: "sto_count sto = int (size (at_bag sto))"
    using ok by (simp_all add: at_storage_ok_def)
  have full: "first_free (sto_slots sto) = None \<longleftrightarrow> size (at_bag sto) = TR50_AT_STORAGE_SIZE"
    unfolding first_free_none at_bag_size n [symmetric] length_filter_conv_card by (metis filter_True length_filter_conv_card length_filter_less less_irrefl)
  have "sto_count sto \<le> int TR50_AT_STORAGE_SIZE" using c n length_filter_le [of sl_is_used "sto_slots sto"] by (simp add: at_bag_size)
  then have put: "(case first_free (sto_slots sto) of
      None \<Rightarrow> Some (ERR_TR50_AT_STORAGE_FULL, None, sto)
    | Some i \<Rightarrow>
        (case storage_text F message mode of
           None \<Rightarrow> None
         | Some (Inl ret) \<Rightarrow> Some (ret, None, sto)
         | Some (Inr (status, text)) \<Rightarrow>
             Some (0, Some (int (length text)),
               sto\<lparr>sto_slots := (sto_slots sto)[i := \<lparr>sl_id = ident, sl_output = text,
                     sl_output_len = int (length text), sl_is_used = True, sl_mode = mode, sl_status = status\<rparr>],
                   sto_count := sto_count sto + 1\<rparr>))) = Some (ret, len, sto')"
    using put by (simp add: at_storage_put_def)
  show ?thesis
  proof (cases "first_free (sto_slots sto)")
    case None
    then show ?thesis using put ok full by (auto simp: err_code)
  next
    case (Some i)
    note i = first_free_some [OF Some]
    show ?thesis
    proof (cases "ret = 0")
      case False
      then have "storage_text F message mode = Some (Inl ret)" "sto' = sto"
        using put Some by (auto split: option.splits sum.splits)
      then show ?thesis using storage_text_error full Some ok by (force simp: err_code)
    next
      case True
      then obtain status str where t: "storage_text F message mode = Some (Inr (status, str))"
        using put Some storage_text_error by (fastforce simp: err_code split: option.splits sum.splits)
      let ?sl = "\<lparr>sl_id = ident, sl_output = str, sl_output_len = int (length str), sl_is_used = True, sl_mode = mode,
        sl_status = status\<rparr>"
      have s': "sto' = sto\<lparr>sto_slots := (sto_slots sto)[i := ?sl], sto_count := sto_count sto + 1\<rparr>" "len = Some (int (length str))"
        using put Some t by simp_all
      have b: "at_bag sto' = add_mset (ident, mode, status, str) (at_bag sto)"
        using bag_use [of i "sto_slots sto" ?sl] i by (simp add: at_bag_def s' slot_entry_def)
      moreover have "at_storage_ok sto'"
        using ok b c by (auto simp: at_storage_ok_def s' dest!: set_update_subset_insert [THEN subsetD])
      ultimately show ?thesis using True t s' full Some by (simp add: err_code)
    qed
  qed
qed

lemma at_storage_get_ok:
  assumes ok: "at_storage_ok sto" and get: "at_storage_get ident mode sto = (r, sto')"
  shows "at_storage_ok sto' \<and>
         (case r of
            Inl ret \<Rightarrow> ret = ERR_TR50_AT_STORAGE_NOTFOUND \<and> sto' = sto \<and> (\<forall>e \<in># at_bag sto. \<not> entry_matches ident mode e)
          | Inr (status, text, len) \<Rightarrow>
              len = int (length text) \<and>
              (\<exists>m. entry_matches ident mode (ident, m, status, text) \<and>
                   at_bag sto = add_mset (ident, m, status, text) (at_bag sto')))"
proof (cases "first_match ident mode (sto_slots sto)")
  case None
  then have "\<forall>e \<in># at_bag sto. \<not> entry_matches ident mode e"
    unfolding at_bag_entries using slot_entry_matches by (auto simp: first_match_none)
  then show ?thesis using None get ok by (auto simp: at_storage_get_def)
next
  case (Some i)
  let ?sl = "sto_slots sto ! i"
  have i: "i < length (sto_slots sto)" "slot_matches ident mode ?sl" using first_match_some [OF Some] by auto
  have s': "sto' = sto\<lparr>sto_slots := (sto_slots sto)[i := ?sl\<lparr>sl_is_used := False\<rparr>], sto_count := sto_count sto - 1\<rparr>"
    "r = Inr (sl_status ?sl, sl_output ?sl, sl_output_len ?sl)"
    using get Some by (simp_all add: at_storage_get_def Let_def)
  have u: "sl_is_used ?sl" "entry_matches ident mode (slot_entry ?sl)" "sl_id ?sl = ident"
    using i(2) slot_entry_matches by (auto simp: slot_matches_def)
  have b: "at_bag sto = add_mset (slot_entry ?sl) (at_bag sto')"
    using bag_release [of i "sto_slots sto" "?sl\<lparr>sl_is_used := False\<rparr>"] i(1) u(1) by (simp add: at_bag_def s')
  have "at_storage_ok sto'"
    using ok b by (auto simp: at_storage_ok_def s' dest!: set_update_subset_insert [THEN subsetD])
  moreover have "sl_output_len ?sl = int (length (sl_output ?sl))" using ok i(1) u(1) by (auto simp: at_storage_ok_def)
  ultimately show ?thesis using b u by (auto simp: s' slot_entry_def)
qed

text \<open>C35: the storage is a bag of at most twenty entries.  A put that answers 0 adds the text of what is stored, with its
  status, and answers its length; it answers \<open>ERR_TR50_AT_STORAGE_FULL\<close> exactly when twenty entries are there, and leaves
  the bag as it was whenever it does not answer 0.  A get takes out one entry with the id, whose mode it may read, or says
  that there is none.  Slots and count agree with the bag before and after.\<close>

theorem at_storage_bag:
  assumes "at_storage_ok sto"
  shows "(\<forall>F message mode ident ret len sto'. at_storage_put F (message :: 'd at_message) mode ident sto = Some (ret, len, sto') \<longrightarrow>
           at_storage_ok sto' \<and>
           (ret = ERR_TR50_AT_STORAGE_FULL \<longleftrightarrow> size (at_bag sto) = TR50_AT_STORAGE_SIZE) \<and>
           (if ret = 0
            then \<exists>status text. storage_text F message mode = Some (Inr (status, text)) \<and> len = Some (int (length text)) \<and>
                   at_bag sto' = add_mset (ident, mode, status, text) (at_bag sto)
            else at_bag sto' = at_bag sto)) \<and>
         (\<forall>ident mode r sto'. at_storage_get ident mode sto = (r, sto') \<longrightarrow>
           at_storage_ok sto' \<and>
           (case r of
              Inl ret \<Rightarrow> ret = ERR_TR50_AT_STORAGE_NOTFOUND \<and> sto' = sto \<and> (\<forall>e \<in># at_bag sto. \<not> entry_matches ident mode e)
            | Inr (status, text, len) \<Rightarrow>
                len = int (length text) \<and>
                (\<exists>m. entry_matches ident mode (ident, m, status, text) \<and>
                     at_bag sto = add_mset (ident, m, status, text) (at_bag sto'))))"
  using at_storage_put_ok [OF assms] at_storage_get_ok [OF assms] by blast

end
