(* ===== verification/He910_At_Cmd.thy ===== *)
theory He910_At_Cmd
  imports He910_At_Token He910_At_Storage Tr50_Dispatch
begin

section \<open>The AT commands (util/he910/wrappers/at.cmd.c, at.info.c)\<close>

text \<open>
  One client of the library, driven by AT commands: connect and disconnect, send a request as parameters or as JSON, read
  the answers.  A command gets the token of its line and answers a code and the text it prints.  The modem around it, its
  non-volatile memory, its identity and its own command interpreter, is a record of what it answers.
\<close>

subsection \<open>The modem and the state of the wrapper\<close>

text \<open>\<open>None\<close>: \<open>NVMRead\<close> reports an error.\<close>

record 'd modem =
  nv_url :: "bytes option"
  nv_dev_id_selector :: "int option"
  nv_app_token :: "bytes option"
  nv_security :: "int option"
  nv_heart_beat :: "int option"
  nv_auto_reconn :: "int option"
  nv_features :: "int option"
  mo_imei :: bytes
  mo_iccid :: bytes
  mo_iccid_valid :: bool
  mo_model :: bytes
  mo_version :: bytes
  mo_attach :: bool
  mo_execute :: "bytes \<Rightarrow> int"
  mo_atof :: "bytes \<Rightarrow> 'd"

text \<open>\<open>at_rings\<close>: the calls of the unsolicited callback so far.  \<open>at_mail_id\<close>: the \<open>module.exec\<close> that is under way.\<close>

record ('w, 'd) at_state =
  at_client :: "('w, 'd) tr50"
  at_unsol :: bool
  at_rings :: "bytes list"
  at_run_buffer :: bytes
  at_connected_once :: bool
  at_mail_id :: "bytes option"
  at_mail_timestamp :: int
  at_sto :: at_storage

definition DW_URL_DEF :: bytes where "DW_URL_DEF = cstr ''open01.devicewise.com''"
definition DW_DEV_ID_SEL_DEF :: int where "DW_DEV_ID_SEL_DEF = 0"
definition DW_APP_TOKEN_DEF :: bytes where "DW_APP_TOKEN_DEF = cstr ''trzNXgN7WUNSg1DB''"
definition DW_SEC_DEF :: int where "DW_SEC_DEF = 0"
definition DW_HEART_BEAT_DEF :: int where "DW_HEART_BEAT_DEF = 60"
definition DW_AUTO_RECONN_DEF :: int where "DW_AUTO_RECONN_DEF = 3"

definition nv :: "'a option \<Rightarrow> 'a \<Rightarrow> 'a" where
  "nv r d = (case r of None \<Rightarrow> d | Some v \<Rightarrow> v)"

subsection \<open>Identity (at.info.c)\<close>

text \<open>\<open>%02X\<close> of a \<open>char\<close>, which is signed: a negative one prints eight digits.\<close>

definition hex_upper :: "nat \<Rightarrow> byte" where
  "hex_upper n = of_nat (n + (if n < 10 then 0x30 else 0x37))"

definition print_02X :: "byte \<Rightarrow> bytes" where
  "print_02X b =
     (let ds = [hex_upper (unat b div 16), hex_upper (unat b mod 16)]
      in if b < 0x80 then ds else replicate 6 (hex_upper 15) @ ds)"

text \<open>Seven bytes in hexadecimal and one in decimal, into a buffer of 32.\<close>

definition at_info_imei :: "bytes \<Rightarrow> bytes option" where
  "at_info_imei imei =
     (if length imei \<noteq> 8 then None
      else let s = concat (map print_02X (take 7 imei)) @ print_lld (sint (imei ! 7))
           in if length s < 32 then Some s else None)"

text \<open>The digits of the SIM card, low half first, up to a half that is F.\<close>

fun iccid_digits :: "bytes \<Rightarrow> bytes" where
  "iccid_digits [] = []"
| "iccid_digits (b # bs) =
     (if b = 0xFF then []
      else if unat b div 16 = 15 then [hex_upper (unat b mod 16)]
      else hex_upper (unat b mod 16) # hex_upper (unat b div 16) # iccid_digits bs)"

definition at_info_ccid :: "'d modem \<Rightarrow> bytes" where
  "at_info_ccid M = (if mo_iccid_valid M then iccid_digits (take 10 (mo_iccid M)) else cstr ''CCID: Not Valid'')"

subsection \<open>Status, features, reconnection\<close>

text \<open>0 disconnected, 1 trying to connect, 2 connected, 3 waiting to connect.\<close>

definition at_status_get :: "int \<Rightarrow> int" where
  "at_status_get status =
     (if status = STATE_DISABLED \<or> status = TR50_STATUS_STOPPED \<or> status = TR50_STATUS_STOPPING then 0
      else if status = STATE_CONNECTED then 2
      else if status = STATE_RECONNECTING \<or> status = STATE_CONNECTING then 1
      else if status = 0 \<or> status = STATE_BROKEN then 3
      else 0)"

definition at_feature_enabled :: "'d modem \<Rightarrow> nat \<Rightarrow> bool" where
  "at_feature_enabled M ident = bit (nv (nv_features M) 0) ident"

definition at_should_reconnect :: "int \<Rightarrow> int \<Rightarrow> int \<Rightarrow> bool" where
  "at_should_reconnect opt disconnected_in_ms last_reconnect_in_ms =
     (if opt = 0 then False
      else if opt = 1 then last_reconnect_in_ms sdiv 1000 > 3600
      else if opt = 2 then
        (if disconnected_in_ms sdiv 1000 > 86400 then last_reconnect_in_ms sdiv 1000 > 3600
         else last_reconnect_in_ms sdiv 1000 > 120)
      else last_reconnect_in_ms sdiv 1000 > 120)"

subsection \<open>AT#DWCONN\<close>

text \<open>The address of \<open>_at_tr50_should_reconnect\<close> and \<open>_tr50_at_send_reply\<close> among the callbacks.\<close>

definition AT_SHOULD_RECONNECT :: nat where "AT_SHOULD_RECONNECT = 11"
definition AT_SEND_REPLY :: nat where "AT_SEND_REPLY = 12"

text \<open>A setter that clones a string.\<close>

definition at_config ::
  "('w, 'd) env \<Rightarrow> (malloc \<Rightarrow> config \<Rightarrow> bytes option \<Rightarrow> config option) \<Rightarrow> bytes \<Rightarrow> ('w, 'd) tr50 \<Rightarrow> ('w, 'd) tr50 option" where
  "at_config E setter s c =
     (case p_malloc (en_platform E) (cl_world c) of (m, w) \<Rightarrow>
        map_option (\<lambda>cf. c\<lparr>cl_world := w, cl_config := cf\<rparr>) (setter m (cl_config c) (Some s)))"

definition at_config_set :: "(config \<Rightarrow> config) \<Rightarrow> ('w, 'd) tr50 \<Rightarrow> ('w, 'd) tr50" where
  "at_config_set setter c = c\<lparr>cl_config := setter (cl_config c)\<rparr>"

text \<open>The host and, behind a colon, the port.\<close>

definition at_config_url :: "('w, 'd) env \<Rightarrow> bytes \<Rightarrow> ('w, 'd) tr50 \<Rightarrow> ('w, 'd) tr50 option" where
  "at_config_url E url c =
     (if url = [] then Some c
      else do {
        c \<leftarrow> (case dropWhile (\<lambda>b. b \<noteq> 0x3A) url of
                [] \<Rightarrow> Some c
              | _ # prt \<Rightarrow> map_option (\<lambda>n. at_config_set (\<lambda>cf. tr50_config_set_port cf n) c) (c_atoi prt));
        at_config E tr50_config_set_host (takeWhile (\<lambda>b. b \<noteq> 0x3A) url) c })"

definition at_config_identity :: "('w, 'd) env \<Rightarrow> 'd modem \<Rightarrow> ('w, 'd) tr50 \<Rightarrow> ('w, 'd) tr50 option" where
  "at_config_identity E M c = do {
     imei \<leftarrow> at_info_imei (mo_imei M);
     c \<leftarrow> at_config E tr50_config_set_username
            (if nv (nv_dev_id_selector M) DW_DEV_ID_SEL_DEF = 0 then imei else at_info_ccid M) c;
     at_config E tr50_config_set_client_id imei c }"

definition at_configure :: "('w, 'd) env \<Rightarrow> 'd modem \<Rightarrow> ('w, 'd) tr50 \<Rightarrow> ('w, 'd) tr50 option" where
  "at_configure E M c = do {
     c \<leftarrow> at_config_url E (nv (nv_url M) DW_URL_DEF) c;
     c \<leftarrow> at_config_identity E M c;
     let app_token = nv (nv_app_token M) DW_APP_TOKEN_DEF;
     c \<leftarrow> (if app_token = [] then Some c else at_config E tr50_config_set_password app_token c);
     let c = at_config_set (\<lambda>cf. tr50_config_set_keeplive cf (c_int (nv (nv_heart_beat M) DW_HEART_BEAT_DEF * 1000))) c;
     let c = at_config_set (\<lambda>cf. tr50_config_set_should_reconnect_handler cf (Some AT_SHOULD_RECONNECT)
               (nat (nv (nv_auto_reconn M) DW_AUTO_RECONN_DEF))) c;
     Some (if nv (nv_security M) DW_SEC_DEF \<noteq> 0
           then at_config_set (\<lambda>cf. tr50_config_set_port (tr50_config_set_ssl cf 1) 8883) c else c) }"

text \<open>\<open>tr50_stop\<close>; \<open>ending\<close> is what the other threads do until the receiving thread has ended.\<close>

definition at_stop ::
  "('w, 'd) env \<Rightarrow> (('w, 'd) tr50 \<Rightarrow> ('w, 'd) tr50) \<Rightarrow> ('w, 'd) tr50 \<Rightarrow> (int \<times> ('w, 'd) tr50) option" where
  "at_stop E ending c = do {
     (ret, totals, c) \<leftarrow> tr50_stop_begin E c;
     if ret \<noteq> 0 then Some (ret, c) else map_option (\<lambda>c. (0, c)) (tr50_stop_end E totals (ending c)) }"

text \<open>The parameter of a token that has been cut, None for NULL.\<close>

definition param_at :: "at_token \<Rightarrow> nat \<Rightarrow> bytes option" where
  "param_at token i = (if i < length (at_params token) then Some (c_string_at (at_string token) (at_params token ! i)) else None)"

text \<open>The first byte of a parameter; 0 when it is empty, none when it is NULL.\<close>

definition first_byte :: "bytes option \<Rightarrow> byte option" where
  "first_byte s = map_option (\<lambda>s. case s of [] \<Rightarrow> 0 | b # _ \<Rightarrow> b) s"

definition at_dwconn_set ::
  "('w, 'd) env \<Rightarrow> 'd modem \<Rightarrow> (('w, 'd) tr50 \<Rightarrow> ('w, 'd) tr50) \<Rightarrow> int \<Rightarrow> int \<Rightarrow> at_token \<Rightarrow> ('w, 'd) at_state \<Rightarrow>
   (int \<times> bytes \<times> ('w, 'd) at_state) option" where
  "at_dwconn_set E M ending mux thread token st = do {
     token \<leftarrow> tokenized token;
     b \<leftarrow> first_byte (param_at token 0);
     if b = 0x30 then do {
       (ret, c) \<leftarrow> at_stop E ending (at_client st);
       Some (ret, [], st\<lparr>at_client := stats_up tr50_stats_clear_last_error c\<rparr>) }
     else if b = 0x31 then do {
       c \<leftarrow> at_configure E M (at_client st);
       (ret, connect_error, c) \<leftarrow> tr50_start2 E mux thread c;
       Some (if ret \<noteq> 0 then ret else connect_error, [], st\<lparr>at_client := c\<rparr>) }
     else Some (ERR_TR50_PARMS, [], st) }"

definition at_dwconn_get :: "('w, 'd) at_state \<Rightarrow> (int \<times> bytes \<times> ('w, 'd) at_state) option" where
  "at_dwconn_get st = do {
     status \<leftarrow> tr50_current_status (at_client st);
     Some (0, print_lld (if tr50_current_state (at_client st) = TR50_STATE_STARTED then 1 else 0) @ cstr '','' @
              print_lld (at_status_get status), st) }"

subsection \<open>The answers\<close>

text \<open>The ring, in 32 bytes.\<close>

definition at_ring :: "int \<Rightarrow> int \<Rightarrow> int \<Rightarrow> ('w, 'd) at_state \<Rightarrow> ('w, 'd) at_state" where
  "at_ring mode ident len st =
     (if at_unsol st
      then st\<lparr>at_rings := at_rings st @
             [take 31 (print_lld mode @ cstr '','' @ print_lld ident @ cstr '','' @ print_lld len)]\<rparr>
      else st)"

text \<open>The message a time-out is told with.\<close>

definition at_timeout_message :: "'d doubles \<Rightarrow> int \<Rightarrow> 'd message \<Rightarrow> 'd message" where
  "at_timeout_message F status msg =
     (let err = tr50_json_add_false_to_object F (tr50_json_create_object F) (Some json_success);
          err = tr50_json_add_item_to_object err (Some json_errorcodes) (tr50_json_create_int_array F [status]);
          err = tr50_json_add_item_to_object err (Some json_errormessages)
                  (tr50_json_create_string_array F [Some (cstr ''Operation timed out.'')])
      in msg\<lparr>is_reply := True, msg_json := err\<rparr>)"

text \<open>\<open>_tr50_at_send_reply\<close>: every answer is stored under the number 1.  With a time-out the storage is given the mode 0, and
  the ring is called with whatever length it has; a reply belongs to the callback, which does not delete it.\<close>

definition at_send_reply ::
  "('w, 'd) env \<Rightarrow> int \<Rightarrow> 'd message option \<Rightarrow> nat \<Rightarrow> ('w, 'd) at_state \<Rightarrow> ('w, 'd) at_state option" where
  "at_send_reply E status reply cust st =
     (if status \<noteq> 0 then
        (case client_message_create E (at_client st) of
           (Inl _, c) \<Rightarrow> None
         | (Inr m, c) \<Rightarrow> do {
             msg \<leftarrow> cl_store c m;
             (ret, len, sto) \<leftarrow> at_storage_put (en_doubles E)
               (At_Reply (at_timeout_message (en_doubles E) status msg)) 0 1 (at_sto st);
             len \<leftarrow> (if at_unsol st then len else Some 0);
             (_, c) \<leftarrow> tr50_message_delete m c;
             Some (at_ring (int cust) 1 len (st\<lparr>at_client := c, at_sto := sto\<rparr>)) })
      else do {
        reply \<leftarrow> reply;
        (ret, len, sto) \<leftarrow> at_storage_put (en_doubles E) (At_Reply reply) (int cust) 1 (at_sto st);
        Some (case len of None \<Rightarrow> st\<lparr>at_sto := sto\<rparr> | Some len \<Rightarrow> at_ring (int cust) 1 len (st\<lparr>at_sto := sto\<rparr>)) })"

subsection \<open>AT#DWSENDR and AT#DWSEND\<close>

definition failed_with :: "int \<Rightarrow> bytes" where
  "failed_with ret = cstr ''Failed: '' @ print_lld ret"

text \<open>Send a message that is in memory at \<open>m\<close>; the text is its number, or the failure.\<close>

definition at_send ::
  "('w, 'd) env \<Rightarrow> nat \<Rightarrow> int \<Rightarrow> int \<Rightarrow> ('w, 'd) tr50 \<Rightarrow> ('w, 'd) at_state \<Rightarrow> (int \<times> bytes \<times> ('w, 'd) at_state) option" where
  "at_send E m mode timeout c st = do {
     (ret, c) \<leftarrow> tr50_api_call_async E m (Some AT_SEND_REPLY) (nat mode) timeout c;
     if ret \<noteq> 0 then do {
       (_, c) \<leftarrow> tr50_message_delete m c;
       Some (ret, failed_with ret, st\<lparr>at_client := c\<rparr>) }
     else Some (ret, print_lld (cl_seq_id c), st\<lparr>at_client := c\<rparr>) }"

definition index_of :: "byte \<Rightarrow> bytes \<Rightarrow> nat option" where
  "index_of b bs = (if b \<in> set bs then Some (length (takeWhile (\<lambda>x. x \<noteq> b) bs)) else None)"

text \<open>The JSON text is what comes behind the first comma of the line, the length what comes behind its first equals sign.\<close>

definition at_dwsendr_set ::
  "('w, 'd) env \<Rightarrow> at_token \<Rightarrow> ('w, 'd) at_state \<Rightarrow> (int \<times> bytes \<times> ('w, 'd) at_state) option" where
  "at_dwsendr_set E token st =
     (if at_storage_is_full (at_sto st) then Some (ERR_TR50_AT_STORAGE_FULL, failed_with ERR_TR50_AT_STORAGE_FULL, st)
      else case (index_of 0x3D (at_token_data token), index_of comma (at_token_data token)) of
        (Some i, Some j) \<Rightarrow>
          let blk = (at_string token)[j := 0]; c = at_client st in
          (case p_malloc (en_platform E) (cl_world c) of (m, w) \<Rightarrow> do {
             c_atoi (c_string_at blk (i + 1));
             r \<leftarrow> tr50_message_from_string (en_doubles E) m (c_string_at blk (j + 1));
             (case r of
                Inl ret \<Rightarrow> Some (ret, failed_with ret, st)
              | Inr msg \<Rightarrow>
                  at_send E (cl_next c) TR50_AT_SEND_MODE_RAW 30000
                    (c\<lparr>cl_world := w, cl_store := (cl_store c)(cl_next c \<mapsto> msg), cl_next := cl_next c + 1\<rparr>) st) })
      | _ \<Rightarrow> Some (ERR_AT_TOKEN_CMD_NOT_MATCH, cstr ''Failed: No data specified'', st))"

text \<open>\<open>_tr50_parse_json_for_integers\<close>: a parameter of digits and points is a number, one in quotes loses them.\<close>

definition at_json_value ::
  "'d doubles \<Rightarrow> 'd modem \<Rightarrow> bytes option \<Rightarrow> bytes option \<Rightarrow> 'd json \<Rightarrow> 'd json option" where
  "at_json_value F M name value params = do {
     value \<leftarrow> value;
     if \<forall>b \<in> set value. is_digit b \<or> b = 0x2E then
       (if 0x2E \<in> set value then Some (tr50_json_add_number_to_object F params name (mo_atof M value))
        else map_option (\<lambda>n. tr50_json_add_number_to_object F params name (d_of_int F n)) (c_atoi value))
     else if length value > 2 \<and> value ! 0 = quote \<and> value ! (length value - 1) = quote then
       Some (tr50_json_add_string_to_object F params name (Some (take (length value - 2) (drop 1 value))))
     else Some (tr50_json_add_string_to_object F params name (Some value)) }"

text \<open>\<open>n\<close> pairs from \<open>i\<close> on.\<close>

primrec at_json_loop ::
  "'d doubles \<Rightarrow> 'd modem \<Rightarrow> at_token \<Rightarrow> nat \<Rightarrow> nat \<Rightarrow> 'd json \<Rightarrow> 'd json option" where
  "at_json_loop F M token 0 i params = Some params"
| "at_json_loop F M token (Suc n) i params = do {
     params \<leftarrow> at_json_value F M (param_at token i) (param_at token (i + 1)) params;
     at_json_loop F M token n (i + 2) params }"

text \<open>A new message with one command.\<close>

definition at_command_message ::
  "('w, 'd) env \<Rightarrow> bytes option \<Rightarrow> 'd json \<Rightarrow> ('w, 'd) tr50 \<Rightarrow> (nat \<times> ('w, 'd) tr50) option" where
  "at_command_message E cmd params c =
     (case client_message_create E c of
        (Inl _, c) \<Rightarrow> None
      | (Inr m, c) \<Rightarrow> do {
          msg \<leftarrow> cl_store c m;
          msg \<leftarrow> snd (tr50_message_add_command (en_doubles E) (Some msg) (Some (cstr ''1'')) cmd (Some params));
          c \<leftarrow> update_message m (\<lambda>_. msg) c;
          Some (m, c) })"

definition uneven :: "('w, 'd) at_state \<Rightarrow> (int \<times> bytes \<times> ('w, 'd) at_state) option" where
  "uneven st = Some (ERR_TR50_AT_UNEVEN_PARAMS, failed_with ERR_TR50_AT_UNEVEN_PARAMS, st)"

definition at_dwsend_normal ::
  "('w, 'd) env \<Rightarrow> 'd modem \<Rightarrow> at_token \<Rightarrow> ('w, 'd) at_state \<Rightarrow> (int \<times> bytes \<times> ('w, 'd) at_state) option" where
  "at_dwsend_normal E M token st =
     (let count = length (at_params token) in
      if at_storage_is_full (at_sto st) then Some (ERR_TR50_AT_STORAGE_FULL, failed_with ERR_TR50_AT_STORAGE_FULL, st)
      else if odd count then uneven st
      else do {
        params \<leftarrow> at_json_loop (en_doubles E) M token ((count - 2) div 2) 2 (tr50_json_create_object (en_doubles E));
        (m, c) \<leftarrow> at_command_message E (param_at token 1) params (at_client st);
        at_send E m TR50_AT_SEND_MODE_DELIMITED 30000 c st })"

definition at_dwsend_method ::
  "('w, 'd) env \<Rightarrow> 'd modem \<Rightarrow> at_token \<Rightarrow> ('w, 'd) at_state \<Rightarrow> (int \<times> bytes \<times> ('w, 'd) at_state) option" where
  "at_dwsend_method E M token st =
     (let count = length (at_params token); F = en_doubles E in
      if at_storage_is_full (at_sto st) then Some (ERR_TR50_AT_STORAGE_FULL, failed_with ERR_TR50_AT_STORAGE_FULL, st)
      else if count < 5 \<or> even count then uneven st
      else do {
        timeout \<leftarrow> Option.bind (param_at token 2) c_atoi;
        singleton \<leftarrow> Option.bind (param_at token 4) c_atoi;
        let params = tr50_json_add_string_to_object F (tr50_json_create_object F) (Some (cstr ''thingKey'')) (param_at token 1);
        let params = tr50_json_add_number_to_object F params (Some (cstr ''ackTimeout'')) (d_of_int F timeout);
        let params = tr50_json_add_string_to_object F params (Some (cstr ''method'')) (param_at token 3);
        let params = tr50_json_add_item_to_object params (Some (cstr ''singleton''))
                       (if singleton \<noteq> 0 then tr50_json_create_true F else tr50_json_create_false F);
        mparams \<leftarrow> at_json_loop F M token ((count - 5) div 2) 5 (tr50_json_create_object F);
        let params = tr50_json_add_item_to_object params (Some json_params) mparams;
        (m, c) \<leftarrow> at_command_message E (Some (cstr ''method.exec'')) params (at_client st);
        expires \<leftarrow> int_ok (timeout + 5000);
        at_send E m TR50_AT_SEND_MODE_DELIMITED expires c st })"

text \<open>The next two report \<open>Failed\<close> when the call answered 0.\<close>

definition at_report :: "int \<Rightarrow> bytes" where
  "at_report ret = (if ret = 0 then failed_with ret else print_lld 0)"

definition at_dwsend_update ::
  "('w, 'd) env \<Rightarrow> at_token \<Rightarrow> ('w, 'd) at_state \<Rightarrow> (int \<times> bytes \<times> ('w, 'd) at_state) option" where
  "at_dwsend_update E token st =
     (case (param_at token 1, param_at token 2) of
        (Some ident, Some msg) \<Rightarrow> do {
          (ret, c) \<leftarrow> tr50_command_update E ident (Some msg) (at_client st);
          Some (ret, at_report ret, st\<lparr>at_client := c\<rparr>) }
      | _ \<Rightarrow> Some (ERR_TR50_PARMS, failed_with ERR_TR50_PARMS, st))"

definition at_dwsend_ack ::
  "('w, 'd) env \<Rightarrow> 'd modem \<Rightarrow> at_token \<Rightarrow> ('w, 'd) at_state \<Rightarrow> (int \<times> bytes \<times> ('w, 'd) at_state) option" where
  "at_dwsend_ack E M token st =
     (let count = length (at_params token) in
      case (param_at token 1, param_at token 2) of
        (Some ident, Some status_str) \<Rightarrow> do {
          status \<leftarrow> c_atoi status_str;
          if status \<noteq> 0 then do {
            (ret, c) \<leftarrow> tr50_command_ack E ident status (param_at token 3) None (at_client st);
            Some (0, if ret = 0 then failed_with ret else [], st\<lparr>at_client := c\<rparr>) }
          else if count < 3 \<or> even count then uneven st
          else do {
            params \<leftarrow> at_json_loop (en_doubles E) M token ((count - 3) div 2) 3 (tr50_json_create_object (en_doubles E));
            (ret, c) \<leftarrow> tr50_command_ack E ident 0 None (Some params) (at_client st);
            Some (ret, at_report ret, st\<lparr>at_client := c\<rparr>) } }
      | _ \<Rightarrow> Some (ERR_TR50_PARMS, failed_with ERR_TR50_PARMS, st))"

definition at_dwsend_set ::
  "('w, 'd) env \<Rightarrow> 'd modem \<Rightarrow> at_token \<Rightarrow> ('w, 'd) at_state \<Rightarrow> (int \<times> bytes \<times> ('w, 'd) at_state) option" where
  "at_dwsend_set E M token st = do {
     token \<leftarrow> tokenized token;
     b \<leftarrow> first_byte (param_at token 0);
     if b = 0x30 then at_dwsend_normal E M token st
     else if b = 0x31 then at_dwsend_method E M token st
     else if b = 0x32 then at_dwsend_update E token st
     else if b = 0x33 then at_dwsend_ack E M token st
     else Some (ERR_AT_CMD_NOT_SUPPORTED, [], st) }"

subsection \<open>AT#DWLRCV, AT#DWRCVR, AT#DWRCV\<close>

definition at_dwlrcv_get :: "('w, 'd) at_state \<Rightarrow> (int \<times> bytes \<times> ('w, 'd) at_state) option" where
  "at_dwlrcv_get st = Some (0, at_storage_list (at_sto st), st)"

definition at_receive ::
  "int \<Rightarrow> at_token \<Rightarrow> ('w, 'd) at_state \<Rightarrow> (int \<times> bytes \<times> ('w, 'd) at_state) option" where
  "at_receive mode token st = do {
     token \<leftarrow> tokenized token;
     mid \<leftarrow> Option.bind (param_at token 0) c_atoi;
     (case at_storage_get mid mode (at_sto st) of
        (Inl ret, sto) \<Rightarrow> Some (0, cstr ''Failed : '' @ print_lld ret, st\<lparr>at_sto := sto\<rparr>)
      | (Inr (status, output, output_len), sto) \<Rightarrow>
          Some (0, print_lld mid @ cstr '','' @ print_lld status @ cstr '','' @ print_lld output_len @ cstr '','' @ output,
                st\<lparr>at_sto := sto\<rparr>)) }"

definition at_dwrcvr_set :: "at_token \<Rightarrow> ('w, 'd) at_state \<Rightarrow> (int \<times> bytes \<times> ('w, 'd) at_state) option" where
  "at_dwrcvr_set token st = at_receive TR50_AT_SEND_MODE_RAW token st"

definition at_dwrcv_set :: "at_token \<Rightarrow> ('w, 'd) at_state \<Rightarrow> (int \<times> bytes \<times> ('w, 'd) at_state) option" where
  "at_dwrcv_set token st = at_receive TR50_AT_SEND_MODE_DELIMITED token st"

subsection \<open>AT#DWSTATUS\<close>

text \<open>The callback of a ping, with the time it may read: what it stores for the thread that waits.\<close>

definition at_latency_callback :: "int \<Rightarrow> int \<Rightarrow> 'd message option \<Rightarrow> int" where
  "at_latency_callback now status reply =
     (if status = 0 then
        let code = tr50_reply_get_error_code reply (Some (cstr ''1'')) in if code = 0 then now else code
      else status)"

text \<open>\<open>await\<close>: what happens until that is not 0.\<close>

definition AT_LATENCY_CALLBACK :: nat where "AT_LATENCY_CALLBACK = 13"

definition at_latency ::
  "('w, 'd) env \<Rightarrow> (('w, 'd) tr50 \<Rightarrow> int \<times> ('w, 'd) tr50) \<Rightarrow> ('w, 'd) tr50 \<Rightarrow> (int \<times> ('w, 'd) tr50) option" where
  "at_latency E await c =
     (case client_message_create E c of
        (Inl _, c) \<Rightarrow> None
      | (Inr m, c) \<Rightarrow> do {
          msg \<leftarrow> cl_store c m;
          msg \<leftarrow> snd (tr50_message_add_command (en_doubles E) (Some msg) (Some (cstr ''1'')) (Some (cstr ''diag.ping'')) None);
          c \<leftarrow> update_message m (\<lambda>_. msg) c;
          (case time_now E c of (sent_time, c) \<Rightarrow> do {
             (ret, c) \<leftarrow> tr50_api_call_async E m (Some AT_LATENCY_CALLBACK) 0 5000 c;
             if ret \<noteq> 0 then do { (_, c) \<leftarrow> tr50_message_delete m c; Some (ret, c) }
             else case await c of (recv, c) \<Rightarrow>
               Some (if recv < 0 then c_int recv else c_int (recv - sent_time), c) }) })"

definition at_dwstatus_get ::
  "('w, 'd) env \<Rightarrow> (('w, 'd) tr50 \<Rightarrow> int \<times> ('w, 'd) tr50) \<Rightarrow> ('w, 'd) at_state \<Rightarrow> (int \<times> bytes \<times> ('w, 'd) at_state) option" where
  "at_dwstatus_get E await st =
     (let c = at_client st; stats = cl_stats c in do {
        status \<leftarrow> tr50_current_status c;
        let counters = [tr50_stats_pub_recv stats, tr50_stats_pub_sent stats, tr50_stats_byte_recv stats (cl_mqtt c),
                        tr50_stats_byte_sent stats (cl_mqtt c)];
        (last_error, latency, c) \<leftarrow>
          (if status = STATE_CONNECTED then map_option (\<lambda>(latency, c). (0, latency, c)) (at_latency E await c)
           else Some (tr50_stats_last_error stats, -1, c));
        Some (0, print_lld (at_status_get status) @
                 concat (map (\<lambda>n. cstr '','' @ print_lld n) (last_error # latency # counters)), st\<lparr>at_client := c\<rparr>) })"

end
