(* ===== verification/He910_At_Main.thy ===== *)
theory He910_At_Main
  imports He910_At_Cmd
begin

section \<open>The AT wrapper (util/he910/wrappers/at.main.c, at.processor.c)\<close>

text \<open>
  The dispatch of a command line to its command, and what the wrapper does for the service: it registers the modem, keeps
  methods for the host, and runs AT commands that the service sends (\<open>module.exec\<close>), one at a time.
\<close>

definition TR50_AT_EXEC_TTL :: int where "TR50_AT_EXEC_TTL = 60000"

text \<open>The addresses of the callbacks the wrapper registers.\<close>

definition AT_MODULE_EXEC :: nat where "AT_MODULE_EXEC = 14"
definition AT_MODULE_DIAG :: nat where "AT_MODULE_DIAG = 15"
definition AT_DIAG_PING :: nat where "AT_DIAG_PING = 16"
definition AT_METHOD_EXEC :: nat where "AT_METHOD_EXEC = 17"
definition AT_STATE_CHANGE :: nat where "AT_STATE_CHANGE = 18"

subsection \<open>Commands of the service\<close>

text \<open>\<open>_tr50_at_run_exec\<close>: the command and a carriage return, given to the modem until it has taken all; the modem says how much
  it took.  One that takes nothing is asked for ever, one that answers a negative number is given what is before the command.\<close>

function run_exec_loop :: "(bytes \<Rightarrow> int) \<Rightarrow> bytes \<Rightarrow> bytes list \<Rightarrow> bytes list option" where
  "run_exec_loop execute rest calls =
     (if rest = [] then Some calls
      else let sent = execute (rest @ [0x0D])
           in if sent \<le> 0 then None else run_exec_loop execute (drop (nat sent) rest) (calls @ [rest @ [0x0D]]))"
  by pat_completeness auto
termination
  by (relation "measure (\<lambda>(_, rest, _). length rest)") auto

declare run_exec_loop.simps [simp del]

definition at_run_exec :: "'d modem \<Rightarrow> bytes \<Rightarrow> bytes list option" where
  "at_run_exec M input = run_exec_loop (mo_execute M) input []"

definition at_ack ::
  "('w, 'd) env \<Rightarrow> bytes \<Rightarrow> int \<Rightarrow> bytes option \<Rightarrow> 'd json option \<Rightarrow> ('w, 'd) at_state \<Rightarrow> ('w, 'd) at_state option" where
  "at_ack E ident status msg params st =
     map_option (\<lambda>(_, c). st\<lparr>at_client := c\<rparr>) (tr50_command_ack E ident status msg params (at_client st))"

definition at_now :: "('w, 'd) env \<Rightarrow> ('w, 'd) at_state \<Rightarrow> int \<times> ('w, 'd) at_state" where
  "at_now E st = (case time_now E (at_client st) of (now, c) \<Rightarrow> (now, st\<lparr>at_client := c\<rparr>))"

text \<open>\<open>_tr50_at_process_run_exec\<close>, a step under \<open>at_run_mux\<close>.  The command that is under way is forgotten after a minute.\<close>

definition at_exec_begin ::
  "('w, 'd) env \<Rightarrow> 'd modem \<Rightarrow> bytes \<Rightarrow> bytes \<Rightarrow> ('w, 'd) at_state \<Rightarrow> ('w, 'd) at_state option" where
  "at_exec_begin E M ident input st =
     (case at_now E st of (now, st) \<Rightarrow>
      let st = st\<lparr>at_mail_id := Some ident, at_mail_timestamp := now\<rparr>
      in if \<not> mo_attach M then
           map_option (\<lambda>st. st\<lparr>at_mail_id := None\<rparr>)
             (at_ack E ident ERR_TR50_AT_ATTACH_FAIL (Some (cstr ''ATDWRunPortAttach failed'')) None st)
         else map_option (\<lambda>_. st\<lparr>at_run_buffer := []\<rparr>) (at_run_exec M input))"

definition at_process_run_exec ::
  "('w, 'd) env \<Rightarrow> 'd modem \<Rightarrow> bytes \<Rightarrow> 'd json option \<Rightarrow> ('w, 'd) at_state \<Rightarrow> (int \<times> ('w, 'd) at_state) option" where
  "at_process_run_exec E M ident params st =
     (case (tr50_json_get_object_item_as_int params (Some (cstr ''timeout'')),
            tr50_json_get_object_item_as_string params (Some (cstr ''input''))) of
        (Some timeout, Some input) \<Rightarrow>
          map_option (\<lambda>st. (0, st))
            (if at_mail_id st \<noteq> None then
               (case at_now E st of (now, st) \<Rightarrow>
                  if now - at_mail_timestamp st < TR50_AT_EXEC_TTL
                  then at_ack E ident ERR_TR50_AT_EXEC_IN_PROGRESS
                         (Some (cstr ''System is still processing the previous command'')) None st
                  else at_exec_begin E M ident input st)
             else at_exec_begin E M ident input st)
      | _ \<Rightarrow> Some (ERR_TR50_PARMS, st))"

text \<open>The output of the command comes in pieces, then the answer goes to the service.  It is sent as a C string.\<close>

definition at_run_recv :: "bytes \<Rightarrow> ('w, 'd) at_state \<Rightarrow> int \<times> ('w, 'd) at_state" where
  "at_run_recv output st = (int (length output), st\<lparr>at_run_buffer := at_run_buffer st @ output\<rparr>)"

definition at_run_send_back :: "('w, 'd) env \<Rightarrow> ('w, 'd) at_state \<Rightarrow> ('w, 'd) at_state option" where
  "at_run_send_back E st =
     (case at_mail_id st of
        None \<Rightarrow> Some st
      | Some ident \<Rightarrow>
          map_option (\<lambda>st. st\<lparr>at_mail_id := None\<rparr>)
            (at_ack E ident 0 None
               (Some (tr50_json_add_string_to_object (en_doubles E) (tr50_json_create_object (en_doubles E)) (Some (cstr ''output''))
                        (Some (takeWhile (\<lambda>b. b \<noteq> 0) (at_run_buffer st))))) st))"

text \<open>\<open>module.diag\<close> and \<open>diag.ping\<close>; \<open>handles\<close> is the count of memory handles of the back end.\<close>

definition at_service_diag :: "('w, 'd) env \<Rightarrow> int \<Rightarrow> bytes \<Rightarrow> ('w, 'd) at_state \<Rightarrow> ('w, 'd) at_state option" where
  "at_service_diag E handles ident st =
     (let F = en_doubles E; c = at_client st;
          add = (\<lambda>params (name, n). tr50_json_add_number_to_object F params (Some (cstr name)) (d_of_int F n))
      in at_ack E ident 0 None
           (Some (foldl add (tr50_json_create_object F)
              [(''memory.handle'', handles),
               (''tr50.byte_recv'', tr50_stats_byte_recv (cl_stats c) (cl_mqtt c)),
               (''tr50.byte_sent'', tr50_stats_byte_sent (cl_stats c) (cl_mqtt c)),
               (''tr50.reconnect_attempt_count'', tr50_stats_reconnect_attempt_count (cl_mqtt c)),
               (''tr50.reconnect_count'', tr50_stats_reconnect_count (cl_mqtt c))])) st)"

definition at_diag_ping :: "('w, 'd) env \<Rightarrow> bytes \<Rightarrow> ('w, 'd) at_state \<Rightarrow> ('w, 'd) at_state option" where
  "at_diag_ping E ident st = at_ack E ident 0 None None st"

subsection \<open>Methods for the host\<close>

text \<open>The parameters of a method, each behind a comma.\<close>

fun method_items :: "'d doubles \<Rightarrow> 'd json list \<Rightarrow> bytes option" where
  "method_items F [] = Some []"
| "method_items F (ptr # ptrs) = do {
     a \<leftarrow> (if jtype ptr \<in> {JSON_FALSE, JSON_TRUE, JSON_NUMBER, JSON_STRING}
           then map_option (\<lambda>t. cstr '','' @ t) (delimited_item F ptr) else Some []);
     b \<leftarrow> method_items F ptrs;
     Some (a @ b) }"

definition at_method_text :: "'d doubles \<Rightarrow> bytes \<Rightarrow> bytes \<Rightarrow> bytes \<Rightarrow> 'd json \<Rightarrow> bytes option" where
  "at_method_text F ident thingdef_key mname method_params =
     map_option (\<lambda>items. ident @ cstr '','' @ thingdef_key @ cstr '','' @ mname @ items)
       (method_items F (jchild method_params))"

text \<open>\<open>_tr50_method_event_execute\<close>: the method is stored under a new number of the client, and the host is rung.\<close>

definition at_method_event ::
  "('w, 'd) env \<Rightarrow> bytes \<Rightarrow> 'd json option \<Rightarrow> ('w, 'd) at_state \<Rightarrow> (int \<times> ('w, 'd) at_state) option" where
  "at_method_event E ident params st =
     (let F = en_doubles E in
      case tr50_api_msg_id_next (at_client st) of
        (mid, c) \<Rightarrow>
          (let st = st\<lparr>at_client := c\<rparr> in
           case (tr50_json_get_object_item_as_string params (Some (cstr ''thingDefKey'')),
                 tr50_json_get_object_item_as_string params (Some (cstr ''method'')),
                 tr50_json_get_object_item params (Some json_params)) of
             (Some thingdef_key, Some mname, Some method_params) \<Rightarrow> do {
               text \<leftarrow> at_method_text F ident thingdef_key mname method_params;
               (ret, len, sto) \<leftarrow> at_storage_put F (At_Method text) TR50_AT_SEND_MODE_METHOD mid (at_sto st);
               (case len of
                  None \<Rightarrow> map_option (\<lambda>st. (ret, st)) (at_ack E ident ret None None st)
                | Some len \<Rightarrow>
                    Some (0, if at_unsol st
                             then st\<lparr>at_sto := sto,
                                    at_rings := at_rings st @ [print_lld TR50_AT_SEND_MODE_METHOD @ cstr '','' @ print_lld mid @
                                      cstr '','' @ print_lld len]\<rparr>
                             else st\<lparr>at_sto := sto\<rparr>)) }
           | _ \<Rightarrow> Some (ERR_TR50_PARMS, st)))"

subsection \<open>Registration of the modem\<close>

definition at_module_params :: "'d doubles \<Rightarrow> 'd modem \<Rightarrow> 'd json" where
  "at_module_params F M =
     (let params = tr50_json_add_string_to_object F (tr50_json_create_object F) (Some (cstr ''make'')) (Some (cstr ''Telit''));
          params = tr50_json_add_string_to_object F params (Some (cstr ''model'')) (Some (mo_model M));
          params = tr50_json_add_string_to_object F params (Some (cstr ''fwVersion'')) (Some (mo_version M))
      in tr50_json_add_item_to_object params (Some (cstr ''remAt''))
           (if at_feature_enabled M 0 then tr50_json_create_true F else tr50_json_create_false F))"

text \<open>Once; also when the request could not be sent.\<close>

definition at_module_register :: "('w, 'd) env \<Rightarrow> 'd modem \<Rightarrow> ('w, 'd) at_state \<Rightarrow> ('w, 'd) at_state option" where
  "at_module_register E M st =
     (if at_connected_once st then Some st
      else do {
        (m, c) \<leftarrow> at_command_message E (Some (cstr ''module.register'')) (at_module_params (en_doubles E) M) (at_client st);
        (ret, c) \<leftarrow> tr50_api_call E m c;
        c \<leftarrow> (if ret \<noteq> 0 then map_option snd (tr50_message_delete m c) else Some c);
        Some (st\<lparr>at_connected_once := True, at_client := c\<rparr>) })"

definition at_state_change_handler ::
  "('w, 'd) env \<Rightarrow> 'd modem \<Rightarrow> int \<Rightarrow> int \<Rightarrow> ('w, 'd) at_state \<Rightarrow> ('w, 'd) at_state option" where
  "at_state_change_handler E M prev cur st =
     (if prev = STATE_CONNECTING \<and> cur = STATE_CONNECTED then at_module_register E M st
      else if prev = STATE_RECONNECTING \<and> cur = STATE_CONNECTED then at_module_register E M st
      else Some st)"

definition at_init :: "('w, 'd) env \<Rightarrow> bool \<Rightarrow> 'w \<Rightarrow> (int \<times> ('w, 'd) at_state) option" where
  "at_init E unsol w = do {
     r \<leftarrow> tr50_create E (Some (cstr ''AT Wrapper'')) (Some (cstr ''demo.deviceiwse.com'')) 1883 w;
     c \<leftarrow> (case r of Inl _ \<Rightarrow> None | Inr c \<Rightarrow> Some c);
     let c = at_config_set (\<lambda>cf. tr50_config_set_state_change_handler cf (Some AT_STATE_CHANGE) 0) c;
     (_, c) \<leftarrow> tr50_command_register (cstr ''module.exec'') AT_MODULE_EXEC E c;
     (_, c) \<leftarrow> tr50_command_register (cstr ''module.diag'') AT_MODULE_DIAG E c;
     (_, c) \<leftarrow> tr50_command_register (cstr ''diag.ping'') AT_DIAG_PING E c;
     (_, c) \<leftarrow> tr50_command_register (cstr ''method.exec'') AT_METHOD_EXEC E c;
     Some (0, \<lparr>at_client = c, at_unsol = unsol, at_rings = [], at_run_buffer = [], at_connected_once = False, at_mail_id = None,
               at_mail_timestamp = 0, at_sto = at_storage_new\<rparr>) }"

subsection \<open>The dispatch of a command line\<close>

text \<open>What a command line may need of the world: the parameters of \<open>tr50_start2\<close>, and what happens while the wrapper waits.\<close>

record ('w, 'd) at_world =
  aw_mux :: int
  aw_thread :: int
  aw_ending :: "('w, 'd) tr50 \<Rightarrow> ('w, 'd) tr50"
  aw_await :: "('w, 'd) tr50 \<Rightarrow> int \<times> ('w, 'd) tr50"

type_synonym ('w, 'd) at_command = "at_token \<Rightarrow> ('w, 'd) at_state \<Rightarrow> (int \<times> bytes \<times> ('w, 'd) at_state) option"

definition not_supported :: "('w, 'd) at_command" where
  "not_supported token st = Some (ERR_AT_CMD_NOT_SUPPORTED, [], st)"

text \<open>With \<open>=\<close> behind the name.\<close>

definition with_equals :: "('w, 'd) at_command \<Rightarrow> ('w, 'd) at_command" where
  "with_equals cmd token st =
     (case at_token_continue_with (cstr ''='') token of
        (True, token) \<Rightarrow> cmd token st
      | (False, token) \<Rightarrow> not_supported token st)"

definition when_ended :: "('w, 'd) at_command \<Rightarrow> ('w, 'd) at_command" where
  "when_ended cmd token st = (if at_token_has_ended token then cmd token st else not_supported token st)"

text \<open>The names in the order in which they are tried, whether the text is data, and the command.\<close>

definition at_commands ::
  "('w, 'd) env \<Rightarrow> 'd modem \<Rightarrow> ('w, 'd) at_world \<Rightarrow> (string \<times> bool \<times> ('w, 'd) at_command) list" where
  "at_commands E M W =
     [(''AT#DWCONN'', False, \<lambda>token st.
         (case at_token_continue_with (cstr ''?'') token of
            (True, _) \<Rightarrow> at_dwconn_get st
          | (False, token) \<Rightarrow> with_equals (at_dwconn_set E M (aw_ending W) (aw_mux W) (aw_thread W)) token st)),
      (''AT#DWSENDR'', False, with_equals (at_dwsendr_set E)),
      (''AT#DWSEND'', False, with_equals (at_dwsend_set E M)),
      (''AT#DWLRCV'', False, when_ended (\<lambda>_. at_dwlrcv_get)),
      (''AT#DWRCVR'', True, with_equals at_dwrcvr_set),
      (''AT#DWRCV'', True, with_equals at_dwrcv_set),
      (''AT#DWSTATUS'', False, when_ended (\<lambda>_. at_dwstatus_get E (aw_await W)))]"

text \<open>\<open>is_data\<close> is set only behind an equals sign.\<close>

fun at_dispatch ::
  "(string \<times> bool \<times> ('w, 'd) at_command) list \<Rightarrow> at_token \<Rightarrow> ('w, 'd) at_state \<Rightarrow>
   (bool \<times> int \<times> bytes \<times> ('w, 'd) at_state) option" where
  "at_dispatch [] token st = Some (False, ERR_AT_CMD_NOT_SUPPORTED, [], st)"
| "at_dispatch ((name, is_data, cmd) # cmds) token st =
     (case at_token_continue_with (cstr name) token of
        (False, token) \<Rightarrow> at_dispatch cmds token st
      | (True, token) \<Rightarrow>
          map_option (\<lambda>r. (is_data \<and> fst (at_token_continue_with (cstr ''='') token), r)) (cmd token st))"

text \<open>The code, the text of \<open>at_output\<close> and that of \<open>data\<close>, None for NULL; the line is tokenized with two allocations, whose
  outcome is not looked at.\<close>

definition tr50_at_process ::
  "('w, 'd) env \<Rightarrow> 'd modem \<Rightarrow> ('w, 'd) at_world \<Rightarrow> malloc \<Rightarrow> malloc \<Rightarrow> bytes \<Rightarrow> ('w, 'd) at_state \<Rightarrow>
   (int \<times> bytes option \<times> bytes option \<times> ('w, 'd) at_state) option" where
  "tr50_at_process E M W m1 m2 at_input st =
     (case at_token_create m1 m2 at_input of
        Inl _ \<Rightarrow> None
      | Inr token \<Rightarrow> do {
          (is_data, ret, out, st) \<leftarrow> at_dispatch (at_commands E M W) token st;
          Some (if is_data then if out \<noteq> [] then (ret, None, Some out, st) else (-1, None, None, st)
                else (ret, if out \<noteq> [] then Some out else None, None, st)) })"

end
