(* ===== verification/He910_At_Props.thy ===== *)
theory He910_At_Props
  imports He910_At_Token_Props He910_At_Main Tr50_Client_Props
begin

section \<open>What the AT commands promise\<close>

subsection \<open>Commands for the modem\<close>

text \<open>What the modem took of the pieces it was given.\<close>

definition taken :: "(bytes \<Rightarrow> int) \<Rightarrow> bytes list \<Rightarrow> bytes" where
  "taken execute calls = concat (map (\<lambda>piece. take (nat (execute piece)) piece) calls)"

lemma run_exec_taken:
  assumes "\<forall>piece. piece \<noteq> [] \<longrightarrow> 0 < execute piece \<and> execute piece \<le> int (length piece)"
  shows "\<exists>pieces. run_exec_loop execute rest calls = Some (calls @ pieces) \<and>
      (taken execute pieces = rest \<or> rest \<noteq> [] \<and> taken execute pieces = rest @ [0x0D])"
  using assms
proof (induction execute rest calls rule: run_exec_loop.induct)
  case (1 execute rest calls)
  show ?case
  proof (cases "rest = []")
    case True
    then show ?thesis by (subst run_exec_loop.simps) (simp add: taken_def)
  next
    case False
    let ?piece = "rest @ [0x0D]"
    let ?n = "nat (execute ?piece)"
    have n: "0 < execute ?piece" "?n \<le> length rest + 1" using 1(2) [rule_format, of ?piece] by auto
    obtain pieces where p: "run_exec_loop execute (drop ?n rest) (calls @ [?piece]) = Some ((calls @ [?piece]) @ pieces)"
      "taken execute pieces = drop ?n rest \<or> drop ?n rest \<noteq> [] \<and> taken execute pieces = drop ?n rest @ [0x0D]"
      using "1.IH" [OF False HOL.refl] n(1) 1(2) by auto
    have t: "taken execute (?piece # pieces) = take ?n ?piece @ taken execute pieces" by (simp add: taken_def)
    have "taken execute (?piece # pieces) = rest \<or> taken execute (?piece # pieces) = rest @ [0x0D]"
    proof (cases "?n \<le> length rest")
      case True
      then have "take ?n ?piece = take ?n rest" by simp
      then show ?thesis using t p(2) by auto
    next
      case False
      then have "?n = length rest + 1" using n(2) by simp
      then show ?thesis using t p(2) by simp
    qed
    then show ?thesis using p(1) False n(1)
      by (intro exI [of _ "?piece # pieces"], subst run_exec_loop.simps) (simp add: not_le)
  qed
qed

text \<open>C37: a command that the service sends reaches the modem whole.  If the modem takes something of every piece it is given
  and never more than that, the loop ends, and what the modem took, put together, is the command followed by the carriage
  return that starts it, or the command alone: the loop counts the bytes of the command only, so a modem that stops in front of the
  carriage return never gets it.  A modem that takes whole pieces gets the command and its end in one piece.\<close>

theorem module_exec_delivers:
  assumes "\<forall>piece. piece \<noteq> [] \<longrightarrow> 0 < mo_execute M piece \<and> mo_execute M piece \<le> int (length piece)"
  shows "\<exists>pieces. at_run_exec M input = Some pieces \<and>
           (taken (mo_execute M) pieces = input \<or> taken (mo_execute M) pieces = input @ [0x0D]) \<and>
           (input \<noteq> [] \<and> mo_execute M (input @ [0x0D]) = int (length input) + 1 \<longrightarrow> pieces = [input @ [0x0D]])"
proof -
  obtain pieces where p: "run_exec_loop (mo_execute M) input [] = Some pieces"
    "taken (mo_execute M) pieces = input \<or> taken (mo_execute M) pieces = input @ [0x0D]"
    using run_exec_taken [OF assms, of input "[]"] by auto
  moreover have "pieces = [input @ [0x0D]]" if "input \<noteq> []" "mo_execute M (input @ [0x0D]) = int (length input) + 1"
  proof -
    have "run_exec_loop (mo_execute M) input [] = Some [input @ [0x0D]]"
      using that by (subst run_exec_loop.simps, subst run_exec_loop.simps) (simp add: nat_add_distrib)
    then show ?thesis using p(1) by simp
  qed
  ultimately show ?thesis by (auto simp: at_run_exec_def)
qed

text \<open>A modem that takes two bytes of every piece it can, of a command of four bytes.\<close>

definition two_at_a_time :: "int modem" where
  "two_at_a_time = \<lparr>nv_url = None, nv_dev_id_selector = None, nv_app_token = None, nv_security = None, nv_heart_beat = None,
     nv_auto_reconn = None, nv_features = None, mo_imei = [], mo_iccid = [], mo_iccid_valid = False, mo_model = [],
     mo_version = [], mo_attach = True, mo_execute = (\<lambda>piece. if length piece < 2 then int (length piece) else 2),
     mo_atof = (\<lambda>_. 0)\<rparr>"

theorem module_exec_delivers_witness:
  "\<exists>pieces. at_run_exec two_at_a_time [0x41, 0x54, 0x2B, 0x47] = Some pieces \<and>
     taken (mo_execute two_at_a_time) pieces = [0x41, 0x54, 0x2B, 0x47]"
proof -
  have "\<forall>piece. piece \<noteq> [] \<longrightarrow> 0 < mo_execute two_at_a_time piece \<and> mo_execute two_at_a_time piece \<le> int (length piece)"
    by (auto simp: two_at_a_time_def)
  then obtain pieces where p: "at_run_exec two_at_a_time [0x41, 0x54, 0x2B, 0x47] = Some pieces"
    using module_exec_delivers [of two_at_a_time "[0x41, 0x54, 0x2B, 0x47]"] by blast
  then have "taken (mo_execute two_at_a_time) pieces = [0x41, 0x54, 0x2B, 0x47]"
    by (auto simp: at_run_exec_def two_at_a_time_def run_exec_loop.simps taken_def)
  then show ?thesis using p by blast
qed

subsection \<open>Matching the names\<close>

lemma dispatch_dwrcv:
  assumes "at_token_create m1 m2 (cstr ''AT#DWRCV='' @ s) = Inr token"
  shows "at_dispatch (at_commands E M W) token st =
    map_option (\<lambda>r. (True, r)) (at_dwrcv_set (token\<lparr>at_walker := length (cstr ''AT#DWRCV='')\<rparr>) st)"
  using at_token_create_token [OF assms]
  by (simp add: at_commands_def at_token_continue_with_def with_equals_def cstr_def)

lemma dispatch_dwrcvr:
  assumes "at_token_create m1 m2 (cstr ''AT#DWRCVR='' @ s) = Inr token"
  shows "at_dispatch (at_commands E M W) token st =
    map_option (\<lambda>r. (True, r)) (at_dwrcvr_set (token\<lparr>at_walker := length (cstr ''AT#DWRCVR='')\<rparr>) st)"
  using at_token_create_token [OF assms]
  by (simp add: at_commands_def at_token_continue_with_def with_equals_def cstr_def)

lemma dispatch_dwsend:
  assumes "at_token_create m1 m2 (cstr ''AT#DWSEND='' @ s) = Inr token"
  shows "at_dispatch (at_commands E M W) token st =
    map_option (\<lambda>r. (False, r)) (at_dwsend_set E M (token\<lparr>at_walker := length (cstr ''AT#DWSEND='')\<rparr>) st)"
  using at_token_create_token [OF assms]
  by (simp add: at_commands_def at_token_continue_with_def with_equals_def cstr_def)

subsection \<open>Reading an answer\<close>

lemma print_one: "print_lld 1 = [0x31]"
  by code_simp

definition answer_text :: "int \<Rightarrow> int \<Rightarrow> bytes \<Rightarrow> bytes" where
  "answer_text ident status text =
     print_lld ident @ cstr '','' @ print_lld status @ cstr '','' @ print_lld (int (length text)) @ cstr '','' @ text"

lemma answer_text_not_empty: "answer_text ident status text \<noteq> []"
  by (simp add: answer_text_def cstr_def)

lemma receive_one:
  assumes "at_token_create m1 m2 (cmd @ [0x31]) = Inr token"
  shows "at_receive mode (token\<lparr>at_walker := length cmd\<rparr>) st =
    (case at_storage_get 1 mode (at_sto st) of
       (Inl ret, sto) \<Rightarrow> Some (0, cstr ''Failed : '' @ print_lld ret, st\<lparr>at_sto := sto\<rparr>)
     | (Inr (status, output, output_len), sto) \<Rightarrow>
         Some (0, print_lld 1 @ cstr '','' @ print_lld status @ cstr '','' @ print_lld output_len @ cstr '','' @ output,
               st\<lparr>at_sto := sto\<rparr>))"
proof -
  have ok: "\<forall>a \<in> set [Plain [0x31]]. arg_ok a" by (simp add: text_byte_def quote_def comma_def)
  obtain token' where "tokenized (token\<lparr>at_walker := length cmd\<rparr>) = Some token'" "length (at_params token') = 1"
      "c_string_at (at_string token') (at_params token' ! 0) = [0x31]"
    using tokenized_args [OF ok, of "token\<lparr>at_walker := length cmd\<rparr>" cmd] at_token_create_token [OF assms]
    by (auto simp: AT_TOKEN_PARAM_MAX_def)
  moreover have "c_atoi [0x31] = Some 1"
    by (simp add: c_atoi_def is_space_def is_digit_def digits_value_def digit_val_def int_ok_def)
  ultimately show ?thesis by (cases "at_params token'") (simp_all add: at_receive_def param_at_def)
qed

lemma get_only_entry:
  assumes "at_storage_ok sto" "at_bag sto = add_mset (1, mode, status, str) B" "\<forall>e \<in># B. fst e \<noteq> 1"
    "mode \<noteq> TR50_AT_SEND_MODE_METHOD"
  shows "\<exists>sto'. at_storage_get 1 rmode sto = (Inr (status, str, int (length str)), sto') \<and> at_storage_ok sto' \<and> at_bag sto' = B"
proof -
  obtain r sto' where g: "at_storage_get 1 rmode sto = (r, sto')" by fastforce
  note o = at_storage_get_ok [OF assms(1) g]
  show ?thesis
  proof (cases r)
    case (Inl ret)
    then have "\<not> entry_matches 1 rmode (1, mode, status, str)" using o assms(2) by simp
    then show ?thesis using assms(4) by (simp add: entry_matches_def)
  next
    case (Inr q)
    obtain status' str' len where q: "q = (status', str', len)" by (cases q)
    then obtain m where m: "len = int (length str')" "at_bag sto = add_mset (1, m, status', str') (at_bag sto')"
      using o Inr by auto
    then have "(1, m, status', str') \<in># add_mset (1, mode, status, str) B" using assms(2) by (metis union_single_eq_member)
    then have "(1, m, status', str') = (1, mode, status, str)" using assms(3) by auto
    then show ?thesis using m assms(2) o g Inr q by auto
  qed
qed

text \<open>The two lines that read an answer.\<close>

lemma answer_line:
  assumes "(mode, line) = (TR50_AT_SEND_MODE_DELIMITED, cstr ''AT#DWRCV=1'') \<or>
         (mode, line) = (TR50_AT_SEND_MODE_RAW, cstr ''AT#DWRCVR=1'')"
  shows "\<exists>cmd. line = cmd @ [0x31] \<and> (\<forall>token st. at_token_create malloc_zero malloc_zero line = Inr token \<longrightarrow>
      at_dispatch (at_commands E M W) token st = map_option (\<lambda>r. (True, r)) (at_receive mode (token\<lparr>at_walker := length cmd\<rparr>) st))"
  using assms
proof (elim disjE)
  assume "(mode, line) = (TR50_AT_SEND_MODE_DELIMITED, cstr ''AT#DWRCV=1'')"
  then show ?thesis
      using dispatch_dwrcv [of malloc_zero malloc_zero "[0x31]" _ E M W]
      by (intro exI [of _ "cstr ''AT#DWRCV=''"]) (simp add: cstr_def at_dwrcv_set_def)
next
  assume "(mode, line) = (TR50_AT_SEND_MODE_RAW, cstr ''AT#DWRCVR=1'')"
  then show ?thesis
      using dispatch_dwrcvr [of malloc_zero malloc_zero "[0x31]" _ E M W]
      by (intro exI [of _ "cstr ''AT#DWRCVR=''"]) (simp add: cstr_def at_dwrcvr_set_def)
qed


definition at_demo_reply :: "rat message" where
  "at_demo_reply = (message_new rat_doubles)\<lparr>is_reply := True, msg_json :=
     tr50_json_add_item_to_object (tr50_json_create_object rat_doubles) (Some (cstr ''1''))
       (tr50_json_add_item_to_object
          (tr50_json_add_item_to_object (tr50_json_create_object rat_doubles) (Some json_success) (tr50_json_create_true rat_doubles))
          (Some json_params)
          (tr50_json_add_string_to_object rat_doubles (tr50_json_create_object rat_doubles) (Some (cstr ''a'')) (Some (cstr ''b''))))\<rparr>"

definition demo_at :: "(bytes, rat) at_state" where
  "demo_at = \<lparr>at_client = client_new [], at_unsol = True, at_rings = [], at_run_buffer = [], at_connected_once = False,
     at_mail_id = None, at_mail_timestamp = 0, at_sto = at_storage_new\<rparr>"

lemma at_demo_text: "storage_text rat_doubles (At_Reply at_demo_reply) 1 = Some (Inr (0, cstr ''a,b''))"
  by code_simp


subsection \<open>The report of an update\<close>

text \<open>An update that the client has taken is reported as failed.\<close>

lemma at_update_says_failed:
  assumes "arg_ok ident" "arg_ok msg"
    and "tr50_at_process E M W malloc_zero malloc_zero (cstr ''AT#DWSEND='' @ args_text [Plain [0x32], ident, msg]) st =
           Some (ret, out, data, st')"
  shows "ret = 0 \<and> out = Some (cstr ''Failed: 0'')"
proof -
  let ?as = "[Plain [0x32], ident, msg]" and ?cmd = "cstr ''AT#DWSEND=''"
  have ok: "\<forall>a \<in> set ?as. arg_ok a" using assms(1,2) by (simp add: text_byte_def quote_def comma_def)
  obtain token where t: "at_token_create malloc_zero malloc_zero (?cmd @ args_text ?as) = Inr token"
    by (auto simp: at_token_create_def malloc_zero_def cstr_def)
  obtain token' where r: "tokenized (token\<lparr>at_walker := length ?cmd\<rparr>) = Some token'" "length (at_params token') = length ?as"
      "\<forall>i < length ?as. c_string_at (at_string token') (at_params token' ! i) = arg_value (?as ! i)"
    using tokenized_args [OF ok, of "token\<lparr>at_walker := length ?cmd\<rparr>" ?cmd] at_token_create_token [OF t]
    by (auto simp: AT_TOKEN_PARAM_MAX_def)
  have "param_at token' 0 = Some [0x32]" "param_at token' 1 = Some (arg_value ident)" "param_at token' 2 = Some (arg_value msg)"
    using r(2,3) by (auto simp: param_at_def)
  then have d: "at_dwsend_set E M (token\<lparr>at_walker := length ?cmd\<rparr>) st = at_dwsend_update E token' st"
    and u: "at_dwsend_update E token' st = Option.bind (tr50_command_update E (arg_value ident) (Some (arg_value msg)) (at_client st))
      (\<lambda>(ret, c). Some (ret, at_report ret, st\<lparr>at_client := c\<rparr>))"
    using r(1) by (simp_all add: at_dwsend_set_def at_dwsend_update_def first_byte_def)
  obtain c where "tr50_command_update E (arg_value ident) (Some (arg_value msg)) (at_client st) = Some (0, c)"
    using assms(3) t dispatch_dwsend [OF t, of E M W st] d u
    by (auto simp: tr50_at_process_def tr50_command_update_def Option.bind_eq_Some_conv)
  then show ?thesis
    using assms(3) t dispatch_dwsend [OF t, of E M W st] d u
    by (simp add: tr50_at_process_def at_report_def failed_with_def cstr_def print_lld_def nat_digits.simps)
qed

subsection \<open>Bags\<close>

theorem at_storage_bag_witness:
  "\<exists>sto sto'. at_storage_put rat_doubles (At_Reply at_demo_reply) 1 1 at_storage_new = Some (0, Some 3, sto) \<and>
     at_bag sto = {# (1, 1, 0, cstr ''a,b'') #} \<and> (\<exists>r. at_storage_get 2 1 sto = (Inl r, sto') \<and> at_bag sto' = at_bag sto)"
proof -
  have n: "at_storage_ok at_storage_new" "at_bag at_storage_new = {#}" using at_storage_new_ok by auto
  have f: "first_free (sto_slots at_storage_new) = Some 0" by (simp add: at_storage_new_def TR50_AT_STORAGE_SIZE_def numeral_eq_Suc)
  have c: "\<not> sto_count at_storage_new > int TR50_AT_STORAGE_SIZE" by (simp add: at_storage_new_def)
  have l: "int (length (cstr ''a,b'')) = 3" by simp
  obtain sto where p: "at_storage_put rat_doubles (At_Reply at_demo_reply) 1 1 at_storage_new = Some (0, Some 3, sto)"
    unfolding at_storage_put_def f at_demo_text using c l by simp
  have o: "at_storage_ok sto \<and> at_bag sto = {# (1, 1, 0, cstr ''a,b'') #}"
    using conjunct1 [OF at_storage_bag [OF n(1)], rule_format, OF p] n(2) at_demo_text by simp
  obtain r sto' where g: "at_storage_get 2 1 sto = (r, sto')" by fastforce
  have "case r of Inl ret \<Rightarrow> sto' = sto | Inr _ \<Rightarrow> False"
    using conjunct2 [OF at_storage_bag [OF conjunct1 [OF o]], rule_format, OF g] o
    by (auto simp: entry_matches_def add_eq_conv_ex split: sum.splits)
  then show ?thesis using p o g by (auto split: sum.splits)
qed

subsection \<open>The order of answers\<close>

text \<open>Every answer has the number 1, and a get takes the first slot: an answer that comes later can be read first.\<close>

lemma later_answer_first:
  assumes "storage_text F a 1 = Some (Inr (sa, ta))" "storage_text F b 1 = Some (Inr (sb, tb))"
    "storage_text F c 1 = Some (Inr (sc, tc))"
  shows "\<exists>s1 s2 s3 s4 s5. at_storage_put F a 1 1 at_storage_new = Some (0, Some (int (length ta)), s1) \<and>
    at_storage_put F b 1 1 s1 = Some (0, Some (int (length tb)), s2) \<and>
    at_storage_get 1 1 s2 = (Inr (sa, ta, int (length ta)), s3) \<and>
    at_storage_put F c 1 1 s3 = Some (0, Some (int (length tc)), s4) \<and>
    at_storage_get 1 1 s4 = (Inr (sc, tc, int (length tc)), s5)"
  using assms
  by (simp add: at_storage_put_def at_storage_get_def at_storage_new_def TR50_AT_STORAGE_SIZE_def numeral_eq_Suc slot_matches_def
      at_modes)

end
