(* ===== verification/C_Time.thy ===== *)
theory C_Time
  imports Tr50_Json_Text
begin

section \<open>Time functions of the C library\<close>

text \<open>
  What the source uses of \<open>time.h\<close>: broken-down times of the Gregorian calendar, in Greenwich and in a time zone, back
  to seconds, and as text.  Years, months and days are those of the calendar without end, before and after 1970.
\<close>

subsection \<open>Broken-down times\<close>

text \<open>\<open>struct tm\<close>: the year counts from 1900, the month from 0.\<close>

record tm =
  tm_sec :: int
  tm_min :: int
  tm_hour :: int
  tm_mday :: int
  tm_mon :: int
  tm_year :: int
  tm_wday :: int
  tm_yday :: int
  tm_isdst :: int

definition leap_year :: "int \<Rightarrow> bool" where
  "leap_year y \<longleftrightarrow> 4 dvd y \<and> (\<not> 100 dvd y \<or> 400 dvd y)"

definition month_lengths :: "int \<Rightarrow> int list" where
  "month_lengths y = [31, if leap_year y then 29 else 28, 31, 30, 31, 30, 31, 31, 30, 31, 30, 31]"

text \<open>The days from 1970 to a year, as POSIX counts them.\<close>

definition days_to_year :: "int \<Rightarrow> int" where
  "days_to_year y = 365 * (y - 1970) + (y - 1969) div 4 - (y - 1901) div 100 + (y - 1601) div 400"

definition days_to_month :: "int \<Rightarrow> int \<Rightarrow> int" where
  "days_to_month y m = sum_list (take (nat m) (month_lengths y))"

lemma month_lengths_sum: "sum_list (month_lengths y) = (if leap_year y then 366 else 365)"
  by (simp add: month_lengths_def)

lemma month_lengths_length [simp]: "length (month_lengths y) = 12"
  by (simp add: month_lengths_def)

lemma month_lengths_pos: "l \<in> set (month_lengths y) \<Longrightarrow> 0 < l"
  by (auto simp: month_lengths_def split: if_splits)

lemma mixed_radix:
  fixes d s k :: int
  assumes "0 \<le> s" "s < k"
  shows "(d * k + s) div k = d" "(d * k + s) mod k = s"
  using assms by auto

lemma div_step:
  fixes a k :: int
  assumes "0 < k"
  shows "(a + 1) div k = a div k + (if k dvd a + 1 then 1 else 0)"
proof (cases "a mod k + 1 = k")
  case True
  then have "a + 1 = (a div k + 1) * k" using div_mult_mod_eq [of a k] by (simp only: distrib_right mult_1_left)
  then show ?thesis using assms by (simp only: dvd_triv_right if_True) simp
next
  case False
  then have r: "0 \<le> a mod k + 1" "a mod k + 1 < k"
    using assms pos_mod_sign [of k a] pos_mod_bound [of k a] by linarith+
  have "a div k * k + (a mod k + 1) = a + 1" using div_mult_mod_eq [of a k] by linarith
  from mixed_radix [OF r, of "a div k", unfolded this]
  have d: "(a + 1) div k = a div k" "(a + 1) mod k = a mod k + 1" by simp_all
  moreover have "\<not> k dvd a + 1" using pos_mod_sign [OF assms, of a] unfolding dvd_eq_mod_eq_0 d by linarith
  ultimately show ?thesis by (simp only: if_False add_0_right)
qed

lemma dvd_minus_iff_dvd:
  fixes a c k :: int
  assumes "k dvd c"
  shows "k dvd a - c \<longleftrightarrow> k dvd a"
  using dvd_diff [of k a c] dvd_add [of k "a - c" c] assms by auto

lemma days_to_year_Suc: "days_to_year (y + 1) = days_to_year y + (if leap_year y then 366 else 365)"
proof -
  have 4: "(y - 1968) div 4 = (y - 1969) div 4 + (if 4 dvd y - 1968 then 1 else 0)"
    using div_step [of 4 "y - 1969"] by simp
  have 100: "(y - 1900) div 100 = (y - 1901) div 100 + (if 100 dvd y - 1900 then 1 else 0)"
    using div_step [of 100 "y - 1901"] by simp
  have 400: "(y - 1600) div 400 = (y - 1601) div 400 + (if 400 dvd y - 1600 then 1 else 0)"
    using div_step [of 400 "y - 1601"] by simp
  have "4 dvd y - 1968 \<longleftrightarrow> 4 dvd y" "100 dvd y - 1900 \<longleftrightarrow> 100 dvd y" "400 dvd y - 1600 \<longleftrightarrow> 400 dvd y"
    by (rule dvd_minus_iff_dvd, simp)+
  moreover have "100 dvd y" if "400 dvd y" using dvd_trans [OF _ that, of 100] by simp
  moreover have "4 dvd y" if "100 dvd y" using dvd_trans [OF _ that, of 4] by simp
  moreover have "365 * (y + 1 - 1970) = 365 * (y - 1970) + 365" "y + 1 - 1969 = y - 1968" "y + 1 - 1901 = y - 1900"
    "y + 1 - 1601 = y - 1600" by simp_all
  ultimately show ?thesis using 4 100 400 unfolding days_to_year_def leap_year_def by (smt (verit))
qed

lemma days_to_year_less: "days_to_year y < days_to_year (y + 1)"
  by (simp add: days_to_year_Suc)

lemma days_to_year_mono: "a \<le> b \<Longrightarrow> days_to_year a \<le> days_to_year b"
proof (induction b rule: int_ge_induct)
  case (step b)
  then show ?case using days_to_year_less [of b] by simp
qed simp

subsection \<open>From seconds to a date and back\<close>

text \<open>\<open>gmtime\<close>: the year is searched from 1970, the month from January.\<close>

function year_of_day :: "int \<Rightarrow> int \<Rightarrow> int" where
  "year_of_day y d =
     (if d < days_to_year y then year_of_day (y - 1) d
      else if days_to_year (y + 1) \<le> d then year_of_day (y + 1) d
      else y)"
  by pat_completeness auto
termination
proof (relation "measure (\<lambda>(y, d). nat (if d < days_to_year y then days_to_year y - d
      else if days_to_year (y + 1) \<le> d then d - days_to_year (y + 1) + 1 else 0))", goal_cases)
  case (2 y d)
  then show ?case using days_to_year_less [of "y - 1"] by auto
next
  case (3 y d)
  then show ?case using days_to_year_less [of "y + 1"] by auto
qed simp

declare year_of_day.simps [simp del]

fun month_of_day :: "int list \<Rightarrow> int \<Rightarrow> int \<Rightarrow> int \<times> int" where
  "month_of_day (l # ls) m d = (if d < l then (m, d) else month_of_day ls (m + 1) (d - l))"
| "month_of_day [] m d = (m, d)"

definition gm_time :: "int \<Rightarrow> tm" where
  "gm_time t =
     (let d = t div 86400; s = t mod 86400; y = year_of_day 1970 d; yd = d - days_to_year y;
          (m, md) = month_of_day (month_lengths y) 0 yd
      in \<lparr>tm_sec = s mod 60, tm_min = s div 60 mod 60, tm_hour = s div 3600, tm_mday = md + 1, tm_mon = m,
          tm_year = y - 1900, tm_wday = (d + 4) mod 7, tm_yday = yd, tm_isdst = 0\<rparr>)"

text \<open>The seconds of a broken-down time, whose month may be out of its range (\<open>timegm\<close>).\<close>

definition tm_seconds :: "tm \<Rightarrow> int" where
  "tm_seconds tim =
     (let y = tm_year tim + 1900 + tm_mon tim div 12
      in (days_to_year y + days_to_month y (tm_mon tim mod 12) + tm_mday tim - 1) * 86400
         + tm_hour tim * 3600 + tm_min tim * 60 + tm_sec tim)"

text \<open>The fields of a time, without those \<open>mktime\<close> does not read.\<close>

definition same_time :: "tm \<Rightarrow> tm \<Rightarrow> bool" where
  "same_time a b \<longleftrightarrow> tm_sec a = tm_sec b \<and> tm_min a = tm_min b \<and> tm_hour a = tm_hour b \<and>
     tm_mday a = tm_mday b \<and> tm_mon a = tm_mon b \<and> tm_year a = tm_year b"

definition valid_time :: "tm \<Rightarrow> bool" where
  "valid_time tim \<longleftrightarrow> 0 \<le> tm_sec tim \<and> tm_sec tim < 60 \<and> 0 \<le> tm_min tim \<and> tm_min tim < 60 \<and>
     0 \<le> tm_hour tim \<and> tm_hour tim < 24 \<and> 0 \<le> tm_mon tim \<and> tm_mon tim < 12 \<and> 1 \<le> tm_mday tim \<and>
     tm_mday tim \<le> month_lengths (tm_year tim + 1900) ! nat (tm_mon tim)"

lemma year_of_day_bounds: "days_to_year (year_of_day y d) \<le> d \<and> d < days_to_year (year_of_day y d + 1)"
proof (induction y d rule: year_of_day.induct)
  case (1 y d)
  then show ?case by (subst (1 2) year_of_day.simps) auto
qed

lemma year_of_day_unique:
  assumes "days_to_year y \<le> d" "d < days_to_year (y + 1)"
  shows "year_of_day a d = y"
proof -
  note b = year_of_day_bounds [of a d]
  have "\<not> year_of_day a d + 1 \<le> y" using days_to_year_mono [of "year_of_day a d + 1" y] assms b by auto
  moreover have "\<not> y + 1 \<le> year_of_day a d" using days_to_year_mono [of "y + 1" "year_of_day a d"] assms b by auto
  ultimately show ?thesis by linarith
qed

lemma month_of_day_sum:
  assumes "month_of_day ls m d = (m', d')" "0 \<le> d" "d < sum_list ls"
  shows "m \<le> m' \<and> m' < m + int (length ls) \<and> 0 \<le> d' \<and> d' < ls ! nat (m' - m) \<and> d = sum_list (take (nat (m' - m)) ls) + d'"
  using assms
proof (induction ls m d rule: month_of_day.induct)
  case (1 l ls m d)
  show ?case
  proof (cases "d < l")
    case True
    then show ?thesis using "1.prems" by auto
  next
    case False
    with "1.IH" [OF False] "1.prems" have h: "m + 1 \<le> m' \<and> m' < m + 1 + int (length ls) \<and> 0 \<le> d' \<and>
        d' < ls ! nat (m' - (m + 1)) \<and> d - l = sum_list (take (nat (m' - (m + 1))) ls) + d'" by simp
    moreover have "nat (m' - m) = Suc (nat (m' - (m + 1)))" using h by linarith
    ultimately show ?thesis by simp
  qed
qed simp

lemma month_of_day_unique:
  assumes "0 \<le> d" "k < length ls" "d < ls ! k" "\<And>l. l \<in> set ls \<Longrightarrow> 0 < l"
  shows "month_of_day ls m (sum_list (take k ls) + d) = (m + int k, d)"
  using assms
proof (induction ls arbitrary: m k)
  case (Cons l ls)
  show ?case
  proof (cases k)
    case (Suc j)
    have "0 \<le> sum_list (take j ls)"
      using Cons.prems(4) by (intro sum_list_nonneg) (meson in_set_takeD less_le list.set_intros(2))
    then show ?thesis using Cons.IH [of j "m + 1"] Cons.prems Suc by auto
  qed (use Cons.prems in auto)
qed simp

lemma clock_split:
  fixes s :: int
  shows "s div 3600 * 3600 + s div 60 mod 60 * 60 + s mod 60 = s"
proof -
  have "s div 3600 = s div 60 div 60" by (simp add: zdiv_zmult2_eq [of 60 s 60, simplified])
  then show ?thesis using div_mult_mod_eq [of s 60] div_mult_mod_eq [of "s div 60" 60] by linarith
qed

lemma clock_fields:
  fixes h m s :: int
  assumes s: "0 \<le> s" "s < 60" and m: "0 \<le> m" "m < 60"
  shows "(h * 3600 + m * 60 + s) div 3600 = h" "(h * 3600 + m * 60 + s) div 60 mod 60 = m" "(h * 3600 + m * 60 + s) mod 60 = s"
proof -
  have e: "h * 3600 + m * 60 + s = (h * 60 + m) * 60 + s" by simp
  have 60: "(h * 3600 + m * 60 + s) div 60 = h * 60 + m" unfolding e by (rule mixed_radix [OF s])
  show "(h * 3600 + m * 60 + s) div 60 mod 60 = m" unfolding 60 by (rule mixed_radix [OF m])
  show "(h * 3600 + m * 60 + s) mod 60 = s" unfolding e by (rule mixed_radix [OF s])
  have "(h * 3600 + m * 60 + s) div 3600 = (h * 60 + m) div 60"
    using 60 zdiv_zmult2_eq [of 60 "h * 3600 + m * 60 + s" 60] by simp
  then show "(h * 3600 + m * 60 + s) div 3600 = h" using mixed_radix [OF m, of h] by simp
qed

text \<open>The calendar gives back the seconds it was given.\<close>

lemma gm_time_valid: "valid_time (gm_time t)" and tm_seconds_gm_time: "tm_seconds (gm_time t) = t"
proof -
  let ?d = "t div 86400" and ?s = "t mod 86400"
  let ?y = "year_of_day 1970 ?d"
  obtain m md where m: "month_of_day (month_lengths ?y) 0 (?d - days_to_year ?y) = (m, md)" by fastforce
  have "0 \<le> ?d - days_to_year ?y" "?d - days_to_year ?y < sum_list (month_lengths ?y)"
    using year_of_day_bounds [of 1970 ?d] days_to_year_Suc [of ?y] by (auto simp: month_lengths_sum)
  from month_of_day_sum [OF m this]
  have b: "0 \<le> m" "m < 12" "0 \<le> md" "md < month_lengths ?y ! nat m"
    "?d - days_to_year ?y = sum_list (take (nat m) (month_lengths ?y)) + md" by auto
  have s: "0 \<le> ?s" "?s < 86400" by auto
  have f: "gm_time t = \<lparr>tm_sec = ?s mod 60, tm_min = ?s div 60 mod 60, tm_hour = ?s div 3600, tm_mday = md + 1, tm_mon = m,
      tm_year = ?y - 1900, tm_wday = (?d + 4) mod 7, tm_yday = ?d - days_to_year ?y, tm_isdst = 0\<rparr>"
    by (simp only: gm_time_def m Let_def prod.case)
  have m12: "m div 12 = 0" "m mod 12 = m" using b(1,2) by auto
  have "tm_seconds (gm_time t) =
      (days_to_year ?y + days_to_month ?y m + md) * 86400 + (?s div 3600 * 3600 + ?s div 60 mod 60 * 60 + ?s mod 60)"
    by (simp only: f tm_seconds_def Let_def tm.simps m12) simp
  also have "days_to_year ?y + days_to_month ?y m + md = ?d" unfolding days_to_month_def using b(5) by linarith
  also note clock_split [of ?s]
  finally show "tm_seconds (gm_time t) = t" using div_mult_mod_eq [of t 86400] by (simp only:)
  have "?s div 3600 < 24" "0 \<le> ?s div 3600" using s div_mult_mod_eq [of ?s 3600] pos_mod_sign [of 3600 ?s] pos_mod_bound [of 3600 ?s] by linarith+
  then show "valid_time (gm_time t)" using b(1-4) by (simp add: f valid_time_def del: div_mult_mod_eq)
qed

lemma gm_time_year:
  assumes "days_to_year a * 86400 \<le> t" "t < days_to_year (b + 1) * 86400"
  shows "a \<le> tm_year (gm_time t) + 1900" "tm_year (gm_time t) + 1900 \<le> b"
proof -
  let ?y = "year_of_day 1970 (t div 86400)"
  note y = year_of_day_bounds [of 1970 "t div 86400"]
  have d: "days_to_year a \<le> t div 86400" "t div 86400 < days_to_year (b + 1)"
    using assms div_mult_mod_eq [of t 86400] pos_mod_sign [of 86400 t] pos_mod_bound [of 86400 t] by linarith+
  have "\<not> ?y + 1 \<le> a" using days_to_year_mono [of "?y + 1" a] d(1) y by linarith
  moreover have "\<not> b + 1 \<le> ?y" using days_to_year_mono [of "b + 1" ?y] d(2) y by linarith
  moreover have "tm_year (gm_time t) + 1900 = ?y" by (simp add: gm_time_def Let_def split: prod.split)
  ultimately show "a \<le> tm_year (gm_time t) + 1900" "tm_year (gm_time t) + 1900 \<le> b" by linarith+
qed

lemma gm_time_tm_seconds:
  assumes "valid_time tim"
  shows "same_time (gm_time (tm_seconds tim)) tim"
proof -
  let ?y = "tm_year tim + 1900" and ?ls = "month_lengths (tm_year tim + 1900)"
  let ?yd = "days_to_month ?y (tm_mon tim) + (tm_mday tim - 1)"
  let ?s = "tm_hour tim * 3600 + tm_min tim * 60 + tm_sec tim"
  have v: "0 \<le> tm_mon tim" "tm_mon tim < 12" "0 \<le> tm_mday tim - 1" "tm_mday tim - 1 < ?ls ! nat (tm_mon tim)"
    "0 \<le> tm_sec tim" "tm_sec tim < 60" "0 \<le> tm_min tim" "tm_min tim < 60" "0 \<le> tm_hour tim" "tm_hour tim < 24"
    using assms by (auto simp: valid_time_def)
  have t: "tm_seconds tim = (days_to_year ?y + ?yd) * 86400 + ?s"
    using v by (simp add: tm_seconds_def Let_def algebra_simps)
  have s: "0 \<le> ?s" "?s < 86400" using v by auto
  have d: "tm_seconds tim div 86400 = days_to_year ?y + ?yd" "tm_seconds tim mod 86400 = ?s"
    using mixed_radix [OF s] by (simp_all only: t)
  have k: "month_of_day ?ls 0 ?yd = (tm_mon tim, tm_mday tim - 1)"
    using month_of_day_unique [of "tm_mday tim - 1" "nat (tm_mon tim)" ?ls 0] v month_lengths_pos
    by (auto simp: days_to_month_def)
  have "0 \<le> days_to_month ?y (tm_mon tim)"
    unfolding days_to_month_def using month_lengths_pos by (intro sum_list_nonneg) (meson in_set_takeD less_le)
  moreover have "days_to_month ?y (tm_mon tim) + ?ls ! nat (tm_mon tim) \<le> sum_list ?ls"
  proof -
    have "sum_list ?ls = sum_list (take (nat (tm_mon tim)) ?ls) + sum_list (drop (nat (tm_mon tim)) ?ls)"
      by (metis append_take_drop_id sum_list.append)
    moreover have "drop (nat (tm_mon tim)) ?ls = ?ls ! nat (tm_mon tim) # drop (Suc (nat (tm_mon tim))) ?ls"
      using v by (intro Cons_nth_drop_Suc [symmetric]) auto
    moreover have "0 \<le> sum_list (drop (Suc (nat (tm_mon tim))) ?ls)"
      using month_lengths_pos by (intro sum_list_nonneg) (meson in_set_dropD less_le)
    ultimately show ?thesis by (simp add: days_to_month_def)
  qed
  ultimately have y: "year_of_day 1970 (days_to_year ?y + ?yd) = ?y"
    using v days_to_year_Suc [of ?y] by (intro year_of_day_unique) (auto simp: month_lengths_sum)
  show ?thesis using clock_fields [OF v(5,6,7,8)] by (simp add: gm_time_def d y k same_time_def Let_def)
qed

subsection \<open>Time zones\<close>

text \<open>
  \<open>zn_east\<close>: the seconds east of Greenwich at a time; \<open>zn_local\<close>: those \<open>mktime\<close> takes for a local time whose
  \<open>tm_isdst\<close> is negative; \<open>zn_dst\<close>: what \<open>localtime\<close> says of summer time.  A local time that is passed over or comes twice when the clock is set is the system's choice.
\<close>

record zone =
  zn_east :: "int \<Rightarrow> int"
  zn_local :: "int \<Rightarrow> int"
  zn_dst :: "int \<Rightarrow> int"

definition local_time :: "zone \<Rightarrow> int \<Rightarrow> tm" where
  "local_time Z t = (gm_time (t + zn_east Z t))\<lparr>tm_isdst := zn_dst Z t\<rparr>"

text \<open>\<open>mktime\<close> answers the time and writes its fields back.\<close>

definition mk_time :: "zone \<Rightarrow> tm \<Rightarrow> int \<times> tm" where
  "mk_time Z tim = (let l = tm_seconds tim; t = l - zn_local Z l in (t, local_time Z t))"

text \<open>A local time that the zone has once: \<open>mktime\<close> and \<open>localtime\<close> agree on it.\<close>

definition settled :: "zone \<Rightarrow> int \<Rightarrow> bool" where
  "settled Z l \<longleftrightarrow> zn_east Z (l - zn_local Z l) = zn_local Z l"

definition fixed_zone :: "int \<Rightarrow> zone" where
  "fixed_zone s = \<lparr>zn_east = \<lambda>_. s, zn_local = \<lambda>_. s, zn_dst = \<lambda>_. 0\<rparr>"

lemma fixed_zone_settled: "settled (fixed_zone s) l"
  by (simp add: settled_def fixed_zone_def)

lemma mk_time_settled:
  assumes "settled Z (tm_seconds tim)"
  shows "same_time (snd (mk_time Z tim)) (gm_time (tm_seconds tim))"
  using assms by (simp add: mk_time_def Let_def local_time_def settled_def same_time_def)

subsection \<open>Text\<close>

text \<open>A number with leading zeros, as \<open>%0kd\<close> prints it.\<close>

definition print_0 :: "nat \<Rightarrow> int \<Rightarrow> bytes" where
  "print_0 k n = (let ds = nat_digits (nat \<bar>n\<bar>); sign = (if n < 0 then [0x2D] else [])
     in sign @ replicate (k - length sign - length ds) 0x30 @ ds)"

text \<open>\<open>strftime\<close>: the numeric directives; the others belong to the locale, a parameter.\<close>

definition format_directive :: "(byte \<Rightarrow> tm \<Rightarrow> bytes) \<Rightarrow> byte \<Rightarrow> tm \<Rightarrow> bytes" where
  "format_directive lc c tim =
     (if c = 0x59 then print_lld (tm_year tim + 1900)
      else if c = 0x6D then print_0 2 (tm_mon tim + 1)
      else if c = 0x64 then print_0 2 (tm_mday tim)
      else if c = 0x48 then print_0 2 (tm_hour tim)
      else if c = 0x4D then print_0 2 (tm_min tim)
      else if c = 0x53 then print_0 2 (tm_sec tim)
      else if c = 0x46 then
        print_lld (tm_year tim + 1900) @ [0x2D] @ print_0 2 (tm_mon tim + 1) @ [0x2D] @ print_0 2 (tm_mday tim)
      else if c = 0x54 then
        print_0 2 (tm_hour tim) @ [0x3A] @ print_0 2 (tm_min tim) @ [0x3A] @ print_0 2 (tm_sec tim)
      else if c = 0x25 then [0x25]
      else lc c tim)"

fun format_time :: "(byte \<Rightarrow> tm \<Rightarrow> bytes) \<Rightarrow> bytes \<Rightarrow> tm \<Rightarrow> bytes" where
  "format_time lc [] tim = []"
| "format_time lc [c] tim = [c]"
| "format_time lc (c # d # fmt) tim =
     (if c = 0x25 then format_directive lc d tim @ format_time lc fmt tim else c # format_time lc (d # fmt) tim)"

text \<open>A text that does not fit with its terminator leaves the buffer undefined.\<close>

definition strftime :: "(byte \<Rightarrow> tm \<Rightarrow> bytes) \<Rightarrow> nat \<Rightarrow> bytes \<Rightarrow> tm \<Rightarrow> bytes option" where
  "strftime lc room fmt tim = (let s = format_time lc fmt tim in if length s < room then Some s else None)"

text \<open>\<open>snprintf\<close> into the rest of a buffer.\<close>

definition snprintf_append :: "nat \<Rightarrow> bytes \<Rightarrow> bytes \<Rightarrow> bytes" where
  "snprintf_append room s t = s @ take (room - length s - 1) t"

end
