(* ===== verification/Linux_Time.thy ===== *)
theory Linux_Time
  imports C_Time
begin

section \<open>Times as text on Linux (util/linux/linux.time.c)\<close>

text \<open>
  A time is a number of milliseconds since 1970.  It is printed in Greenwich or in the zone of the system, and read back.
  The reader \<open>strptime\<close> is the C library's, a parameter: \<open>scan fmt s tim\<close> is the broken-down time it leaves when it has
  matched, or \<open>None\<close>.  A broken-down time is not initialised before it is read into, so its old content is a parameter too.
\<close>

text \<open>\<open>"%F %T"\<close> and \<open>"%Y-%m-%dT%H:%M:%SZ"\<close>.\<close>

definition default_print_format :: bytes where "default_print_format = cstr ''%F %T''"
definition default_scan_format :: bytes where "default_scan_format = cstr ''%Y-%m-%dT%H:%M:%SZ''"

definition tr50_time_sprintf2 ::
  "zone \<Rightarrow> (byte \<Rightarrow> tm \<Rightarrow> bytes) \<Rightarrow> bytes option \<Rightarrow> int \<Rightarrow> bool \<Rightarrow> bytes option" where
  "tr50_time_sprintf2 Z lc time_format mstime use_gmt =
     (let timestamp = mstime sdiv 1000; ms = mstime smod 1000;
          (timestamp, ms) = (if ms < 0 then (timestamp - 1, ms + 1000) else (timestamp, ms));
          tim = (if use_gmt then gm_time timestamp else local_time Z timestamp)
      in case time_format of
           None \<Rightarrow> map_option (\<lambda>s. snprintf_append 64 s (0x2E # print_0 3 ms)) (strftime lc 64 default_print_format tim)
         | Some fmt \<Rightarrow> strftime lc 64 fmt tim)"

definition tr50_time_sprintf ::
  "zone \<Rightarrow> (byte \<Rightarrow> tm \<Rightarrow> bytes) \<Rightarrow> bytes option \<Rightarrow> int \<Rightarrow> bytes option" where
  "tr50_time_sprintf Z lc time_format mstime = tr50_time_sprintf2 Z lc time_format mstime False"

definition tr50_time_strptime ::
  "zone \<Rightarrow> (bytes \<Rightarrow> bytes \<Rightarrow> tm \<Rightarrow> tm option) \<Rightarrow> bytes \<Rightarrow> bytes option \<Rightarrow> tm \<Rightarrow> int" where
  "tr50_time_strptime Z scan timestamp_str time_format tim =
     (case scan (case time_format of None \<Rightarrow> default_scan_format | Some fmt \<Rightarrow> fmt) timestamp_str tim of
        None \<Rightarrow> 0
      | Some tim \<Rightarrow> fst (mk_time Z (tim\<lparr>tm_isdst := -1\<rparr>)) * 1000)"

text \<open>The second a time lies in, and the milliseconds into it.\<close>

lemma split_ms:
  fixes m :: int
  shows "(if m smod 1000 < 0 then (m sdiv 1000 - 1, m smod 1000 + 1000) else (m sdiv 1000, m smod 1000)) = (m div 1000, m mod 1000)"
proof (cases "0 \<le> m \<or> 1000 dvd m")
  case True
  then have e: "\<not> (sgn m \<noteq> sgn 1000 \<and> \<not> 1000 dvd m)" by (auto simp: sgn_if)
  have "m smod 1000 = m mod 1000" "m sdiv 1000 = m div 1000"
    using e by (auto simp: signed_divide_int_eq_divide_int signed_modulo_int_eq_modulo_int)
  then show ?thesis by simp
next
  case False
  then have e: "sgn m \<noteq> sgn 1000 \<and> \<not> 1000 dvd m" by auto
  have "m smod 1000 = m mod 1000 - 1000" "m sdiv 1000 = m div 1000 + 1"
    using e by (auto simp: signed_divide_int_eq_divide_int signed_modulo_int_eq_modulo_int)
  then show ?thesis by simp
qed

lemma tr50_time_sprintf2_eq:
  "tr50_time_sprintf2 Z lc time_format m use_gmt =
     (let tim = (if use_gmt then gm_time (m div 1000) else local_time Z (m div 1000))
      in case time_format of
           None \<Rightarrow> map_option (\<lambda>s. snprintf_append 64 s (0x2E # print_0 3 (m mod 1000))) (strftime lc 64 default_print_format tim)
         | Some fmt \<Rightarrow> strftime lc 64 fmt tim)"
  unfolding tr50_time_sprintf2_def Let_def split_ms prod.case ..

end
