(* ===== verification/Win32_Time.thy ===== *)
theory Win32_Time
  imports Linux_Time Tr50_Platform
begin

section \<open>Times as text on Windows (util/win32/win32.time.c)\<close>

text \<open>
  The same functions for a system without \<open>strptime\<close>, which the source brings along: a format is read beside a text, and
  each directive sets fields of a broken-down time.  A text is its bytes without the terminator.
\<close>

subsection \<open>Numbers\<close>

text \<open>\<open>_strings_conv_num\<close>: as many digits as the limit has, and as fit under it.\<close>

fun conv_loop :: "bytes \<Rightarrow> int \<Rightarrow> int \<Rightarrow> int \<Rightarrow> int \<times> bytes" where
  "conv_loop (b # buf) result rulim ulim =
     (let result = result * 10 + digit_val b; rulim = rulim div 10
      in if result * 10 \<le> ulim \<and> rulim \<noteq> 0 \<and> buf \<noteq> [] \<and> is_digit (hd buf) then conv_loop buf result rulim ulim
         else (result, buf))"
| "conv_loop [] result rulim ulim = (result, [])"

definition strings_conv_num :: "bytes \<Rightarrow> int \<Rightarrow> int \<Rightarrow> (int \<times> bytes) option" where
  "strings_conv_num buf llim ulim =
     (if buf = [] \<or> \<not> is_digit (hd buf) then None
      else case conv_loop buf 0 ulim ulim of (result, rest) \<Rightarrow>
        if result < llim \<or> result > ulim then None else Some (result, rest))"

subsection \<open>Names\<close>

definition strings_day :: "bytes list" where
  "strings_day = map cstr [''Sunday'', ''Monday'', ''Tuesday'', ''Wednesday'', ''Thursday'', ''Friday'', ''Saturday'']"

definition strings_abday :: "bytes list" where
  "strings_abday = map cstr [''Sun'', ''Mon'', ''Tue'', ''Wed'', ''Thu'', ''Fri'', ''Sat'']"

definition strings_mon :: "bytes list" where
  "strings_mon = map cstr [''January'', ''February'', ''March'', ''April'', ''May'', ''June'', ''July'',
     ''August'', ''September'', ''October'', ''November'', ''December'']"

definition strings_abmon :: "bytes list" where
  "strings_abmon = map cstr [''Jan'', ''Feb'', ''Mar'', ''Apr'', ''May'', ''Jun'', ''Jul'', ''Aug'', ''Sep'', ''Oct'', ''Nov'', ''Dec'']"

definition to_lower :: "byte \<Rightarrow> byte" where
  "to_lower b = (if 0x41 \<le> b \<and> b \<le> 0x5A then b + 32 else b)"

text \<open>\<open>strcasecmp\<close> and \<open>strncasecmp\<close> with the length of the name.\<close>

definition same_name :: "bytes \<Rightarrow> bytes \<Rightarrow> bool" where
  "same_name a b \<longleftrightarrow> map to_lower a = map to_lower b"

definition begins_with_name :: "bytes \<Rightarrow> bytes \<Rightarrow> bool" where
  "begins_with_name name bp \<longleftrightarrow> same_name name (take (length name) bp)"

text \<open>The loops of the directives \<open>%a\<close> and \<open>%b\<close>: the full name first, then the abbreviated one.\<close>

fun find_name :: "(bytes \<times> bytes) list \<Rightarrow> int \<Rightarrow> bytes \<Rightarrow> (int \<times> bytes) option" where
  "find_name [] i bp = None"
| "find_name ((full, abbreviated) # names) i bp =
     (if begins_with_name full bp then Some (i, drop (length full) bp)
      else if begins_with_name abbreviated bp then Some (i, drop (length abbreviated) bp)
      else find_name names (i + 1) bp)"

subsection \<open>Directives\<close>

definition ALT_E :: byte where "ALT_E = 1"
definition ALT_O :: byte where "ALT_O = 2"
definition TM_YEAR_BASE :: int where "TM_YEAR_BASE = 1900"

definition legal_alt :: "byte \<Rightarrow> byte \<Rightarrow> bool" where
  "legal_alt alt_format x \<longleftrightarrow> alt_format AND NOT x = 0"

text \<open>The modifiers \<open>E\<close> and \<open>O\<close> before a directive; \<open>None\<close> where the code answers 0.\<close>

fun modifiers :: "byte \<Rightarrow> bytes \<Rightarrow> (byte \<times> byte \<times> bytes) option" where
  "modifiers alt_format [] = None"
| "modifiers alt_format (c # fmt) =
     (if c = 0x45 then if legal_alt alt_format 0 then modifiers ALT_E fmt else None
      else if c = 0x4F then if legal_alt alt_format 0 then modifiers ALT_O fmt else None
      else Some (alt_format, c, fmt))"

text \<open>The complex directives: the modifiers they allow, and the format they stand for.\<close>

definition expansion :: "byte \<Rightarrow> (byte \<times> bytes) option" where
  "expansion c =
     (if c = 0x63 then Some (ALT_E, cstr ''%x %X'')
      else if c = 0x44 then Some (0, cstr ''%m/%d/%y'')
      else if c = 0x52 then Some (0, cstr ''%H:%M'')
      else if c = 0x72 then Some (0, cstr ''%I:%M:%S %p'')
      else if c = 0x54 then Some (0, cstr ''%H:%M:%S'')
      else if c = 0x58 then Some (ALT_E, cstr ''%H:%M:%S'')
      else if c = 0x78 then Some (ALT_E, cstr ''%m/%d/%y'')
      else None)"

text \<open>\<open>isspace\<close> on a \<open>char\<close>: negative values but -1 are outside its domain.\<close>

definition char_isspace :: "byte \<Rightarrow> bool option" where
  "char_isspace b = (if b < 128 then Some (is_space b) else if b = 255 then Some False else None)"

fun skip_space :: "bytes \<Rightarrow> bytes option" where
  "skip_space [] = Some []"
| "skip_space (b # bp) =
     (case char_isspace b of None \<Rightarrow> None | Some True \<Rightarrow> skip_space bp | Some False \<Rightarrow> Some (b # bp))"

definition conv_into :: "bytes \<Rightarrow> int \<Rightarrow> int \<Rightarrow> (int \<Rightarrow> tm) \<Rightarrow> bool \<Rightarrow> (bytes \<times> bool \<times> tm) option" where
  "conv_into bp llim ulim set_field split_year =
     map_option (\<lambda>(i, rest). (rest, split_year, set_field i)) (strings_conv_num bp llim ulim)"

text \<open>
  The elementary directives, with what of the text they leave, whether a part of the year has been read, and the time;
  \<open>None\<close> where the code answers 0.
\<close>

definition elementary :: "byte \<Rightarrow> byte \<Rightarrow> bytes \<Rightarrow> bool \<Rightarrow> tm \<Rightarrow> (bytes \<times> bool \<times> tm) option" where
  "elementary c alt_format bp split_year tim =
     (let legal = legal_alt alt_format in
      if c = 0x41 \<or> c = 0x61 then
        if \<not> legal 0 then None
        else map_option (\<lambda>(i, rest). (rest, split_year, tim\<lparr>tm_wday := i\<rparr>)) (find_name (zip strings_day strings_abday) 0 bp)
      else if c = 0x42 \<or> c = 0x62 \<or> c = 0x68 then
        if \<not> legal 0 then None
        else map_option (\<lambda>(i, rest). (rest, split_year, tim\<lparr>tm_mon := i\<rparr>)) (find_name (zip strings_mon strings_abmon) 0 bp)
      else if c = 0x43 then
        if \<not> legal ALT_E then None
        else conv_into bp 0 99 (\<lambda>i. tim\<lparr>tm_year := if split_year then tm_year tim smod 100 + i * 100 else i * 100\<rparr>) True
      else if c = 0x64 \<or> c = 0x65 then
        if \<not> legal ALT_O then None else conv_into bp 1 31 (\<lambda>i. tim\<lparr>tm_mday := i\<rparr>) split_year
      else if c = 0x6B \<and> \<not> legal 0 then None
      else if c = 0x6B \<or> c = 0x48 then
        if \<not> legal ALT_O then None else conv_into bp 0 23 (\<lambda>i. tim\<lparr>tm_hour := i\<rparr>) split_year
      else if c = 0x6C \<and> \<not> legal 0 then None
      else if c = 0x6C \<or> c = 0x49 then
        if \<not> legal ALT_O then None
        else conv_into bp 1 12 (\<lambda>i. tim\<lparr>tm_hour := if i = 12 then 0 else i\<rparr>) split_year
      else if c = 0x6A then
        if \<not> legal 0 then None else conv_into bp 1 366 (\<lambda>i. tim\<lparr>tm_yday := i - 1\<rparr>) split_year
      else if c = 0x4D then
        if \<not> legal ALT_O then None else conv_into bp 0 59 (\<lambda>i. tim\<lparr>tm_min := i\<rparr>) split_year
      else if c = 0x6D then
        if \<not> legal ALT_O then None else conv_into bp 1 12 (\<lambda>i. tim\<lparr>tm_mon := i - 1\<rparr>) split_year
      else if c = 0x70 then
        if \<not> legal 0 then None
        else if same_name (cstr ''AM'') bp then if tm_hour tim > 11 then None else Some (drop 2 bp, split_year, tim)
        else if same_name (cstr ''PM'') bp then
          if tm_hour tim > 11 then None else Some (drop 2 bp, split_year, tim\<lparr>tm_hour := tm_hour tim + 12\<rparr>)
        else None
      else if c = 0x53 then
        if \<not> legal ALT_O then None else conv_into bp 0 61 (\<lambda>i. tim\<lparr>tm_sec := i\<rparr>) split_year
      else if c = 0x55 \<or> c = 0x57 then
        if \<not> legal ALT_O then None else conv_into bp 0 53 (\<lambda>i. tim) split_year
      else if c = 0x77 then
        if \<not> legal ALT_O then None else conv_into bp 0 6 (\<lambda>i. tim\<lparr>tm_wday := i\<rparr>) split_year
      else if c = 0x59 then
        if \<not> legal ALT_E then None else conv_into bp 0 9999 (\<lambda>i. tim\<lparr>tm_year := i - TM_YEAR_BASE\<rparr>) split_year
      else if c = 0x79 then
        if \<not> legal (ALT_E OR ALT_O) then None
        else conv_into bp 0 99 (\<lambda>i. tim\<lparr>tm_year :=
            if split_year then tm_year tim sdiv 100 * 100 + i
            else if i \<le> 68 then i + 2000 - TM_YEAR_BASE else i + 1900 - TM_YEAR_BASE\<rparr>) True
      else None)"

subsection \<open>The reader\<close>

text \<open>What a format may stand for, for the recursion of the complex directives.\<close>

definition directive_weight :: "byte \<Rightarrow> nat" where
  "directive_weight c = (if c = 0x63 then 60 else if expansion c \<noteq> None then 20 else 1)"

definition format_weight :: "bytes \<Rightarrow> nat" where
  "format_weight fmt = sum_list (map directive_weight fmt)"

lemma format_weight_simps [simp]:
  "format_weight [] = 0" "format_weight (c # fmt) = directive_weight c + format_weight fmt"
  by (simp_all add: format_weight_def)

lemma directive_weight_pos: "0 < directive_weight c"
  by (simp add: directive_weight_def)

lemma modifiers_weight: "modifiers alt_format fmt = Some (a, c, fmt') \<Longrightarrow> directive_weight c + format_weight fmt' \<le> format_weight fmt"
  by (induction alt_format fmt rule: modifiers.induct) (auto split: if_splits intro: le_trans)

lemma expansion_weight: "expansion c = Some (mods, fmt) \<Longrightarrow> format_weight fmt < directive_weight c"
  by (auto simp: expansion_def directive_weight_def cstr_def split: if_splits)

lemma rest_weight: "modifiers a fmt = Some (b, c, fmt') \<Longrightarrow> format_weight fmt' < directive_weight d + format_weight fmt"
  using modifiers_weight [of a fmt b c fmt'] directive_weight_pos [of d] by linarith

lemma expanded_weight:
  "modifiers a fmt = Some (b, c, fmt') \<Longrightarrow> expansion c = Some (mods, fmt2) \<Longrightarrow>
    format_weight fmt2 < directive_weight d + format_weight fmt"
  using modifiers_weight [of a fmt b c fmt'] expansion_weight [of c mods fmt2] by linarith

text \<open>
  \<open>strptime\<close>: the outer \<open>None\<close> is a character that \<open>isspace\<close> may not be asked about.  Otherwise the rest of the text, or
  \<open>None\<close> where the code answers 0, and the time with the fields set so far.
\<close>

function strptime_loop :: "bytes \<Rightarrow> bytes \<Rightarrow> bool \<Rightarrow> tm \<Rightarrow> (bytes option \<times> tm) option" where
  "strptime_loop [] bp split_year tim = Some (Some bp, tim)"
| "strptime_loop (c # fmt) bp split_year tim =
     (case char_isspace c of
        None \<Rightarrow> None
      | Some True \<Rightarrow> (case skip_space bp of None \<Rightarrow> None | Some bp \<Rightarrow> strptime_loop fmt bp split_year tim)
      | Some False \<Rightarrow>
          if c \<noteq> 0x25 then
            (if bp \<noteq> [] \<and> hd bp = c then strptime_loop fmt (tl bp) split_year tim else Some (None, tim))
          else (case modifiers 0 fmt of
             None \<Rightarrow> Some (None, tim)
           | Some (alt_format, d, fmt) \<Rightarrow>
               if d = 0x25 then
                 (if bp \<noteq> [] \<and> hd bp = d then strptime_loop fmt (tl bp) split_year tim else Some (None, tim))
               else if d = 0x6E \<or> d = 0x74 then
                 (if \<not> legal_alt alt_format 0 then Some (None, tim)
                  else case skip_space bp of None \<Rightarrow> None | Some bp \<Rightarrow> strptime_loop fmt bp split_year tim)
               else (case expansion d of
                  Some (mods, fmt2) \<Rightarrow>
                    (if \<not> legal_alt alt_format mods then Some (None, tim)
                     else case strptime_loop fmt2 bp False tim of
                       None \<Rightarrow> None
                     | Some (None, tim) \<Rightarrow> Some (None, tim)
                     | Some (Some bp, tim) \<Rightarrow> strptime_loop fmt bp split_year tim)
                | None \<Rightarrow>
                    (case elementary d alt_format bp split_year tim of
                       None \<Rightarrow> Some (None, tim)
                     | Some (bp, split_year, tim) \<Rightarrow> strptime_loop fmt bp split_year tim))))"
  by pat_completeness auto
termination
proof (relation "measure (\<lambda>(fmt, _). format_weight fmt)", goal_cases)
  case 1
  then show ?case by simp
qed (auto simp: directive_weight_pos intro: rest_weight expanded_weight)

declare strptime_loop.simps [simp del]

definition strptime :: "bytes \<Rightarrow> bytes \<Rightarrow> tm \<Rightarrow> (bytes option \<times> tm) option" where
  "strptime buf fmt tim = strptime_loop fmt buf False tim"

text \<open>Reading a time; the outer \<open>None\<close> is that of \<open>strptime\<close>.\<close>

definition win_time_strptime :: "zone \<Rightarrow> bytes \<Rightarrow> bytes option \<Rightarrow> tm \<Rightarrow> int option" where
  "win_time_strptime Z timestamp_str time_format tim =
     (case strptime timestamp_str (case time_format of None \<Rightarrow> default_scan_format | Some fmt \<Rightarrow> fmt) tim of
        None \<Rightarrow> None
      | Some (None, tim) \<Rightarrow> Some 0
      | Some (Some rest, tim) \<Rightarrow> Some (fst (mk_time Z (tim\<lparr>tm_isdst := -1\<rparr>)) * 1000))"

subsection \<open>The clock and the print\<close>

text \<open>
  What the source uses of Windows: the calendar of a count of 100 nanoseconds since 1601 (\<open>FileTimeToSystemTime\<close>, which
  refuses counts from \<open>2 ^ 63\<close> on) and of its local time (\<open>SystemTimeToTzSpecificLocalTime\<close>).
\<close>

record systime =
  wYear :: int
  wMonth :: int
  wDay :: int
  wHour :: int
  wMinute :: int
  wSecond :: int

record windows =
  wi_system_time :: "int \<Rightarrow> systime option"
  wi_local_time :: "systime \<Rightarrow> systime"

definition EPOCHFILETIME :: int where "EPOCHFILETIME = 116444736000000000"

text \<open>\<open>gettimeofday\<close> of the source, whose seconds are a \<open>long\<close> of 32 bits, and \<open>_time_now\<close> on it.\<close>

definition win_gettimeofday :: "int \<Rightarrow> int \<times> int" where
  "win_gettimeofday file_time =
     (let t = (file_time - EPOCHFILETIME) sdiv 10 in (c_int (t sdiv 1000000), c_int (t smod 1000000)))"

definition win_time_now :: "int \<Rightarrow> int" where
  "win_time_now file_time = (case win_gettimeofday file_time of (tv_sec, tv_usec) \<Rightarrow> tv_sec * 1000 + tv_usec sdiv 1000)"

definition win_time_now_in_sec :: "int \<Rightarrow> int" where
  "win_time_now_in_sec file_time = fst (win_gettimeofday file_time)"

definition win_default_print_format :: bytes where
  "win_default_print_format = cstr ''%Y-%m-%d %H:%M:%S''"

text \<open>The fields of a \<open>SYSTEMTIME\<close> as a broken-down time; the others are what the memory held.\<close>

definition systime_tm :: "systime \<Rightarrow> tm \<Rightarrow> tm" where
  "systime_tm st tim = tim\<lparr>tm_hour := wHour st, tm_min := wMinute st, tm_mday := wDay st, tm_mon := wMonth st - 1,
     tm_sec := wSecond st, tm_year := wYear st - 1900, tm_isdst := -1\<rparr>"

text \<open>\<open>None\<close>: the product overflows, the system refuses the time, or the text does not fit.\<close>

definition win_time_sprintf2 ::
  "windows \<Rightarrow> zone \<Rightarrow> (byte \<Rightarrow> tm \<Rightarrow> bytes) \<Rightarrow> bytes option \<Rightarrow> int \<Rightarrow> bool \<Rightarrow> tm \<Rightarrow> bytes option" where
  "win_time_sprintf2 W Z lc time_format mstime use_gmt tim = do {
     let ms = mstime smod 1000;
     let ms = (if mstime < 0 then ms + 1000 else ms);
     ticks \<leftarrow> (if - (2 ^ 63) \<le> mstime * 10000 \<and> mstime * 10000 < 2 ^ 63
               then Some ((mstime * 10000 + EPOCHFILETIME) mod 2 ^ 64) else None);
     st \<leftarrow> wi_system_time W ticks;
     let st = (if use_gmt then st else wi_local_time W st);
     let tim = snd (mk_time Z (systime_tm st tim));
     case time_format of
       None \<Rightarrow> map_option (\<lambda>s. snprintf_append 64 s (0x2E # print_0 3 ms)) (strftime lc 64 win_default_print_format tim)
     | Some fmt \<Rightarrow> strftime lc 64 fmt tim }"

definition win_time_sprintf ::
  "windows \<Rightarrow> zone \<Rightarrow> (byte \<Rightarrow> tm \<Rightarrow> bytes) \<Rightarrow> bytes option \<Rightarrow> int \<Rightarrow> tm \<Rightarrow> bytes option" where
  "win_time_sprintf W Z lc time_format mstime tim = win_time_sprintf2 W Z lc time_format mstime False tim"

end
