(* ===== verification/Time_Props.thy ===== *)
theory Time_Props
  imports Win32_Time "HOL-Library.Sublist"
begin

section \<open>What printed and read times promise\<close>

subsection \<open>Numbers and their digits\<close>

lemma of_nat_digit: "d < 10 \<Longrightarrow> is_digit (of_nat (48 + d)) \<and> digit_val (of_nat (48 + d)) = int d"
  by (simp add: is_digit_def digit_val_def word_le_nat_alt unat_of_nat uint_nat take_bit_nat_eq_self del: of_nat_add)

lemma digit_val_range: "is_digit b \<Longrightarrow> 0 \<le> digit_val b \<and> digit_val b \<le> 9"
  by (simp add: is_digit_def digit_val_def word_le_def)

definition number_value :: "int \<Rightarrow> bytes \<Rightarrow> int" where
  "number_value r ds = foldl (\<lambda>n b. n * 10 + digit_val b) r ds"

lemma number_value_simps [simp]:
  "number_value r [] = r" "number_value r (b # ds) = number_value (r * 10 + digit_val b) ds"
  "number_value r (ds @ es) = number_value (number_value r ds) es"
  by (simp_all add: number_value_def)

lemma number_value_ge: "0 \<le> r \<Longrightarrow> list_all is_digit ds \<Longrightarrow> r * 10 ^ length ds \<le> number_value r ds"
proof (induction ds arbitrary: r)
  case (Cons b ds)
  have "r * 10 ^ length (b # ds) \<le> (r * 10 + digit_val b) * 10 ^ length ds"
    using Cons.prems digit_val_range [of b] by (simp add: distrib_right)
  also have "\<dots> \<le> number_value (r * 10 + digit_val b) ds" using Cons digit_val_range [of b] by simp
  finally show ?case by simp
qed simp

lemma nat_digits_number:
  "list_all is_digit (nat_digits n) \<and> number_value 0 (nat_digits n) = int n \<and> nat_digits n \<noteq> [] \<and>
    10 ^ (length (nat_digits n) - 1) \<le> max 1 (int n)"
proof (induction n rule: nat_digits.induct)
  case (1 n)
  show ?case
  proof (cases "n < 10")
    case True
    then show ?thesis using of_nat_digit [OF True] by (simp add: nat_digits.simps [of n] del: of_nat_add)
  next
    case False
    let ?ds = "nat_digits (n div 10)"
    note h = "1.IH" [OF False]
    have "10 ^ length ?ds = 10 * (10 :: int) ^ (length ?ds - 1)" using h by (cases ?ds) auto
    also have "\<dots> \<le> 10 * int (n div 10)" using h False by simp
    also have "\<dots> \<le> int n" by linarith
    finally show ?thesis using h False of_nat_digit [of "n mod 10"] zmod_int [of n 10] zdiv_int [of n 10]
      by (simp add: nat_digits.simps [of n] del: of_nat_add)
  qed
qed

lemma print_0_number:
  assumes "0 \<le> n"
  shows "list_all is_digit (print_0 k n)" "number_value 0 (print_0 k n) = n" "print_0 k n \<noteq> []"
    "10 ^ (length (print_0 k n) - 1) \<le> max (10 ^ (k - 1)) n"
proof -
  have z: "list_all is_digit (replicate m 0x30) \<and> number_value 0 (replicate m 0x30) = 0" for m
    by (induction m) (simp_all add: is_digit_def digit_val_def)
  note d = nat_digits_number [of "nat n"]
  show "list_all is_digit (print_0 k n)" "number_value 0 (print_0 k n) = n" "print_0 k n \<noteq> []"
    using assms d z by (simp_all add: print_0_def Let_def)
  have "length (print_0 k n) = max k (length (nat_digits (nat n)))" using assms by (simp add: print_0_def Let_def)
  moreover have "(10 :: int) ^ (length (nat_digits (nat n)) - 1) \<le> max 1 n" using d assms by simp
  moreover have "(1 :: int) \<le> 10 ^ (k - 1)" by simp
  ultimately show "10 ^ (length (print_0 k n) - 1) \<le> max (10 ^ (k - 1)) n"
    by (cases "k \<le> length (nat_digits (nat n))") (simp only: max_absorb2, linarith, simp add: max_absorb1)
qed

lemma print_lld_0: "0 \<le> n \<Longrightarrow> print_lld n = print_0 1 n"
  using nat_digits_number [of "nat n"] by (simp add: print_lld_def print_0_def Let_def Suc_le_eq)

text \<open>A number is read back when something else follows it.\<close>

lemma conv_loop_digits:
  assumes "list_all is_digit ds" "ds \<noteq> []" "rest = [] \<or> \<not> is_digit (hd rest)" "0 \<le> r"
    "number_value r ds \<le> ulim" "10 ^ (length ds - 1) \<le> rulim"
  shows "conv_loop (ds @ rest) r rulim ulim = (number_value r ds, rest)"
  using assms
proof (induction ds arbitrary: r rulim)
  case (Cons b ds)
  let ?r = "r * 10 + digit_val b"
  have r: "0 \<le> ?r" using Cons.prems digit_val_range [of b] by simp
  show ?case
  proof (cases ds)
    case Nil
    then show ?thesis using Cons.prems by (auto simp: Let_def)
  next
    case (Cons c cs)
    have "?r * 10 ^ length ds \<le> ulim" using number_value_ge [OF r, of ds] Cons.prems by simp
    moreover have "?r * 10 \<le> ?r * 10 ^ length ds" using r Cons by (intro mult_left_mono) auto
    moreover have "10 ^ (length ds - 1) \<le> rulim div 10"
    proof -
      have "10 ^ length ds = 10 * (10 :: int) ^ (length ds - 1)" using Cons by simp
      then show ?thesis using Cons.prems(6) by simp
    qed
    moreover have "(0 :: int) < 10 ^ (length ds - 1)" by simp
    ultimately show ?thesis using Cons.IH [of ?r "rulim div 10"] Cons.prems r Cons by (auto simp: Let_def)
  qed
qed simp

lemma conv_num_print_0:
  assumes "0 \<le> n" "llim \<le> n" "n \<le> ulim" "10 ^ (k - 1) \<le> ulim" "rest = [] \<or> \<not> is_digit (hd rest)"
  shows "strings_conv_num (print_0 k n @ rest) llim ulim = Some (n, rest)"
proof -
  note d = print_0_number [OF assms(1), of k]
  have "hd (print_0 k n @ rest) = hd (print_0 k n)" "is_digit (hd (print_0 k n))"
    using d by (auto simp: list.pred_set)
  moreover have "conv_loop (print_0 k n @ rest) 0 ulim ulim = (n, rest)"
    using conv_loop_digits [OF d(1,3) assms(5), of 0 ulim ulim] d assms by simp
  ultimately show ?thesis using assms d(3) by (simp add: strings_conv_num_def)
qed

text \<open>What a number is, in general: some digits, their value, and no more of them than the limit allows.\<close>

lemma conv_loop_value:
  assumes "conv_loop buf r rulim ulim = (n, rest)" "0 \<le> r" "0 < rulim" "buf \<noteq> []" "is_digit (hd buf)"
  shows "\<exists>ds. ds \<noteq> [] \<and> buf = ds @ rest \<and> list_all is_digit ds \<and> n = number_value r ds \<and> 10 ^ (length ds - 1) \<le> rulim \<and> 0 \<le> n"
  using assms
proof (induction buf r rulim ulim rule: conv_loop.induct)
  case (1 b buf r rulim ulim)
  let ?r = "r * 10 + digit_val b"
  let ?go = "?r * 10 \<le> ulim \<and> rulim div 10 \<noteq> 0 \<and> buf \<noteq> [] \<and> is_digit (hd buf)"
  have r: "0 \<le> ?r" using "1.prems"(2,5) digit_val_range [of b] by simp
  show ?case
  proof (cases ?go)
    case True
    then have "conv_loop buf ?r (rulim div 10) ulim = (n, rest)" using "1.prems"(1) by (simp add: Let_def)
    moreover have "0 < rulim div 10" using True "1.prems"(3) by linarith
    ultimately obtain ds where ds: "ds \<noteq> []" "buf = ds @ rest" "list_all is_digit ds"
      "n = number_value ?r ds" "10 ^ (length ds - 1) \<le> rulim div 10" "0 \<le> n"
      using "1.IH" [OF refl refl True] True r by auto
    have "10 ^ length ds = 10 * (10 :: int) ^ (length ds - 1)" using ds(1) by (cases ds) auto
    then have "10 ^ length ds \<le> rulim" using ds(5) by linarith
    then show ?thesis using ds "1.prems"(5) by (intro exI [of _ "b # ds"]) auto
  next
    case False
    then show ?thesis using "1.prems" r by (intro exI [of _ "[b]"]) (auto simp: Let_def)
  qed
qed simp

lemma strings_conv_num_value:
  assumes "strings_conv_num buf llim ulim = Some (n, rest)" "0 < ulim"
  shows "llim \<le> n \<and> n \<le> ulim \<and> 0 \<le> n \<and>
    (\<exists>ds. ds \<noteq> [] \<and> buf = ds @ rest \<and> list_all is_digit ds \<and> n = number_value 0 ds \<and> 10 ^ (length ds - 1) \<le> ulim)"
proof -
  have b: "buf \<noteq> []" "is_digit (hd buf)" and "conv_loop buf 0 ulim ulim = (n, rest)" and l: "llim \<le> n" "n \<le> ulim"
    using assms(1) by (auto simp: strings_conv_num_def split: if_splits prod.splits)
  from conv_loop_value [OF this(3) _ assms(2) b] l show ?thesis by auto
qed

subsection \<open>The default format\<close>

lemma legal_alt_0 [simp]: "legal_alt 0 mods"
  by (simp add: legal_alt_def)

lemma scan_literal:
  "c \<noteq> 0x25 \<Longrightarrow> char_isspace c = Some False \<Longrightarrow>
    strptime_loop (c # fmt) (c # bp) split_year tim = strptime_loop fmt bp split_year tim"
  by (simp add: strptime_loop.simps)

lemma scan_elementary:
  assumes "elementary d 0 bp split_year tim = Some (bp', split_year', tim')" "d \<notin> {0x25, 0x6E, 0x74, 0x45, 0x4F}"
    "expansion d = None"
  shows "strptime_loop (0x25 # d # fmt) bp split_year tim = strptime_loop fmt bp' split_year' tim'"
  using assms by (simp add: strptime_loop.simps char_isspace_def is_space_def)

lemma default_scan_format_bytes:
  "default_scan_format = [0x25, 0x59, 0x2D, 0x25, 0x6D, 0x2D, 0x25, 0x64, 0x54, 0x25, 0x48, 0x3A, 0x25, 0x4D, 0x3A, 0x25, 0x53, 0x5A]"
  by (simp add: default_scan_format_def cstr_def)

text \<open>The text of a time in the default format, and what the reader makes of it.\<close>

lemma format_default:
  "format_time lc default_scan_format tim =
     print_lld (tm_year tim + 1900) @ [0x2D] @ print_0 2 (tm_mon tim + 1) @ [0x2D] @ print_0 2 (tm_mday tim) @ [0x54] @
     print_0 2 (tm_hour tim) @ [0x3A] @ print_0 2 (tm_min tim) @ [0x3A] @ print_0 2 (tm_sec tim) @ [0x5A]"
  by (simp add: default_scan_format_bytes format_directive_def)

lemma valid_time_bounds:
  assumes "valid_time tim"
  shows "0 \<le> tm_sec tim" "tm_sec tim \<le> 61" "0 \<le> tm_min tim" "tm_min tim \<le> 59" "0 \<le> tm_hour tim" "tm_hour tim \<le> 23"
    "1 \<le> tm_mon tim + 1" "tm_mon tim + 1 \<le> 12" "1 \<le> tm_mday tim" "tm_mday tim \<le> 31"
proof -
  have "month_lengths y ! nat m \<le> 31" if "0 \<le> m" "m < 12" for y m
  proof -
    have "month_lengths y ! nat m \<in> set (month_lengths y)" using that by (intro nth_mem) simp
    then show ?thesis by (auto simp: month_lengths_def split: if_splits)
  qed
  from this [of "tm_mon tim" "tm_year tim + 1900"] show "tm_mday tim \<le> 31" using assms by (simp add: valid_time_def)
qed (use assms in \<open>auto simp: valid_time_def\<close>)

lemma scan_number:
  assumes "0 \<le> n" "llim \<le> n" "n \<le> ulim" "10 ^ (k - 1) \<le> ulim" "rest \<noteq> []" "\<not> is_digit (hd rest)"
    "\<And>bp. elementary d 0 bp split_year tim = conv_into bp llim ulim set_field split_year"
    "d \<notin> {0x25, 0x6E, 0x74, 0x45, 0x4F}" "expansion d = None"
  shows "strptime_loop (0x25 # d # fmt) (print_0 k n @ rest) split_year tim = strptime_loop fmt rest split_year (set_field n)"
  using scan_elementary [OF _ assms(8,9)] conv_num_print_0 [OF assms(1-4), of rest] assms(5-7) by (simp add: conv_into_def)

lemma scan_year:
  "0 \<le> n \<Longrightarrow> n \<le> 9999 \<Longrightarrow> rest \<noteq> [] \<Longrightarrow> \<not> is_digit (hd rest) \<Longrightarrow>
    strptime_loop (0x25 # 0x59 # fmt) (print_lld n @ rest) s tim = strptime_loop fmt rest s (tim\<lparr>tm_year := n - TM_YEAR_BASE\<rparr>)"
  unfolding print_lld_0
  by (rule scan_number [where llim = 0 and ulim = 9999]) (simp_all add: elementary_def expansion_def)

lemma scan_month:
  "1 \<le> n \<Longrightarrow> n \<le> 12 \<Longrightarrow> rest \<noteq> [] \<Longrightarrow> \<not> is_digit (hd rest) \<Longrightarrow>
    strptime_loop (0x25 # 0x6D # fmt) (print_0 2 n @ rest) s tim = strptime_loop fmt rest s (tim\<lparr>tm_mon := n - 1\<rparr>)"
  by (rule scan_number [where llim = 1 and ulim = 12]) (simp_all add: elementary_def expansion_def)

lemma scan_day:
  "1 \<le> n \<Longrightarrow> n \<le> 31 \<Longrightarrow> rest \<noteq> [] \<Longrightarrow> \<not> is_digit (hd rest) \<Longrightarrow>
    strptime_loop (0x25 # 0x64 # fmt) (print_0 2 n @ rest) s tim = strptime_loop fmt rest s (tim\<lparr>tm_mday := n\<rparr>)"
  by (rule scan_number [where llim = 1 and ulim = 31]) (simp_all add: elementary_def expansion_def)

lemma scan_hour:
  "0 \<le> n \<Longrightarrow> n \<le> 23 \<Longrightarrow> rest \<noteq> [] \<Longrightarrow> \<not> is_digit (hd rest) \<Longrightarrow>
    strptime_loop (0x25 # 0x48 # fmt) (print_0 2 n @ rest) s tim = strptime_loop fmt rest s (tim\<lparr>tm_hour := n\<rparr>)"
  by (rule scan_number [where llim = 0 and ulim = 23]) (simp_all add: elementary_def expansion_def)

lemma scan_minute:
  "0 \<le> n \<Longrightarrow> n \<le> 59 \<Longrightarrow> rest \<noteq> [] \<Longrightarrow> \<not> is_digit (hd rest) \<Longrightarrow>
    strptime_loop (0x25 # 0x4D # fmt) (print_0 2 n @ rest) s tim = strptime_loop fmt rest s (tim\<lparr>tm_min := n\<rparr>)"
  by (rule scan_number [where llim = 0 and ulim = 59]) (simp_all add: elementary_def expansion_def)

lemma scan_second:
  "0 \<le> n \<Longrightarrow> n \<le> 61 \<Longrightarrow> rest \<noteq> [] \<Longrightarrow> \<not> is_digit (hd rest) \<Longrightarrow>
    strptime_loop (0x25 # 0x53 # fmt) (print_0 2 n @ rest) s tim = strptime_loop fmt rest s (tim\<lparr>tm_sec := n\<rparr>)"
  by (rule scan_number [where llim = 0 and ulim = 61]) (simp_all add: elementary_def expansion_def)

lemmas scan_fields = scan_year scan_month scan_day scan_hour scan_minute scan_second scan_literal

lemma strptime_default:
  assumes v: "valid_time tim" and y: "0 \<le> tm_year tim + 1900" "tm_year tim + 1900 \<le> 9999"
  shows "\<exists>read. strptime (format_time lc default_scan_format tim) default_scan_format old = Some (Some [], read) \<and> same_time read tim"
proof -
  let ?read = "old\<lparr>tm_year := tm_year tim, tm_mon := tm_mon tim, tm_mday := tm_mday tim, tm_hour := tm_hour tim,
    tm_min := tm_min tim, tm_sec := tm_sec tim\<rparr>"
  have "strptime (format_time lc default_scan_format tim) default_scan_format old = Some (Some [], ?read)"
    unfolding strptime_def format_default unfolding default_scan_format_bytes
    using valid_time_bounds [OF v] y
    by (simp add: scan_fields is_digit_def char_isspace_def is_space_def TM_YEAR_BASE_def strptime_loop.simps(1))
  then show ?thesis by (auto simp: same_time_def)
qed

subsection \<open>Readers of the default format\<close>

text \<open>What a reader owes: it takes what the default format prints back into the fields it was printed from.\<close>

locale date_reader =
  fixes scan :: "bytes \<Rightarrow> bytes \<Rightarrow> tm \<Rightarrow> tm option"
  assumes reads_default: "valid_time tim \<Longrightarrow> 0 \<le> tm_year tim + 1900 \<Longrightarrow> tm_year tim + 1900 \<le> 9999 \<Longrightarrow>
    \<exists>read. scan default_scan_format (format_time lc default_scan_format tim) old = Some read \<and> same_time read tim"
begin

lemma strptime_gm_time:
  assumes "days_to_year 0 * 86400 \<le> t" "t < days_to_year 10000 * 86400"
  shows "tr50_time_strptime Z scan (format_time lc default_scan_format (gm_time t)) None old = (t - zn_local Z t) * 1000"
proof -
  obtain read where r: "scan default_scan_format (format_time lc default_scan_format (gm_time t)) old = Some read"
    "same_time read (gm_time t)"
    using reads_default [OF gm_time_valid [of t], of lc old] gm_time_year [of 0 t 9999] assms by auto
  have "tm_seconds (read\<lparr>tm_isdst := -1\<rparr>) = tm_seconds (gm_time t)"
    using r(2) by (simp add: tm_seconds_def same_time_def Let_def)
  then show ?thesis by (simp add: tr50_time_strptime_def r(1) mk_time_def Let_def tm_seconds_gm_time)
qed

end

text \<open>The reader the source brings along for Windows is one.\<close>

definition win_scan :: "bytes \<Rightarrow> bytes \<Rightarrow> tm \<Rightarrow> tm option" where
  "win_scan fmt s tim = (case strptime s fmt tim of Some (Some rest, read) \<Rightarrow> Some read | _ \<Rightarrow> None)"

interpretation win_reader: date_reader win_scan
proof unfold_locales
  fix tim lc old
  assume "valid_time tim" "0 \<le> tm_year tim + 1900" "tm_year tim + 1900 \<le> 9999"
  from strptime_default [OF this, of lc old]
  show "\<exists>read. win_scan default_scan_format (format_time lc default_scan_format tim) old = Some read \<and> same_time read tim"
    by (auto simp: win_scan_def)
qed

lemma win_time_strptime_scan:
  "strptime s (case fmt of None \<Rightarrow> default_scan_format | Some f \<Rightarrow> f) tim \<noteq> None \<Longrightarrow>
    win_time_strptime Z s fmt tim = Some (tr50_time_strptime Z win_scan s fmt tim)"
  by (auto simp: win_time_strptime_def tr50_time_strptime_def win_scan_def split: option.splits)

subsection \<open>A time that is printed and read back\<close>

lemma print_0_length:
  assumes "0 \<le> n" "n < 10 ^ k" "0 < k"
  shows "length (print_0 k n) \<le> k"
proof -
  have "(10 :: int) ^ (k - 1) < 10 ^ k" using assms(3) by simp
  then have "(10 :: int) ^ (length (print_0 k n) - 1) < 10 ^ k"
    using print_0_number(4) [OF assms(1), of k] assms(2) by linarith
  then show ?thesis by (auto dest: power_less_imp_less_exp [rotated])
qed

lemma print_year_length: "0 \<le> n \<Longrightarrow> n \<le> 9999 \<Longrightarrow> length (print_lld n) \<le> 4"
  using print_0_length [of n 4] print_0_number [of n 4] nat_digits_number [of "nat n"]
  by (simp add: print_lld_def print_0_def Let_def)

lemma valid_time_lengths:
  assumes "valid_time tim" "0 \<le> tm_year tim + 1900" "tm_year tim + 1900 \<le> 9999"
  shows "length (print_lld (tm_year tim + 1900)) \<le> 4" "length (print_0 2 (tm_mon tim + 1)) \<le> 2" "length (print_0 2 (tm_mday tim)) \<le> 2"
    "length (print_0 2 (tm_hour tim)) \<le> 2" "length (print_0 2 (tm_min tim)) \<le> 2" "length (print_0 2 (tm_sec tim)) \<le> 2"
  using valid_time_bounds [OF assms(1)] assms(2,3) by (auto intro: print_year_length print_0_length)

lemma strftime_default_scan:
  assumes "valid_time tim" "0 \<le> tm_year tim + 1900" "tm_year tim + 1900 \<le> 9999"
  shows "strftime lc 64 default_scan_format tim = Some (format_time lc default_scan_format tim)"
  using valid_time_lengths [OF assms] by (simp add: strftime_def Let_def format_default)

text \<open>The years 0 to 9999, in milliseconds.\<close>

definition four_digit_year :: "int \<Rightarrow> bool" where
  "four_digit_year m \<longleftrightarrow> -62167219200000 \<le> m \<and> m < 253402300800000"

lemma four_digit_year_seconds:
  "four_digit_year m \<longleftrightarrow> days_to_year 0 * 86400 \<le> m div 1000 \<and> m div 1000 < days_to_year 10000 * 86400"
  by (auto simp: four_digit_year_def days_to_year_def)

lemma win_strptime_gm_time:
  assumes "four_digit_year (t * 1000)"
  shows "win_time_strptime Z (format_time lc default_scan_format (gm_time t)) None old = Some ((t - zn_local Z t) * 1000)"
proof -
  have b: "days_to_year 0 * 86400 \<le> t" "t < days_to_year 10000 * 86400" using assms by (simp_all add: four_digit_year_seconds)
  have "strptime (format_time lc default_scan_format (gm_time t)) default_scan_format old \<noteq> None"
    using strptime_default [OF gm_time_valid [of t], of lc old] gm_time_year [of 0 t 9999] b by auto
  then show ?thesis using win_time_strptime_scan [of _ None] win_reader.strptime_gm_time [OF b] by simp
qed



subsection \<open>Windows and Linux\<close>

text \<open>What the calendar of Windows answers for a count since 1601, and for its local time.\<close>

definition tm_systime :: "tm \<Rightarrow> systime" where
  "tm_systime tim = \<lparr>wYear = tm_year tim + 1900, wMonth = tm_mon tim + 1, wDay = tm_mday tim, wHour = tm_hour tim,
     wMinute = tm_min tim, wSecond = tm_sec tim\<rparr>"

definition file_seconds :: "int \<Rightarrow> int" where
  "file_seconds ticks = ticks div 10000000 - 11644473600"

definition windows_calendar :: "zone \<Rightarrow> windows \<Rightarrow> bool" where
  "windows_calendar Z W \<longleftrightarrow>
     (\<forall>ticks. 0 \<le> ticks \<and> ticks < 2 ^ 63 \<longrightarrow> wi_system_time W ticks = Some (tm_systime (gm_time (file_seconds ticks)))) \<and>
     (\<forall>t. wi_local_time W (tm_systime (gm_time t)) = tm_systime (local_time Z t))"

lemma print_formats_agree:
  "same_time a b \<Longrightarrow> format_time lc win_default_print_format a = format_time lc default_print_format b"
  by (simp add: win_default_print_format_def default_print_format_def cstr_def format_directive_def same_time_def)

lemma systime_tm_same: "same_time (systime_tm (tm_systime tim) old) tim"
  by (simp add: same_time_def systime_tm_def tm_systime_def)

lemma same_time_seconds: "same_time a b \<Longrightarrow> tm_seconds a = tm_seconds b"
  by (simp add: tm_seconds_def same_time_def Let_def)

lemma file_seconds_ms: "file_seconds (m * 10000 + EPOCHFILETIME) = m div 1000"
proof -
  have "(m * 10000 + EPOCHFILETIME) div 10000000 = (m + 11644473600000) * 10000 div (1000 * 10000)"
    by (simp add: EPOCHFILETIME_def)
  also have "\<dots> = (m + 11644473600000) div 1000" by (subst div_mult_mult2) simp_all
  finally show ?thesis by (simp add: file_seconds_def)
qed

text \<open>The milliseconds Windows prints: those into the second, but 1000 for a whole second before 1970.\<close>

lemma windows_ms:
  fixes m :: int
  shows "(if m < 0 then m smod 1000 + 1000 else m smod 1000) = (if m < 0 \<and> 1000 dvd m then 1000 else m mod 1000)"
  by (auto simp: signed_modulo_int_eq_modulo_int sgn_if)

lemma strftime_default_print:
  assumes "same_time a b" "valid_time b" "0 \<le> tm_year b + 1900" "tm_year b + 1900 \<le> 9999"
  shows "strftime lc 64 win_default_print_format a = Some (format_time lc default_print_format b) \<and>
    strftime lc 64 default_print_format b = Some (format_time lc default_print_format b) \<and>
    length (format_time lc default_print_format b) \<le> 19"
proof -
  have "length (format_time lc default_print_format b) \<le> 19"
    using valid_time_lengths [OF assms(2-4)] by (simp add: default_print_format_def cstr_def format_directive_def)
  then show ?thesis using print_formats_agree [OF assms(1), of lc] by (simp add: strftime_def Let_def)
qed

lemma print_ms_length: "0 \<le> m \<Longrightarrow> m \<le> 1000 \<Longrightarrow> length (print_0 3 m) \<le> 4"
  using print_0_length [of m 3] nat_digits_number [of 1000] by (cases "m = 1000") (simp_all add: print_0_def nat_digits.simps)

lemma same_time_isdst: "same_time (tim\<lparr>tm_isdst := d\<rparr>) tim"
  by (simp add: same_time_def)

lemma snprintf_append_fits: "length s + length t < room \<Longrightarrow> snprintf_append room s t = s @ t"
  by (simp add: snprintf_append_def)

definition printed_ms :: "int \<Rightarrow> int" where
  "printed_ms m = (if m < 0 \<and> 1000 dvd m then 1000 else m mod 1000)"

lemma printed_ms_length: "length (print_0 3 (printed_ms m)) \<le> 4" "length (print_0 3 (m mod 1000)) \<le> 4"
  by (auto simp: printed_ms_def intro!: print_ms_length)

lemma win_time_sprintf2_eq:
  assumes "- (2 ^ 63) \<le> m * 10000" "m * 10000 < 2 ^ 63" "wi_system_time W ((m * 10000 + EPOCHFILETIME) mod 2 ^ 64) = Some st"
  shows "win_time_sprintf2 W Z lc None m use_gmt old =
    map_option (\<lambda>s. snprintf_append 64 s (0x2E # print_0 3 (printed_ms m)))
      (strftime lc 64 win_default_print_format
        (snd (mk_time Z (systime_tm (if use_gmt then st else wi_local_time W st) old))))"
  using assms windows_ms [of m] by (simp add: win_time_sprintf2_def Let_def printed_ms_def)

lemma print_parts:
  assumes W: "windows_calendar Z W" and first: "-11644473600000 \<le> mstime" and last: "mstime < 253402300800000"
    and l: "l = mstime div 1000 + (if use_gmt then 0 else zn_east Z (mstime div 1000))"
    and year: "four_digit_year (l * 1000)" and settled: "settled Z l"
    and s_def: "s = format_time lc default_print_format (gm_time l) @ [0x2E]"
  shows "tr50_time_sprintf2 Z lc None mstime use_gmt = Some (s @ print_0 3 (mstime mod 1000))"
    "win_time_sprintf2 W Z lc None mstime use_gmt old =
      Some (s @ print_0 3 (printed_ms mstime))"
proof -
  let ?t = "mstime div 1000" and ?tim = "if use_gmt then gm_time (mstime div 1000) else local_time Z (mstime div 1000)"
  let ?st = "if use_gmt then tm_systime (gm_time ?t) else wi_local_time W (tm_systime (gm_time ?t))"
  let ?win = "snd (mk_time Z (systime_tm ?st old))"
  have tim: "same_time ?tim (gm_time l)" by (simp add: l local_time_def same_time_isdst) (simp add: same_time_def)
  have y: "0 \<le> tm_year (gm_time l) + 1900" "tm_year (gm_time l) + 1900 \<le> 9999"
    using year gm_time_year [of 0 l 9999] by (simp_all add: four_digit_year_seconds)
  have "tm_systime (local_time Z ?t) = tm_systime (gm_time (?t + zn_east Z ?t))" by (simp add: tm_systime_def local_time_def)
  then have st: "?st = tm_systime (gm_time l)" using W by (simp add: l windows_calendar_def)
  have "tm_seconds (systime_tm ?st old) = l"
    unfolding st using same_time_seconds [OF systime_tm_same [of "gm_time l" old]] by (simp add: tm_seconds_gm_time)
  then have win: "same_time ?win (gm_time l)" using mk_time_settled [of Z "systime_tm ?st old"] settled by simp
  have "same_time ?tim ?tim" "valid_time ?tim" "0 \<le> tm_year ?tim + 1900" "tm_year ?tim + 1900 \<le> 9999"
    using tim y gm_time_valid [of l] by (simp_all only: same_time_def valid_time_def)
  from strftime_default_print [OF this] strftime_default_print [OF win gm_time_valid y]
  have f: "strftime lc 64 default_print_format ?tim = Some (format_time lc default_print_format ?tim)"
    "strftime lc 64 win_default_print_format ?win = Some (format_time lc default_print_format (gm_time l))"
    "length (format_time lc default_print_format (gm_time l)) \<le> 19" by auto
  have e: "format_time lc default_print_format ?tim = format_time lc default_print_format (gm_time l)"
    using print_formats_agree [OF tim, of lc] print_formats_agree [of ?tim ?tim lc] by (simp add: same_time_def)
  show "tr50_time_sprintf2 Z lc None mstime use_gmt = Some (s @ print_0 3 (mstime mod 1000))"
    using f e printed_ms_length(2) [of mstime] by (simp add: tr50_time_sprintf2_eq Let_def s_def snprintf_append_fits)
  have ticks: "0 \<le> mstime * 10000 + EPOCHFILETIME" "mstime * 10000 + EPOCHFILETIME < 2 ^ 63"
    using first last by (simp_all add: EPOCHFILETIME_def)
  then have sys: "wi_system_time W ((mstime * 10000 + EPOCHFILETIME) mod 2 ^ 64) = Some (tm_systime (gm_time ?t))"
    using W by (simp add: windows_calendar_def file_seconds_ms)
  show "win_time_sprintf2 W Z lc None mstime use_gmt old =
      Some (s @ print_0 3 (printed_ms mstime))"
    using f printed_ms_length(1) [of mstime] first last win_time_sprintf2_eq [OF _ _ sys, of Z lc use_gmt old]
    by (simp add: s_def snprintf_append_fits)
qed


text \<open>The last second before 1970, in Greenwich and in a zone an hour east of it.\<close>

definition demo_windows :: "zone \<Rightarrow> windows" where
  "demo_windows Z = \<lparr>wi_system_time = \<lambda>ticks. Some (tm_systime (gm_time (file_seconds ticks))),
     wi_local_time = \<lambda>st. tm_systime (local_time Z (tm_seconds (systime_tm st (gm_time 0))))\<rparr>"

lemma demo_windows_calendar: "windows_calendar Z (demo_windows Z)"
  using same_time_seconds [OF systime_tm_same]
  by (simp add: windows_calendar_def demo_windows_def tm_seconds_gm_time)


subsection \<open>Fields in their range\<close>

text \<open>What \<open>strptime\<close> promises of the fields, whatever the format and the text.\<close>

definition fields_in_range :: "tm \<Rightarrow> bool" where
  "fields_in_range tim \<longleftrightarrow> tm_sec tim \<in> {0..61} \<and> tm_min tim \<in> {0..59} \<and> tm_hour tim \<in> {0..23} \<and> tm_mday tim \<in> {1..31} \<and>
     tm_mon tim \<in> {0..11} \<and> tm_year tim \<in> {-1900..9999} \<and> tm_wday tim \<in> {0..6} \<and> tm_yday tim \<in> {0..365}"

lemma find_name_range:
  "find_name names i bp = Some (j, rest) \<Longrightarrow> i \<le> j \<and> j < i + int (length names) \<and> suffix rest bp"
  by (induction names i bp rule: find_name.induct) (auto simp: suffix_drop split: if_splits)

text \<open>Every outcome leaves the fields in range and the text at a later place; the rules follow the shape of the code.\<close>

definition leaves_ok :: "bytes \<Rightarrow> (bytes \<times> bool \<times> tm) option \<Rightarrow> bool" where
  "leaves_ok str r \<longleftrightarrow> (\<forall>bp s tim. r = Some (bp, s, tim) \<longrightarrow> fields_in_range tim \<and> suffix bp str)"

lemma leaves_None: "leaves_ok str None"
  by (simp add: leaves_ok_def)

lemma leaves_Some: "fields_in_range tim \<Longrightarrow> leaves_ok str (Some (drop n str, s, tim))"
  by (simp add: leaves_ok_def suffix_drop)

lemma leaves_if: "(b \<Longrightarrow> leaves_ok str x) \<Longrightarrow> (\<not> b \<Longrightarrow> leaves_ok str y) \<Longrightarrow> leaves_ok str (if b then x else y)"
  by simp

lemma leaves_conv_into:
  "0 < ulim \<Longrightarrow> (\<And>i. llim \<le> i \<Longrightarrow> i \<le> ulim \<Longrightarrow> 0 \<le> i \<Longrightarrow> fields_in_range (f i)) \<Longrightarrow>
    leaves_ok str (conv_into str llim ulim f s)"
  using strings_conv_num_value [of str llim ulim] by (auto simp: leaves_ok_def conv_into_def suffix_def)

lemma leaves_find_name:
  "(\<And>i. 0 \<le> i \<Longrightarrow> i < int (length names) \<Longrightarrow> fields_in_range (f i)) \<Longrightarrow>
    leaves_ok str (map_option (\<lambda>(i, rest). (rest, s, f i)) (find_name names 0 str))"
  using find_name_range [of names 0 str] by (auto simp: leaves_ok_def)

lemmas leaves_rules = leaves_None leaves_Some leaves_if leaves_conv_into leaves_find_name

lemma smod_bound:
  fixes a k :: int
  assumes "0 < k"
  shows "- k < a smod k" "a smod k < k"
proof -
  have "a smod k = \<bar>a\<bar> mod k \<or> a smod k = - (\<bar>a\<bar> mod k) \<or> a smod k = 0"
    using assms by (auto simp: smod_int_alt_def sgn_if)
  then show "- k < a smod k" "a smod k < k"
    using assms pos_mod_sign [OF assms, of "\<bar>a\<bar>"] pos_mod_bound [OF assms, of "\<bar>a\<bar>"] by linarith+
qed

lemma century_of_year: "-1900 \<le> (y :: int) \<Longrightarrow> y \<le> 9999 \<Longrightarrow> -1900 \<le> y sdiv 100 * 100 \<and> y sdiv 100 * 100 \<le> 9900"
  by (auto simp: signed_divide_int_def sgn_if)

lemma elementary_in_range:
  assumes "fields_in_range tim"
  shows "leaves_ok bp (elementary c alt bp s tim)"
proof -
  have l: "length (zip strings_day strings_abday) = 7" "length (zip strings_mon strings_abmon) = 12"
    by (simp_all add: strings_day_def strings_abday_def strings_mon_def strings_abmon_def)
  note y = smod_bound [of 100 "tm_year tim"] century_of_year [of "tm_year tim"]
  show ?thesis
    unfolding elementary_def Let_def
    by (intro leaves_rules; use assms y in \<open>auto simp only: l\<close>;
        use assms y in \<open>auto simp: fields_in_range_def TM_YEAR_BASE_def split: if_splits\<close>)
qed

text \<open>The same for the reader.\<close>

definition reads_ok :: "bytes \<Rightarrow> (bytes option \<times> tm) option \<Rightarrow> bool" where
  "reads_ok str r \<longleftrightarrow> (\<forall>rest tim. r = Some (rest, tim) \<longrightarrow> fields_in_range tim \<and> (\<forall>bp. rest = Some bp \<longrightarrow> suffix bp str))"

lemma reads_None: "reads_ok str None"
  by (simp add: reads_ok_def)

lemma reads_Some: "fields_in_range tim \<Longrightarrow> reads_ok str (Some (None, tim))"
  by (simp add: reads_ok_def)

lemma reads_if: "(b \<Longrightarrow> reads_ok str x) \<Longrightarrow> (\<not> b \<Longrightarrow> reads_ok str y) \<Longrightarrow> reads_ok str (if b then x else y)"
  by simp

lemma reads_option:
  "(m = None \<Longrightarrow> reads_ok str x) \<Longrightarrow> (\<And>y. m = Some y \<Longrightarrow> reads_ok str (f y)) \<Longrightarrow>
    reads_ok str (case m of None \<Rightarrow> x | Some y \<Rightarrow> f y)"
  by (cases m) simp_all

lemma reads_pair: "(\<And>a b. p = (a, b) \<Longrightarrow> reads_ok str (f a b)) \<Longrightarrow> reads_ok str (case p of (a, b) \<Rightarrow> f a b)"
  by (cases p) simp

lemma reads_bool:
  "(b \<Longrightarrow> reads_ok str x) \<Longrightarrow> (\<not> b \<Longrightarrow> reads_ok str y) \<Longrightarrow> reads_ok str (case b of True \<Rightarrow> x | False \<Rightarrow> y)"
  by (cases b) simp_all

lemmas reads_rules = reads_Some reads_None reads_if reads_option reads_pair reads_bool

lemma skip_space_suffix: "skip_space bp = Some bp' \<Longrightarrow> suffix bp' bp"
  by (induction bp rule: skip_space.induct) (auto split: option.splits bool.splits intro: suffix_ConsI)

lemma strptime_loop_ok: "fields_in_range tim \<Longrightarrow> suffix bp str \<Longrightarrow> reads_ok str (strptime_loop fmt bp s tim)"
proof (induction fmt arbitrary: bp s tim rule: measure_induct_rule [of format_weight])
  case (less fmt)
  show ?case
  proof (cases fmt)
    case Nil
    then show ?thesis using less.prems by (simp add: strptime_loop.simps reads_ok_def)
  next
    case (Cons c rest)
    have IH: "reads_ok str (strptime_loop f b s' t)"
      if "format_weight f < directive_weight c + format_weight rest" "fields_in_range t" "suffix b str" for f b s' t
      using less.IH that by (simp add: Cons)
    have rest: "format_weight rest < directive_weight c + format_weight rest" using directive_weight_pos [of c] by simp
    have el: "fields_in_range t \<and> suffix b str" if "elementary d alt bp s tim = Some (b, s', t)" for d alt b s' t
      using elementary_in_range [OF less.prems(1), of bp d alt s] that less.prems(2)
      by (auto simp: leaves_ok_def intro: suffix_order.trans)
    have nested: "fields_in_range t \<and> (\<forall>b'. b = Some b' \<longrightarrow> suffix b' str)"
      if "modifiers a r = Some (alt, d, f)" "expansion d = Some (mods, f2)" "r = rest" "strptime_loop f2 bp False tim = Some (b, t)"
      for a r alt d f mods f2 b t
      using IH [OF expanded_weight [OF that(1,2), of c, unfolded that(3)] less.prems] that(4) by (auto simp: reads_ok_def)
    have skip: "suffix b str" if "skip_space bp = Some b" for b
      using skip_space_suffix [OF that] less.prems(2) by (rule suffix_order.trans)
    have tail: "suffix (tl bp) str" using less.prems(2) by (meson suffix_order.trans suffix_tl)
    show ?thesis unfolding Cons strptime_loop.simps(2)
      by (intro reads_rules; (intro IH)?; (use less.prems rest el nested skip tail in \<open>auto intro: rest_weight expanded_weight\<close>)?)
  qed
qed

text \<open>C40: Whatever the format and the text, the reader goes forward in the text and not behind its end, and leaves every field of
  the time in its range when they were in range before: also a text that does not match, of which a part has been stored.\<close>

theorem strptime_in_range:
  assumes "fields_in_range tim" "strptime buf fmt tim = Some (rest, tim')"
  shows "fields_in_range tim' \<and> (\<forall>bp. rest = Some bp \<longrightarrow> (\<exists>read. buf = read @ bp))"
  using strptime_loop_ok [OF assms(1) suffix_order.refl, of buf fmt False] assms(2)
  by (auto simp: strptime_def reads_ok_def suffix_def)

text \<open>A century and a year in it: \<open>%C\<close> counts from the year 0 where the field counts from 1900, so 2014 is read as 3914.\<close>

lemma century_counts_from_0:
  "strptime (cstr ''20-14'') (cstr ''%C-%y'') tim = Some (Some [], tim\<lparr>tm_year := 2014\<rparr>)"
  by (simp add: strptime_def cstr_def strptime_loop.simps char_isspace_def is_space_def expansion_def elementary_def
      conv_into_def strings_conv_num_def is_digit_def digit_val_def signed_divide_int_def sgn_if)

text \<open>\<open>%p\<close> compares all that is left of the text, so it matches only at its end.\<close>

lemma half_of_day_only_at_end:
  "strptime (cstr ''08:15 PM'') (cstr ''%I:%M %p'') tim = Some (Some [], tim\<lparr>tm_hour := 20, tm_min := 15\<rparr>)"
  "fst (the (strptime (cstr ''08:15 PM, Monday'') (cstr ''%I:%M %p, %A'') tim)) = None"
  by (simp_all add: strptime_def cstr_def strptime_loop.simps char_isspace_def is_space_def expansion_def elementary_def
      conv_into_def strings_conv_num_def is_digit_def digit_val_def same_name_def to_lower_def)

definition demo_tm :: tm where
  "demo_tm = \<lparr>tm_sec = 0, tm_min = 0, tm_hour = 0, tm_mday = 1, tm_mon = 0, tm_year = 70, tm_wday = 4, tm_yday = 0, tm_isdst = 0\<rparr>"

theorem strptime_in_range_witness:
  "fields_in_range (demo_tm\<lparr>tm_hour := 20, tm_min := 15\<rparr>) \<and> (\<exists>read. cstr ''08:15 PM'' = read @ [])"
  using strptime_in_range [OF _ half_of_day_only_at_end(1) [of demo_tm]] by (simp add: fields_in_range_def demo_tm_def)

subsection \<open>The clock of Windows\<close>

text \<open>\<open>_time_now\<close>: the milliseconds since 1970, as long as the seconds fit in a \<open>long\<close>; from 2038 on they start again.\<close>

lemma win_time_now_until_2038:
  assumes "EPOCHFILETIME \<le> file_time" "file_time < EPOCHFILETIME + 2 ^ 31 * 10000000"
  shows "win_time_now file_time = (file_time - EPOCHFILETIME) div 10000"
proof -
  let ?d = "file_time - EPOCHFILETIME"
  let ?t = "?d div 10"
  have d: "0 \<le> ?d" "?d < 2 ^ 31 * 10000000" using assms by auto
  have s: "x sdiv k = x div k" "x smod k = x mod k" if "0 \<le> x" "0 < k" for x k :: int
    using that by (auto simp: signed_divide_int_eq_divide_int signed_modulo_int_eq_modulo_int sgn_if)
  note m = div_mult_mod_eq [of ?d 10] pos_mod_sign [of 10 ?d] pos_mod_bound [of 10 ?d]
    div_mult_mod_eq [of ?t 1000000] pos_mod_sign [of 1000000 ?t] pos_mod_bound [of 1000000 ?t]
  have t: "0 \<le> ?t" "?t div 1000000 < 2 ^ 31" "0 \<le> ?t div 1000000" "0 \<le> ?t mod 1000000"
    using d m by linarith+
  have u: "?t mod 1000000 < 2 ^ 31" using m(6) by simp
  have "win_time_now file_time = ?t div 1000000 * 1000 + ?t mod 1000000 div 1000"
    using t u d(1) by (simp only: win_time_now_def win_gettimeofday_def Let_def s c_int_id prod.case)
  also have "\<dots> = (?t mod 1000000 + ?t div 1000000 * 1000 * 1000) div 1000" by (subst div_mult_self1) simp_all
  also have "?t mod 1000000 + ?t div 1000000 * 1000 * 1000 = ?t" using m(4) by linarith
  also have "?t div 1000 = ?d div 10000" using zdiv_zmult2_eq [of 1000 ?d 10] by simp
  finally show ?thesis .
qed

end
