(* ===== verification/Spec2Isabelle.thy ===== *)
theory Spec2Isabelle
  imports Mqtt_Async_Run Tr50_Pending_List Tr50_Message_Props Tr50_Stats_Ratio Tr50_Worker_File_Props Linux_Proxy_Props
    Tr50_Deadlock Linux_Event He910_At_Props Time_Props
begin

text \<open>
  libtr50, a C client library for the deviceWISE M2M service: it keeps an MQTT 3.1 connection to a
  broker alive, publishes API requests in JSON on it, and gives the replies that come back to the
  callbacks of the requests.

  The parts, from the bottom, and the theories that model them.

  \<^item> \<open>Tr50_Base\<close>, \<open>Tr50_Error\<close>: bytes, C integers and their conversions, reads and writes of blocks, and
    the error codes of \<open>include/tr50/error.h\<close>.
  \<^item> \<open>Tr50_Platform\<close>, \<open>Linux_Os\<close>, \<open>Linux_Ssl\<close>, \<open>Linux_Tcp\<close>: the functions of the platform the clients call, as
    a record (\<open>platform\<close>) over an abstract world; and the Linux back end \<open>src/util/linux\<close> on a model of the
    kernel's sockets and of OpenSSL, as an instance (\<open>linux_platform\<close>).  The locale \<open>transport\<close> holds
    what a receive promises; the Linux model interprets it.  \<open>Linux_Wire\<close>: the locales \<open>wire\<close> and \<open>duplex\<close>, what a send on a
    plain connection delivers, alone and beside receives, and their interpretations.
  \<^item> \<open>C_Text\<close>: what the source uses of the C library's text functions.  \<open>Tr50_Blob\<close>: the growing buffers of
    \<open>src/util/common/tr50.blob.c\<close> and \<open>src/util/linux/linux.blob.c\<close>, with their content as a list.
  \<^item> \<open>Linux_Proxy\<close>, with its proofs in \<open>Linux_Proxy_Props\<close>: the SOCKS and HTTP handshakes of \<open>src/util/linux/linux.tcp_proxy.c\<close>,
    over any platform and any resolver of names.
  \<^item> \<open>Mqtt_Msg\<close>, with its proofs in \<open>Mqtt_Wire\<close> and \<open>Mqtt_Codec\<close>: the builders and processors of
    packets, \<open>src/mqtt/mqtt.msg.c\<close>.
  \<^item> \<open>Mqtt_Qos\<close>: the table of requests that wait for an acknowledgement, \<open>src/mqtt/mqtt.qos.c\<close>, with
    the contract \<open>ack_table\<close> and its interpretation.
  \<^item> \<open>Mqtt_Recv\<close>: \<open>mqtt_send\<close> and the receive loop of \<open>src/mqtt/mqtt.recv.c\<close>, over any transport.  Two locales
    extend \<open>transport\<close>, for a peer whose bytes arrive in time and for one that closes in the end; both are
    interpreted on Linux.
  \<^item> \<open>Mqtt_Client\<close>: the synchronous client, \<open>src/mqtt/mqtt.c\<close>.
  \<^item> \<open>Mqtt_Async\<close>, with its proofs in \<open>Mqtt_Async_Run\<close>: the asynchronous client, \<open>src/mqtt/mqtt.async.c\<close>: its
    handler thread is a step machine (\<open>async_handler_step\<close> over the program counter \<open>pc\<close>) whose steps
    are what the code does under the client's mutex; the calls of the application are steps of their own;
    the interleavings are an inductive relation, run by schedules (\<open>async_script\<close>).
  \<^item> \<open>Tr50_Json\<close>, \<open>Tr50_Json_Text\<close>, with their proofs in \<open>Tr50_Json_Ends\<close> and \<open>Tr50_Json_Round\<close>: the JSON tree,
    parser and printer of \<open>src/util/common/tr50.json.c\<close>.
  \<^item> \<open>Tr50_Message\<close>, with its proofs in \<open>Tr50_Message_Props\<close>: requests and replies, \<open>src/tr50.message.c\<close> and
    \<open>src/tr50.payload.c\<close>.
  \<^item> \<open>Tr50_Pending\<close>, with its proofs in \<open>Tr50_Pending_List\<close>: the list of the requests that wait for a
    reply, \<open>src/tr50.pending.c\<close>.
  \<^item> \<open>Tr50_Config\<close>, \<open>Tr50_Stats\<close>, with the proofs on the compression history in \<open>Tr50_Stats_Ratio\<close>: \<open>src/tr50.config.c\<close>
    and \<open>src/tr50.stats.c\<close>.
  \<^item> \<open>Tr50_Client\<close>: the record \<open>tr50\<close> of a client (\<open>_TR50_CLIENT\<close>, the memory of its messages, the world, and the trace
    of what can be observed), and the API calls of \<open>src/tr50.api.async.c\<close>.
  \<^item> \<open>Tr50_Mailbox\<close>: \<open>src/tr50.command.c\<close>, \<open>src/tr50.method.c\<close>, \<open>src/tr50.mailbox.c\<close>.
  \<^item> \<open>Tr50_Dispatch\<close>: \<open>src/tr50.c\<close>, the life cycle of a client and what it does with the events of the MQTT client and
    with expired requests.
  \<^item> \<open>Tr50_Client_Inv\<close>, \<open>Tr50_Client_Calls\<close>, \<open>Tr50_Client_Steps\<close>, \<open>Tr50_Client_Replies\<close>, \<open>Tr50_Client_Threads\<close>: what each
    operation does to the waiting requests, as a relation that composes (\<open>ok\<close>, \<open>tri\<close>): the list stays well formed, and
    a request either waits on or leaves for one reason that is observed.  \<open>Tr50_Client_Run\<close>: the interleavings of
    the application's threads, the handler thread and the expiration handler as an inductive relation.
    \<open>Tr50_Client_Props\<close>: the properties of every run, and a client that is created, started, used and answered by
    evaluation, for their witnesses.
  \<^item> \<open>Tr50_Worker\<close>: the thing API, \<open>src/tr50.worker.c\<close> and the first part of \<open>src/tr50.worker.extended.c\<close>: one command each,
    synchronous or not.  \<open>Tr50_Worker_Run\<close>: the locale \<open>caller\<close>, what a waiting thread and the library's threads owe
    each other, and what the commands do to the requests.  \<open>Tr50_Worker_Props\<close>: the interpretations of \<open>caller\<close> by a wait
    during which the handler thread runs and by one that the expiration handler ends, runs that use the whole API,
    and the answers of synchronous commands.
  \<^item> \<open>Tr50_Worker_File\<close>, with its proofs in \<open>Tr50_Worker_File_Props\<close>: the rest of \<open>src/tr50.worker.extended.c\<close>, the upload
    and download of files over an HTTP connection of their own.
  \<^item> \<open>Tr50_Locks\<close>: recursive mutexes (\<open>src/util/linux/linux.mutex.c\<close>), threads as what they lock, unlock and join, and the
    proof that threads which lock in order finish.  \<open>Tr50_Lock_Order\<close>: what every function of the library locks, on which
    ways, and a check of the order that is proved sound.  \<open>Tr50_Deadlock\<close>: the threads of the library finish when the
    handlers keep the order, and the two places where they need not.  \<open>Linux_Event\<close>: the event with which a synchronous
    call waits (\<open>src/util/linux/linux.event.c\<close>), access by access.
  \<^item> Times as text: \<open>C_Time\<close>, the calendar, time zones and \<open>strftime\<close> of the C library; \<open>Linux_Time\<close>
    (\<open>src/util/linux/linux.time.c\<close>) and \<open>Win32_Time\<close> (\<open>src/util/win32/win32.time.c\<close>, with the reader of formats it brings along).
    \<open>Time_Props\<close>: the locale \<open>date_reader\<close>, what a reader of the default format owes, interpreted by the reader for Windows;
    what is printed is read back, the two systems print alike, and the reader stays inside its text and in its ranges.
  \<^item> The wrapper for the HE910 modem, \<open>src/util/he910/wrappers\<close>: one client of the library, driven with AT commands.
    \<open>He910_At_Token\<close>: the command line, cut in place (\<open>at.parser.c\<close>), with its proofs in \<open>He910_At_Token_Props\<close>.
    \<open>He910_At_Storage\<close>: the twenty slots of answers (\<open>at.storage.c\<close>) and the bag they are.  \<open>He910_At_Cmd\<close>: the commands
    (\<open>at.cmd.c\<close>, \<open>at.info.c\<close>) on the state \<open>at_state\<close>, the client of \<open>Tr50_Client\<close> with what the wrapper keeps.
    \<open>He910_At_Main\<close>: the dispatch of a line and what the service asks the modem to do (\<open>at.main.c\<close>, \<open>at.processor.c\<close>).
    \<open>He910_At_Props\<close>: an answer that is reported can be read, once, and an AT command of the service reaches the modem.

  Conventions.

  \<^item> \<open>None\<close> is what C leaves undefined (a read or write outside a block, an access to freed memory, a
    division by zero) or a loop that never ends; errors the code reports are its error codes, as \<open>int\<close>
    or on the left of a sum.
  \<^item> A block of memory is the list of its bytes.  Structures are records with the fields of the code; a
    pointer that is only followed is the structure itself, one whose identity matters (the links of the
    pending list, the handles of sockets) is a number, 0 for NULL.
  \<^item> In the theories of the components a mutex is the atomicity of the step it guards.  What is locked inside what, and
    when threads block each other, is the subject of \<open>Tr50_Lock_Order\<close> and \<open>Tr50_Deadlock\<close>.
  \<^item> Allocation may fail where the code checks for it (\<open>p_malloc\<close>); the JSON and message code does not
    check, and there it succeeds.
  \<^item> A time zone is what it adds to a time and what \<open>mktime\<close> takes for a local one (\<open>zone\<close>); the directives of
    \<open>strftime\<close> that print names belong to the locale, a parameter, and so do \<open>strptime\<close> on Linux and the calendar of Windows.
  \<^item> The firmware of the HE910, its non-volatile memory, identity and command interpreter, is a record of what it
    answers (\<open>modem\<close>).  The wrapper is modelled as it is built for the modem and not for the simulator; its text buffers
    are their content, and allocation succeeds there.
  \<^item> Doubles are a parameter, the record \<open>doubles\<close> of the operations the JSON code uses on them; the
    assumption \<open>exact_doubles\<close> of the round trip says what it needs of them and holds of the rationals.

  Fuel and bounds.  The JSON parser recurses with fuel: one more than the length of the text is enough
  for every text (\<open>json_parse_terminates\<close>).  The receive loops are partial functions; that they return is
  proved for a peer that sends or closes (\<open>mqtt_recv_complete\<close>, \<open>mqtt_recv_returns\<close>).  Lengths up to the
  268435455 bytes of the packet format, topics up to 65535 bytes; what happens behind these bounds is stated too
  (\<open>build_publish_oversize\<close>).  The numbers of requests start again after 65536; the properties of
  runs assume that no number is given twice, and a failed codec is excluded where it breaks the list
  (\<open>raw_deflate_failure_dangles\<close>).

  Not modelled: logging, the creation of threads, the registration of locks with OpenSSL, the
  release of memory where nothing depends on it, the options of the modem's features, which are only logged, the back
  ends for other systems (\<open>freebsd\<close>, \<open>ils\<close>, \<open>stub\<close>, \<open>win32\<close> but for its time functions, \<open>he910\<close> but for its AT wrapper), which repeat the Linux
  one on another system's calls, and the examples.
\<close>

end
